(* ===== verification/Prelude.thy ===== *)
theory Prelude
  imports Main "HOL-Library.AList" "HOL-Library.Char_ord" "HOL-Library.List_Lexorder"
begin

text \<open>
  What every component shares: the exceptions of the Python source as values, sequencing of
  computations that may raise, insertion-ordered dictionaries, and the few string operations
  the source uses.

  \<^item> A Python \<open>str\<close> is a \<^typ>\<open>string\<close>: code points below 256 are covered.
  \<^item> A Python \<open>dict\<close> is an association list in insertion order. Reading is \<^const>\<open>map_of\<close>,
    assignment is \<^const>\<open>AList.update\<close>: it replaces the value of a present key in place and
    appends an absent one, as a dictionary does.
  \<^item> An exception is the left side of a sum; an operation that raises returns no new state,
    because the caller drops the snapshot it was working on.
\<close>

type_synonym ident = string
type_synonym ('k, 'v) dict = "('k \<times> 'v) list"

section \<open>Exceptions as values\<close>

datatype py_error =
    GateError string
  | KeyError string
  | AttributeError string
  | ValidationError string
  | ValueError string
  | IndexError
  | ConcurrentUpdate string
  | SnapshotIncompatible string
  | PermissionError string
  | OverflowError
  | TypeError string
  | IntegrityError string
  | ActiveWork string
  | UsageBudgetExceeded string
  | ApprovalScopeChanged string
  | AssertionError string
  | RuntimeError string
  | DeliveryError string
  | RuntimeConfigurationError string
  | MaxTurnsExceeded string
  | CancelledError
  | SandboxViolation string
  | SandboxUnavailable string
  | ProviderError string string
  | OtherError string string

text \<open>
  \<open>ProviderError\<close> is one of the API errors of the provider's client, \<open>OtherError\<close> any other class, each with its
  name and text. \<open>except ValueError\<close> catches these classes:
\<close>

fun is_value_error :: "py_error \<Rightarrow> bool" where
  "is_value_error (GateError m) = True"
| "is_value_error (ValidationError m) = True"
| "is_value_error (ValueError m) = True"
| "is_value_error (SnapshotIncompatible m) = True"
| "is_value_error (UsageBudgetExceeded m) = True"
| "is_value_error (ApprovalScopeChanged m) = True"
| "is_value_error (RuntimeConfigurationError m) = True"
| "is_value_error _ = False"

text \<open>Sequencing: the first exception is the result, otherwise the value is passed on.\<close>

definition bind_ok :: "'e + 'a \<Rightarrow> ('a \<Rightarrow> 'e + 'b) \<Rightarrow> 'e + 'b" where
  "bind_ok m f = (case m of Inl e \<Rightarrow> Inl e | Inr x \<Rightarrow> f x)"

lemma bind_ok_simps [simp]:
  "bind_ok (Inl e) f = Inl e"
  "bind_ok (Inr x) f = f x"
  by (simp_all add: bind_ok_def)

lemma bind_ok_Inr_iff: "bind_ok m f = Inr y \<longleftrightarrow> (\<exists>x. m = Inr x \<and> f x = Inr y)"
  by (cases m) auto

lemma bind_ok_cong [fundef_cong]:
  "m = m' \<Longrightarrow> (\<And>x. m' = Inr x \<Longrightarrow> f x = f' x) \<Longrightarrow> bind_ok m f = bind_ok m' f'"
  by (cases m') auto

lemma bind_ok_assoc: "bind_ok (bind_ok m f) g = bind_ok m (\<lambda>x. bind_ok (f x) g)"
  by (cases m) auto

text \<open>\<open>if bad: raise e\<close>, then go on.\<close>

definition raise_if :: "bool \<Rightarrow> 'e \<Rightarrow> 'e + unit" where
  "raise_if bad e = (if bad then Inl e else Inr ())"

lemma raise_if_Inr [simp]: "raise_if bad e = Inr u \<longleftrightarrow> \<not> bad"
  by (simp add: raise_if_def)

text \<open>How a computation that ends without an exception went through each construct.\<close>

lemma guard_Inr: "(if b then Inl e else m) = Inr y \<longleftrightarrow> \<not> b \<and> m = Inr y"
  by simp

lemma some_Inr: "(case m of None \<Rightarrow> Inl e | Some x \<Rightarrow> g x) = Inr y \<longleftrightarrow> (\<exists>x. m = Some x \<and> g x = Inr y)"
  by (cases m) auto

lemma none_Inr: "(case m of None \<Rightarrow> g | Some x \<Rightarrow> Inl (e x)) = Inr y \<longleftrightarrow> m = None \<and> g = Inr y"
  by (cases m) auto

lemma right_Inr: "(case m of Inl e \<Rightarrow> Inl (f e) | Inr x \<Rightarrow> g x) = Inr y \<longleftrightarrow> (\<exists>x. m = Inr x \<and> g x = Inr y)"
  by (cases m) auto

lemmas Inr_simps = guard_Inr some_Inr none_Inr right_Inr bind_ok_Inr_iff

text \<open>Reading \<open>d[k]\<close>, which raises \<open>KeyError\<close> when the key is absent.\<close>

definition dget :: "(ident, 'v) dict \<Rightarrow> ident \<Rightarrow> py_error + 'v" where
  "dget d k = (case map_of d k of None \<Rightarrow> Inl (KeyError k) | Some v \<Rightarrow> Inr v)"

lemma dget_Inr [simp]: "dget d k = Inr v \<longleftrightarrow> map_of d k = Some v"
  by (simp add: dget_def split: option.splits)

section \<open>The collections of proof hints\<close>

named_theorems frame_simps "what an operation leaves unchanged"
named_theorems op_defs "definitions of the operations"

section \<open>Dictionaries\<close>

declare map_of_eq_Some_iff [simp del] Some_eq_map_of_iff [simp del]

lemma map_of_update [simp]: "map_of (AList.update k v d) = (map_of d)(k \<mapsto> v)"
  by (rule update_conv')

lemma keys_update: "k \<in> fst ` set d \<Longrightarrow> map fst (AList.update k v d) = map fst d"
  using update_keys [of k v d] by simp

lemma keys_update_new: "k \<notin> fst ` set d \<Longrightarrow> AList.update k v d = d @ [(k, v)]"
  by (induct d) auto

lemma distinct_keys_update [simp]:
  "distinct (map fst d) \<Longrightarrow> distinct (map fst (AList.update k v d))"
  by (rule distinct_update)

lemma keys_of_update [simp]: "fst ` set (AList.update k v d) = insert k (fst ` set d)"
  by (induct d) auto

lemma keys_map_of: "k \<in> fst ` set d \<longleftrightarrow> (\<exists>v. map_of d k = Some v)"
  by (metis map_of_eq_None_iff not_Some_eq)

lemma map_of_in_keys: "map_of d k = Some v \<Longrightarrow> k \<in> fst ` set d"
  by (auto simp: keys_map_of)

lemma set_dict_map_of: "distinct (map fst d) \<Longrightarrow> (k, v) \<in> set d \<longleftrightarrow> map_of d k = Some v"
  by (simp add: map_of_eq_Some_iff)

lemma values_update:
  "distinct (map fst d) \<Longrightarrow>
     snd ` set (AList.update k v d) = insert v (snd ` set (filter (\<lambda>p. fst p \<noteq> k) d))"
  by (induct d) (auto simp: image_iff filter_id_conv split: if_splits)

section \<open>Lists\<close>

definition last_opt :: "'a list \<Rightarrow> 'a option" where
  "last_opt xs = (if xs = [] then None else Some (last xs))"

lemma last_opt_simps [simp]:
  "last_opt [] = None"
  "last_opt (xs @ [x]) = Some x"
  by (simp_all add: last_opt_def)

lemma last_opt_Some: "last_opt xs = Some x \<longleftrightarrow> xs \<noteq> [] \<and> last xs = x"
  by (auto simp: last_opt_def)

lemma last_opt_mem: "last_opt xs = Some x \<Longrightarrow> x \<in> set xs"
  by (auto simp: last_opt_Some)

text \<open>\<open>if x not in xs: xs.append(x)\<close>\<close>

definition add_once :: "'a \<Rightarrow> 'a list \<Rightarrow> 'a list" where
  "add_once x xs = (if x \<in> set xs then xs else xs @ [x])"

lemma set_add_once [simp]: "set (add_once x xs) = insert x (set xs)"
  by (auto simp: add_once_def)

lemma distinct_add_once [simp]: "distinct (add_once x xs) = distinct xs"
  by (auto simp: add_once_def)

text \<open>The number of keys a search has not entered yet: what decreases when it enters one.\<close>

definition unvisited :: "'k list \<Rightarrow> ('k \<times> 'v) list \<Rightarrow> nat" where
  "unvisited vis d = length (filter (\<lambda>p. fst p \<notin> set vis) d)"

lemma length_filter_strict:
  "(\<And>x. Q x \<Longrightarrow> P x) \<Longrightarrow> y \<in> set xs \<Longrightarrow> P y \<Longrightarrow> \<not> Q y \<Longrightarrow>
     length (filter Q xs) < length (filter P xs)"
proof (induction xs)
  case Nil
  then show ?case by simp
next
  case (Cons x xs)
  have le: "length (filter Q xs) \<le> length (filter P xs)"
    using Cons.prems(1) by (induct xs) auto
  show ?case
  proof (cases "x = y")
    case True
    with Cons.prems le show ?thesis by simp
  next
    case False
    with Cons.prems have "length (filter Q xs) < length (filter P xs)"
      by (intro Cons.IH) auto
    with Cons.prems(1) show ?thesis by auto
  qed
qed

lemma unvisited_enter:
  assumes "map_of d k = Some v" and "k \<notin> set vis"
  shows "unvisited (k # vis) d < unvisited vis d"
proof -
  have "(k, v) \<in> set d" using assms(1) by (rule map_of_SomeD)
  then show ?thesis
    unfolding unvisited_def
    by (rule length_filter_strict [rotated]) (use assms(2) in auto)
qed

section \<open>Strings\<close>

text \<open>The whitespace that \<open>str.strip\<close> and \<open>str.split\<close> drop, below code point 256.\<close>

definition py_space :: "char \<Rightarrow> bool" where
  "py_space c = (let n = (of_char c :: nat) in
     (9 \<le> n \<and> n \<le> 13) \<or> (28 \<le> n \<and> n \<le> 32) \<or> n = 133 \<or> n = 160)"

definition strip :: "string \<Rightarrow> string" where
  "strip s = rev (dropWhile py_space (rev (dropWhile py_space s)))"

text \<open>\<open>bool(s.strip())\<close>: the string says something.\<close>

definition substantive :: "string \<Rightarrow> bool" where
  "substantive s = (strip s \<noteq> [])"

lemma substantive_iff: "substantive s \<longleftrightarrow> (\<exists>c \<in> set s. \<not> py_space c)"
proof -
  have drop: "dropWhile py_space t = [] \<longleftrightarrow> (\<forall>c \<in> set t. py_space c)" for t
    by (rule dropWhile_eq_Nil_conv)
  have "set (dropWhile py_space s) \<subseteq> set s"
    by (meson set_dropWhileD subsetI)
  moreover have "\<not> py_space (hd (dropWhile py_space s))" if "dropWhile py_space s \<noteq> []"
    using that by (rule hd_dropWhile)
  ultimately show ?thesis
    unfolding substantive_def strip_def
    by (metis drop list.set_sel(1) rev_is_Nil_conv set_rev subsetD)
qed

lemma substantive_nonempty: "substantive s \<Longrightarrow> s \<noteq> []"
  by (auto simp: substantive_iff)

text \<open>The truth of an optional string: \<open>None\<close> and the empty string are false.\<close>

definition present :: "string option \<Rightarrow> bool" where
  "present x = (x \<noteq> None \<and> x \<noteq> Some [])"

lemma present_Some [simp]: "present (Some s) = (s \<noteq> [])" "\<not> present None"
  by (simp_all add: present_def)

definition starts_with :: "string \<Rightarrow> string \<Rightarrow> bool" where
  "starts_with s p = (take (length p) s = p)"

lemma starts_with_append [simp]: "starts_with (p @ s) p"
  by (simp add: starts_with_def)

fun join :: "string \<Rightarrow> string list \<Rightarrow> string" where
  "join sep [] = []"
| "join sep [x] = x"
| "join sep (x # y # zs) = x @ sep @ join sep (y # zs)"

text \<open>\<open>sorted({...})\<close> of strings.\<close>

definition sorted_set :: "string list \<Rightarrow> string list" where
  "sorted_set xs = sort (remdups xs)"

lemma set_sorted_set [simp]: "set (sorted_set xs) = set xs"
  by (simp add: sorted_set_def)

lemma sorted_set_Nil [simp]: "sorted_set xs = [] \<longleftrightarrow> xs = []"
  by (metis set_empty set_sorted_set)

text \<open>Decimal notation of an integer, as f-strings print it.\<close>

definition digit_char :: "nat \<Rightarrow> char" where
  "digit_char d = char_of (48 + d)"

fun show_nat :: "nat \<Rightarrow> string" where
  "show_nat n = (if n < 10 then [digit_char n] else show_nat (n div 10) @ [digit_char (n mod 10)])"

declare show_nat.simps [simp del]

definition show_int :: "int \<Rightarrow> string" where
  "show_int i = (if i < 0 then CHR ''-'' # show_nat (nat (- i)) else show_nat (nat i))"

text \<open>ASCII lower case, as \<open>str.lower\<close> acts on the ASCII range.\<close>

definition lower_char :: "char \<Rightarrow> char" where
  "lower_char c = (let n = (of_char c :: nat) in if 65 \<le> n \<and> n \<le> 90 then char_of (n + 32) else c)"

definition lower :: "string \<Rightarrow> string" where
  "lower s = List.map lower_char s"

end
