(* ===== verification/Models.thy ===== *)
theory Models
  imports Json
begin

text \<open>
  The serializable state of a run: \<open>src/src/walter/contracts.py\<close> and
  \<open>src/src/walter/models.py\<close>. A record per class with the source's fields in the source's order,
  each prefixed by the class's initials; a datatype per enumeration. Python integers are
  \<^typ>\<open>int\<close>. Left out of the records: the \<open>created_at\<close>, \<open>updated_at\<close>, \<open>decided_at\<close> and
  \<open>superseded_at\<close> time stamps and the \<open>Event.id\<close>, which the kernel writes from the clock and
  \<open>uuid4\<close> and never reads.
\<close>

section \<open>Worker contracts (contracts.py)\<close>

datatype ToolPolicy = tool_model_only | tool_web_search

record TaskPacket =
  tp_task_id :: ident
  tp_role :: string
  tp_objective :: string
  tp_deliverable :: string
  tp_context :: string
  tp_required_inputs :: "ident list"
  tp_constraints :: "string list"
  tp_dependencies :: "ident list"
  tp_acceptance_criteria :: "string list"
  tp_stop_condition :: string
  tp_tool_policy :: ToolPolicy

record CriterionCheck =
  cc_criterion :: string
  cc_passed :: bool
  cc_note :: string

record SourceReference =
  sr_title :: string
  sr_url :: string
  sr_note :: string

datatype CapabilityProfile =
  MODEL_ONLY | RESEARCHER | REPO_READER | DEVELOPER_SANDBOX | REVIEWER

record CapabilityRequestPayload =
  cp_requested_capability :: CapabilityProfile
  cp_reason :: string
  cp_risk :: string

datatype ResultStatus = result_completed | result_blocked | result_needs_revision

record WorkerResult =
  wr_task_id :: ident
  wr_status :: ResultStatus
  wr_summary :: string
  wr_deliverable :: string
  wr_evidence :: "string list"
  wr_sources :: "SourceReference list"
  wr_assumptions :: "string list"
  wr_uncertainties :: "string list"
  wr_acceptance_check :: "CriterionCheck list"
  wr_blocker :: "string option"
  wr_capability_request :: "CapabilityRequestPayload option"

section \<open>Enumerations (models.py)\<close>

datatype TaskStatus =
  PLANNED | READY | DELEGATED | RUNNING | SUBMITTED | REVIEWING | REVISION_REQUIRED
  | ACCEPTED | REPLACED | BLOCKED | FAILED | CANCELLED

fun status_value :: "TaskStatus \<Rightarrow> string" where
  "status_value PLANNED = ''PLANNED''"
| "status_value READY = ''READY''"
| "status_value DELEGATED = ''DELEGATED''"
| "status_value RUNNING = ''RUNNING''"
| "status_value SUBMITTED = ''SUBMITTED''"
| "status_value REVIEWING = ''REVIEWING''"
| "status_value REVISION_REQUIRED = ''REVISION_REQUIRED''"
| "status_value ACCEPTED = ''ACCEPTED''"
| "status_value REPLACED = ''REPLACED''"
| "status_value BLOCKED = ''BLOCKED''"
| "status_value FAILED = ''FAILED''"
| "status_value CANCELLED = ''CANCELLED''"

fun capability_value :: "CapabilityProfile \<Rightarrow> string" where
  "capability_value MODEL_ONLY = ''model_only''"
| "capability_value RESEARCHER = ''researcher''"
| "capability_value REPO_READER = ''repo_reader''"
| "capability_value DEVELOPER_SANDBOX = ''developer_sandbox''"
| "capability_value REVIEWER = ''reviewer''"

datatype FailureClass =
  BAD_OUTPUT | MISSING_EVIDENCE | CONSTRAINT_VIOLATION | TASK_AMBIGUITY | DEPENDENCY_FAILURE
  | TOOL_FAILURE | PROVIDER_FAILURE | TIMEOUT | CAPABILITY_UNAVAILABLE | UNSUPPORTED_CAPABILITY
  | REPEATED_BAD_OUTPUT | STALE_BASE

fun failure_value :: "FailureClass \<Rightarrow> string" where
  "failure_value BAD_OUTPUT = ''BAD_OUTPUT''"
| "failure_value MISSING_EVIDENCE = ''MISSING_EVIDENCE''"
| "failure_value CONSTRAINT_VIOLATION = ''CONSTRAINT_VIOLATION''"
| "failure_value TASK_AMBIGUITY = ''TASK_AMBIGUITY''"
| "failure_value DEPENDENCY_FAILURE = ''DEPENDENCY_FAILURE''"
| "failure_value TOOL_FAILURE = ''TOOL_FAILURE''"
| "failure_value PROVIDER_FAILURE = ''PROVIDER_FAILURE''"
| "failure_value TIMEOUT = ''TIMEOUT''"
| "failure_value CAPABILITY_UNAVAILABLE = ''CAPABILITY_UNAVAILABLE''"
| "failure_value UNSUPPORTED_CAPABILITY = ''UNSUPPORTED_CAPABILITY''"
| "failure_value REPEATED_BAD_OUTPUT = ''REPEATED_BAD_OUTPUT''"
| "failure_value STALE_BASE = ''STALE_BASE''"

datatype ApprovalStatus = AP_PENDING | AP_APPROVED | AP_REJECTED | AP_SUPERSEDED

fun approval_value :: "ApprovalStatus \<Rightarrow> string" where
  "approval_value AP_PENDING = ''pending''"
| "approval_value AP_APPROVED = ''approved''"
| "approval_value AP_REJECTED = ''rejected''"
| "approval_value AP_SUPERSEDED = ''superseded''"

datatype CapabilityRequestStatus = CR_PENDING | CR_APPROVED | CR_DENIED | CR_ESCALATED

text \<open>\<open>BlockerReason\<close>: the values of \<open>TaskNode.blocker\<close> that steer transitions.\<close>

datatype BlockerReason =
    CAPABILITY_PREREQUISITES_MISSING
  | APPROVAL_PREREQUISITES_SATISFIED
  | APPROVAL_PENDING
  | APPROVAL_REJECTED
  | CAPABILITY_ESCALATION_PENDING
  | BLOCKED_UNSUPPORTED_CAPABILITY
  | BLOCKED_TOOL_FAILURE
  | MANAGER_REPLAN_REQUIRED
  | WORKER_REPLACEMENT_REQUIRED
  | LEGACY_APPROVAL_REGATE
  | READINESS_LAPSED

fun blocker_text :: "BlockerReason \<Rightarrow> string" where
  "blocker_text CAPABILITY_PREREQUISITES_MISSING = ''Capability prerequisites missing''"
| "blocker_text APPROVAL_PREREQUISITES_SATISFIED = ''Approval prerequisites satisfied''"
| "blocker_text APPROVAL_PENDING = ''Required approval pending''"
| "blocker_text APPROVAL_REJECTED = ''Required approval rejected''"
| "blocker_text CAPABILITY_ESCALATION_PENDING = ''Capability escalation pending''"
| "blocker_text BLOCKED_UNSUPPORTED_CAPABILITY = ''Unsupported capability requires Manager escalation''"
| "blocker_text BLOCKED_TOOL_FAILURE = ''Tool failure requires Manager escalation''"
| "blocker_text MANAGER_REPLAN_REQUIRED = ''Manager replan required''"
| "blocker_text WORKER_REPLACEMENT_REQUIRED = ''Worker replacement required''"
| "blocker_text LEGACY_APPROVAL_REGATE = ''Legacy approval gate requires explicit Manager re-gating''"
| "blocker_text READINESS_LAPSED = ''Readiness lapsed''"

text \<open>The members of the string enumerations are told apart by their values.\<close>

lemma status_value_inj: "status_value s = status_value s' \<longleftrightarrow> s = s'"
  by (cases s; cases s'; simp)

lemma blocker_text_inj: "blocker_text b = blocker_text b' \<longleftrightarrow> b = b'"
  by (cases b; cases b'; simp)

lemma capability_value_inj: "capability_value c = capability_value c' \<longleftrightarrow> c = c'"
  by (cases c; cases c'; simp)

section \<open>Records of a run (models.py)\<close>

record ApprovalGate =
  ag_request_id :: ident
  ag_action :: string
  ag_scope_json :: string
  ag_scope_digest :: string

record WorkerAssignment =
  wa_id :: ident
  wa_worker_id :: ident
  wa_task_id :: ident
  wa_capability :: CapabilityProfile
  wa_workspace_id :: "ident option"

record TaskNode =
  tn_packet :: TaskPacket
  tn_capability :: CapabilityProfile
  tn_workspace_id :: "ident option"
  tn_required_checks :: "string list"
  tn_review_required :: bool
  tn_high_risk :: bool
  tn_status :: TaskStatus
  tn_attempts :: int
  tn_revisions :: int
  tn_attempt_baseline :: int
  tn_revision_baseline :: int
  tn_max_attempts :: int
  tn_max_revisions :: int
  tn_assignment :: "WorkerAssignment option"
  tn_assignment_history :: "WorkerAssignment list"
  tn_artifact_ids :: "ident list"
  tn_result :: "WorkerResult option"
  tn_blocker :: "string option"
  tn_approval_gates :: "ApprovalGate list"
  tn_approval_ids :: "ident list"

definition task_id :: "TaskNode \<Rightarrow> ident" where
  "task_id t = tp_task_id (tn_packet t)"

record ArtifactValidation =
  av_id :: ident
  av_artifact_id :: ident
  av_content_digest :: string
  av_check :: string
  av_passed :: bool
  av_evidence :: string
  av_validator_id :: ident

record Review =
  rv_id :: ident
  rv_artifact_id :: ident
  rv_content_digest :: string
  rv_reviewer_id :: ident
  rv_passed :: bool
  rv_evidence :: string

record Artifact =
  ar_id :: ident
  ar_run_id :: ident
  ar_task_id :: ident
  ar_worker_id :: ident
  ar_kind :: string
  ar_content :: string
  ar_content_digest :: string
  ar_workspace_fingerprint :: "string option"
  ar_version :: int
  ar_predecessor_id :: "ident option"
  ar_input_artifact_ids :: "ident list"
  ar_status :: string
  ar_integrated_commit :: "string option"
  ar_validations :: "ArtifactValidation list"
  ar_reviews :: "Review list"

record Decision =
  dc_id :: ident
  dc_action :: string
  dc_reason :: string
  dc_actor_id :: ident
  dc_context :: string
  dc_options_considered :: "string list"
  dc_consequences :: "string list"
  dc_affected_ids :: "ident list"
  dc_evidence :: "string list"

record AcceptanceDecision = Decision +
  ad_artifact_id :: ident

record WorkerFailure =
  wf_id :: ident
  wf_task_id :: ident
  wf_classification :: FailureClass
  wf_evidence :: string

record CapabilityRequest =
  cr_id :: ident
  cr_run_id :: ident
  cr_task_id :: ident
  cr_assignment_id :: ident
  cr_worker_id :: ident
  cr_requested_capability :: CapabilityProfile
  cr_reason :: string
  cr_risk :: string
  cr_status :: CapabilityRequestStatus
  cr_approval_id :: "ident option"
  cr_workspace_id :: "ident option"

record RecoveryDecision = Decision +
  rd_failure_id :: ident

record ApprovalRequest =
  aq_id :: ident
  aq_run_id :: ident
  aq_category :: string
  aq_action :: string
  aq_scope_json :: string
  aq_scope_digest :: string
  aq_target :: string
  aq_rationale :: string
  aq_risk :: string
  aq_artifact_refs :: "ident list"
  aq_requested_capability :: "CapabilityProfile option"
  aq_required :: bool
  aq_status :: ApprovalStatus
  aq_replacement_id :: "ident option"

record ApprovalDecision =
  al_request_id :: ident
  al_approved :: bool
  al_human_id :: ident
  al_reason :: string
  al_status :: ApprovalStatus

text \<open>
  Provider usage metadata: a Python value as the usage helpers tell values apart. A finite float
  is its mantissa times a power of two.
\<close>

datatype py_float = Finite int int | Infinite bool | NaN

datatype usage_value =
    UNone
  | UBool bool
  | UInt int
  | UFloat py_float
  | UStr string
  | UDict "(string \<times> usage_value) list"
  | UOther

type_synonym usage_dict = "(string, usage_value) dict"

record ModelUsageRecord =
  mu_id :: ident
  mu_run_id :: ident
  mu_task_id :: "ident option"
  mu_assignment_id :: "ident option"
  mu_worker_id :: "ident option"
  mu_provider :: string
  mu_model :: string
  mu_role :: string
  mu_input_tokens :: "int option"
  mu_output_tokens :: "int option"
  mu_total_tokens :: "int option"
  mu_usage_known :: bool
  mu_unknown_reason :: "string option"
  mu_raw_usage :: usage_dict

record ReplanProposal =
  rp_id :: ident
  rp_base_revision :: int
  rp_trigger :: string
  rp_evidence :: "string list"
  rp_add :: "TaskNode list"
  rp_remove :: "ident list"
  rp_reopen :: "ident list"
  rp_dependencies :: "(ident, ident list) dict"
  rp_risks :: "string list"
  rp_approval_id :: "ident option"
  rp_requires_approval :: bool

record WorkPlan =
  wp_objective :: string
  wp_completion_criteria :: "string list"
  wp_task_ids :: "ident list"
  wp_assumptions :: "string list"
  wp_risks :: "string list"
  wp_status :: string
  wp_revision :: int
  wp_max_replans :: int
  wp_revision_history :: "ReplanProposal list"

record Run =
  run_schema_version :: int
  run_id :: ident
  run_version :: int
  run_objective :: string
  run_constraints :: "string list"
  run_status :: string
  run_plan :: WorkPlan
  run_tasks :: "(ident, TaskNode) dict"
  run_artifacts :: "(ident, Artifact) dict"
  run_accepted_artifacts :: "ident list"
  run_available_inputs :: "(ident, string) dict"
  run_decisions :: "Decision list"
  run_usage_records :: "ModelUsageRecord list"
  run_acceptances :: "AcceptanceDecision list"
  run_failures :: "WorkerFailure list"
  run_recoveries :: "RecoveryDecision list"
  run_approvals :: "(ident, ApprovalRequest) dict"
  run_approval_decisions :: "(ident, ApprovalDecision) dict"
  run_capability_requests :: "(ident, CapabilityRequest) dict"
  run_replans :: "(ident, ReplanProposal) dict"
  run_unresolved_issues :: "string list"
  run_event_cursor :: int
  run_final_result :: "string option"

section \<open>Events\<close>

text \<open>
  An event's \<open>data\<close> is a dictionary of keyword arguments; each value is tagged by what the code
  stores under that key.
\<close>

datatype event_value =
    VNone
  | VStr string
  | VInt int
  | VStrs "string list"
  | VAssignment WorkerAssignment
  | VArtifact Artifact
  | VResult WorkerResult
  | VCapabilityRequest CapabilityRequest
  | VValidation ArtifactValidation
  | VReview Review
  | VFailure WorkerFailure
  | VRecovery RecoveryDecision
  | VGate ApprovalGate
  | VApproval ApprovalRequest
  | VApprovalDecision ApprovalDecision
  | VProposal ReplanProposal
  | VUsage ModelUsageRecord
  | VEvidence "(string, ident list) dict"

record Event =
  ev_run_id :: ident
  ev_sequence :: int
  ev_kind :: string
  ev_data :: "(string \<times> event_value) list"

definition opt_value :: "string option \<Rightarrow> event_value" where
  "opt_value x = (case x of None \<Rightarrow> VNone | Some s \<Rightarrow> VStr s)"

end
