(* ===== verification/Kernel.thy ===== *)
theory Kernel
  imports Models
begin

text \<open>
  The shared parts of \<open>Orchestrator\<close> (\<open>src/src/walter/orchestration.py\<close>): its configuration, the
  transition table, event emission, status transitions and the capability/check rule. An operation
  of the kernel takes the snapshot that \<open>_mutate\<close> loaded and returns either the exception it raises
  or its result, the changed snapshot and the events it appended, in order.
\<close>

section \<open>The orchestrator\<close>

text \<open>
  The Manager identity the orchestrator was built with, and SHA-256 with hexadecimal output, a
  standard-library function: every property holds for any function in its place.
\<close>

record Orchestrator =
  o_manager_id :: ident
  o_sha256 :: "string \<Rightarrow> string"

definition make_orchestrator :: "(string \<Rightarrow> string) \<Rightarrow> ident \<Rightarrow> py_error + Orchestrator" where
  "make_orchestrator sha manager_id =
     (if \<not> substantive manager_id
      then Inl (ValueError ''Configured manager authority must be substantive'')
      else Inr \<lparr>o_manager_id = manager_id, o_sha256 = sha\<rparr>)"

type_synonym 'a op_result = "py_error + ('a \<times> Run \<times> Event list)"
type_synonym 'a operation = "Run \<Rightarrow> 'a op_result"

section \<open>Constants\<close>

definition EXECUTABLE_DEVELOPER_CHECKS :: "string list" where
  "EXECUTABLE_DEVELOPER_CHECKS =
     [''compile'', ''pytest'', ''pytest_candidate'', ''pytest_regression'',
      ''node_test'', ''tsc'', ''npm_build'']"

definition REFRESHABLE_BLOCKERS :: "string list" where
  "REFRESHABLE_BLOCKERS =
     [blocker_text CAPABILITY_PREREQUISITES_MISSING, blocker_text APPROVAL_PREREQUISITES_SATISFIED]"

definition IN_FLIGHT_TASK_STATUSES :: "TaskStatus set" where
  "IN_FLIGHT_TASK_STATUSES = {DELEGATED, RUNNING, SUBMITTED, REVIEWING}"

fun TRANSITIONS :: "TaskStatus \<Rightarrow> TaskStatus set" where
  "TRANSITIONS PLANNED = {READY, BLOCKED}"
| "TRANSITIONS READY = {DELEGATED, BLOCKED}"
| "TRANSITIONS DELEGATED = {RUNNING, FAILED, BLOCKED}"
| "TRANSITIONS RUNNING = {SUBMITTED, FAILED, BLOCKED}"
| "TRANSITIONS SUBMITTED = {REVIEWING, FAILED}"
| "TRANSITIONS REVIEWING = {ACCEPTED, REVISION_REQUIRED, REPLACED, FAILED}"
| "TRANSITIONS REVISION_REQUIRED = {DELEGATED, BLOCKED}"
| "TRANSITIONS BLOCKED = {READY, REPLACED}"
| "TRANSITIONS FAILED = {READY, REVISION_REQUIRED, REPLACED, BLOCKED}"
| "TRANSITIONS ACCEPTED = {}"
| "TRANSITIONS REPLACED = {}"
| "TRANSITIONS CANCELLED = {}"

definition retired :: "TaskStatus \<Rightarrow> bool" where
  "retired s = (s \<in> {CANCELLED, REPLACED})"

section \<open>Events and transitions\<close>

definition event :: "Run \<Rightarrow> string \<Rightarrow> (string \<times> event_value) list \<Rightarrow> Event" where
  "event r kind data = \<lparr>ev_run_id = run_id r, ev_sequence = 0, ev_kind = kind, ev_data = data\<rparr>"

definition set_task :: "ident \<Rightarrow> TaskNode \<Rightarrow> Run \<Rightarrow> Run" where
  "set_task k t r = r\<lparr>run_tasks := AList.update k t (run_tasks r)\<rparr>"

definition set_artifact :: "ident \<Rightarrow> Artifact \<Rightarrow> Run \<Rightarrow> Run" where
  "set_artifact k a r = r\<lparr>run_artifacts := AList.update k a (run_artifacts r)\<rparr>"

text \<open>\<open>_transition\<close>: the task with its new status and the event that records the change.\<close>

definition transition ::
    "Run \<Rightarrow> TaskNode \<Rightarrow> TaskStatus \<Rightarrow> string \<Rightarrow> py_error + (TaskNode \<times> Event list)" where
  "transition r t status reason =
     (if status \<notin> TRANSITIONS (tn_status t)
      then Inl (GateError (''Illegal transition '' @ status_value (tn_status t) @ '' -> '' @ status_value status))
      else Inr (t\<lparr>tn_status := status\<rparr>,
        [event r (''task.'' @ lower (status_value status))
           [(''task_id'', VStr (task_id t)), (''previous'', VStr (status_value (tn_status t))),
            (''reason'', VStr reason)]]))"

text \<open>\<open>_validate_capability_checks\<close>: an executable capability needs an executable check.\<close>

definition validate_capability_checks :: "TaskNode \<Rightarrow> CapabilityProfile option \<Rightarrow> py_error + unit" where
  "validate_capability_checks t capability =
     (let profile = (case capability of None \<Rightarrow> tn_capability t | Some c \<Rightarrow> c) in
      if profile = DEVELOPER_SANDBOX \<and>
         (\<forall>c \<in> set (tn_required_checks t). c \<notin> set EXECUTABLE_DEVELOPER_CHECKS)
      then Inl (GateError
        ''Developer sandbox requires compile or pytest validation (or node_test/tsc for Node projects)'')
      else Inr ())"

section \<open>Lemmas\<close>

lemma set_task_simps [simp]:
  "run_tasks (set_task k t r) = AList.update k t (run_tasks r)"
  "run_artifacts (set_task k t r) = run_artifacts r"
  "run_accepted_artifacts (set_task k t r) = run_accepted_artifacts r"
  "run_available_inputs (set_task k t r) = run_available_inputs r"
  "run_approvals (set_task k t r) = run_approvals r"
  "run_approval_decisions (set_task k t r) = run_approval_decisions r"
  "run_capability_requests (set_task k t r) = run_capability_requests r"
  "run_replans (set_task k t r) = run_replans r"
  "run_plan (set_task k t r) = run_plan r"
  "run_id (set_task k t r) = run_id r"
  "run_status (set_task k t r) = run_status r"
  "run_version (set_task k t r) = run_version r"
  "run_event_cursor (set_task k t r) = run_event_cursor r"
  "run_failures (set_task k t r) = run_failures r"
  "run_recoveries (set_task k t r) = run_recoveries r"
  "run_decisions (set_task k t r) = run_decisions r"
  "run_acceptances (set_task k t r) = run_acceptances r"
  "run_usage_records (set_task k t r) = run_usage_records r"
  "run_unresolved_issues (set_task k t r) = run_unresolved_issues r"
  "run_final_result (set_task k t r) = run_final_result r"
  "run_schema_version (set_task k t r) = run_schema_version r"
  by (simp_all add: set_task_def)

lemma set_artifact_simps [simp]:
  "run_artifacts (set_artifact k a r) = AList.update k a (run_artifacts r)"
  "run_tasks (set_artifact k a r) = run_tasks r"
  "run_accepted_artifacts (set_artifact k a r) = run_accepted_artifacts r"
  "run_available_inputs (set_artifact k a r) = run_available_inputs r"
  "run_approvals (set_artifact k a r) = run_approvals r"
  "run_approval_decisions (set_artifact k a r) = run_approval_decisions r"
  "run_capability_requests (set_artifact k a r) = run_capability_requests r"
  "run_replans (set_artifact k a r) = run_replans r"
  "run_plan (set_artifact k a r) = run_plan r"
  "run_id (set_artifact k a r) = run_id r"
  "run_status (set_artifact k a r) = run_status r"
  "run_version (set_artifact k a r) = run_version r"
  "run_event_cursor (set_artifact k a r) = run_event_cursor r"
  "run_failures (set_artifact k a r) = run_failures r"
  "run_recoveries (set_artifact k a r) = run_recoveries r"
  "run_decisions (set_artifact k a r) = run_decisions r"
  "run_acceptances (set_artifact k a r) = run_acceptances r"
  "run_usage_records (set_artifact k a r) = run_usage_records r"
  "run_unresolved_issues (set_artifact k a r) = run_unresolved_issues r"
  "run_final_result (set_artifact k a r) = run_final_result r"
  "run_schema_version (set_artifact k a r) = run_schema_version r"
  by (simp_all add: set_artifact_def)

lemma event_run_id [simp]: "ev_run_id (event r kind data) = run_id r"
  by (simp add: event_def)

lemma transition_Inr:
  "transition r t s reason = Inr (t', evs) \<longleftrightarrow>
     s \<in> TRANSITIONS (tn_status t) \<and> t' = t\<lparr>tn_status := s\<rparr> \<and>
     evs = [event r (''task.'' @ lower (status_value s))
       [(''task_id'', VStr (task_id t)), (''previous'', VStr (status_value (tn_status t))),
        (''reason'', VStr reason)]]"
  by (auto simp: transition_def)

lemma transition_events_run_id:
  "transition r t s reason = Inr (t', evs) \<Longrightarrow> e \<in> set evs \<Longrightarrow> ev_run_id e = run_id r"
  by (auto simp: transition_Inr)

text \<open>The table: what each status can be left for, and from where each can be entered.\<close>

lemma TRANSITIONS_entered:
  "DELEGATED \<in> TRANSITIONS s \<longleftrightarrow> s = READY \<or> s = REVISION_REQUIRED"
  "RUNNING \<in> TRANSITIONS s \<longleftrightarrow> s = DELEGATED"
  "SUBMITTED \<in> TRANSITIONS s \<longleftrightarrow> s = RUNNING"
  "REVIEWING \<in> TRANSITIONS s \<longleftrightarrow> s = SUBMITTED"
  "ACCEPTED \<in> TRANSITIONS s \<longleftrightarrow> s = REVIEWING"
  "REVISION_REQUIRED \<in> TRANSITIONS s \<longleftrightarrow> s = REVIEWING \<or> s = FAILED"
  "FAILED \<in> TRANSITIONS s \<longleftrightarrow> s \<in> IN_FLIGHT_TASK_STATUSES"
  "READY \<in> TRANSITIONS s \<longleftrightarrow> s \<in> {PLANNED, BLOCKED, FAILED}"
  "REPLACED \<in> TRANSITIONS s \<longleftrightarrow> s \<in> {REVIEWING, BLOCKED, FAILED}"
  "BLOCKED \<in> TRANSITIONS s \<longleftrightarrow> s \<in> {PLANNED, READY, DELEGATED, RUNNING, REVISION_REQUIRED, FAILED}"
  "PLANNED \<notin> TRANSITIONS s"
  "CANCELLED \<notin> TRANSITIONS s"
  by (cases s; simp add: IN_FLIGHT_TASK_STATUSES_def)+

lemma validate_capability_checks_Inr:
  "validate_capability_checks t c = Inr u \<longleftrightarrow>
     ((case c of None \<Rightarrow> tn_capability t | Some p \<Rightarrow> p) = DEVELOPER_SANDBOX \<longrightarrow>
       (\<exists>x \<in> set (tn_required_checks t). x \<in> set EXECUTABLE_DEVELOPER_CHECKS))"
  by (auto simp: validate_capability_checks_def)

end
