(* ===== verification/Graph.thy ===== *)
theory Graph
  imports Kernel
begin

text \<open>
  \<open>_graph\<close> of the kernel: the depth-first check that the live tasks' declared references resolve
  and form no cycle. The two sets of the source are lists; \<open>visiting\<close> is the stack of keys being
  entered, \<open>visited\<close> the keys done. The search stops because every key entered is a task that was
  not on the stack.
\<close>

definition packet_refs :: "TaskPacket \<Rightarrow> ident list" where
  "packet_refs p = tp_dependencies p @ tp_required_inputs p"

text \<open>What one declared reference asks the search to visit: a task, or nothing.\<close>

definition graph_target :: "Run \<Rightarrow> TaskPacket \<Rightarrow> ident \<Rightarrow> py_error + ident option" where
  "graph_target r packet dep =
     (case map_of (run_tasks r) dep of
        Some t \<Rightarrow>
          if retired (tn_status t) then Inl (GateError ''Dependency references retired task'')
          else Inr (Some dep)
      | None \<Rightarrow>
          (case map_of (run_artifacts r) dep of
             Some a \<Rightarrow>
               (case map_of (run_tasks r) (ar_task_id a) of
                  None \<Rightarrow> Inl (GateError ''Artifact references unknown producer'')
                | Some p \<Rightarrow> if retired (tn_status p) then Inr None else Inr (Some (ar_task_id a)))
           | None \<Rightarrow>
               if dep \<in> set (tp_dependencies packet)
               then Inl (GateError (''Unknown dependency '' @ dep)) else Inr None))"

function visit :: "Run \<Rightarrow> ident list \<Rightarrow> ident list \<Rightarrow> ident \<Rightarrow> py_error + ident list"
  and visit_refs :: "Run \<Rightarrow> ident list \<Rightarrow> TaskPacket \<Rightarrow> ident list \<Rightarrow> ident list \<Rightarrow> py_error + ident list"
where
  "visit r visiting visited key =
     (if key \<in> set visiting then Inl (GateError ''Dependency cycle'')
      else if key \<in> set visited then Inr visited
      else (case map_of (run_tasks r) key of
              None \<Rightarrow> Inl (KeyError key)
            | Some t \<Rightarrow>
                bind_ok (visit_refs r (key # visiting) (tn_packet t) (packet_refs (tn_packet t)) visited)
                  (\<lambda>visited'. Inr (key # visited'))))"
| "visit_refs r visiting packet [] visited = Inr visited"
| "visit_refs r visiting packet (dep # deps) visited =
     bind_ok (graph_target r packet dep) (\<lambda>target.
       case target of
         None \<Rightarrow> visit_refs r visiting packet deps visited
       | Some key \<Rightarrow>
           bind_ok (visit r visiting visited key) (\<lambda>visited'.
             visit_refs r visiting packet deps visited'))"
  by pat_completeness auto
termination
  by (relation "measures
        [\<lambda>x. case x of Inl (r, vis, done, key) \<Rightarrow> unvisited vis (run_tasks r)
             | Inr (r, vis, p, deps, done) \<Rightarrow> unvisited vis (run_tasks r),
         \<lambda>x. case x of Inl _ \<Rightarrow> 0 | Inr (r, vis, p, deps, done) \<Rightarrow> Suc (length deps)]")
     (auto simp: unvisited_enter)

declare visit.simps [simp del] visit_refs.simps [simp del]

text \<open>\<open>for key, task in run.tasks.items(): if live: visit(key)\<close>\<close>

fun graph_from :: "Run \<Rightarrow> (ident \<times> TaskNode) list \<Rightarrow> ident list \<Rightarrow> py_error + ident list" where
  "graph_from r [] visited = Inr visited"
| "graph_from r ((key, t) # rest) visited =
     (if retired (tn_status t) then graph_from r rest visited
      else bind_ok (visit r [] visited key) (\<lambda>visited'. graph_from r rest visited'))"

definition graph :: "Run \<Rightarrow> py_error + unit" where
  "graph r = bind_ok (graph_from r (run_tasks r) []) (\<lambda>_. Inr ())"

section \<open>The dependency relation\<close>

text \<open>
  \<open>depends r k d\<close>: task \<open>k\<close> declares a reference that leads to the live task \<open>d\<close>.
\<close>

definition depends :: "Run \<Rightarrow> (ident \<times> ident) set" where
  "depends r = {(k, d). \<exists>t dep. map_of (run_tasks r) k = Some t \<and>
     dep \<in> set (packet_refs (tn_packet t)) \<and> graph_target r (tn_packet t) dep = Inr (Some d)}"

definition resolvable :: "Run \<Rightarrow> ident \<Rightarrow> bool" where
  "resolvable r k \<longleftrightarrow> (\<exists>t. map_of (run_tasks r) k = Some t \<and>
     (\<forall>dep \<in> set (packet_refs (tn_packet t)). \<exists>x. graph_target r (tn_packet t) dep = Inr x))"

definition live :: "Run \<Rightarrow> ident \<Rightarrow> bool" where
  "live r k \<longleftrightarrow> (\<exists>t. map_of (run_tasks r) k = Some t \<and> \<not> retired (tn_status t))"

lemma graph_target_live: "graph_target r p dep = Inr (Some d) \<Longrightarrow> live r d"
  by (auto simp: graph_target_def live_def split: option.splits if_splits)

section \<open>What a finished search knows\<close>

text \<open>
  The keys done are resolvable, closed under the dependency relation and on no cycle.
\<close>

definition done_ok :: "Run \<Rightarrow> ident list \<Rightarrow> bool" where
  "done_ok r vs \<longleftrightarrow> (\<forall>k \<in> set vs. resolvable r k \<and> (k, k) \<notin> (depends r)\<^sup>+ \<and>
     (\<forall>d. (k, d) \<in> depends r \<longrightarrow> d \<in> set vs))"

lemma done_ok_closed: "(k, d) \<in> (depends r)\<^sup>* \<Longrightarrow> done_ok r vs \<Longrightarrow> k \<in> set vs \<Longrightarrow> d \<in> set vs"
  by (induction rule: rtrancl_induct) (auto simp: done_ok_def)

lemma done_ok_enter:
  assumes "done_ok r vs" and "k \<notin> set vs" and "map_of (run_tasks r) k = Some t"
    and refs: "\<forall>dep \<in> set (packet_refs (tn_packet t)). \<exists>x. graph_target r (tn_packet t) dep = Inr x \<and>
      (\<forall>d. x = Some d \<longrightarrow> d \<in> set vs)"
  shows "done_ok r (k # vs)"
proof -
  have res: "resolvable r k" using assms(3) refs by (auto simp: resolvable_def)
  have out: "d \<in> set vs" if "(k, d) \<in> depends r" for d
    using that assms(3) refs by (auto simp: depends_def)
  have "(k, k) \<notin> (depends r)\<^sup>+"
  proof
    assume "(k, k) \<in> (depends r)\<^sup>+"
    then obtain d where "(k, d) \<in> depends r" "(d, k) \<in> (depends r)\<^sup>*"
      by (meson tranclD)
    with out assms(1,2) show False by (blast dest: done_ok_closed)
  qed
  with res out assms(1) show ?thesis by (auto simp: done_ok_def)
qed

lemma visit_sound:
  "visit r visiting visited key = Inr v' \<Longrightarrow> done_ok r visited \<Longrightarrow> set visited \<inter> set visiting = {} \<Longrightarrow>
     done_ok r v' \<and> set visited \<subseteq> set v' \<and> key \<in> set v' \<and> set v' \<inter> set visiting = {}"
  "visit_refs r visiting packet deps visited = Inr v' \<Longrightarrow> done_ok r visited \<Longrightarrow>
     set visited \<inter> set visiting = {} \<Longrightarrow>
     done_ok r v' \<and> set visited \<subseteq> set v' \<and> set v' \<inter> set visiting = {} \<and>
     (\<forall>dep \<in> set deps. \<exists>x. graph_target r packet dep = Inr x \<and> (\<forall>d. x = Some d \<longrightarrow> d \<in> set v'))"
proof (induction r visiting visited key and r visiting packet deps visited arbitrary: v' and v'
    rule: visit_visit_refs.induct)
  case (1 r visiting visited key)
  show ?case
  proof (cases "key \<in> set visited")
    case True
    with "1.prems" show ?thesis by (auto simp: visit.simps split: if_splits)
  next
    case False
    with "1.prems"(1) obtain t v1 where new: "key \<notin> set visiting"
      and t: "map_of (run_tasks r) key = Some t"
      and v1: "visit_refs r (key # visiting) (tn_packet t) (packet_refs (tn_packet t)) visited = Inr v1"
      and v': "v' = key # v1"
      by (auto simp: visit.simps bind_ok_Inr_iff split: if_splits option.splits)
    have ih: "done_ok r v1 \<and> set visited \<subseteq> set v1 \<and> set v1 \<inter> set (key # visiting) = {} \<and>
       (\<forall>dep \<in> set (packet_refs (tn_packet t)). \<exists>x. graph_target r (tn_packet t) dep = Inr x \<and>
          (\<forall>d. x = Some d \<longrightarrow> d \<in> set v1))"
      by (rule "1.IH"[OF new False t v1 "1.prems"(2)]) (use "1.prems"(3) False in auto)
    then have "done_ok r (key # v1)"
      using t by (intro done_ok_enter) auto
    with ih v' new show ?thesis by auto
  qed
next
  case (2 r visiting packet visited)
  then show ?case by (simp add: visit_refs.simps)
next
  case (3 r visiting packet dep deps visited)
  from "3.prems"(1) obtain x where x: "graph_target r packet dep = Inr x"
    by (auto simp: visit_refs.simps bind_ok_Inr_iff)
  show ?case
  proof (cases x)
    case None
    with "3.IH"(1)[OF x None, of v'] "3.prems" x show ?thesis
      by (simp add: visit_refs.simps)
  next
    case (Some key)
    with "3.prems"(1) x obtain v1 where v1: "visit r visiting visited key = Inr v1"
      and v': "visit_refs r visiting packet deps v1 = Inr v'"
      by (auto simp: visit_refs.simps bind_ok_Inr_iff)
    have s1: "done_ok r v1 \<and> set visited \<subseteq> set v1 \<and> key \<in> set v1 \<and> set v1 \<inter> set visiting = {}"
      by (rule "3.IH"(2)[OF x Some v1 "3.prems"(2,3)])
    with "3.IH"(3)[OF x Some v1 v'] x Some show ?thesis by auto
  qed
qed

lemma graph_from_sound:
  "graph_from r ts visited = Inr v' \<Longrightarrow> done_ok r visited \<Longrightarrow>
     done_ok r v' \<and> set visited \<subseteq> set v' \<and> (\<forall>(k, t) \<in> set ts. \<not> retired (tn_status t) \<longrightarrow> k \<in> set v')"
proof (induction r ts visited rule: graph_from.induct)
  case (1 r visited)
  then show ?case by simp
next
  case (2 r key t rest visited)
  show ?case
  proof (cases "retired (tn_status t)")
    case True
    with 2 show ?thesis by simp
  next
    case False
    with "2.prems"(1) obtain v1 where v1: "visit r [] visited key = Inr v1"
      and "graph_from r rest v1 = Inr v'"
      by (auto simp: bind_ok_Inr_iff)
    with "2.IH"(2)[OF False v1] visit_sound(1)[OF v1 "2.prems"(2)] show ?thesis by auto
  qed
qed

section \<open>An error of the search is real\<close>

text \<open>The stack of the search is a chain of references, so meeting a key again closes a cycle.\<close>

fun chain :: "Run \<Rightarrow> ident list \<Rightarrow> bool" where
  "chain r (x # y # zs) = ((y, x) \<in> depends r \<and> chain r (y # zs))"
| "chain r xs = True"

lemma chain_reach: "chain r (x # xs) \<Longrightarrow> y \<in> set xs \<Longrightarrow> (y, x) \<in> (depends r)\<^sup>+"
proof (induction xs arbitrary: x)
  case Nil
  then show ?case by simp
next
  case (Cons z zs)
  then have zx: "(z, x) \<in> depends r" and c: "chain r (z # zs)" by auto
  show ?case
  proof (cases "y = z")
    case True
    with zx show ?thesis by auto
  next
    case False
    with Cons.prems(2) Cons.IH[OF c] zx show ?thesis by (auto intro: trancl_into_trancl)
  qed
qed

lemma visit_fails:
  "visit r visiting visited key = Inl e \<Longrightarrow> chain r (key # visiting) \<Longrightarrow> live r key \<Longrightarrow>
     (\<exists>k. (k, k) \<in> (depends r)\<^sup>+) \<or> (\<exists>k. live r k \<and> \<not> resolvable r k)"
  "visit_refs r visiting packet deps visited = Inl e \<Longrightarrow> chain r visiting \<Longrightarrow>
     visiting = k0 # vis \<Longrightarrow> live r k0 \<Longrightarrow> map_of (run_tasks r) k0 = Some t \<Longrightarrow> packet = tn_packet t \<Longrightarrow>
     set deps \<subseteq> set (packet_refs packet) \<Longrightarrow>
     (\<exists>k. (k, k) \<in> (depends r)\<^sup>+) \<or> (\<exists>k. live r k \<and> \<not> resolvable r k)"
proof (induction r visiting visited key and r visiting packet deps visited arbitrary: e and e k0 vis t
    rule: visit_visit_refs.induct)
  case (1 r visiting visited key)
  show ?case
  proof (cases "key \<in> set visiting")
    case True
    with "1.prems"(2) show ?thesis by (blast dest: chain_reach)
  next
    case False
    from "1.prems"(3) obtain t where t: "map_of (run_tasks r) key = Some t" by (auto simp: live_def)
    with "1.prems"(1) False have new: "key \<notin> set visited"
      and fail: "visit_refs r (key # visiting) (tn_packet t) (packet_refs (tn_packet t)) visited = Inl e"
      by (auto simp: visit.simps bind_ok_def split: if_splits sum.splits)
    show ?thesis
      by (rule "1.IH"[OF False new t fail "1.prems"(2) refl "1.prems"(3) t refl]) simp
  qed
next
  case (2 r visiting packet visited)
  then show ?case by (simp add: visit_refs.simps)
next
  case (3 r visiting packet dep deps visited)
  show ?case
  proof (cases "graph_target r packet dep")
    case (Inl b)
    then have "\<not> resolvable r k0"
      using "3.prems" by (force simp: resolvable_def)
    with "3.prems"(4) show ?thesis by blast
  next
    case (Inr x)
    show ?thesis
    proof (cases x)
      case None
      with "3.IH"(1)[OF Inr None, of e] "3.prems" Inr show ?thesis
        by (simp add: visit_refs.simps)
    next
      case (Some d)
      have edge: "(k0, d) \<in> depends r"
        using "3.prems"(5,6,7) Inr Some by (auto simp: depends_def)
      have live: "live r d" using Inr Some by (auto dest: graph_target_live)
      show ?thesis
      proof (cases "visit r visiting visited d")
        case (Inl e')
        show ?thesis
          by (rule "3.IH"(2)[OF Inr Some Inl]) (use edge "3.prems"(2,3) live in auto)
      next
        case v1: (Inr v1)
        with "3.prems"(1) Inr Some have "visit_refs r visiting packet deps v1 = Inl e"
          by (simp add: visit_refs.simps)
        from "3.IH"(3)[OF Inr Some v1 this] "3.prems" show ?thesis by simp
      qed
    qed
  qed
qed

lemma graph_from_fails:
  "graph_from r ts visited = Inl e \<Longrightarrow> (\<And>k t. (k, t) \<in> set ts \<Longrightarrow> map_of (run_tasks r) k = Some t) \<Longrightarrow>
     (\<exists>k. (k, k) \<in> (depends r)\<^sup>+) \<or> (\<exists>k. live r k \<and> \<not> resolvable r k)"
proof (induction r ts visited rule: graph_from.induct)
  case (1 r visited)
  then show ?case by simp
next
  case (2 r key t rest visited)
  show ?case
  proof (cases "retired (tn_status t)")
    case True
    with 2 show ?thesis by simp
  next
    case False
    then have live: "live r key" using "2.prems"(2)[of key t] by (auto simp: live_def)
    show ?thesis
    proof (cases "visit r [] visited key")
      case (Inl e')
      then show ?thesis by (rule visit_fails(1)) (use live in auto)
    next
      case (Inr v1)
      with "2.IH"(2)[OF False Inr] "2.prems" False show ?thesis by simp
    qed
  qed
qed

lemma graph_iff:
  assumes "distinct (map fst (run_tasks r))"
  shows "graph r = Inr () \<longleftrightarrow> acyclic (depends r) \<and> (\<forall>k. live r k \<longrightarrow> resolvable r k)"
proof
  assume "graph r = Inr ()"
  then obtain v where "graph_from r (run_tasks r) [] = Inr v" by (auto simp: graph_def bind_ok_Inr_iff)
  from graph_from_sound[OF this] have ok: "done_ok r v"
    and all: "\<forall>(k, t) \<in> set (run_tasks r). \<not> retired (tn_status t) \<longrightarrow> k \<in> set v"
    by (auto simp: done_ok_def)
  have lv: "live r k \<Longrightarrow> k \<in> set v" for k using all by (auto simp: live_def dest: map_of_SomeD)
  have "(k, k) \<notin> (depends r)\<^sup>+" for k
  proof
    assume c: "(k, k) \<in> (depends r)\<^sup>+"
    then have "live r k" by (auto elim: tranclE simp: depends_def dest: graph_target_live)
    with c lv ok show False by (auto simp: done_ok_def)
  qed
  with lv ok show "acyclic (depends r) \<and> (\<forall>k. live r k \<longrightarrow> resolvable r k)"
    by (auto simp: acyclic_def done_ok_def)
next
  assume ok: "acyclic (depends r) \<and> (\<forall>k. live r k \<longrightarrow> resolvable r k)"
  have "graph_from r (run_tasks r) [] \<noteq> Inl e" for e
  proof
    assume "graph_from r (run_tasks r) [] = Inl e"
    moreover have "\<And>k t. (k, t) \<in> set (run_tasks r) \<Longrightarrow> map_of (run_tasks r) k = Some t"
      using assms by (rule map_of_is_SomeI)
    ultimately have "(\<exists>k. (k, k) \<in> (depends r)\<^sup>+) \<or> (\<exists>k. live r k \<and> \<not> resolvable r k)"
      by (rule graph_from_fails)
    with ok show False unfolding acyclic_def by blast
  qed
  then show "graph r = Inr ()"
    by (cases "graph_from r (run_tasks r) []") (auto simp: graph_def)
qed

text \<open>
  C11 (functional). The planner's graph check accepts a snapshot exactly when every live task's
  references resolve and the dependency relation over the tasks is acyclic: it refuses nothing
  else, and no cycle, unknown dependency or retired dependency passes it.
\<close>

theorem graph_correct:
  assumes "distinct (map fst (run_tasks r))"
  shows "graph r = Inr () \<longleftrightarrow> acyclic (depends r) \<and> (\<forall>k. live r k \<longrightarrow> resolvable r k)"
  using assms by (rule graph_iff)

end
