(* ===== verification/Lineage.thy ===== *)
theory Lineage
  imports Kernel
begin

text \<open>
  Input resolution and accepted lineage: \<open>_input_artifact_ids\<close>, \<open>_validate_accepted_artifact\<close> and
  \<open>_validate_task_inputs\<close> of the kernel. They only raise \<open>GateError\<close>, so the left side carries
  its message. The source threads two sets through the mutual recursion: \<open>visiting\<close>, restored
  on the way out and hence a plain argument here, and \<open>checked\<close>, the memo, which is threaded.
  The recursion ends because each artifact entered was not being visited.
\<close>

definition task_refs :: "TaskNode \<Rightarrow> ident list" where
  "task_refs t = tp_dependencies (tn_packet t) @ tp_required_inputs (tn_packet t)"

text \<open>The body of the reference loop: an artifact to use, nothing to do, or an error.\<close>

definition resolve_input :: "Run \<Rightarrow> TaskNode \<Rightarrow> ident \<Rightarrow> string + ident option" where
  "resolve_input r t v =
     (case map_of (run_tasks r) v of
        Some upstream \<Rightarrow>
          (case last_opt (tn_artifact_ids upstream) of
             Some aid \<Rightarrow>
               if tn_status upstream \<noteq> ACCEPTED
               then Inl (''Input task is not accepted: '' @ v @ '' ('' @ status_value (tn_status upstream) @ '')'')
               else Inr (Some aid)
           | None \<Rightarrow>
               Inl (''Input task is not accepted: '' @ v @ '' ('' @ status_value (tn_status upstream) @ '')''))
      | None \<Rightarrow>
          if v \<in> fst ` set (run_artifacts r) then Inr (Some v)
          else if v \<in> fst ` set (run_available_inputs r) \<and> v \<notin> set (tp_dependencies (tn_packet t))
          then Inr None
          else Inl (''Required input is unavailable: '' @ v))"

text \<open>The artifact and its task, when the artifact is the accepted current output of its task.\<close>

definition canonical_owner :: "Run \<Rightarrow> ident \<Rightarrow> (Artifact \<times> TaskNode) option" where
  "canonical_owner r aid =
     (case map_of (run_artifacts r) aid of
        None \<Rightarrow> None
      | Some a \<Rightarrow>
          (case map_of (run_tasks r) (ar_task_id a) of
             None \<Rightarrow> None
           | Some t \<Rightarrow>
               if ar_run_id a \<noteq> run_id r \<or> ar_status a \<noteq> ''accepted'' \<or>
                  aid \<notin> set (run_accepted_artifacts r) \<or> tn_status t \<noteq> ACCEPTED \<or>
                  last_opt (tn_artifact_ids t) \<noteq> Some aid
               then None else Some (a, t)))"

lemma canonical_owner_Some:
  "canonical_owner r aid = Some (a, t) \<longleftrightarrow>
     map_of (run_artifacts r) aid = Some a \<and> map_of (run_tasks r) (ar_task_id a) = Some t \<and>
     ar_run_id a = run_id r \<and> ar_status a = ''accepted'' \<and> aid \<in> set (run_accepted_artifacts r) \<and>
     tn_status t = ACCEPTED \<and> last_opt (tn_artifact_ids t) = Some aid"
  by (auto simp: canonical_owner_def split: option.splits)

function validate_accepted ::
    "Run \<Rightarrow> ident list \<Rightarrow> ident list \<Rightarrow> ident \<Rightarrow> string + ident list"
  and collect_inputs ::
    "Run \<Rightarrow> TaskNode \<Rightarrow> ident list \<Rightarrow> ident list \<Rightarrow> ident list \<Rightarrow> ident list \<Rightarrow> string + (ident list \<times> ident list)"
where
  "validate_accepted r visiting checked aid =
     (if aid \<in> set visiting then Inl ''Artifact input cycle''
      else if aid \<in> set checked then Inr checked
      else (case canonical_owner r aid of
              None \<Rightarrow> Inl ''Input artifact is no longer canonical and accepted''
            | Some (a, t) \<Rightarrow>
                bind_ok (collect_inputs r t (aid # visiting) checked (task_refs t) [])
                  (\<lambda>(inputs, checked').
                    if set (ar_input_artifact_ids a) \<noteq> set inputs
                    then Inl ''Artifact input provenance does not match declared inputs''
                    else Inr (aid # checked'))))"
| "collect_inputs r t visiting checked [] inputs = Inr (inputs, checked)"
| "collect_inputs r t visiting checked (v # vs) inputs =
     bind_ok (resolve_input r t v) (\<lambda>target.
       case target of
         None \<Rightarrow> collect_inputs r t visiting checked vs inputs
       | Some aid \<Rightarrow>
           bind_ok (validate_accepted r visiting checked aid) (\<lambda>checked'.
             collect_inputs r t visiting checked' vs (add_once aid inputs)))"
  by pat_completeness auto
termination
  by (relation "measures
        [\<lambda>x. case x of Inl (r, vis, chk, aid) \<Rightarrow> unvisited vis (run_artifacts r)
             | Inr (r, t, vis, chk, vs, acc) \<Rightarrow> unvisited vis (run_artifacts r),
         \<lambda>x. case x of Inl _ \<Rightarrow> 0 | Inr (r, t, vis, chk, vs, acc) \<Rightarrow> Suc (length vs)]")
     (auto simp: canonical_owner_Some unvisited_enter)

declare validate_accepted.simps [simp del] collect_inputs.simps [simp del]

text \<open>\<open>_input_artifact_ids(run, task)\<close> with fresh sets.\<close>

definition input_artifact_ids :: "Run \<Rightarrow> TaskNode \<Rightarrow> string + ident list" where
  "input_artifact_ids r t =
     bind_ok (collect_inputs r t [] [] (task_refs t) []) (\<lambda>(inputs, checked). Inr inputs)"

definition validate_task_inputs :: "Run \<Rightarrow> TaskNode \<Rightarrow> py_error + unit" where
  "validate_task_inputs r t =
     (case input_artifact_ids r t of
        Inl m \<Rightarrow> Inl (GateError m)
      | Inr inputs \<Rightarrow>
          (case last_opt (tn_artifact_ids t) of
             None \<Rightarrow> Inl (GateError ''Candidate input provenance does not match declared inputs'')
           | Some aid \<Rightarrow>
               (case map_of (run_artifacts r) aid of
                  None \<Rightarrow> Inl (KeyError aid)
                | Some a \<Rightarrow>
                    if set (ar_input_artifact_ids a) \<noteq> set inputs
                    then Inl (GateError ''Candidate input provenance does not match declared inputs'')
                    else Inr ())))"

section \<open>The specification: canonical lineage\<close>

text \<open>Resolution alone, without validating what was resolved.\<close>

fun resolved :: "Run \<Rightarrow> TaskNode \<Rightarrow> ident list \<Rightarrow> ident list \<Rightarrow> string + ident list" where
  "resolved r t [] inputs = Inr inputs"
| "resolved r t (v # vs) inputs =
     bind_ok (resolve_input r t v) (\<lambda>target.
       resolved r t vs (case target of None \<Rightarrow> inputs | Some aid \<Rightarrow> add_once aid inputs))"

text \<open>
  An artifact is canonical when it is the accepted current output of an accepted task, its
  recorded inputs are the ones its task declares, and those are canonical in turn. As a least
  fixed point this rules cycles out.
\<close>

inductive canonical :: "Run \<Rightarrow> ident \<Rightarrow> bool" for r where
  canonicalI: "canonical_owner r aid = Some (a, t) \<Longrightarrow> resolved r t (task_refs t) [] = Inr inputs \<Longrightarrow>
    set (ar_input_artifact_ids a) = set inputs \<Longrightarrow> (\<And>i. i \<in> set inputs \<Longrightarrow> canonical r i) \<Longrightarrow>
    canonical r aid"

inductive_cases canonicalE: "canonical r aid"

definition feeds :: "Run \<Rightarrow> (ident \<times> ident) set" where
  "feeds r = {(aid, i). \<exists>a t inputs. canonical_owner r aid = Some (a, t) \<and>
     resolved r t (task_refs t) [] = Inr inputs \<and> i \<in> set inputs}"

lemma canonical_acyclic: "canonical r aid \<Longrightarrow> (aid, aid) \<notin> (feeds r)\<^sup>+"
proof (induction rule: canonical.induct)
  case (canonicalI aid a t inputs)
  show ?case
  proof
    assume "(aid, aid) \<in> (feeds r)\<^sup>+"
    then obtain i where i: "(aid, i) \<in> feeds r" "(i, aid) \<in> (feeds r)\<^sup>*" by (meson tranclD)
    then have "i \<in> set inputs" using canonicalI.hyps(1,2) by (auto simp: feeds_def)
    moreover have "(i, i) \<in> (feeds r)\<^sup>+" using i by (meson rtrancl_into_trancl1)
    ultimately show False using canonicalI.IH by blast
  qed
qed

lemma resolved_mono: "resolved r t vs acc = Inr inputs \<Longrightarrow> set acc \<subseteq> set inputs"
  by (induction r t vs acc rule: resolved.induct)
     (fastforce simp: bind_ok_Inr_iff split: option.splits)+

section \<open>The memoised search decides the specification\<close>

lemma search_sound:
  "validate_accepted r visiting checked aid = Inr checked' \<Longrightarrow> (\<forall>c \<in> set checked. canonical r c) \<Longrightarrow>
     canonical r aid \<and> (\<forall>c \<in> set checked'. canonical r c)"
  "collect_inputs r t visiting checked vs acc = Inr (inputs, checked') \<Longrightarrow>
     (\<forall>c \<in> set checked. canonical r c) \<Longrightarrow> (\<forall>c \<in> set acc. canonical r c) \<Longrightarrow>
     resolved r t vs acc = Inr inputs \<and> (\<forall>c \<in> set inputs. canonical r c) \<and>
     (\<forall>c \<in> set checked'. canonical r c)"
proof (induction r visiting checked aid and r t visiting checked vs acc
    arbitrary: checked' and inputs checked' rule: validate_accepted_collect_inputs.induct)
  case (1 r visiting checked aid)
  show ?case
  proof (cases "aid \<in> set checked")
    case True
    with "1.prems" show ?thesis by (auto simp: validate_accepted.simps split: if_splits)
  next
    case False
    with "1.prems"(1) obtain a t inputs chk where vis: "aid \<notin> set visiting"
      and own: "canonical_owner r aid = Some (a, t)"
      and coll: "collect_inputs r t (aid # visiting) checked (task_refs t) [] = Inr (inputs, chk)"
      and prov: "set (ar_input_artifact_ids a) = set inputs" and chk: "checked' = aid # chk"
      by (auto simp: validate_accepted.simps bind_ok_Inr_iff split: if_splits option.splits)
    have "resolved r t (task_refs t) [] = Inr inputs \<and> (\<forall>c \<in> set inputs. canonical r c) \<and>
        (\<forall>c \<in> set chk. canonical r c)"
      by (rule "1.IH"[OF vis False own refl coll "1.prems"(2)]) simp
    with own prov chk show ?thesis by (auto intro: canonicalI)
  qed
next
  case (2 r t visiting checked acc)
  then show ?case by (simp add: collect_inputs.simps)
next
  case (3 r t visiting checked v vs acc)
  from "3.prems"(1) obtain x where x: "resolve_input r t v = Inr x"
    by (auto simp: collect_inputs.simps bind_ok_Inr_iff)
  show ?case
  proof (cases x)
    case None
    with "3.IH"(1)[OF x None] "3.prems" x show ?thesis by (simp add: collect_inputs.simps)
  next
    case (Some aid)
    with "3.prems"(1) x obtain chk where chk: "validate_accepted r visiting checked aid = Inr chk"
      and rest: "collect_inputs r t visiting chk vs (add_once aid acc) = Inr (inputs, checked')"
      by (auto simp: collect_inputs.simps bind_ok_Inr_iff)
    have "canonical r aid \<and> (\<forall>c \<in> set chk. canonical r c)"
      by (rule "3.IH"(2)[OF x Some chk "3.prems"(2)])
    with "3.IH"(3)[OF x Some chk rest] "3.prems"(3) x Some show ?thesis by simp
  qed
qed

lemma search_complete:
  "canonical r aid \<Longrightarrow> (\<forall>v \<in> set visiting. (v, aid) \<in> (feeds r)\<^sup>+) \<Longrightarrow>
     \<exists>checked'. validate_accepted r visiting checked aid = Inr checked'"
  "resolved r t vs acc = Inr inputs \<Longrightarrow> (\<forall>i \<in> set inputs. canonical r i) \<Longrightarrow>
     (\<forall>v \<in> set visiting. \<forall>i \<in> set inputs. (v, i) \<in> (feeds r)\<^sup>+) \<Longrightarrow>
     \<exists>checked'. collect_inputs r t visiting checked vs acc = Inr (inputs, checked')"
proof (induction r visiting checked aid and r t visiting checked vs acc
    arbitrary: and inputs rule: validate_accepted_collect_inputs.induct)
  case (1 r visiting checked aid)
  have vis: "aid \<notin> set visiting" using "1.prems" by (blast dest: canonical_acyclic)
  show ?case
  proof (cases "aid \<in> set checked")
    case True
    with vis show ?thesis by (simp add: validate_accepted.simps)
  next
    case False
    from "1.prems"(1) obtain a t inputs where own: "canonical_owner r aid = Some (a, t)"
      and res: "resolved r t (task_refs t) [] = Inr inputs"
      and prov: "set (ar_input_artifact_ids a) = set inputs"
      and can: "\<And>i. i \<in> set inputs \<Longrightarrow> canonical r i"
      by (auto elim: canonicalE)
    have edge: "(aid, i) \<in> feeds r" if "i \<in> set inputs" for i
      using own res that by (auto simp: feeds_def)
    have "\<exists>chk. collect_inputs r t (aid # visiting) checked (task_refs t) [] = Inr (inputs, chk)"
      by (rule "1.IH"[OF vis False own refl res])
         (use can edge "1.prems"(2) in \<open>auto intro: trancl_into_trancl\<close>)
    with own prov vis False show ?thesis by (auto simp: validate_accepted.simps)
  qed
next
  case (2 r t visiting checked acc)
  then show ?case by (simp add: collect_inputs.simps)
next
  case (3 r t visiting checked v vs acc)
  from "3.prems"(1) obtain x where x: "resolve_input r t v = Inr x"
    by (auto simp: bind_ok_Inr_iff)
  show ?case
  proof (cases x)
    case None
    with "3.IH"(1)[OF x None, of inputs] "3.prems" x show ?thesis by (simp add: collect_inputs.simps)
  next
    case (Some aid)
    with "3.prems"(1) x have res: "resolved r t vs (add_once aid acc) = Inr inputs" by simp
    then have "aid \<in> set inputs" using resolved_mono by fastforce
    then obtain chk where chk: "validate_accepted r visiting checked aid = Inr chk"
      using "3.IH"(2)[OF x Some] "3.prems"(2,3) by blast
    from "3.IH"(3)[OF x Some chk res "3.prems"(2,3)] x Some chk show ?thesis
      by (simp add: collect_inputs.simps)
  qed
qed

text \<open>
  C12 (equivalence). Accepted lineage: the memoised search for an artifact succeeds, from any
  memo of canonical artifacts, exactly when the artifact is canonical: it and, transitively,
  everything it was built from are the accepted current outputs of accepted tasks with matching
  recorded provenance, without a cycle.
\<close>

theorem validate_accepted_decides:
  assumes "\<forall>c \<in> set checked. canonical r c"
  shows "(\<exists>checked'. validate_accepted r [] checked aid = Inr checked') \<longleftrightarrow> canonical r aid"
  using assms search_sound(1) search_complete(1)[of r aid "[]"] by fastforce

lemma collect_inputs_fresh:
  "collect_inputs r t [] [] (task_refs t) [] = Inr (inputs, checked) \<Longrightarrow>
     resolved r t (task_refs t) [] = Inr inputs \<and> (\<forall>i \<in> set inputs. canonical r i)"
  using search_sound(2)[of r t "[]" "[]" "task_refs t" "[]"] by simp

lemma input_artifact_ids_iff:
  "input_artifact_ids r t = Inr inputs \<longleftrightarrow>
     resolved r t (task_refs t) [] = Inr inputs \<and> (\<forall>i \<in> set inputs. canonical r i)"
proof
  assume "input_artifact_ids r t = Inr inputs"
  then show "resolved r t (task_refs t) [] = Inr inputs \<and> (\<forall>i \<in> set inputs. canonical r i)"
    by (auto simp: input_artifact_ids_def bind_ok_Inr_iff dest: collect_inputs_fresh)
next
  assume "resolved r t (task_refs t) [] = Inr inputs \<and> (\<forall>i \<in> set inputs. canonical r i)"
  then obtain checked where "collect_inputs r t [] [] (task_refs t) [] = Inr (inputs, checked)"
    using search_complete(2)[of r t "task_refs t" "[]" inputs "[]" "[]"] by auto
  then show "input_artifact_ids r t = Inr inputs" by (simp add: input_artifact_ids_def)
qed

lemma validate_task_inputs_Inr:
  "validate_task_inputs r t = Inr u \<longleftrightarrow>
     (\<exists>inputs aid a. input_artifact_ids r t = Inr inputs \<and> last_opt (tn_artifact_ids t) = Some aid \<and>
        map_of (run_artifacts r) aid = Some a \<and> set (ar_input_artifact_ids a) = set inputs)"
  by (auto simp: validate_task_inputs_def split: sum.splits option.splits)

section \<open>What lineage depends on\<close>

text \<open>
  Two runs agree on acceptance when they hold the same artifacts, accepted list and inputs, and
  the same tasks up to what acceptance does not read: no lineage question tells them apart.
\<close>

definition acceptance_view :: "TaskNode \<Rightarrow> TaskPacket \<times> ident list \<times> bool" where
  "acceptance_view t = (tn_packet t, tn_artifact_ids t, tn_status t = ACCEPTED)"

definition same_acceptance :: "Run \<Rightarrow> Run \<Rightarrow> bool" where
  "same_acceptance r r' \<longleftrightarrow> run_artifacts r' = run_artifacts r \<and>
     run_accepted_artifacts r' = run_accepted_artifacts r \<and> run_id r' = run_id r \<and>
     run_available_inputs r' = run_available_inputs r \<and>
     (\<forall>k. map_option acceptance_view (map_of (run_tasks r') k) =
          map_option acceptance_view (map_of (run_tasks r) k))"

lemma same_acceptance_refl [simp]: "same_acceptance r r"
  by (simp add: same_acceptance_def)

lemma same_acceptance_sym: "same_acceptance r r' \<Longrightarrow> same_acceptance r' r"
  by (simp add: same_acceptance_def)

lemma same_acceptance_trans: "same_acceptance r r' \<Longrightarrow> same_acceptance r' r'' \<Longrightarrow> same_acceptance r r''"
  by (simp add: same_acceptance_def)

lemma same_acceptance_set_task:
  "map_of (run_tasks r) k = Some t \<Longrightarrow> acceptance_view t' = acceptance_view t \<Longrightarrow>
     same_acceptance r (set_task k t' r)"
  by (simp add: same_acceptance_def)

lemma same_acceptance_taskD:
  assumes "same_acceptance r r'" and "map_of (run_tasks r) k = Some t"
  obtains t' where "map_of (run_tasks r') k = Some t'" "acceptance_view t' = acceptance_view t"
proof -
  from assms have "map_option acceptance_view (map_of (run_tasks r') k) = Some (acceptance_view t)"
    by (simp add: same_acceptance_def)
  then show ?thesis using that by (cases "map_of (run_tasks r') k") auto
qed

lemma same_acceptance_taskN:
  "same_acceptance r r' \<Longrightarrow> map_of (run_tasks r) k = None \<Longrightarrow> map_of (run_tasks r') k = None"
  unfolding same_acceptance_def by (metis map_option_is_None)

lemma resolve_input_same:
  assumes same: "same_acceptance r r'" and packet: "tn_packet t' = tn_packet t"
    and res: "resolve_input r t v = Inr x"
  shows "resolve_input r' t' v = Inr x"
proof (cases "map_of (run_tasks r) v")
  case None
  with same have "map_of (run_tasks r') v = None" by (rule same_acceptance_taskN)
  with None same packet res show ?thesis
    by (simp add: resolve_input_def same_acceptance_def split: if_splits)
next
  case (Some u)
  with same obtain u' where "map_of (run_tasks r') v = Some u'" "acceptance_view u' = acceptance_view u"
    by (rule same_acceptance_taskD)
  with Some res show ?thesis
    by (auto simp: resolve_input_def acceptance_view_def split: option.splits if_splits)
qed

lemma resolved_same:
  assumes "same_acceptance r r'" and "tn_packet t' = tn_packet t"
  shows "resolved r t vs acc = Inr inputs \<Longrightarrow> resolved r' t' vs acc = Inr inputs"
proof (induction vs arbitrary: acc)
  case Nil
  then show ?case by simp
next
  case (Cons v vs)
  then obtain x where x: "resolve_input r t v = Inr x" by (auto simp: bind_ok_Inr_iff)
  from Cons x resolve_input_same[OF assms x] show ?case by simp
qed

lemma canonical_owner_same:
  assumes "same_acceptance r r'" and own: "canonical_owner r aid = Some (a, t)"
  obtains t' where "canonical_owner r' aid = Some (a, t')" "tn_packet t' = tn_packet t"
proof -
  from own have t: "map_of (run_tasks r) (ar_task_id a) = Some t" by (simp add: canonical_owner_Some)
  with assms(1) obtain t' where t': "map_of (run_tasks r') (ar_task_id a) = Some t'"
    "acceptance_view t' = acceptance_view t" by (rule same_acceptance_taskD)
  with own assms(1) that[of t'] show ?thesis
    by (auto simp: canonical_owner_Some acceptance_view_def same_acceptance_def)
qed

lemma canonical_same: "canonical r aid \<Longrightarrow> same_acceptance r r' \<Longrightarrow> canonical r' aid"
proof (induction rule: canonical.induct)
  case (canonicalI aid a t inputs)
  from canonicalI.prems canonicalI.hyps(1) obtain t'
    where own: "canonical_owner r' aid = Some (a, t')" and p: "tn_packet t' = tn_packet t"
    by (rule canonical_owner_same)
  have "resolved r' t' (task_refs t') [] = Inr inputs"
    using resolved_same[OF canonicalI.prems p canonicalI.hyps(2)] p by (simp add: task_refs_def)
  from own this canonicalI.hyps(3) show ?case
    by (rule canonical.canonicalI) (use canonicalI.IH canonicalI.prems in blast)
qed

lemma input_artifact_ids_same:
  assumes "same_acceptance r r'" and "tn_packet t' = tn_packet t"
  shows "input_artifact_ids r' t' = Inr inputs \<longleftrightarrow> input_artifact_ids r t = Inr inputs"
proof -
  have refs: "task_refs t' = task_refs t" using assms(2) by (simp add: task_refs_def)
  have "resolved r' t' (task_refs t) [] = Inr inputs \<longleftrightarrow> resolved r t (task_refs t) [] = Inr inputs"
    using resolved_same[OF assms] resolved_same[OF same_acceptance_sym[OF assms(1)] assms(2)[symmetric]]
    by blast
  moreover have "canonical r' i \<longleftrightarrow> canonical r i" for i
    using canonical_same assms(1) same_acceptance_sym by blast
  ultimately show ?thesis by (simp add: input_artifact_ids_iff refs)
qed

end
