(* ===== verification/Readiness.thy ===== *)
theory Readiness
  imports Graph Lineage
begin

text \<open>
  Readiness and its upkeep: \<open>_readiness_blocker\<close>, \<open>_ready\<close>, \<open>_refreshable_blocker\<close> and \<open>_refresh\<close>.
  The loop of \<open>_refresh\<close> decides each task on the snapshot as the tasks before it left it; the
  lemmas show that this order never matters for who is ready, so a refresh settles the snapshot.
\<close>

section \<open>The code\<close>

text \<open>A gate holds when its request is approved by a recorded decision and is the same to the letter.\<close>

definition gate_satisfied :: "Run \<Rightarrow> ApprovalGate \<Rightarrow> bool" where
  "gate_satisfied r gate =
     (case map_of (run_approvals r) (ag_request_id gate) of
        None \<Rightarrow> False
      | Some request \<Rightarrow>
          aq_status request = AP_APPROVED \<and>
          (case map_of (run_approval_decisions r) (ag_request_id gate) of
             None \<Rightarrow> False | Some decision \<Rightarrow> al_approved decision) \<and>
          aq_action request = ag_action gate \<and>
          aq_scope_digest request = ag_scope_digest gate \<and>
          aq_scope_json request = ag_scope_json gate)"

definition readiness_blocker :: "Run \<Rightarrow> TaskNode \<Rightarrow> string option" where
  "readiness_blocker r t =
     (case input_artifact_ids r t of
        Inl message \<Rightarrow> Some message
      | Inr inputs \<Rightarrow>
          if tn_capability t = DEVELOPER_SANDBOX \<and> \<not> present (tn_workspace_id t)
          then Some ''developer sandbox task has no bound workspace''
          else if tn_approval_ids t \<noteq> [] then Some ''task has unresolved approval gates''
          else (case find (\<lambda>g. \<not> gate_satisfied r g) (tn_approval_gates t) of
                  Some gate \<Rightarrow> Some (''approval gate '' @ ag_request_id gate @ '' is not exactly approved'')
                | None \<Rightarrow>
                    if tp_acceptance_criteria (tn_packet t) = []
                    then Some ''task packet has no acceptance criteria'' else None))"

definition ready :: "Run \<Rightarrow> TaskNode \<Rightarrow> bool" where
  "ready r t = (readiness_blocker r t = None)"

definition refreshable_blocker :: "TaskNode \<Rightarrow> bool" where
  "refreshable_blocker t =
     (let blocker = (case tn_blocker t of None \<Rightarrow> '''' | Some b \<Rightarrow> b) in
      blocker \<in> set REFRESHABLE_BLOCKERS \<or> starts_with blocker (blocker_text READINESS_LAPSED))"

text \<open>One pass of the loop body on the task under a key.\<close>

definition refresh_task :: "Run \<Rightarrow> ident \<Rightarrow> TaskNode \<Rightarrow> py_error + (Run \<times> Event list)" where
  "refresh_task r k t =
     (if tn_status t = PLANNED \<and> ready r t then
        bind_ok (transition r t READY ''Dependencies and input gates satisfied'')
          (\<lambda>(t', evs). Inr (set_task k t' r, evs))
      else if tn_status t = BLOCKED \<and> refreshable_blocker t \<and> ready r t then
        bind_ok (transition r (t\<lparr>tn_blocker := None\<rparr>) READY ''Capability prerequisites satisfied'')
          (\<lambda>(t', evs). Inr (set_task k t' r, evs))
      else if tn_status t = READY then
        (case readiness_blocker r t of
           None \<Rightarrow> Inr (r, [])
         | Some lapsed \<Rightarrow>
             bind_ok (transition r t BLOCKED lapsed)
               (\<lambda>(t', evs). Inr (set_task k
                  (t'\<lparr>tn_blocker := Some (blocker_text READINESS_LAPSED @ '': '' @ lapsed)\<rparr>) r, evs)))
      else Inr (r, []))"

fun refresh_from :: "ident list \<Rightarrow> Run \<Rightarrow> py_error + (Run \<times> Event list)" where
  "refresh_from [] r = Inr (r, [])"
| "refresh_from (k # ks) r =
     (case map_of (run_tasks r) k of
        None \<Rightarrow> refresh_from ks r
      | Some t \<Rightarrow>
          bind_ok (refresh_task r k t) (\<lambda>(r1, evs1).
            bind_ok (refresh_from ks r1) (\<lambda>(r2, evs2). Inr (r2, evs1 @ evs2))))"

definition refresh :: "Run \<Rightarrow> py_error + (Run \<times> Event list)" where
  "refresh r = refresh_from (map fst (run_tasks r)) r"

section \<open>Who is ready\<close>

lemma ready_iff:
  "ready r t \<longleftrightarrow> (\<exists>inputs. input_artifact_ids r t = Inr inputs) \<and>
     (tn_capability t = DEVELOPER_SANDBOX \<longrightarrow> present (tn_workspace_id t)) \<and>
     tn_approval_ids t = [] \<and> (\<forall>g \<in> set (tn_approval_gates t). gate_satisfied r g) \<and>
     tp_acceptance_criteria (tn_packet t) \<noteq> []"
proof (cases "find (\<lambda>g. \<not> gate_satisfied r g) (tn_approval_gates t)")
  case None
  then have "\<forall>g \<in> set (tn_approval_gates t). gate_satisfied r g" by (auto simp: find_None_iff)
  with None show ?thesis by (auto simp: ready_def readiness_blocker_def split: sum.splits)
next
  case (Some g)
  then have "g \<in> set (tn_approval_gates t)" "\<not> gate_satisfied r g" by (auto simp: find_Some_iff)
  with Some show ?thesis by (auto simp: ready_def readiness_blocker_def split: sum.splits)
qed

lemma readiness_blocker_nonempty: "readiness_blocker r t = Some m \<Longrightarrow> m \<noteq> ''''"
proof -
  have res: "resolve_input r t v = Inl e \<Longrightarrow> e \<noteq> ''''" for v e
    by (auto simp: resolve_input_def split: option.splits if_splits)
  have val: "validate_accepted r vis chk aid = Inl e \<Longrightarrow> e \<noteq> ''''"
    "collect_inputs r u vis chk vs acc = Inl e \<Longrightarrow> e \<noteq> ''''" for vis chk aid u vs acc e
  proof (induction r vis chk aid and r u vis chk vs acc arbitrary: e and e
      rule: validate_accepted_collect_inputs.induct)
    case (1 r visiting checked aid)
    then show ?case
      by (auto simp: validate_accepted.simps bind_ok_def split: if_splits option.splits sum.splits)
  next
    case (2 r t visiting checked inputs)
    then show ?case by (simp add: collect_inputs.simps)
  next
    case (3 r t visiting checked v vs inputs)
    show ?case
    proof (cases "resolve_input r t v")
      case (Inl a)
      with 3 show ?thesis
        by (auto simp: collect_inputs.simps resolve_input_def split: option.splits if_splits)
    next
      case (Inr x)
      with 3 show ?thesis
        by (cases x) (auto simp: collect_inputs.simps bind_ok_def split: sum.splits)
    qed
  qed
  assume "readiness_blocker r t = Some m"
  then show ?thesis
    by (auto simp: readiness_blocker_def input_artifact_ids_def bind_ok_def dest: val(2)
        split: sum.splits if_splits option.splits)
qed

text \<open>What readiness reads of a task, and of a run.\<close>

definition gating_view :: "TaskNode \<Rightarrow> TaskPacket \<times> CapabilityProfile \<times> ident option \<times> ident list \<times> ApprovalGate list" where
  "gating_view t = (tn_packet t, tn_capability t, tn_workspace_id t, tn_approval_ids t, tn_approval_gates t)"

lemma ready_same:
  assumes "same_acceptance r r'" and "run_approvals r' = run_approvals r"
    and "run_approval_decisions r' = run_approval_decisions r" and "gating_view t' = gating_view t"
  shows "ready r' t' = ready r t"
proof -
  have "gate_satisfied r' g = gate_satisfied r g" for g
    unfolding gate_satisfied_def assms(2,3) ..
  moreover have "tn_packet t' = tn_packet t" using assms(4) by (simp add: gating_view_def)
  then have "(\<exists>i. input_artifact_ids r' t' = Inr i) = (\<exists>i. input_artifact_ids r t = Inr i)"
    using input_artifact_ids_same[OF assms(1)] by blast
  ultimately show ?thesis using assms(4) by (simp add: ready_iff gating_view_def)
qed

section \<open>A refresh settles the snapshot\<close>

text \<open>What a refresh does to one task, decided on the snapshot before it.\<close>

definition settle_step :: "Run \<Rightarrow> TaskNode \<Rightarrow> TaskNode \<Rightarrow> bool" where
  "settle_step r t t' =
     (if tn_status t = PLANNED \<and> ready r t then t' = t\<lparr>tn_status := READY\<rparr>
      else if tn_status t = BLOCKED \<and> refreshable_blocker t \<and> ready r t
      then t' = t\<lparr>tn_blocker := None, tn_status := READY\<rparr>
      else if tn_status t = READY \<and> \<not> ready r t
      then (\<exists>m. t' = t\<lparr>tn_status := BLOCKED,
                  tn_blocker := Some (blocker_text READINESS_LAPSED @ '': '' @ m)\<rparr>)
      else t' = t)"

lemma settle_step_views:
  assumes "settle_step r t t'"
  shows "acceptance_view t' = acceptance_view t" and "gating_view t' = gating_view t"
  using assms by (auto simp: settle_step_def acceptance_view_def gating_view_def split: if_splits)

lemma settle_step_same:
  assumes "same_acceptance r r'" and "run_approvals r' = run_approvals r"
    and "run_approval_decisions r' = run_approval_decisions r"
  shows "settle_step r' t t' = settle_step r t t'"
  using ready_same[OF assms refl] by (simp add: settle_step_def)

lemma refresh_task_spec:
  assumes "map_of (run_tasks r) k = Some t"
  obtains t' evs where "refresh_task r k t = Inr (set_task k t' r, evs)" "settle_step r t t'"
    "\<And>e. e \<in> set evs \<Longrightarrow> ev_run_id e = run_id r"
proof -
  have self: "set_task k t r = r"
    using assms by (simp add: set_task_def update_triv)
  show ?thesis
  proof (cases "tn_status t = READY \<and> \<not> ready r t")
    case True
    then obtain m where m: "readiness_blocker r t = Some m" by (auto simp: ready_def)
    show ?thesis
      by (rule that[of "t\<lparr>tn_status := BLOCKED, tn_blocker := Some (blocker_text READINESS_LAPSED @ '': '' @ m)\<rparr>"])
         (use True m in \<open>auto simp: refresh_task_def settle_step_def transition_def ready_def\<close>)
  next
    case False
    note noready = False
    show ?thesis
    proof (cases "tn_status t = PLANNED \<and> ready r t")
      case True
      then show ?thesis
        by (intro that[of "t\<lparr>tn_status := READY\<rparr>"])
           (auto simp: refresh_task_def settle_step_def transition_def)
    next
      case False
      note noplan = False
      show ?thesis
      proof (cases "tn_status t = BLOCKED \<and> refreshable_blocker t \<and> ready r t")
        case True
        then show ?thesis
          by (intro that[of "t\<lparr>tn_blocker := None, tn_status := READY\<rparr>"])
             (auto simp: refresh_task_def settle_step_def transition_def)
      next
        case False
        have "refresh_task r k t = Inr (r, [])"
        proof (cases "tn_status t = READY")
          case True
          with noready have "readiness_blocker r t = None" by (simp add: ready_def)
          with True show ?thesis by (simp add: refresh_task_def)
        next
          case no: False
          show ?thesis unfolding refresh_task_def using noplan False no by argo
        qed
        moreover have "settle_step r t t" unfolding settle_step_def using noplan noready False by argo
        ultimately show ?thesis using that[of t "[]"] self by simp
      qed
    qed
  qed
qed

lemma refresh_from_spec:
  assumes "distinct ks"
  shows "\<exists>r' evs. refresh_from ks r = Inr (r', evs) \<and> same_acceptance r r' \<and>
     r' = r\<lparr>run_tasks := run_tasks r'\<rparr> \<and> map fst (run_tasks r') = map fst (run_tasks r) \<and>
     (\<forall>e \<in> set evs. ev_run_id e = run_id r) \<and>
     (\<forall>k t. map_of (run_tasks r) k = Some t \<longrightarrow>
        (\<exists>t'. map_of (run_tasks r') k = Some t' \<and> (if k \<in> set ks then settle_step r t t' else t' = t)))"
  using assms
proof (induction ks arbitrary: r)
  case Nil
  then show ?case by simp
next
  case (Cons k ks)
  show ?case
  proof (cases "map_of (run_tasks r) k")
    case None
    with Cons.IH[of r] Cons.prems show ?thesis by (fastforce split: if_splits)
  next
    case (Some t)
    then obtain t1 evs1 where step: "refresh_task r k t = Inr (set_task k t1 r, evs1)"
      and t1: "settle_step r t t1" and ids: "\<And>e. e \<in> set evs1 \<Longrightarrow> ev_run_id e = run_id r"
      by (rule refresh_task_spec) blast
    let ?r1 = "set_task k t1 r"
    have same: "same_acceptance r ?r1"
      using Some settle_step_views(1)[OF t1] by (rule same_acceptance_set_task)
    have keys: "map fst (run_tasks ?r1) = map fst (run_tasks r)"
      using Some by (simp add: keys_update map_of_in_keys)
    obtain r2 evs2 where ih: "refresh_from ks ?r1 = Inr (r2, evs2)" "same_acceptance ?r1 r2"
      "r2 = ?r1\<lparr>run_tasks := run_tasks r2\<rparr>" "map fst (run_tasks r2) = map fst (run_tasks ?r1)"
      "\<forall>e \<in> set evs2. ev_run_id e = run_id ?r1"
      and each: "\<forall>j t. map_of (run_tasks ?r1) j = Some t \<longrightarrow>
        (\<exists>t'. map_of (run_tasks r2) j = Some t' \<and> (if j \<in> set ks then settle_step ?r1 t t' else t' = t))"
      using Cons.IH[of ?r1] Cons.prems by auto
    have "\<exists>t'. map_of (run_tasks r2) j = Some t' \<and> (if j \<in> set (k # ks) then settle_step r u t' else t' = u)"
      if "map_of (run_tasks r) j = Some u" for j u
    proof (cases "j = k")
      case True
      have "map_of (run_tasks ?r1) k = Some t1" by simp
      with each Cons.prems have "map_of (run_tasks r2) k = Some t1" by fastforce
      with True that Some t1 show ?thesis by simp
    next
      case False
      with that have "map_of (run_tasks ?r1) j = Some u" by simp
      with each obtain t' where "map_of (run_tasks r2) j = Some t'"
        "if j \<in> set ks then settle_step ?r1 u t' else t' = u" by blast
      with False settle_step_same[OF same] show ?thesis by auto
    qed
    moreover have "r2 = r\<lparr>run_tasks := run_tasks r2\<rparr>"
      using ih(3) by (metis (no_types, lifting) Run.surjective Run.update_convs(8) set_task_def)
    ultimately show ?thesis
      using Some step ih same keys ids same_acceptance_trans[OF same ih(2)] by auto
  qed
qed


text \<open>The relation between a snapshot and its refresh that the operations build on.\<close>

definition refreshed :: "Run \<Rightarrow> Run \<Rightarrow> bool" where
  "refreshed r r' \<longleftrightarrow> same_acceptance r r' \<and> r' = r\<lparr>run_tasks := run_tasks r'\<rparr> \<and>
     map fst (run_tasks r') = map fst (run_tasks r) \<and>
     (\<forall>k t. map_of (run_tasks r) k = Some t \<longrightarrow>
        (\<exists>t'. map_of (run_tasks r') k = Some t' \<and> settle_step r t t'))"

definition settled :: "Run \<Rightarrow> bool" where
  "settled r \<longleftrightarrow> (\<forall>k t. map_of (run_tasks r) k = Some t \<longrightarrow>
     (tn_status t = PLANNED \<longrightarrow> \<not> ready r t) \<and> (tn_status t = READY \<longrightarrow> ready r t) \<and>
     (tn_status t = BLOCKED \<longrightarrow> refreshable_blocker t \<longrightarrow> \<not> ready r t))"

lemma refresh_total:
  assumes "distinct (map fst (run_tasks r))"
  obtains r' evs where "refresh r = Inr (r', evs)" "refreshed r r'"
    "\<And>e. e \<in> set evs \<Longrightarrow> ev_run_id e = run_id r"
proof -
  obtain r' evs where spec: "refresh_from (map fst (run_tasks r)) r = Inr (r', evs)"
    "same_acceptance r r'" "r' = r\<lparr>run_tasks := run_tasks r'\<rparr>"
    "map fst (run_tasks r') = map fst (run_tasks r)" "\<forall>e \<in> set evs. ev_run_id e = run_id r"
    "\<forall>k t. map_of (run_tasks r) k = Some t \<longrightarrow>
       (\<exists>t'. map_of (run_tasks r') k = Some t' \<and>
         (if k \<in> set (map fst (run_tasks r)) then settle_step r t t' else t' = t))"
    using refresh_from_spec[OF assms, of r] by blast
  have "\<exists>t'. map_of (run_tasks r') k = Some t' \<and> settle_step r t t'"
    if "map_of (run_tasks r) k = Some t" for k t
    using spec(6) that map_of_in_keys[OF that] by (auto split: if_splits)
  then have "refreshed r r'" unfolding refreshed_def using spec(2,3,4) by blast
  with spec(1,5) show ?thesis using that unfolding refresh_def by blast
qed

lemma refresh_refreshed:
  "refresh r = Inr (r', evs) \<Longrightarrow> distinct (map fst (run_tasks r)) \<Longrightarrow> refreshed r r'"
  by (elim refresh_total) simp

lemma refresh_events:
  "refresh r = Inr (r', evs) \<Longrightarrow> distinct (map fst (run_tasks r)) \<Longrightarrow> e \<in> set evs \<Longrightarrow>
     ev_run_id e = run_id r"
  by (elim refresh_total) simp

lemma refreshed_task:
  assumes "refreshed r r'" and "map_of (run_tasks r') k = Some t'"
  obtains t where "map_of (run_tasks r) k = Some t" "settle_step r t t'"
proof -
  from assms have "k \<in> fst ` set (run_tasks r)"
    by (metis list.set_map map_of_in_keys refreshed_def)
  then obtain t where t: "map_of (run_tasks r) k = Some t" by (auto simp: keys_map_of)
  with assms show ?thesis using that by (force simp: refreshed_def)
qed

text \<open>A refresh changes the tasks and nothing else.\<close>

lemma refreshed_frame:
  assumes "refreshed r r'"
  shows "run_artifacts r' = run_artifacts r" "run_accepted_artifacts r' = run_accepted_artifacts r"
    "run_approvals r' = run_approvals r" "run_approval_decisions r' = run_approval_decisions r"
    "run_id r' = run_id r" "run_status r' = run_status r" "run_plan r' = run_plan r"
    "run_version r' = run_version r" "run_event_cursor r' = run_event_cursor r"
    "run_failures r' = run_failures r" "run_recoveries r' = run_recoveries r"
    "run_decisions r' = run_decisions r" "run_acceptances r' = run_acceptances r"
    "run_available_inputs r' = run_available_inputs r" "run_replans r' = run_replans r"
    "run_capability_requests r' = run_capability_requests r"
    "run_usage_records r' = run_usage_records r" "run_unresolved_issues r' = run_unresolved_issues r"
    "run_final_result r' = run_final_result r" "run_objective r' = run_objective r" "run_schema_version r' = run_schema_version r"
    "map fst (run_tasks r') = map fst (run_tasks r)"
proof -
  from assms obtain ts where r': "r' = r\<lparr>run_tasks := ts\<rparr>" unfolding refreshed_def by blast
  show "run_artifacts r' = run_artifacts r" "run_accepted_artifacts r' = run_accepted_artifacts r"
    "run_approvals r' = run_approvals r" "run_approval_decisions r' = run_approval_decisions r"
    "run_id r' = run_id r" "run_status r' = run_status r" "run_plan r' = run_plan r"
    "run_version r' = run_version r" "run_event_cursor r' = run_event_cursor r"
    "run_failures r' = run_failures r" "run_recoveries r' = run_recoveries r"
    "run_decisions r' = run_decisions r" "run_acceptances r' = run_acceptances r"
    "run_available_inputs r' = run_available_inputs r" "run_replans r' = run_replans r"
    "run_capability_requests r' = run_capability_requests r"
    "run_usage_records r' = run_usage_records r" "run_unresolved_issues r' = run_unresolved_issues r"
    "run_final_result r' = run_final_result r" "run_objective r' = run_objective r" "run_schema_version r' = run_schema_version r"
    unfolding r' by simp_all
  show "map fst (run_tasks r') = map fst (run_tasks r)" using assms unfolding refreshed_def by blast
qed

lemma refreshed_same: "refreshed r r' \<Longrightarrow> same_acceptance r r'"
  unfolding refreshed_def by blast

lemma refreshed_ready:
  assumes "refreshed r r'" and "gating_view t' = gating_view t"
  shows "ready r' t' = ready r t"
  using ready_same[OF refreshed_same[OF assms(1)] refreshed_frame(3,4)[OF assms(1)] assms(2)] .

lemma refreshed_settled:
  assumes re: "refreshed r r'"
  shows "settled r'"
  unfolding settled_def
proof (intro allI impI)
  fix k t'
  assume "map_of (run_tasks r') k = Some t'"
  with re obtain t where step: "settle_step r t t'" by (rule refreshed_task)
  have rdy: "ready r' t' = ready r t"
    using re settle_step_views(2)[OF step] by (rule refreshed_ready)
  show "(tn_status t' = PLANNED \<longrightarrow> \<not> ready r' t') \<and> (tn_status t' = READY \<longrightarrow> ready r' t') \<and>
      (tn_status t' = BLOCKED \<longrightarrow> refreshable_blocker t' \<longrightarrow> \<not> ready r' t')"
    using step unfolding rdy settle_step_def by (auto split: if_splits)
qed

text \<open>
  C13 (functional). Refreshing a snapshot never raises and settles it: afterwards no planned task
  is delegatable without being advertised, no task advertised as ready would be refused by the
  gates, and no task waits on a blocker that has been resolved.
\<close>

theorem refresh_settles:
  assumes "distinct (map fst (run_tasks r))"
  shows "\<exists>r' evs. refresh r = Inr (r', evs) \<and> settled r'"
proof -
  obtain r' evs where ok: "refresh r = Inr (r', evs)" and re: "refreshed r r'"
    using assms by (rule refresh_total)
  from re have "settled r'" by (rule refreshed_settled)
  with ok show ?thesis by blast
qed

lemma settled_refresh_from: "settled r \<Longrightarrow> refresh_from ks r = Inr (r, [])"
proof (induction ks)
  case Nil
  then show ?case by simp
next
  case (Cons k ks)
  show ?case
  proof (cases "map_of (run_tasks r) k")
    case None
    with Cons show ?thesis by simp
  next
    case (Some t)
    with Cons.prems have "tn_status t = PLANNED \<longrightarrow> \<not> ready r t" "tn_status t = READY \<longrightarrow> ready r t"
      "tn_status t = BLOCKED \<longrightarrow> refreshable_blocker t \<longrightarrow> \<not> ready r t"
      unfolding settled_def by blast+
    then have "refresh_task r k t = Inr (r, [])"
      by (auto simp: refresh_task_def ready_def split: option.splits)
    with Some Cons show ?thesis by simp
  qed
qed

text \<open>
  A second refresh in a row changes nothing and records no event.
\<close>

theorem refresh_idempotent:
  assumes "refresh r = Inr (r', evs)" and "distinct (map fst (run_tasks r))"
  shows "refresh r' = Inr (r', [])"
proof -
  from assms have "refreshed r r'" by (rule refresh_refreshed)
  then have "settled r'" by (rule refreshed_settled)
  then show ?thesis by (simp add: refresh_def settled_refresh_from)
qed

end
