(* ===== verification/Planning.thy ===== *)
theory Planning
  imports Readiness
begin

text \<open>
  Creating and planning a run: \<open>create_run\<close>, \<open>set_completion_criteria\<close>, \<open>add_tasks\<close>,
  \<open>register_input\<close>, \<open>bind_workspace\<close> and \<open>replace_workspace\<close> of the kernel. An identifier that the
  source draws from \<open>uuid4\<close> is an argument.
\<close>

section \<open>Finishing an operation\<close>

text \<open>\<open>self._refresh(run, events)\<close> as the last statement, after the events so far.\<close>

definition then_refresh :: "'a \<Rightarrow> Run \<Rightarrow> Event list \<Rightarrow> 'a op_result" where
  "then_refresh x r evs = bind_ok (refresh r) (\<lambda>(r', evs'). Inr (x, r', evs @ evs'))"

lemma then_refresh_Inr:
  "then_refresh x r evs = Inr (y, r', evs') \<longleftrightarrow>
     (\<exists>more. refresh r = Inr (r', more) \<and> y = x \<and> evs' = evs @ more)"
  by (auto simp: then_refresh_def bind_ok_Inr_iff)

section \<open>A new run\<close>

definition initial_plan :: "string \<Rightarrow> string list \<Rightarrow> int \<Rightarrow> WorkPlan" where
  "initial_plan objective criteria max_replans =
     \<lparr>wp_objective = objective, wp_completion_criteria = criteria, wp_task_ids = [],
      wp_assumptions = [], wp_risks = [], wp_status = ''active'', wp_revision = 0,
      wp_max_replans = max_replans, wp_revision_history = []\<rparr>"

definition initial_run :: "ident \<Rightarrow> string \<Rightarrow> string list \<Rightarrow> WorkPlan \<Rightarrow> Run" where
  "initial_run rid objective constraints plan =
     \<lparr>run_schema_version = 2, run_id = rid, run_version = 0, run_objective = objective,
      run_constraints = constraints, run_status = ''active'', run_plan = plan, run_tasks = [],
      run_artifacts = [], run_accepted_artifacts = [], run_available_inputs = [],
      run_decisions = [], run_usage_records = [], run_acceptances = [], run_failures = [],
      run_recoveries = [], run_approvals = [], run_approval_decisions = [],
      run_capability_requests = [], run_replans = [], run_unresolved_issues = [],
      run_event_cursor = 0, run_final_result = None\<rparr>"

text \<open>
  \<open>create_run\<close> up to the save. \<open>WorkPlan\<close> itself refuses an empty list of criteria and a
  negative replan budget.
\<close>

definition create_run ::
    "ident \<Rightarrow> string \<Rightarrow> string list \<Rightarrow> string list \<Rightarrow> int \<Rightarrow> py_error + (Run \<times> Event list)" where
  "create_run rid objective criteria constraints max_replans =
     (if \<not> substantive objective \<or> \<not> (\<forall>x \<in> set criteria. substantive x)
      then Inl (GateError ''Objective and criteria must be substantive'')
      else if criteria = [] \<or> max_replans < 0 then Inl (ValidationError ''WorkPlan'')
      else (let r = initial_run rid objective constraints (initial_plan objective criteria max_replans)
            in Inr (r, [event r ''run.created'' []])))"

definition set_completion_criteria :: "string list \<Rightarrow> unit operation" where
  "set_completion_criteria criteria r =
     (if criteria = [] \<or> \<not> (\<forall>c \<in> set criteria. substantive c) \<or>
         (\<exists>(k, t) \<in> set (run_tasks r). tn_attempts t \<noteq> 0)
      then Inl (GateError ''Completion criteria must be defined before execution'')
      else Inr ((), r\<lparr>run_plan := (run_plan r)\<lparr>wp_completion_criteria := criteria\<rparr>\<rparr>,
        [event r ''plan.criteria_defined'' [(''criteria'', VStrs criteria)]]))"

section \<open>Tasks\<close>

definition reject_identifier_collision :: "Run \<Rightarrow> ident \<Rightarrow> py_error + unit" where
  "reject_identifier_collision r tid =
     (if tid \<in> fst ` set (run_available_inputs r)
      then Inl (GateError (''Task ID collides with a registered input name: '' @ tid))
      else if tid \<in> fst ` set (run_artifacts r)
      then Inl (GateError (''Task ID collides with an artifact ID: '' @ tid))
      else Inr ())"

definition is_fresh_task :: "Run \<Rightarrow> TaskNode \<Rightarrow> bool" where
  "is_fresh_task r t =
     (\<not> (task_id t \<in> fst ` set (run_tasks r) \<or> tn_status t \<noteq> PLANNED \<or> tn_attempts t \<noteq> 0 \<or>
         tn_artifact_ids t \<noteq> [] \<or> tn_assignment t \<noteq> None \<or> tn_attempt_baseline t \<noteq> 0 \<or>
         tn_revision_baseline t \<noteq> 0))"

definition add_task :: "TaskNode \<Rightarrow> Run \<Rightarrow> py_error + (Run \<times> Event list)" where
  "add_task t r =
     (if \<not> is_fresh_task r t then Inl (GateError ''Only fresh unique tasks can be added'')
      else bind_ok (reject_identifier_collision r (task_id t)) (\<lambda>_.
           bind_ok (validate_capability_checks t None) (\<lambda>_.
             Inr ((set_task (task_id t) t r)
                    \<lparr>run_plan := (run_plan r)\<lparr>wp_task_ids := wp_task_ids (run_plan r) @ [task_id t]\<rparr>\<rparr>,
                  [event r ''task.created'' [(''task_id'', VStr (task_id t))]]))))"

fun add_each :: "TaskNode list \<Rightarrow> Run \<Rightarrow> py_error + (Run \<times> Event list)" where
  "add_each [] r = Inr (r, [])"
| "add_each (t # ts) r =
     bind_ok (add_task t r) (\<lambda>(r1, evs1).
       bind_ok (add_each ts r1) (\<lambda>(r2, evs2). Inr (r2, evs1 @ evs2)))"

definition add_tasks :: "TaskNode list \<Rightarrow> unit operation" where
  "add_tasks tasks r =
     (if wp_revision (run_plan r) \<noteq> 0 \<or> (\<exists>(k, t) \<in> set (run_tasks r). tn_attempts t \<noteq> 0)
      then Inl (GateError ''Use explicit replan after execution begins'')
      else bind_ok (add_each tasks r) (\<lambda>(r1, evs).
           bind_ok (graph r1) (\<lambda>_. then_refresh () r1 evs)))"

definition register_input :: "ident \<Rightarrow> string \<Rightarrow> unit operation" where
  "register_input name reference r =
     (if \<not> substantive reference \<or> name \<in> fst ` set (run_available_inputs r) \<or>
         name \<in> fst ` set (run_tasks r) \<or> name \<in> fst ` set (run_artifacts r)
      then Inl (GateError ''Input reference must be nonempty and immutable'')
      else then_refresh ()
        (r\<lparr>run_available_inputs := AList.update name reference (run_available_inputs r)\<rparr>)
        [event r ''input.registered'' [(''name'', VStr name), (''reference'', VStr reference)]])"

section \<open>Workspaces\<close>

definition bind_workspace :: "ident \<Rightarrow> ident \<Rightarrow> unit operation" where
  "bind_workspace tid workspace_id r =
     bind_ok (dget (run_tasks r) tid) (\<lambda>t.
       if present (tn_workspace_id t) \<or> tn_attempts t \<noteq> 0 \<or>
          tn_status t \<notin> {PLANNED, READY, BLOCKED} \<or> \<not> substantive workspace_id
       then Inl (GateError ''Workspace binding must be initial and precede delegation'')
       else if tn_status t = BLOCKED \<and>
               tn_blocker t \<noteq> Some (blocker_text CAPABILITY_PREREQUISITES_MISSING)
       then Inl (GateError ''Workspace cannot resolve this blocker'')
       else then_refresh () (set_task tid (t\<lparr>tn_workspace_id := Some workspace_id\<rparr>) r)
         [event r ''workspace.bound'' [(''task_id'', VStr tid), (''workspace_id'', VStr workspace_id)]])"

definition replace_workspace :: "ident \<Rightarrow> ident \<Rightarrow> ident \<Rightarrow> string \<Rightarrow> unit operation" where
  "replace_workspace tid expected_workspace_id new_workspace_id reason r =
     bind_ok (dget (run_tasks r) tid) (\<lambda>t.
       if tn_capability t \<noteq> DEVELOPER_SANDBOX
       then Inl (GateError ''Workspace replacement requires a developer sandbox task'')
       else if tn_status t \<notin> {READY, REVISION_REQUIRED} \<or> tn_attempts t = 0
       then Inl (GateError ''Workspace can only be replaced after recovery in a safe retry state'')
       else if tn_workspace_id t \<noteq> Some expected_workspace_id
       then Inl (GateError ''Expected old workspace does not match persisted task state'')
       else if \<not> substantive new_workspace_id \<or> new_workspace_id = expected_workspace_id \<or>
               \<not> substantive reason
       then Inl (GateError ''Replacement workspace and reason must be substantive'')
       else bind_ok
         (case last_opt (tn_artifact_ids t) of
            None \<Rightarrow> Inr ()
          | Some aid \<Rightarrow>
              bind_ok (dget (run_artifacts r) aid) (\<lambda>a.
                raise_if (ar_status a = ''candidate'')
                  (GateError ''Current candidate must be rejected through failure recovery first'')))
         (\<lambda>_. Inr ((), set_task tid (t\<lparr>tn_workspace_id := Some new_workspace_id\<rparr>) r,
           [event r ''workspace.replaced''
              [(''task_id'', VStr tid), (''old_workspace_id'', VStr expected_workspace_id),
               (''new_workspace_id'', VStr new_workspace_id), (''reason'', VStr reason)]])))"

end
