(* ===== verification/Execution.thy ===== *)
theory Execution
  imports Planning
begin

text \<open>
  Delegated work: \<open>delegate\<close>, \<open>start\<close>, \<open>submit\<close>, \<open>record_provisional_result\<close> and
  \<open>record_capability_request\<close> of the kernel. Every callback of a worker is bound to the task's
  current assignment.
\<close>

text \<open>The task's current assignment is this one, by this worker.\<close>

definition holds_assignment :: "TaskNode \<Rightarrow> ident \<Rightarrow> ident \<Rightarrow> bool" where
  "holds_assignment t aid wid =
     (case tn_assignment t of
        None \<Rightarrow> False | Some a \<Rightarrow> wa_id a = aid \<and> wa_worker_id a = wid)"

lemma holds_assignment_iff:
  "holds_assignment t aid wid \<longleftrightarrow>
     (\<exists>a. tn_assignment t = Some a \<and> wa_id a = aid \<and> wa_worker_id a = wid)"
  by (auto simp: holds_assignment_def split: option.splits)

definition attempts_used :: "TaskNode \<Rightarrow> int" where
  "attempts_used t = tn_attempts t - tn_attempt_baseline t"

definition delegate :: "Orchestrator \<Rightarrow> ident \<Rightarrow> ident \<Rightarrow> ident \<Rightarrow> WorkerAssignment operation" where
  "delegate core new_id tid worker_id r =
     bind_ok (dget (run_tasks r) tid) (\<lambda>t.
       if \<not> substantive worker_id \<or> worker_id = o_manager_id core
       then Inl (GateError ''Worker identity is not delegatable'')
       else if attempts_used t \<ge> tn_max_attempts t
       then Inl (GateError (''Attempt budget exhausted ('' @ show_int (attempts_used t) @ ''/'' @
              show_int (tn_max_attempts t) @ '')''))
       else (case readiness_blocker r t of
         Some blocker \<Rightarrow> Inl (GateError (''Task is not ready: '' @ blocker))
       | None \<Rightarrow>
         if tn_status t \<notin> {READY, REVISION_REQUIRED}
         then Inl (GateError ''Task is not delegatable'')
         else (let assignment = \<lparr>wa_id = new_id, wa_worker_id = worker_id, wa_task_id = tid,
                 wa_capability = tn_capability t, wa_workspace_id = tn_workspace_id t\<rparr> in
           bind_ok (transition r t DELEGATED ''Manager delegation'') (\<lambda>(t1, evs).
             let t2 = t1\<lparr>tn_assignment := Some assignment,
                         tn_assignment_history := tn_assignment_history t1 @ [assignment],
                         tn_attempts := tn_attempts t1 + 1\<rparr> in
             Inr (assignment, set_task tid t2 r,
               evs @ [event r ''assignment.created''
                 [(''assignment'', VAssignment assignment), (''attempt'', VInt (tn_attempts t2))]])))))"

definition start :: "ident \<Rightarrow> unit operation" where
  "start tid r =
     bind_ok (dget (run_tasks r) tid) (\<lambda>t.
       if \<not> ready r t then Inl (GateError ''Execution gates no longer satisfied'')
       else bind_ok (transition r t RUNNING ''Worker started'') (\<lambda>(t1, evs).
         case tn_assignment t1 of
           None \<Rightarrow> Inl (AttributeError ''NoneType has no attribute id'')
         | Some a \<Rightarrow>
             Inr ((), set_task tid t1 r,
               evs @ [event r ''assignment.started''
                 [(''assignment_id'', VStr (wa_id a)), (''task_id'', VStr (task_id t1)),
                  (''worker_id'', VStr (wa_worker_id a))]])))"

definition submit :: "Orchestrator \<Rightarrow> ident \<Rightarrow> ident \<Rightarrow> ident \<Rightarrow> ident \<Rightarrow> WorkerResult \<Rightarrow>
    string option \<Rightarrow> Artifact operation" where
  "submit core new_id tid assignment_id worker_id result workspace_fingerprint r =
     bind_ok (dget (run_tasks r) tid) (\<lambda>t.
       if \<not> holds_assignment t assignment_id worker_id
       then Inl (GateError ''Submission does not match the current worker assignment'')
       else if wr_task_id result \<noteq> tid \<or> wr_status result \<noteq> result_completed \<or>
               \<not> substantive (wr_deliverable result)
       then Inl (GateError ''Expected matching completed candidate; route blockers through fail'')
       else (case input_artifact_ids r t of
         Inl message \<Rightarrow> Inl (GateError message)
       | Inr inputs \<Rightarrow>
         bind_ok (transition r t SUBMITTED ''Candidate received'') (\<lambda>(t1, evs).
           if tn_capability t1 = DEVELOPER_SANDBOX \<and> \<not> present workspace_fingerprint
           then Inl (GateError ''Developer candidate requires observed workspace fingerprint'')
           else (let a = \<lparr>ar_id = new_id, ar_run_id = run_id r, ar_task_id = tid,
                   ar_worker_id = worker_id, ar_kind = ''worker_result'',
                   ar_content = wr_deliverable result,
                   ar_content_digest = o_sha256 core (wr_deliverable result),
                   ar_workspace_fingerprint = workspace_fingerprint,
                   ar_version = int (length (tn_artifact_ids t1)) + 1,
                   ar_predecessor_id = last_opt (tn_artifact_ids t1),
                   ar_input_artifact_ids = inputs, ar_status = ''candidate'',
                   ar_integrated_commit = None, ar_validations = [], ar_reviews = []\<rparr>;
                 t2 = t1\<lparr>tn_result := Some result,
                         tn_artifact_ids := tn_artifact_ids t1 @ [new_id]\<rparr> in
             Inr (a, set_artifact new_id a (set_task tid t2 r),
               evs @
               [event r ''artifact.created'' [(''artifact'', VArtifact a)],
                event r ''artifact.submitted''
                  [(''artifact_id'', VStr new_id), (''task_id'', VStr tid), (''version'', VInt (ar_version a))],
                event r ''assignment.completed''
                  [(''assignment_id'', VStr assignment_id), (''task_id'', VStr (task_id t2)),
                   (''artifact_id'', VStr new_id)]])))))"

text \<open>\<open>_provisional_result\<close>: the task with the worker's partial output.\<close>

definition provisional_result ::
    "TaskNode \<Rightarrow> ident \<Rightarrow> ident \<Rightarrow> WorkerResult \<Rightarrow> py_error + TaskNode" where
  "provisional_result t assignment_id worker_id result =
     (if tn_status t \<noteq> RUNNING \<or> \<not> holds_assignment t assignment_id worker_id
      then Inl (GateError ''Provisional result does not match the current active assignment'')
      else if wr_task_id result \<noteq> task_id t \<or> wr_status result = result_completed
      then Inl (GateError ''Expected a matching blocked or needs_revision result'')
      else Inr (t\<lparr>tn_result := Some result,
        tn_blocker := (if present (wr_blocker result) then wr_blocker result
                       else Some (wr_summary result))\<rparr>))"

definition record_provisional_result ::
    "ident \<Rightarrow> ident \<Rightarrow> ident \<Rightarrow> WorkerResult \<Rightarrow> unit operation" where
  "record_provisional_result tid assignment_id worker_id result r =
     bind_ok (dget (run_tasks r) tid) (\<lambda>t.
     bind_ok (provisional_result t assignment_id worker_id result) (\<lambda>t1.
       Inr ((), set_task tid t1 r,
         [event r ''assignment.result_provisional''
            [(''task_id'', VStr tid), (''assignment_id'', VStr assignment_id),
             (''worker_id'', VStr worker_id), (''result'', VResult result)]])))"

definition record_capability_request ::
    "ident \<Rightarrow> ident \<Rightarrow> ident \<Rightarrow> ident \<Rightarrow> WorkerResult \<Rightarrow> CapabilityRequest operation" where
  "record_capability_request new_id tid assignment_id worker_id result r =
     bind_ok (dget (run_tasks r) tid) (\<lambda>t.
     bind_ok (provisional_result t assignment_id worker_id result) (\<lambda>t1.
       case wr_capability_request result of
         None \<Rightarrow> Inl (GateError ''Structured capability request required'')
       | Some payload \<Rightarrow>
           if cp_requested_capability payload = tn_capability t1
           then Inl (GateError ''Requested capability is already assigned'')
           else if cp_reason payload = '''' \<or> cp_risk payload = ''''
           then Inl (ValidationError ''CapabilityRequest'')
           else (let request = \<lparr>cr_id = new_id, cr_run_id = run_id r, cr_task_id = tid,
                   cr_assignment_id = assignment_id, cr_worker_id = worker_id,
                   cr_requested_capability = cp_requested_capability payload,
                   cr_reason = cp_reason payload, cr_risk = cp_risk payload,
                   cr_status = CR_PENDING, cr_approval_id = None, cr_workspace_id = None\<rparr> in
             Inr (request,
               (set_task tid t1 r)\<lparr>run_capability_requests :=
                  AList.update new_id request (run_capability_requests r)\<rparr>,
               [event r ''capability.requested''
                  [(''request'', VCapabilityRequest request),
                   (''provisional_result'', VResult result)]]))))"

end
