(* ===== verification/Acceptance.thy ===== *)
theory Acceptance
  imports Execution
begin

text \<open>
  The evidence gate: \<open>_candidate\<close>, \<open>validate\<close>, \<open>review\<close>, \<open>accept\<close>, \<open>record_integration\<close> and
  \<open>complete\<close> of the kernel. The Manager's identity comes from the orchestrator, never from the
  caller.
\<close>

section \<open>The current candidate\<close>

definition candidate :: "Orchestrator \<Rightarrow> ident \<Rightarrow> string option \<Rightarrow> Run \<Rightarrow>
    py_error + (Artifact \<times> TaskNode \<times> Run \<times> Event list)" where
  "candidate core artifact_id workspace_fingerprint r =
     bind_ok (dget (run_artifacts r) artifact_id) (\<lambda>a.
     bind_ok (dget (run_tasks r) (ar_task_id a)) (\<lambda>t.
       if o_sha256 core (ar_content a) \<noteq> ar_content_digest a
       then Inl (GateError ''Candidate content changed'')
       else if present (ar_workspace_fingerprint a) \<and>
               ar_workspace_fingerprint a \<noteq> workspace_fingerprint
       then Inl (GateError ''Current workspace fingerprint must match candidate'')
       else (case last_opt (tn_artifact_ids t) of
         None \<Rightarrow> Inl IndexError
       | Some current \<Rightarrow>
         if current \<noteq> artifact_id \<or> ar_status a \<noteq> ''candidate''
         then Inl (GateError ''Not the current candidate'')
         else bind_ok
           (if tn_status t = SUBMITTED then transition r t REVIEWING ''Manager QA started''
            else Inr (t, []))
           (\<lambda>(t1, evs).
             if tn_status t1 \<noteq> REVIEWING then Inl (GateError ''Task is not reviewing'')
             else Inr (a, t1, set_task (ar_task_id a) t1 r, evs)))))"

definition authors :: "TaskNode \<Rightarrow> ident list" where
  "authors t = map wa_worker_id (tn_assignment_history t)"

definition validate :: "Orchestrator \<Rightarrow> ident \<Rightarrow> ident \<Rightarrow> string \<Rightarrow> bool \<Rightarrow> string \<Rightarrow> ident \<Rightarrow>
    string option \<Rightarrow> ArtifactValidation operation" where
  "validate core new_id artifact_id check passed evidence validator_id workspace_fingerprint r =
     bind_ok (candidate core artifact_id workspace_fingerprint r) (\<lambda>(a, t, r1, evs).
       if validator_id = o_manager_id core \<or> validator_id \<in> set (authors t)
       then Inl (GateError ''Author cannot validate own candidate'')
       else if evidence = '''' \<or> validator_id = '''' then Inl (ValidationError ''ArtifactValidation'')
       else (let record = \<lparr>av_id = new_id, av_artifact_id = artifact_id,
               av_content_digest = ar_content_digest a, av_check = check, av_passed = passed,
               av_evidence = evidence, av_validator_id = validator_id\<rparr> in
         Inr (record,
           set_artifact artifact_id (a\<lparr>ar_validations := ar_validations a @ [record]\<rparr>) r1,
           evs @
           [event r ''artifact.validation_started''
              [(''artifact_id'', VStr artifact_id), (''check'', VStr check),
               (''validator_id'', VStr validator_id)],
            event r ''artifact.validation_completed'' [(''validation'', VValidation record)]])))"

definition review :: "Orchestrator \<Rightarrow> ident \<Rightarrow> ident \<Rightarrow> ident \<Rightarrow> bool \<Rightarrow> string \<Rightarrow> string option \<Rightarrow>
    Review operation" where
  "review core new_id artifact_id reviewer_id passed evidence workspace_fingerprint r =
     bind_ok (candidate core artifact_id workspace_fingerprint r) (\<lambda>(a, t, r1, evs).
       if reviewer_id = o_manager_id core \<or> reviewer_id \<in> set (authors t)
       then Inl (GateError ''Reviewer must be independent of all candidate authors'')
       else if evidence = '''' \<or> reviewer_id = '''' then Inl (ValidationError ''Review'')
       else (let record = \<lparr>rv_id = new_id, rv_artifact_id = artifact_id,
               rv_content_digest = ar_content_digest a, rv_reviewer_id = reviewer_id,
               rv_passed = passed, rv_evidence = evidence\<rparr> in
         Inr (record,
           set_artifact artifact_id (a\<lparr>ar_reviews := ar_reviews a @ [record]\<rparr>) r1,
           evs @ [event r ''artifact.reviewed'' [(''review'', VReview record)]])))"

section \<open>Acceptance\<close>

definition evidence_principals :: "TaskNode \<Rightarrow> Artifact \<Rightarrow> ident list" where
  "evidence_principals t a =
     authors t @ map av_validator_id (ar_validations a) @ map rv_reviewer_id (ar_reviews a)"

definition failed_checks :: "Artifact \<Rightarrow> string list" where
  "failed_checks a = sorted_set (map av_check (filter (\<lambda>v. \<not> av_passed v) (ar_validations a)))"

definition missing_checks :: "TaskNode \<Rightarrow> Artifact \<Rightarrow> string list" where
  "missing_checks t a = sorted_set
     (filter (\<lambda>c. c \<notin> set (map av_check (ar_validations a))) (tn_required_checks t))"

definition needs_review :: "TaskNode \<Rightarrow> bool" where
  "needs_review t =
     (tn_review_required t \<or> tn_high_risk t \<or> tn_capability t = DEVELOPER_SANDBOX)"

text \<open>The evidence checks of \<open>accept\<close>, in the source's order.\<close>

definition evidence_gate :: "Orchestrator \<Rightarrow> TaskNode \<Rightarrow> Artifact \<Rightarrow> py_error + unit" where
  "evidence_gate core t a =
     (if o_manager_id core \<in> set (evidence_principals t a)
      then Inl (GateError ''Author cannot accept own output'')
      else if (\<exists>v \<in> set (ar_validations a). av_content_digest v \<noteq> ar_content_digest a) \<or>
              (\<exists>v \<in> set (ar_reviews a). rv_content_digest v \<noteq> ar_content_digest a)
      then Inl (GateError ''Evidence does not match candidate content'')
      else if failed_checks a \<noteq> [] \<or> missing_checks t a \<noteq> []
      then Inl (GateError (''Validation gates failed'' @
        (if failed_checks a \<noteq> [] then ''; failed: '' @ join '', '' (failed_checks a) else '''') @
        (if missing_checks t a \<noteq> [] then ''; missing: '' @ join '', '' (missing_checks t a) else '''')))
      else if needs_review t \<and> (ar_reviews a = [] \<or> \<not> rv_passed (last (ar_reviews a)))
      then Inl (GateError ''Independent review required'')
      else if tn_required_checks t = [] \<and> ar_reviews a = []
      then Inl (GateError ''At least one external validation or review is required'')
      else Inr ())"

definition acceptance_decision ::
    "Orchestrator \<Rightarrow> ident \<Rightarrow> ident \<Rightarrow> Artifact \<Rightarrow> string \<Rightarrow> AcceptanceDecision" where
  "acceptance_decision core new_id tid a reason =
     \<lparr>dc_id = new_id, dc_action = ''ACCEPT'', dc_reason = reason, dc_actor_id = o_manager_id core,
      dc_context = ''Acceptance of artifact '' @ ar_id a @ '' for task '' @ tid,
      dc_options_considered = [''ACCEPT'', ''REVISE'', ''REJECT'', ''REPLACE''],
      dc_consequences = [''Artifact enters canonical state'', ''Accepted dependencies may become ready''],
      dc_affected_ids = [tid],
      dc_evidence = map av_id (ar_validations a) @ map rv_id (ar_reviews a),
      ad_artifact_id = ar_id a\<rparr>"

definition accept :: "Orchestrator \<Rightarrow> ident \<Rightarrow> ident \<Rightarrow> ident option \<Rightarrow> string \<Rightarrow> string option \<Rightarrow>
    AcceptanceDecision operation" where
  "accept core new_id tid manager_id reason workspace_fingerprint r =
     (if manager_id \<noteq> None \<and> manager_id \<noteq> Some (o_manager_id core)
      then Inl (GateError ''Acceptance authority does not match configured Manager'')
      else bind_ok (dget (run_tasks r) tid) (\<lambda>t0.
        case last_opt (tn_artifact_ids t0) of
          None \<Rightarrow> Inl (GateError ''No candidate'')
        | Some artifact_id \<Rightarrow>
          bind_ok (candidate core artifact_id workspace_fingerprint r) (\<lambda>(a, t, r1, evs).
          bind_ok (evidence_gate core t a) (\<lambda>_.
            if \<not> ready r1 t then Inl (GateError ''Inputs are no longer accepted'')
            else bind_ok (validate_task_inputs r1 t) (\<lambda>_.
              if reason = '''' then Inl (ValidationError ''AcceptanceDecision'')
              else (let decision = acceptance_decision core new_id tid a reason;
                    r2 = set_artifact artifact_id (a\<lparr>ar_status := ''accepted''\<rparr>)
                      (r1\<lparr>run_acceptances := run_acceptances r1 @ [decision],
                          run_decisions := run_decisions r1 @ [Decision.truncate decision],
                          run_accepted_artifacts := run_accepted_artifacts r1 @ [ar_id a]\<rparr>) in
                bind_ok (transition r2 t ACCEPTED reason) (\<lambda>(t2, evs2).
                  then_refresh decision (set_task (ar_task_id a) t2 r2)
                    (evs @ evs2 @
                     [event r ''artifact.accepted''
                        [(''artifact_id'', VStr (ar_id a)), (''decision_id'', VStr new_id),
                         (''superseded_failed_checks'', VStrs [])]]))))))))"

section \<open>Integration\<close>

definition full_object_id :: "string \<Rightarrow> bool" where
  "full_object_id commit =
     (length commit \<in> {40, 64} \<and> (\<forall>c \<in> set commit. c \<in> set ''0123456789abcdef''))"

text \<open>
  \<open>record_integration\<close> on one snapshot: recording the same commit again changes nothing and
  records no event, which the code decides before it opens the transaction.
\<close>

definition already_integrated :: "ident \<Rightarrow> string \<Rightarrow> Run \<Rightarrow> bool" where
  "already_integrated artifact_id commit r =
     (case map_of (run_artifacts r) artifact_id of
        None \<Rightarrow> False | Some a \<Rightarrow> ar_integrated_commit a = Some commit)"

definition integrate_artifact :: "ident \<Rightarrow> string \<Rightarrow> unit operation" where
  "integrate_artifact artifact_id commit r =
     (case map_of (run_artifacts r) artifact_id of
        None \<Rightarrow> Inl (GateError ''Only the canonical accepted workspace artifact can be integrated'')
      | Some a \<Rightarrow>
        (case map_of (run_tasks r) (ar_task_id a) of
           None \<Rightarrow> Inl (GateError ''Only the canonical accepted workspace artifact can be integrated'')
         | Some t \<Rightarrow>
           if ar_status a \<noteq> ''accepted'' \<or> artifact_id \<notin> set (run_accepted_artifacts r) \<or>
              tn_status t \<noteq> ACCEPTED \<or> last_opt (tn_artifact_ids t) \<noteq> Some artifact_id \<or>
              \<not> present (ar_workspace_fingerprint a)
           then Inl (GateError ''Only the canonical accepted workspace artifact can be integrated'')
           else if ar_integrated_commit a \<noteq> None
           then Inl (GateError ''Artifact is already integrated at a different commit'')
           else Inr ((), set_artifact artifact_id (a\<lparr>ar_integrated_commit := Some commit\<rparr>) r,
             [event r ''artifact.integrated''
                [(''artifact_id'', VStr artifact_id), (''task_id'', VStr (task_id t)),
                 (''commit'', VStr commit)]])))"

definition record_integration :: "ident \<Rightarrow> string \<Rightarrow> unit operation" where
  "record_integration artifact_id commit r =
     (if \<not> full_object_id commit
      then Inl (GateError ''Integration commit must be a full object id'')
      else if already_integrated artifact_id commit r then Inr ((), r, [])
      else integrate_artifact artifact_id commit r)"

section \<open>Completion\<close>

text \<open>The validations of \<open>complete\<close> that share one memo of checked artifacts.\<close>

fun validate_all :: "Run \<Rightarrow> ident list \<Rightarrow> ident list \<Rightarrow> py_error + ident list" where
  "validate_all r checked [] = Inr checked"
| "validate_all r checked (aid # aids) =
     (case validate_accepted r [] checked aid of
        Inl message \<Rightarrow> Inl (GateError message)
      | Inr checked' \<Rightarrow> validate_all r checked' aids)"

fun check_active :: "Run \<Rightarrow> ident list \<Rightarrow> TaskNode list \<Rightarrow> py_error + ident list" where
  "check_active r checked [] = Inr checked"
| "check_active r checked (t # ts) =
     (case last_opt (tn_artifact_ids t) of
        None \<Rightarrow> Inl (GateError ''Accepted task inputs are no longer valid'')
      | Some aid \<Rightarrow>
          if \<not> ready r t then Inl (GateError ''Accepted task inputs are no longer valid'')
          else (case validate_accepted r [] checked aid of
                  Inl message \<Rightarrow> Inl (GateError message)
                | Inr checked' \<Rightarrow> check_active r checked' ts))"

definition active_tasks :: "Run \<Rightarrow> TaskNode list" where
  "active_tasks r = filter (\<lambda>t. tn_status t \<noteq> CANCELLED) (map snd (run_tasks r))"

definition json_list :: "string list \<Rightarrow> string" where
  "json_list xs = dumps '', '' '': '' False (JArr (map JStr xs))"

definition evidence_shape_error :: "Run \<Rightarrow> string" where
  "evidence_shape_error r =
     (let accepted = sort (run_accepted_artifacts r);
          criteria = sort (wp_completion_criteria (run_plan r));
          example = (case criteria of [] \<Rightarrow> []
            | c # _ \<Rightarrow> [(c, JArr (map JStr
                (if accepted = [] then [''<artifact-id>''] else take 1 accepted)))]) in
      ''criterion_evidence must be a JSON object whose keys are exactly the '' @
      ''completion criteria and whose values are nonempty arrays of accepted '' @
      ''artifact IDs (no prose). Required keys: '' @ json_list criteria @
      ''. Accepted artifact IDs: '' @ json_list accepted @
      ''. Example: '' @ dumps '', '' '': '' False (JObj example))"

definition complete_run :: "string \<Rightarrow> (string, ident list) dict \<Rightarrow> unit operation" where
  "complete_run final_result criterion_evidence r =
     (let active = active_tasks r in
      if active = [] \<or> (\<exists>t \<in> set active. tn_status t \<noteq> ACCEPTED) \<or> run_unresolved_issues r \<noteq> []
      then Inl (GateError ''Required work remains unresolved'')
      else bind_ok (graph r) (\<lambda>_.
           bind_ok (check_active r [] active) (\<lambda>checked.
             if \<exists>(k, q) \<in> set (run_approvals r). aq_required q \<and> aq_status q = AP_PENDING
             then Inl (GateError ''Outstanding required approval gate'')
             else if set (map fst criterion_evidence) \<noteq> set (wp_completion_criteria (run_plan r)) \<or>
                     (\<exists>(c, ids) \<in> set criterion_evidence.
                        ids = [] \<or> \<not> set ids \<subseteq> set (run_accepted_artifacts r))
             then Inl (GateError (evidence_shape_error r))
             else bind_ok (validate_all r checked (concat (map snd criterion_evidence))) (\<lambda>_.
               if \<not> substantive final_result then Inl (GateError ''Final result required'')
               else Inr ((),
                 r\<lparr>run_final_result := Some final_result, run_status := ''completed'',
                   run_plan := (run_plan r)\<lparr>wp_status := ''completed''\<rparr>\<rparr>,
                 [event r ''run.completed'' [(''criterion_evidence'', VEvidence criterion_evidence)]])))))"

end
