(* ===== verification/Recovery.thy ===== *)
theory Recovery
  imports Acceptance
begin

text \<open>
  Failure and recovery: \<open>_fail\<close>, \<open>fail\<close>, \<open>fail_assignment\<close>, \<open>recover\<close>, \<open>resume\<close> and \<open>abandon\<close>
  of the kernel.
\<close>

section \<open>Failures\<close>

definition fail_task :: "ident \<Rightarrow> ident \<Rightarrow> TaskNode \<Rightarrow> FailureClass \<Rightarrow> string \<Rightarrow> WorkerFailure operation" where
  "fail_task new_id key t classification evidence r =
     (if evidence = '''' then Inl (ValidationError ''WorkerFailure'')
      else (let failure = \<lparr>wf_id = new_id, wf_task_id = task_id t,
              wf_classification = classification, wf_evidence = evidence\<rparr> in
        bind_ok (transition r t FAILED evidence) (\<lambda>(t1, evs).
          Inr (failure,
            (set_task key (t1\<lparr>tn_blocker := Some evidence\<rparr>) r)
              \<lparr>run_failures := run_failures r @ [failure]\<rparr>,
            evs @ [event r ''failure.classified'' [(''failure'', VFailure failure)]] @
            (case tn_assignment t1 of
               None \<Rightarrow> []
             | Some a \<Rightarrow>
                 [event r ''assignment.failed''
                    [(''assignment_id'', VStr (wa_id a)), (''task_id'', VStr (task_id t1)),
                     (''reason'', VStr evidence)]])))))"

definition fail :: "ident \<Rightarrow> ident \<Rightarrow> FailureClass \<Rightarrow> string \<Rightarrow> WorkerFailure operation" where
  "fail new_id tid classification evidence r =
     bind_ok (dget (run_tasks r) tid) (\<lambda>t. fail_task new_id tid t classification evidence r)"

definition fail_assignment ::
    "ident \<Rightarrow> ident \<Rightarrow> ident \<Rightarrow> ident \<Rightarrow> FailureClass \<Rightarrow> string \<Rightarrow> WorkerFailure operation" where
  "fail_assignment new_id tid assignment_id worker_id classification evidence r =
     bind_ok (dget (run_tasks r) tid) (\<lambda>t.
       if \<not> holds_assignment t assignment_id worker_id
       then Inl (GateError ''Failure does not match the current worker assignment'')
       else fail_task new_id tid t classification evidence r)"

section \<open>Recovery routes\<close>

datatype RecoveryAction = RETRY | REVISE | REPLACE | ESCALATE | REPLAN

fun action_value :: "RecoveryAction \<Rightarrow> string" where
  "action_value RETRY = ''RETRY''"
| "action_value REVISE = ''REVISE''"
| "action_value REPLACE = ''REPLACE''"
| "action_value ESCALATE = ''ESCALATE''"
| "action_value REPLAN = ''REPLAN''"

text \<open>The table from the class of a failure to a route, and the budgets that override it.\<close>

definition routed_action :: "FailureClass \<Rightarrow> RecoveryAction" where
  "routed_action kind =
     (if kind \<in> {PROVIDER_FAILURE, TIMEOUT, STALE_BASE} then RETRY
      else if kind \<in> {BAD_OUTPUT, MISSING_EVIDENCE} then REVISE
      else if kind \<in> {REPEATED_BAD_OUTPUT, CONSTRAINT_VIOLATION} then REPLACE
      else if kind \<in> {CAPABILITY_UNAVAILABLE, UNSUPPORTED_CAPABILITY, TOOL_FAILURE} then ESCALATE
      else REPLAN)"

definition recovery_action :: "TaskNode \<Rightarrow> FailureClass \<Rightarrow> RecoveryAction" where
  "recovery_action t kind =
     (let a0 = routed_action kind;
          a1 = (if a0 \<in> {RETRY, REVISE} \<and> attempts_used t \<ge> tn_max_attempts t then REPLAN else a0)
      in if a1 = REVISE \<and> tn_revisions t - tn_revision_baseline t \<ge> tn_max_revisions t
         then REPLACE else a1)"

definition escalation_blocker :: "FailureClass \<Rightarrow> BlockerReason" where
  "escalation_blocker kind =
     (if kind = CAPABILITY_UNAVAILABLE then CAPABILITY_ESCALATION_PENDING
      else if kind = UNSUPPORTED_CAPABILITY then BLOCKED_UNSUPPORTED_CAPABILITY
      else BLOCKED_TOOL_FAILURE)"

text \<open>The branch of \<open>recover\<close> for an action: the task after it and the events.\<close>

definition apply_action :: "Run \<Rightarrow> WorkerFailure \<Rightarrow> string \<Rightarrow> RecoveryAction \<Rightarrow> TaskNode \<Rightarrow>
    py_error + (TaskNode \<times> Event list)" where
  "apply_action r failure reason action t =
     (case action of
        RETRY \<Rightarrow>
          (if \<not> ready r t then Inl (GateError ''Retry gates unresolved'')
           else bind_ok (transition r t READY reason) (\<lambda>(t1, evs).
             Inr (t1\<lparr>tn_blocker := None\<rparr>,
               evs @ [event r ''retry.scheduled''
                 [(''task_id'', VStr (task_id t1)), (''failure_id'', VStr (wf_id failure)),
                  (''next_attempt'', VInt (tn_attempts t1 + 1))]])))
      | REVISE \<Rightarrow>
          bind_ok (transition r (t\<lparr>tn_revisions := tn_revisions t + 1\<rparr>) REVISION_REQUIRED reason)
            (\<lambda>(t1, evs). Inr (t1\<lparr>tn_blocker := Some (wf_evidence failure)\<rparr>, evs))
      | REPLACE \<Rightarrow>
          bind_ok (transition r t REPLACED reason) (\<lambda>(t1, evs).
            Inr (t1\<lparr>tn_blocker := Some (blocker_text WORKER_REPLACEMENT_REQUIRED)\<rparr>,
              evs @ [event r ''worker.replaced''
                [(''task_id'', VStr (task_id t1)), (''failure_id'', VStr (wf_id failure)),
                 (''worker_id'', opt_value (map_option wa_worker_id (tn_assignment t1)))]]))
      | ESCALATE \<Rightarrow>
          bind_ok (transition r t BLOCKED reason) (\<lambda>(t1, evs).
            Inr (t1\<lparr>tn_blocker := Some (blocker_text (escalation_blocker (wf_classification failure)))\<rparr>, evs))
      | REPLAN \<Rightarrow>
          bind_ok (transition r t BLOCKED reason) (\<lambda>(t1, evs).
            Inr (t1\<lparr>tn_blocker := Some (blocker_text MANAGER_REPLAN_REQUIRED)\<rparr>, evs)))"

text \<open>Rejecting the failed task's latest artifact.\<close>

definition reject_latest :: "TaskNode \<Rightarrow> string \<Rightarrow> ident \<Rightarrow> Run \<Rightarrow> py_error + (Run \<times> Event list)" where
  "reject_latest t reason failure_id r =
     (case last_opt (tn_artifact_ids t) of
        None \<Rightarrow> Inr (r, [])
      | Some aid \<Rightarrow>
          bind_ok (dget (run_artifacts r) aid) (\<lambda>a.
            Inr (set_artifact aid (a\<lparr>ar_status := ''rejected''\<rparr>) r,
              [event r ''artifact.rejected''
                 [(''artifact_id'', VStr (ar_id a)), (''reason'', VStr reason),
                  (''failure_id'', VStr failure_id)]])))"

definition recovery_decision :: "Orchestrator \<Rightarrow> ident \<Rightarrow> WorkerFailure \<Rightarrow> ident \<Rightarrow> RecoveryAction \<Rightarrow>
    string \<Rightarrow> RecoveryDecision" where
  "recovery_decision core new_id failure tid action reason =
     \<lparr>dc_id = new_id, dc_action = action_value action, dc_reason = reason,
      dc_actor_id = o_manager_id core,
      dc_context = ''Recovery from '' @ failure_value (wf_classification failure) @ '' on task '' @ tid,
      dc_options_considered = [''RETRY'', ''REVISE'', ''REPLACE'', ''ESCALATE'', ''REPLAN''],
      dc_consequences = [''Task recovery action: '' @ action_value action],
      dc_affected_ids = [tid], dc_evidence = [wf_evidence failure],
      rd_failure_id = wf_id failure\<rparr>"

definition recover :: "Orchestrator \<Rightarrow> ident \<Rightarrow> ident \<Rightarrow> string \<Rightarrow> ident \<Rightarrow> RecoveryDecision operation" where
  "recover core new_id failure_id reason actor_id r =
     (if actor_id \<noteq> ''manager'' \<and> actor_id \<noteq> o_manager_id core
      then Inl (GateError ''Recovery authority does not match configured Manager'')
      else (case find (\<lambda>f. wf_id f = failure_id) (run_failures r) of
        None \<Rightarrow> Inl (GateError (''Unknown failure '' @ failure_id))
      | Some failure \<Rightarrow>
        bind_ok (dget (run_tasks r) (wf_task_id failure)) (\<lambda>t.
          if (\<exists>d \<in> set (run_recoveries r). rd_failure_id d = failure_id) \<or> tn_status t \<noteq> FAILED
          then Inl (GateError ''Failure already recovered or superseded'')
          else (let action = recovery_action t (wf_classification failure) in
            bind_ok (apply_action r failure reason action t) (\<lambda>(t1, evs1).
            bind_ok (reject_latest t1 reason (wf_id failure) (set_task (wf_task_id failure) t1 r))
              (\<lambda>(r1, evs2).
                if reason = '''' then Inl (ValidationError ''RecoveryDecision'')
                else (let decision = recovery_decision core new_id failure (task_id t1) action reason in
                  Inr (decision,
                    r1\<lparr>run_recoveries := run_recoveries r1 @ [decision],
                       run_decisions := run_decisions r1 @ [Decision.truncate decision]\<rparr>,
                    evs1 @ evs2 @
                    [event r ''recovery.decided'' [(''decision'', VRecovery decision)]]))))))))"

section \<open>Interruption and closing\<close>

definition INTERRUPTED :: string where
  "INTERRUPTED = ''Assignment interrupted before durable submission''"

text \<open>
  \<open>resume\<close>: every delegated or running task fails with TIMEOUT. The identifier of the \<open>n\<close>-th
  failure of the run is \<open>new_ids n\<close>.
\<close>

definition interrupt_task :: "(nat \<Rightarrow> ident) \<Rightarrow> ident \<Rightarrow> TaskNode \<Rightarrow> Run \<Rightarrow> py_error + (Run \<times> Event list)" where
  "interrupt_task new_ids key t r =
     (if tn_status t \<in> {DELEGATED, RUNNING}
      then (let failure = \<lparr>wf_id = new_ids (length (run_failures r)), wf_task_id = task_id t,
              wf_classification = TIMEOUT, wf_evidence = INTERRUPTED\<rparr> in
        bind_ok (transition r t FAILED INTERRUPTED) (\<lambda>(t1, evs).
          Inr ((set_task key (t1\<lparr>tn_blocker := Some INTERRUPTED\<rparr>) r)
                 \<lparr>run_failures := run_failures r @ [failure]\<rparr>,
            evs @ [event r ''failure.classified'' [(''failure'', VFailure failure)]] @
            (case tn_assignment t1 of
               None \<Rightarrow> []
             | Some a \<Rightarrow>
                 [event r ''assignment.failed''
                    [(''assignment_id'', VStr (wa_id a)), (''task_id'', VStr (task_id t1)),
                     (''reason'', VStr INTERRUPTED)]]))))
      else Inr (r, []))"

fun interrupt_from :: "(nat \<Rightarrow> ident) \<Rightarrow> ident list \<Rightarrow> Run \<Rightarrow> py_error + (Run \<times> Event list)" where
  "interrupt_from new_ids [] r = Inr (r, [])"
| "interrupt_from new_ids (k # ks) r =
     (case map_of (run_tasks r) k of
        None \<Rightarrow> interrupt_from new_ids ks r
      | Some t \<Rightarrow>
          bind_ok (interrupt_task new_ids k t r) (\<lambda>(r1, evs1).
            bind_ok (interrupt_from new_ids ks r1) (\<lambda>(r2, evs2). Inr (r2, evs1 @ evs2))))"

definition resume :: "(nat \<Rightarrow> ident) \<Rightarrow> unit operation" where
  "resume new_ids r =
     bind_ok (interrupt_from new_ids (map fst (run_tasks r)) r) (\<lambda>(r1, evs).
       Inr ((), r1, evs @ [event r ''run.resumed'' [(''reason'', VStr ''Operator resumed durable run'')]]))"

definition abandon :: "string \<Rightarrow> ident option \<Rightarrow> unit operation" where
  "abandon reason actor_id r =
     (if \<not> substantive reason then Inl (GateError ''Abandonment requires an audit-worthy reason'')
      else (let in_flight = sort (map fst (filter (\<lambda>(k, t). tn_status t \<in> IN_FLIGHT_TASK_STATUSES) (run_tasks r)));
                pending = sort (map aq_id (filter (\<lambda>q. aq_status q = AP_PENDING) (map snd (run_approvals r))));
                pending_capability = sort (map cr_id (filter (\<lambda>c. cr_status c = CR_PENDING)
                  (map snd (run_capability_requests r)))) in
        if in_flight \<noteq> [] then Inl (GateError (''Run still has in-flight work: '' @ join '', '' in_flight))
        else if pending \<noteq> [] then Inl (GateError (''Run still has pending approval gates: '' @ join '', '' pending))
        else if pending_capability \<noteq> []
        then Inl (GateError (''Run still has pending capability requests: '' @ join '', '' pending_capability))
        else Inr ((),
          r\<lparr>run_status := ''abandoned'', run_plan := (run_plan r)\<lparr>wp_status := ''abandoned''\<rparr>\<rparr>,
          [event r ''run.abandoned''
             [(''reason'', VStr reason), (''actor_id'', opt_value actor_id),
              (''unresolved_issues'', VStrs (run_unresolved_issues r))]])))"

end
