(* ===== verification/Approval.thy ===== *)
theory Approval
  imports Recovery
begin

text \<open>
  Human approvals: \<open>_scope\<close>, \<open>request_approval\<close>, \<open>recover_legacy_approval_gate\<close>, \<open>gate_task\<close>,
  \<open>decide_approval\<close>, \<open>_approved\<close> and \<open>require_approval\<close> of the kernel. A scope is a JSON object;
  it is bound by its canonical text and that text's digest.
\<close>

definition scope_of :: "Orchestrator \<Rightarrow> json_object \<Rightarrow> string \<times> string" where
  "scope_of core scope = (let text = scope_text scope in (text, o_sha256 core text))"

text \<open>The request is about exactly this action and scope.\<close>

definition request_matches :: "Orchestrator \<Rightarrow> ApprovalRequest \<Rightarrow> string \<Rightarrow> json_object \<Rightarrow> bool" where
  "request_matches core q action scope =
     (aq_action q = action \<and> aq_scope_json q = fst (scope_of core scope) \<and>
      aq_scope_digest q = snd (scope_of core scope))"

definition make_gate :: "Orchestrator \<Rightarrow> ident \<Rightarrow> string \<Rightarrow> json_object \<Rightarrow> ApprovalGate" where
  "make_gate core approval_id action scope =
     \<lparr>ag_request_id = approval_id, ag_action = action, ag_scope_json = fst (scope_of core scope),
      ag_scope_digest = snd (scope_of core scope)\<rparr>"

section \<open>Requests\<close>

text \<open>\<open>target or str(scope.get("target") or scope.get("task_id") or "run")\<close>\<close>

definition approval_target :: "string option \<Rightarrow> json_object \<Rightarrow> string" where
  "approval_target target scope =
     (if present target then the target
      else if truthy (json_get scope ''target'') then py_str (json_get scope ''target'')
      else if truthy (json_get scope ''task_id'') then py_str (json_get scope ''task_id'')
      else ''run'')"

text \<open>\<open>ApprovalRequest(...)\<close>: its own constraints refuse empty texts.\<close>

definition make_request :: "Orchestrator \<Rightarrow> ident \<Rightarrow> ident \<Rightarrow> string \<Rightarrow> json_object \<Rightarrow> string \<Rightarrow>
    string option \<Rightarrow> string option \<Rightarrow> string \<Rightarrow> ident list \<Rightarrow> CapabilityProfile option \<Rightarrow> bool \<Rightarrow>
    py_error + ApprovalRequest" where
  "make_request core new_id rid action scope reason category target risk refs capability required =
     (let q = \<lparr>aq_id = new_id, aq_run_id = rid,
        aq_category = (if present category then the category else action), aq_action = action,
        aq_scope_json = fst (scope_of core scope), aq_scope_digest = snd (scope_of core scope),
        aq_target = approval_target target scope, aq_rationale = reason, aq_risk = risk,
        aq_artifact_refs = refs, aq_requested_capability = capability, aq_required = required,
        aq_status = AP_PENDING, aq_replacement_id = None\<rparr> in
      if rid = '''' \<or> aq_category q = '''' \<or> action = '''' \<or> aq_target q = '''' \<or> reason = '''' \<or> risk = ''''
      then Inl (ValidationError ''ApprovalRequest'') else Inr q)"

text \<open>
  The loop over one task's gates when a request is superseded: each gate on the old request is
  replaced, a ready task is blocked, and the blocker says that an approval is pending.
\<close>

fun replace_gates :: "Run \<Rightarrow> ident \<Rightarrow> ApprovalGate \<Rightarrow> ApprovalGate list \<Rightarrow> TaskNode \<Rightarrow>
    py_error + (ApprovalGate list \<times> TaskNode \<times> Event list)" where
  "replace_gates r old new [] t = Inr ([], t, [])"
| "replace_gates r old new (g # gs) t =
     (if ag_request_id g = old
      then bind_ok (if tn_status t = READY then transition r t BLOCKED ''Replacement approval pending''
                    else Inr (t, [])) (\<lambda>(t1, evs1).
           bind_ok (replace_gates r old new gs
               (t1\<lparr>tn_blocker := Some (blocker_text APPROVAL_PENDING)\<rparr>)) (\<lambda>(gs', t2, evs2).
             Inr (new # gs', t2, evs1 @
               [event r ''task.approval_gate_replaced''
                  [(''task_id'', VStr (task_id t)), (''prior_approval_id'', VStr old),
                   (''gate'', VGate new)]] @ evs2)))
      else bind_ok (replace_gates r old new gs t) (\<lambda>(gs', t2, evs2). Inr (g # gs', t2, evs2)))"

fun replace_in_tasks :: "ident \<Rightarrow> ApprovalGate \<Rightarrow> ident list \<Rightarrow> Run \<Rightarrow> py_error + (Run \<times> Event list)" where
  "replace_in_tasks old new [] r = Inr (r, [])"
| "replace_in_tasks old new (k # ks) r =
     (case map_of (run_tasks r) k of
        None \<Rightarrow> replace_in_tasks old new ks r
      | Some t \<Rightarrow>
          bind_ok (replace_gates r old new (tn_approval_gates t) t) (\<lambda>(gs, t1, evs1).
          bind_ok (replace_in_tasks old new ks (set_task k (t1\<lparr>tn_approval_gates := gs\<rparr>) r))
            (\<lambda>(r2, evs2). Inr (r2, evs1 @ evs2))))"

definition has_gate :: "ident \<Rightarrow> TaskNode \<Rightarrow> bool" where
  "has_gate approval_id t = (approval_id \<in> set (map ag_request_id (tn_approval_gates t)))"

definition supersede :: "ident \<Rightarrow> ApprovalRequest \<Rightarrow> Run \<Rightarrow> py_error + (Run \<times> Event list)" where
  "supersede old request r =
     (case map_of (run_approvals r) old of
        None \<Rightarrow> Inl (GateError ''Approval is missing or already superseded'')
      | Some prior \<Rightarrow>
        if aq_status prior = AP_SUPERSEDED
        then Inl (GateError ''Approval is missing or already superseded'')
        else if \<exists>(k, t) \<in> set (run_tasks r). tn_status t \<in> IN_FLIGHT_TASK_STATUSES \<and> has_gate old t
        then Inl (GateError
          ''Cannot supersede approval while bound work is active; fail and recover the task first'')
        else bind_ok
          (replace_in_tasks old
             \<lparr>ag_request_id = aq_id request, ag_action = aq_action request,
              ag_scope_json = aq_scope_json request, ag_scope_digest = aq_scope_digest request\<rparr>
             (map fst (run_tasks r))
             (r\<lparr>run_approvals := AList.update old
                (prior\<lparr>aq_status := AP_SUPERSEDED, aq_replacement_id := Some (aq_id request)\<rparr>)
                (run_approvals r)\<rparr>))
          (\<lambda>(r1, evs). Inr (r1,
             event r ''approval.superseded''
               [(''approval_id'', VStr old), (''replacement_id'', VStr (aq_id request))] # evs)))"

definition request_approval :: "Orchestrator \<Rightarrow> ident \<Rightarrow> string \<Rightarrow> json_object \<Rightarrow> string \<Rightarrow>
    string option \<Rightarrow> string option \<Rightarrow> string \<Rightarrow> ident list \<Rightarrow> CapabilityProfile option \<Rightarrow> bool \<Rightarrow>
    ident option \<Rightarrow> ApprovalRequest operation" where
  "request_approval core new_id action scope reason category target risk refs capability required
     supersedes r =
     bind_ok (make_request core new_id (run_id r) action scope reason category target risk refs
       capability required) (\<lambda>request.
     bind_ok (case supersedes of None \<Rightarrow> Inr (r, []) | Some old \<Rightarrow> supersede old request r)
       (\<lambda>(r1, evs).
         Inr (request, r1\<lparr>run_approvals := AList.update new_id request (run_approvals r1)\<rparr>,
           evs @ [event r ''approval.required'' [(''request'', VApproval request)]])))"

section \<open>Gates\<close>

text \<open>What a blocked task waits for once its approvals are in.\<close>

definition approved_blocker :: "CapabilityProfile \<Rightarrow> ident option \<Rightarrow> string" where
  "approved_blocker capability workspace_id =
     blocker_text (if capability = DEVELOPER_SANDBOX \<and> \<not> present workspace_id
                   then CAPABILITY_PREREQUISITES_MISSING else APPROVAL_PREREQUISITES_SATISFIED)"

definition open_blocker :: "ApprovalStatus \<Rightarrow> string" where
  "open_blocker status =
     blocker_text (if status = AP_REJECTED then APPROVAL_REJECTED else APPROVAL_PENDING)"

definition recover_legacy_approval_gate :: "Orchestrator \<Rightarrow> ident \<Rightarrow> ident \<Rightarrow> ident \<Rightarrow> string \<Rightarrow>
    json_object \<Rightarrow> unit operation" where
  "recover_legacy_approval_gate core tid legacy_approval_id approval_id action scope r =
     bind_ok (dget (run_tasks r) tid) (\<lambda>t.
       if legacy_approval_id \<notin> set (tn_approval_ids t) \<or> tn_status t \<notin> {PLANNED, READY, BLOCKED}
       then Inl (GateError ''Task has no recoverable legacy approval gate in a safe state'')
       else (case map_of (run_approvals r) approval_id of
         None \<Rightarrow> Inl (GateError ''Recovery gate must match the exact approval request'')
       | Some request \<Rightarrow>
         if aq_status request = AP_SUPERSEDED \<or> \<not> request_matches core request action scope
         then Inl (GateError ''Recovery gate must match the exact approval request'')
         else if has_gate approval_id t then Inl (GateError ''Approval gate already attached'')
         else (let gate = make_gate core approval_id action scope;
                   ids = remove1 legacy_approval_id (tn_approval_ids t);
                   blocker = (if ids \<noteq> []
                     then blocker_text LEGACY_APPROVAL_REGATE @ '': '' @ join '', '' ids
                     else if aq_status request = AP_APPROVED
                     then approved_blocker (tn_capability t) (tn_workspace_id t)
                     else open_blocker (aq_status request)) in
           then_refresh ()
             (set_task tid (t\<lparr>tn_approval_gates := tn_approval_gates t @ [gate],
                tn_approval_ids := ids, tn_blocker := Some blocker\<rparr>) r)
             [event r ''task.legacy_approval_gate_recovered''
                [(''task_id'', VStr tid), (''legacy_approval_id'', VStr legacy_approval_id),
                 (''gate'', VGate gate)]])))"

definition gate_task :: "Orchestrator \<Rightarrow> ident \<Rightarrow> ident \<Rightarrow> string \<Rightarrow> json_object \<Rightarrow> unit operation" where
  "gate_task core tid approval_id action scope r =
     bind_ok (dget (run_tasks r) tid) (\<lambda>t.
       if tn_status t \<notin> {PLANNED, READY, BLOCKED} \<or> tn_attempts t \<noteq> 0
       then Inl (GateError ''Approval gates must be attached before delegation'')
       else (case map_of (run_approvals r) approval_id of
         None \<Rightarrow> Inl (GateError ''Task gate must match the exact approval request'')
       | Some request \<Rightarrow>
         if aq_status request = AP_SUPERSEDED \<or> \<not> request_matches core request action scope
         then Inl (GateError ''Task gate must match the exact approval request'')
         else if has_gate approval_id t then Inl (GateError ''Approval gate already attached'')
         else (let gate = make_gate core approval_id action scope;
                   t1 = t\<lparr>tn_approval_gates := tn_approval_gates t @ [gate]\<rparr> in
           bind_ok
             (if tn_status t1 = READY \<and> aq_status request \<noteq> AP_APPROVED
              then bind_ok (transition r t1 BLOCKED (blocker_text APPROVAL_PENDING)) (\<lambda>(t2, evs).
                Inr (t2\<lparr>tn_blocker := Some (open_blocker (aq_status request))\<rparr>, evs))
              else Inr (t1, []))
             (\<lambda>(t2, evs).
               then_refresh () (set_task tid t2 r)
                 (evs @ [event r ''task.approval_gated''
                    [(''task_id'', VStr tid), (''gate'', VGate gate)]])))))"

section \<open>Decisions\<close>

definition decide_task :: "ident \<Rightarrow> bool \<Rightarrow> TaskNode \<Rightarrow> TaskNode" where
  "decide_task approval_id approved t =
     (if has_gate approval_id t
      then if approved \<and> tn_status t = BLOCKED \<and>
              tn_blocker t = Some (blocker_text APPROVAL_PENDING)
           then t\<lparr>tn_blocker := Some (approved_blocker (tn_capability t) (tn_workspace_id t))\<rparr>
           else if \<not> approved then t\<lparr>tn_blocker := Some (blocker_text APPROVAL_REJECTED)\<rparr>
           else t
      else t)"

definition decided :: "ident \<Rightarrow> ApprovalDecision \<Rightarrow> ApprovalRequest \<Rightarrow> Run \<Rightarrow> Run" where
  "decided approval_id decision request r =
     r\<lparr>run_approval_decisions := AList.update approval_id decision (run_approval_decisions r),
       run_approvals := AList.update approval_id (request\<lparr>aq_status := al_status decision\<rparr>) (run_approvals r),
       run_tasks := map (\<lambda>(k, t). (k, decide_task approval_id (al_approved decision) t)) (run_tasks r)\<rparr>"

definition decide_approval :: "ident \<Rightarrow> bool \<Rightarrow> ident \<Rightarrow> string \<Rightarrow> ApprovalDecision operation" where
  "decide_approval approval_id approved human_id reason r =
     (case map_of (run_approvals r) approval_id of
        None \<Rightarrow> Inl (GateError ''Approval missing or already decided'')
      | Some request \<Rightarrow>
        if aq_status request \<noteq> AP_PENDING \<or> approval_id \<in> fst ` set (run_approval_decisions r)
        then Inl (GateError ''Approval missing or already decided'')
        else if human_id = '''' \<or> reason = '''' then Inl (ValidationError ''ApprovalDecision'')
        else (let decision = \<lparr>al_request_id = approval_id, al_approved = approved,
                al_human_id = human_id, al_reason = reason,
                al_status = (if approved then AP_APPROVED else AP_REJECTED)\<rparr> in
          then_refresh decision (decided approval_id decision request r)
            [event r (if approved then ''approval.granted'' else ''approval.rejected'')
               [(''decision'', VApprovalDecision decision)]]))"

text \<open>\<open>_approved\<close>; \<open>require_approval\<close> is the same check on a loaded run.\<close>

definition approved :: "Orchestrator \<Rightarrow> Run \<Rightarrow> ident option \<Rightarrow> string \<Rightarrow> json_object \<Rightarrow> py_error + unit" where
  "approved core r approval_id action scope =
     (case approval_id of
        None \<Rightarrow> Inl (GateError ''Exact scoped human approval required'')
      | Some aid \<Rightarrow>
        (case (map_of (run_approvals r) aid, map_of (run_approval_decisions r) aid) of
           (Some request, Some decision) \<Rightarrow>
             if aq_status request \<noteq> AP_APPROVED \<or> \<not> al_approved decision \<or>
                \<not> request_matches core request action scope
             then Inl (GateError ''Exact scoped human approval required'') else Inr ()
         | _ \<Rightarrow> Inl (GateError ''Exact scoped human approval required'')))"

definition require_approval :: "Orchestrator \<Rightarrow> ident \<Rightarrow> string \<Rightarrow> json_object \<Rightarrow> Run \<Rightarrow> py_error + unit" where
  "require_approval core approval_id action scope r = approved core r (Some approval_id) action scope"

lemma approved_Inr:
  "approved core r approval_id action scope = Inr u \<longleftrightarrow>
     (\<exists>aid request decision. approval_id = Some aid \<and> map_of (run_approvals r) aid = Some request \<and>
        map_of (run_approval_decisions r) aid = Some decision \<and> aq_status request = AP_APPROVED \<and>
        al_approved decision \<and> request_matches core request action scope)"
  by (auto simp: approved_def split: option.splits)

end
