(* ===== verification/Capability.thy ===== *)
theory Capability
  imports Approval
begin

text \<open>
  Capability requests and escalation: \<open>link_capability_approval\<close>, \<open>apply_capability_escalation\<close>,
  \<open>approve_capability_request\<close>, \<open>deny_capability_request\<close>, \<open>mark_capability_escalated\<close> and
  \<open>change_capability\<close> of the kernel. A worker's request is data; only an exact human approval
  of the same task, capability and workspace changes what a task may do.
\<close>

definition json_opt :: "string option \<Rightarrow> json" where
  "json_opt x = (case x of None \<Rightarrow> JNull | Some s \<Rightarrow> JStr s)"

definition capability_scope :: "ident \<Rightarrow> CapabilityProfile \<Rightarrow> ident option \<Rightarrow> json_object" where
  "capability_scope tid capability workspace_id =
     [(''task_id'', JStr tid), (''capability'', JStr (capability_value capability)),
      (''workspace_id'', json_opt workspace_id)]"

definition set_request :: "ident \<Rightarrow> CapabilityRequest \<Rightarrow> Run \<Rightarrow> Run" where
  "set_request k c r =
     r\<lparr>run_capability_requests := AList.update k c (run_capability_requests r)\<rparr>"

definition needs_workspace :: "CapabilityProfile \<Rightarrow> bool" where
  "needs_workspace capability = (capability \<in> {REPO_READER, DEVELOPER_SANDBOX})"

definition link_capability_approval :: "Orchestrator \<Rightarrow> ident \<Rightarrow> ident \<Rightarrow> ident option \<Rightarrow> unit operation" where
  "link_capability_approval core request_id approval_id workspace_id r =
     bind_ok (dget (run_capability_requests r) request_id) (\<lambda>c.
       if cr_status c \<noteq> CR_PENDING \<or> cr_approval_id c \<noteq> None
       then Inl (GateError ''Capability request is not pending and unlinked'')
       else if needs_workspace (cr_requested_capability c) \<and> \<not> present workspace_id
       then Inl (GateError ''Repository capabilities require an approved workspace binding'')
       else (case map_of (run_approvals r) approval_id of
         None \<Rightarrow> Inl (GateError ''Capability request requires an exact current approval request'')
       | Some approval \<Rightarrow>
         if aq_status approval = AP_SUPERSEDED \<or>
            \<not> request_matches core approval ''change_capability''
                (capability_scope (cr_task_id c) (cr_requested_capability c) workspace_id)
         then Inl (GateError ''Capability request requires an exact current approval request'')
         else Inr ((),
           set_request request_id
             (c\<lparr>cr_approval_id := Some approval_id, cr_workspace_id := workspace_id\<rparr>) r,
           [event r ''capability.approval_linked''
              [(''capability_request_id'', VStr request_id), (''approval_id'', VStr approval_id)]])))"

text \<open>The linked approval has been granted by a recorded decision.\<close>

definition linked_granted :: "Run \<Rightarrow> ident option \<Rightarrow> bool" where
  "linked_granted r approval_id =
     (case approval_id of
        None \<Rightarrow> False
      | Some aid \<Rightarrow>
        (case (map_of (run_approvals r) aid, map_of (run_approval_decisions r) aid) of
           (Some q, Some d) \<Rightarrow> aq_status q = AP_APPROVED \<and> al_approved d
         | _ \<Rightarrow> False))"

text \<open>
  The task with its new capability and workspace; a task that waited for this escalation says so
  no longer.
\<close>

definition with_capability :: "CapabilityProfile \<Rightarrow> ident option \<Rightarrow> string \<Rightarrow> TaskNode \<Rightarrow> TaskNode" where
  "with_capability capability workspace_id blocker t =
     (let t1 = t\<lparr>tn_capability := capability, tn_workspace_id := workspace_id\<rparr> in
      if tn_status t1 = BLOCKED \<and> tn_blocker t1 = Some (blocker_text CAPABILITY_ESCALATION_PENDING)
      then t1\<lparr>tn_blocker := Some blocker\<rparr> else t1)"

definition escalation_events :: "Run \<Rightarrow> CapabilityRequest \<Rightarrow> TaskNode \<Rightarrow> Event list" where
  "escalation_events r c t =
     (if tn_workspace_id t \<noteq> cr_workspace_id c
      then [event r (if present (tn_workspace_id t) then ''workspace.replaced'' else ''workspace.bound'')
         [(''task_id'', VStr (task_id t)), (''old_workspace_id'', opt_value (tn_workspace_id t)),
          (''new_workspace_id'', opt_value (cr_workspace_id c)),
          (''reason'', VStr ''Approved capability escalation'')]] else []) @
     (if cr_status c = CR_PENDING
      then [event r ''capability.approved''
         [(''capability_request_id'', VStr (cr_id c)), (''approval_id'', opt_value (cr_approval_id c))]]
      else []) @
     [event r ''capability.escalated''
        [(''capability_request_id'', VStr (cr_id c)), (''task_id'', VStr (task_id t)),
         (''capability'', VStr (capability_value (cr_requested_capability c))),
         (''workspace_id'', opt_value (cr_workspace_id c)),
         (''approval_id'', opt_value (cr_approval_id c))]]"

text \<open>
  \<open>apply_capability_escalation\<close>: the early return for an already escalated request, and the
  operation. The early return records no event and changes nothing.
\<close>

definition escalate_task :: "Orchestrator \<Rightarrow> ident \<Rightarrow> CapabilityRequest operation" where
  "escalate_task core request_id r =
     bind_ok (dget (run_capability_requests r) request_id) (\<lambda>c.
     bind_ok (dget (run_tasks r) (cr_task_id c)) (\<lambda>t.
       if cr_status c \<notin> {CR_PENDING, CR_APPROVED} \<or> \<not> present (cr_approval_id c)
       then Inl (GateError ''Capability request is not linked for escalation'')
       else if tn_status t \<notin> {BLOCKED, READY, REVISION_REQUIRED}
       then Inl (GateError ''Capability can only be applied in a safe non-active task state'')
       else bind_ok (validate_capability_checks t (Some (cr_requested_capability c))) (\<lambda>_.
         if \<not> linked_granted r (cr_approval_id c)
         then Inl (GateError ''Linked capability approval has not been granted'')
         else bind_ok (approved core r (cr_approval_id c) ''change_capability''
             (capability_scope (task_id t) (cr_requested_capability c) (cr_workspace_id c))) (\<lambda>_.
           if needs_workspace (cr_requested_capability c) \<and> \<not> present (cr_workspace_id c)
           then Inl (GateError ''Repository capabilities require an approved workspace binding'')
           else then_refresh (c\<lparr>cr_status := CR_ESCALATED\<rparr>)
             (set_task (cr_task_id c)
               (with_capability (cr_requested_capability c) (cr_workspace_id c)
                 (blocker_text APPROVAL_PREREQUISITES_SATISFIED) t)
               (set_request request_id (c\<lparr>cr_status := CR_ESCALATED\<rparr>) r))
             (escalation_events r c t)))))"

definition apply_capability_escalation ::
    "Orchestrator \<Rightarrow> ident \<Rightarrow> ident option \<Rightarrow> CapabilityRequest operation" where
  "apply_capability_escalation core request_id manager_id r =
     (if manager_id \<noteq> None \<and> manager_id \<noteq> Some (o_manager_id core)
      then Inl (GateError ''Capability authority does not match configured Manager'')
      else bind_ok (dget (run_capability_requests r) request_id) (\<lambda>existing.
        if cr_status existing = CR_ESCALATED
        then bind_ok (dget (run_tasks r) (cr_task_id existing)) (\<lambda>t.
          if tn_capability t \<noteq> cr_requested_capability existing \<or>
             tn_workspace_id t \<noteq> cr_workspace_id existing
          then Inl (GateError ''Escalated capability request conflicts with durable task state'')
          else Inr (existing, r, []))
        else escalate_task core request_id r))"

definition approve_capability_request :: "ident \<Rightarrow> unit operation" where
  "approve_capability_request request_id r =
     bind_ok (dget (run_capability_requests r) request_id) (\<lambda>c.
       if cr_status c \<noteq> CR_PENDING \<or> \<not> present (cr_approval_id c)
       then Inl (GateError ''Capability request is not awaiting linked approval'')
       else if \<not> linked_granted r (cr_approval_id c)
       then Inl (GateError ''Linked capability approval has not been granted'')
       else Inr ((), set_request request_id (c\<lparr>cr_status := CR_APPROVED\<rparr>) r,
         [event r ''capability.approved''
            [(''capability_request_id'', VStr request_id),
             (''approval_id'', opt_value (cr_approval_id c))]]))"

definition deny_capability_request :: "ident \<Rightarrow> string \<Rightarrow> unit operation" where
  "deny_capability_request request_id reason r =
     bind_ok (dget (run_capability_requests r) request_id) (\<lambda>c.
       if cr_status c \<notin> {CR_PENDING, CR_APPROVED} \<or> \<not> substantive reason
       then Inl (GateError ''Capability request cannot be denied'')
       else Inr ((), set_request request_id (c\<lparr>cr_status := CR_DENIED\<rparr>) r,
         [event r ''capability.denied''
            [(''capability_request_id'', VStr request_id), (''reason'', VStr reason)]]))"

definition mark_capability_escalated :: "ident \<Rightarrow> unit operation" where
  "mark_capability_escalated request_id r =
     bind_ok (dget (run_capability_requests r) request_id) (\<lambda>c.
     bind_ok (dget (run_tasks r) (cr_task_id c)) (\<lambda>t.
       if cr_status c \<noteq> CR_APPROVED \<or> tn_capability t \<noteq> cr_requested_capability c
       then Inl (GateError ''Approved capability has not been applied to the task'')
       else Inr ((), set_request request_id (c\<lparr>cr_status := CR_ESCALATED\<rparr>) r,
         [event r ''capability.escalated''
            [(''capability_request_id'', VStr request_id), (''task_id'', VStr (task_id t)),
             (''capability'', VStr (capability_value (tn_capability t))),
             (''approval_id'', opt_value (cr_approval_id c))]])))"

definition change_capability :: "Orchestrator \<Rightarrow> ident \<Rightarrow> CapabilityProfile \<Rightarrow> ident \<Rightarrow> ident option \<Rightarrow>
    unit operation" where
  "change_capability core tid capability approval_id workspace_id r =
     bind_ok (dget (run_tasks r) tid) (\<lambda>t.
       if tn_status t \<notin> {PLANNED, READY, REVISION_REQUIRED, BLOCKED}
       then Inl (GateError ''Cannot change capabilities of active or terminal task'')
       else bind_ok (validate_capability_checks t (Some capability)) (\<lambda>_.
         bind_ok (approved core r (Some approval_id) ''change_capability''
           (capability_scope tid capability workspace_id)) (\<lambda>_.
           let t2 = with_capability capability workspace_id (approved_blocker capability workspace_id) t;
               ev = event r ''capability.escalated''
                 [(''task_id'', VStr tid), (''capability'', VStr (capability_value capability)),
                  (''workspace_id'', opt_value workspace_id), (''approval_id'', VStr approval_id)] in
           bind_ok
             (if tn_status t2 = READY \<and> \<not> ready (set_task tid t2 r) t2
              then bind_ok (transition r t2 BLOCKED (blocker_text CAPABILITY_PREREQUISITES_MISSING))
                (\<lambda>(t3, evs). Inr (t3\<lparr>tn_blocker := Some (blocker_text CAPABILITY_PREREQUISITES_MISSING)\<rparr>, evs))
              else Inr (t2, []))
             (\<lambda>(t3, evs). then_refresh () (set_task tid t3 r) (ev # evs)))))"

end
