(* ===== verification/Replan.thy ===== *)
theory Replan
  imports Capability
begin

text \<open>
  Replanning: \<open>_replan_defects\<close>, \<open>_replan_affected\<close>, \<open>_replan_materiality\<close>, \<open>replan_materiality\<close>,
  \<open>validate_replan\<close>, \<open>propose_replan\<close> and \<open>apply_replan\<close> of the kernel. The source collects the
  affected tasks in a set and iterates it in no fixed order; the model keeps the order of
  discovery, which only fixes the order of the events of one application.
\<close>

section \<open>Structural defects\<close>

definition set_dependencies :: "ident list \<Rightarrow> TaskNode \<Rightarrow> TaskNode" where
  "set_dependencies deps t = t\<lparr>tn_packet := (tn_packet t)\<lparr>tp_dependencies := deps\<rparr>\<rparr>"

definition map_tasks :: "(ident \<Rightarrow> TaskNode \<Rightarrow> TaskNode) \<Rightarrow> Run \<Rightarrow> Run" where
  "map_tasks f r = r\<lparr>run_tasks := map (\<lambda>(k, t). (k, f k t)) (run_tasks r)\<rparr>"

definition rewire :: "(ident, ident list) dict \<Rightarrow> Run \<Rightarrow> Run" where
  "rewire dependencies = map_tasks (\<lambda>k t.
     case map_of dependencies k of None \<Rightarrow> t | Some deps \<Rightarrow> set_dependencies deps t)"

definition insert_tasks :: "TaskNode list \<Rightarrow> Run \<Rightarrow> Run" where
  "insert_tasks tasks r = fold (\<lambda>t. set_task (task_id t) t) tasks r"

text \<open>The plan as the proposal would leave it, as far as the graph check reads it.\<close>

definition projection :: "Run \<Rightarrow> ReplanProposal \<Rightarrow> Run" where
  "projection r p = insert_tasks (rp_add p) (rewire (rp_dependencies p)
     (map_tasks (\<lambda>k t. if k \<in> set (rp_remove p) then t\<lparr>tn_status := CANCELLED\<rparr> else t) r))"

definition unknown_references :: "Run \<Rightarrow> string \<Rightarrow> ident list \<Rightarrow> string list" where
  "unknown_references r label references =
     map (\<lambda>key. label @ '' references unknown task '' @ key)
       (filter (\<lambda>key. key \<notin> fst ` set (run_tasks r)) references)"

definition gate_message :: "py_error + unit \<Rightarrow> string list" where
  "gate_message m = (case m of Inl (GateError text) \<Rightarrow> [text] | _ \<Rightarrow> [])"

fun added_defects :: "Run \<Rightarrow> ident list \<Rightarrow> TaskNode list \<Rightarrow> string list" where
  "added_defects r seen [] = []"
| "added_defects r seen (source # rest) =
     (if task_id source \<in> set seen then [''duplicate added task '' @ task_id source] else []) @
     (if \<not> is_fresh_task r source
      then [''added task '' @ task_id source @ '' must be a fresh unique task'']
      else gate_message (reject_identifier_collision r (task_id source)) @
           gate_message (validate_capability_checks source None)) @
     added_defects r (task_id source # seen) rest"

definition replan_defects :: "Run \<Rightarrow> ReplanProposal \<Rightarrow> string list" where
  "replan_defects r p =
     (let defects =
        unknown_references r ''reopen'' (rp_reopen p) @
        unknown_references r ''remove'' (rp_remove p) @
        unknown_references r ''dependencies'' (map fst (rp_dependencies p)) @
        map (\<lambda>key. ''task '' @ key @ '' is both removed and reopened'')
          (sorted_set (filter (\<lambda>k. k \<in> set (rp_reopen p)) (rp_remove p))) @
        added_defects r [] (rp_add p) @
        (if wp_revision (run_plan r) \<ge> wp_max_replans (run_plan r)
         then [''replan budget exhausted ('' @ show_int (wp_revision (run_plan r)) @ ''/'' @
               show_int (wp_max_replans (run_plan r)) @
               ''); the kernel cannot apply any further proposal to this plan'']
         else [])
      in if defects \<noteq> [] then defects
         else (case graph (projection r p) of
                 Inl (GateError text) \<Rightarrow> [''resulting plan is invalid: '' @ text]
               | _ \<Rightarrow> []))"

section \<open>Affected tasks\<close>

definition seeds :: "Run \<Rightarrow> ReplanProposal \<Rightarrow> ident list" where
  "seeds r p = filter (\<lambda>k. k \<in> set (rp_reopen p @ rp_remove p @ map fst (rp_dependencies p)))
     (map fst (run_tasks r))"

definition artifacts_of :: "Run \<Rightarrow> ident list \<Rightarrow> ident list" where
  "artifacts_of r keys = concat (map (\<lambda>k.
     case map_of (run_tasks r) k of None \<Rightarrow> [] | Some t \<Rightarrow> tn_artifact_ids t) keys)"

fun affected_pass :: "ident list \<Rightarrow> (ident \<times> TaskNode) list \<Rightarrow> ident list \<Rightarrow> ident list" where
  "affected_pass arts [] affected = affected"
| "affected_pass arts ((key, t) # rest) affected =
     affected_pass arts rest
       (if key \<notin> set affected \<and> (\<exists>c \<in> set (task_refs t). c \<in> set affected \<or> c \<in> set arts)
        then affected @ [key] else affected)"

lemma affected_pass_append:
  "\<exists>new. affected_pass arts ts aff = aff @ new \<and> set new \<subseteq> fst ` set ts \<and>
     set new \<inter> set aff = {} \<and> distinct new"
proof (induction ts arbitrary: aff)
  case Nil
  then show ?case by simp
next
  case (Cons kt ts)
  obtain key t where kt: "kt = (key, t)" by (cases kt)
  show ?case
  proof (cases "key \<notin> set aff \<and> (\<exists>c \<in> set (task_refs t). c \<in> set aff \<or> c \<in> set arts)")
    case True
    from Cons.IH[of "aff @ [key]"] obtain new where
      new: "affected_pass arts ts (aff @ [key]) = (aff @ [key]) @ new" "set new \<subseteq> fst ` set ts"
        "set new \<inter> set (aff @ [key]) = {}" "distinct new" by blast
    with True kt show ?thesis by (intro exI[of _ "key # new"]) auto
  next
    case False
    with kt Cons.IH[of aff] show ?thesis by auto
  qed
qed

function affected_loop :: "Run \<Rightarrow> ident list \<Rightarrow> ident list" where
  "affected_loop r affected =
     (let affected' = affected_pass (artifacts_of r affected) (run_tasks r) affected in
      if affected' = affected then affected else affected_loop r affected')"
  by pat_completeness auto
termination
proof (relation "measure (\<lambda>(r, affected). unvisited affected (run_tasks r))")
  fix r affected affected'
  assume eq: "affected' = affected_pass (artifacts_of r affected) (run_tasks r) affected"
    and ne: "affected' \<noteq> affected"
  obtain new where new: "affected' = affected @ new" "set new \<subseteq> fst ` set (run_tasks r)"
    "set new \<inter> set affected = {}"
    using affected_pass_append[of "artifacts_of r affected" "run_tasks r" affected] eq by blast
  with ne obtain k where k: "k \<in> set new" by (cases new) auto
  with new(2) obtain t where kt: "(k, t) \<in> set (run_tasks r)" by auto
  have "unvisited affected' (run_tasks r) < unvisited affected (run_tasks r)"
    unfolding unvisited_def
    by (rule length_filter_strict [OF _ kt]) (use new k in auto)
  then show "((r, affected'), r, affected) \<in> measure (\<lambda>(r, affected). unvisited affected (run_tasks r))"
    by simp
qed simp

declare affected_loop.simps [simp del]

definition replan_affected :: "Run \<Rightarrow> ReplanProposal \<Rightarrow> ident list" where
  "replan_affected r p = affected_loop r (seeds r p)"

subsection \<open>The affected tasks are the transitive consumers\<close>

text \<open>\<open>consumes r\<close>: from a task to each task that declares it, or one of its artifacts, as an input.\<close>

definition consumes :: "Run \<Rightarrow> (ident \<times> ident) set" where
  "consumes r = {(u, k). \<exists>t tu. map_of (run_tasks r) k = Some t \<and> map_of (run_tasks r) u = Some tu \<and>
     (\<exists>c \<in> set (task_refs t). c = u \<or> c \<in> set (tn_artifact_ids tu))}"

lemma artifacts_of_mem:
  "c \<in> set (artifacts_of r keys) \<longleftrightarrow>
     (\<exists>u tu. u \<in> set keys \<and> map_of (run_tasks r) u = Some tu \<and> c \<in> set (tn_artifact_ids tu))"
proof (induction keys)
  case Nil
  then show ?case by (simp add: artifacts_of_def)
next
  case (Cons k keys)
  then show ?case by (cases "map_of (run_tasks r) k") (auto simp: artifacts_of_def)
qed

lemma affected_pass_sound:
  assumes closed: "consumes r `` R \<subseteq> R" and arts: "set arts \<subseteq> set (artifacts_of r keys)"
    and keys: "set keys \<subseteq> R"
  shows "(\<And>k t. (k, t) \<in> set ts \<Longrightarrow> map_of (run_tasks r) k = Some t) \<Longrightarrow> set aff \<subseteq> R \<Longrightarrow>
    set aff \<subseteq> fst ` set (run_tasks r) \<Longrightarrow> set (affected_pass arts ts aff) \<subseteq> R"
proof (induction ts arbitrary: aff)
  case Nil
  then show ?case by simp
next
  case (Cons kt ts)
  obtain k t where kt: "kt = (k, t)" by (cases kt)
  have t: "map_of (run_tasks r) k = Some t" using Cons.prems(1) kt by simp
  have "k \<in> R" if c: "c \<in> set (task_refs t)" "c \<in> set aff \<or> c \<in> set arts" for c
  proof -
    from c(2) obtain u tu where "u \<in> R" "map_of (run_tasks r) u = Some tu"
      "c = u \<or> c \<in> set (tn_artifact_ids tu)"
    proof
      assume "c \<in> set aff"
      with Cons.prems(3) obtain tu where "map_of (run_tasks r) c = Some tu"
        by (meson keys_map_of subsetD)
      with \<open>c \<in> set aff\<close> Cons.prems(2) show thesis using that by blast
    next
      assume "c \<in> set arts"
      then have "c \<in> set (artifacts_of r keys)" using arts by blast
      with keys show thesis using that by (auto simp: artifacts_of_mem)
    qed
    with c(1) t have "(u, k) \<in> consumes r" by (auto simp: consumes_def)
    with \<open>u \<in> R\<close> closed show ?thesis by blast
  qed
  note enter = this
  show ?case
  proof (cases "k \<notin> set aff \<and> (\<exists>c \<in> set (task_refs t). c \<in> set aff \<or> c \<in> set arts)")
    case True
    with enter have "k \<in> R" by blast
    with True kt Cons.prems map_of_in_keys[OF t] Cons.IH[of "aff @ [k]"] show ?thesis by simp
  next
    case False
    with kt Cons.prems Cons.IH[of aff] have "set (affected_pass arts ts aff) \<subseteq> R" by simp
    with False kt show ?thesis by auto
  qed
qed

lemma affected_pass_fixed:
  "affected_pass arts ts aff = aff \<Longrightarrow> (k, t) \<in> set ts \<Longrightarrow> c \<in> set (task_refs t) \<Longrightarrow>
     c \<in> set aff \<or> c \<in> set arts \<Longrightarrow> k \<in> set aff"
proof (induction ts)
  case Nil
  then show ?case by simp
next
  case (Cons kt ts)
  obtain j u where kt: "kt = (j, u)" by (cases kt)
  show ?case
  proof (cases "j \<notin> set aff \<and> (\<exists>c \<in> set (task_refs u). c \<in> set aff \<or> c \<in> set arts)")
    case True
    with Cons.prems(1) kt have "affected_pass arts ts (aff @ [j]) = aff" by simp
    with affected_pass_append[of arts ts "aff @ [j]"] show ?thesis by auto
  next
    case False
    with Cons.prems(1) kt have "affected_pass arts ts aff = aff" by auto
    with Cons False kt show ?thesis by auto
  qed
qed

lemma affected_loop_correct:
  "distinct (map fst (run_tasks r)) \<Longrightarrow> set aff \<subseteq> fst ` set (run_tasks r) \<Longrightarrow>
    set (affected_loop r aff) = (consumes r)\<^sup>* `` set aff"
proof (induction r aff rule: affected_loop.induct)
  case (1 r aff)
  let ?next = "affected_pass (artifacts_of r aff) (run_tasks r) aff"
  let ?R = "(consumes r)\<^sup>* `` set aff"
  obtain new where new: "?next = aff @ new" "set new \<subseteq> fst ` set (run_tasks r)"
    using affected_pass_append by blast
  have sub: "set ?next \<subseteq> ?R"
    by (rule affected_pass_sound[where keys = aff])
       (use "1.prems" in \<open>auto simp: map_of_is_SomeI intro: rtrancl_into_rtrancl\<close>)
  show ?case
  proof (cases "?next = aff")
    case True
    have "consumes r `` set aff \<subseteq> set aff"
    proof
      fix k
      assume "k \<in> consumes r `` set aff"
      then obtain u t tu c where "u \<in> set aff" "map_of (run_tasks r) k = Some t"
        "map_of (run_tasks r) u = Some tu" "c \<in> set (task_refs t)" "c = u \<or> c \<in> set (tn_artifact_ids tu)"
        by (auto simp: consumes_def)
      then show "k \<in> set aff"
        by (intro affected_pass_fixed[OF True, of k t c]) (auto simp: artifacts_of_mem dest: map_of_SomeD)
    qed
    then have "?R = set aff" by (rule Image_closed_trancl)
    with True show ?thesis by (subst affected_loop.simps) simp
  next
    case False
    have "set (affected_loop r ?next) = (consumes r)\<^sup>* `` set ?next"
      using "1.IH"[OF refl False] new "1.prems" by auto
    also have "\<dots> = ?R" using sub new(1)
      by (simp add: Image_Un) (blast intro: rtrancl_trans)
    finally show ?thesis using False by (subst affected_loop.simps) (simp add: Let_def)
  qed
qed

lemma replan_affected_correct:
  assumes "distinct (map fst (run_tasks r))"
  shows "set (replan_affected r p) = (consumes r)\<^sup>* `` set (seeds r p)"
  unfolding replan_affected_def
  by (rule affected_loop_correct[OF assms]) (auto simp: seeds_def)

section \<open>Materiality\<close>

definition is_accepted_task :: "Run \<Rightarrow> ident \<Rightarrow> bool" where
  "is_accepted_task r k =
     (case map_of (run_tasks r) k of None \<Rightarrow> False | Some t \<Rightarrow> tn_status t = ACCEPTED)"

definition replan_materiality :: "Run \<Rightarrow> ReplanProposal \<Rightarrow> string list" where
  "replan_materiality r p =
     (if rp_add p \<noteq> [] then [''adds '' @ show_nat (length (rp_add p)) @ '' task(s)''] else []) @
     (if rp_remove p \<noteq> [] then [''removes '' @ show_nat (length (rp_remove p)) @ '' task(s)''] else []) @
     (if rp_dependencies p \<noteq> [] then [''rewires task dependencies''] else []) @
     (if rp_reopen p = [] \<and> rp_add p = [] \<and> rp_remove p = [] \<and> rp_dependencies p = []
      then [''changes nothing''] else []) @
     (let discarded = sort (filter (is_accepted_task r) (replan_affected r p)) in
      if discarded \<noteq> [] then [''would supersede accepted work: '' @ join '', '' discarded] else [])"

definition validate_replan :: "Run \<Rightarrow> ReplanProposal \<Rightarrow> py_error + unit" where
  "validate_replan r p =
     (let defects = replan_defects r p in
      if defects \<noteq> [] then Inl (GateError (''Invalid replan proposal: '' @ join ''; '' defects))
      else Inr ())"

section \<open>Proposing and applying\<close>

definition propose_replan :: "ReplanProposal \<Rightarrow> ReplanProposal operation" where
  "propose_replan p r =
     (if rp_base_revision p \<noteq> wp_revision (run_plan r) \<or> rp_id p \<in> fst ` set (run_replans r)
      then Inl (GateError ''Stale or duplicate replan'')
      else bind_ok (validate_replan r p) (\<lambda>_.
        Inr (p, r\<lparr>run_replans := AList.update (rp_id p) p (run_replans r)\<rparr>,
          [event r ''plan.replan_proposed'' [(''proposal'', VProposal p)]])))"

definition replan_scope :: "ReplanProposal \<Rightarrow> json_object" where
  "replan_scope p =
     [(''proposal_id'', JStr (rp_id p)), (''base_revision'', JInt (rp_base_revision p))]"

text \<open>\<open>for artifact_id in task.artifact_ids\<close>: supersede it and withdraw its acceptance.\<close>

fun supersede_artifacts :: "ReplanProposal \<Rightarrow> ident list \<Rightarrow> Run \<Rightarrow> py_error + (Run \<times> Event list)" where
  "supersede_artifacts p [] r = Inr (r, [])"
| "supersede_artifacts p (aid # aids) r =
     bind_ok (dget (run_artifacts r) aid) (\<lambda>a.
     bind_ok (supersede_artifacts p aids
         ((set_artifact aid (a\<lparr>ar_status := ''superseded''\<rparr>) r)
            \<lparr>run_accepted_artifacts := remove1 aid (run_accepted_artifacts r)\<rparr>)) (\<lambda>(r1, evs).
       Inr (r1, event r ''artifact.superseded''
         [(''artifact_id'', VStr aid), (''reason'', VStr (rp_trigger p)),
          (''proposal_id'', VStr (rp_id p))] # evs)))"

definition reset_task :: "ReplanProposal \<Rightarrow> ident \<Rightarrow> TaskNode \<Rightarrow> TaskNode" where
  "reset_task p k t =
     (let t1 = t\<lparr>tn_status := (if k \<in> set (rp_remove p) then CANCELLED else PLANNED),
                 tn_assignment := None, tn_result := None, tn_blocker := None\<rparr> in
      if k \<notin> set (rp_remove p)
      then t1\<lparr>tn_attempt_baseline := tn_attempts t1, tn_revision_baseline := tn_revisions t1\<rparr>
      else t1)"

fun invalidate :: "ReplanProposal \<Rightarrow> ident list \<Rightarrow> Run \<Rightarrow> py_error + (Run \<times> Event list)" where
  "invalidate p [] r = Inr (r, [])"
| "invalidate p (k # ks) r =
     bind_ok (dget (run_tasks r) k) (\<lambda>t.
     bind_ok (supersede_artifacts p (tn_artifact_ids t) r) (\<lambda>(r1, evs1).
     bind_ok (invalidate p ks (set_task k (reset_task p k t) r1)) (\<lambda>(r2, evs2).
       Inr (r2, evs1 @
         [event r ''task.invalidated'' [(''task_id'', VStr k), (''reason'', VStr (rp_trigger p))]] @
         evs2))))"

definition live_keys :: "Run \<Rightarrow> ident list" where
  "live_keys r = map fst (filter (\<lambda>(k, t). tn_status t \<noteq> CANCELLED) (run_tasks r))"

definition revise_plan :: "ReplanProposal \<Rightarrow> Run \<Rightarrow> Run" where
  "revise_plan p r = r\<lparr>run_plan := (run_plan r)
     \<lparr>wp_task_ids := live_keys r, wp_revision := wp_revision (run_plan r) + 1,
      wp_revision_history := wp_revision_history (run_plan r) @ [p]\<rparr>\<rparr>"

definition apply_replan :: "Orchestrator \<Rightarrow> ident \<Rightarrow> unit operation" where
  "apply_replan core proposal_id r =
     bind_ok (dget (run_replans r) proposal_id) (\<lambda>p.
       if rp_base_revision p \<noteq> wp_revision (run_plan r) then Inl (GateError ''Stale proposal'')
       else bind_ok (validate_replan r p) (\<lambda>_.
         bind_ok (if rp_requires_approval p
                  then approved core r (rp_approval_id p) ''replan'' (replan_scope p)
                  else Inr ()) (\<lambda>_.
         bind_ok (invalidate p (replan_affected r p) r) (\<lambda>(r1, evs).
           let r2 = insert_tasks (rp_add p) (rewire (rp_dependencies p) r1) in
           bind_ok (graph r2) (\<lambda>_.
             let r3 = revise_plan p r2 in
             then_refresh () r3
               (evs @ [event r ''plan.replan_applied''
                  [(''proposal_id'', VStr (rp_id p)), (''revision'', VInt (wp_revision (run_plan r3))),
                   (''invalidated'', VStrs (sort (replan_affected r p)))]]))))))"

end
