(* ===== verification/Invariants.thy ===== *)
theory Invariants
  imports Replan
begin

text \<open>
  The invariant of a run's snapshot: what ties tasks, artifacts and the accepted list together, and
  what evidence an accepted artifact carries. Most operations are quiet: they change no artifact and
  move no task into or out of review or acceptance, so one lemma covers them.
\<close>

section \<open>Phases of a task\<close>

datatype phase = Open | UnderReview | Failing | Done

fun phase_of :: "TaskStatus \<Rightarrow> phase" where
  "phase_of SUBMITTED = UnderReview"
| "phase_of REVIEWING = UnderReview"
| "phase_of FAILED = Failing"
| "phase_of ACCEPTED = Done"
| "phase_of PLANNED = Open"
| "phase_of READY = Open"
| "phase_of DELEGATED = Open"
| "phase_of RUNNING = Open"
| "phase_of REVISION_REQUIRED = Open"
| "phase_of REPLACED = Open"
| "phase_of BLOCKED = Open"
| "phase_of CANCELLED = Open"

lemma phase_of_iff [simp]:
  "phase_of s = Done \<longleftrightarrow> s = ACCEPTED" "phase_of s = Failing \<longleftrightarrow> s = FAILED"
  "phase_of s = UnderReview \<longleftrightarrow> s = SUBMITTED \<or> s = REVIEWING"
  "Done = phase_of s \<longleftrightarrow> s = ACCEPTED" "Failing = phase_of s \<longleftrightarrow> s = FAILED"
  "UnderReview = phase_of s \<longleftrightarrow> s = SUBMITTED \<or> s = REVIEWING"
  by (cases s; simp)+

section \<open>The invariant\<close>

text \<open>
  The evidence recorded on an artifact is about its content and comes from principals that are
  neither the Manager nor any worker that was ever assigned the task; sandbox work carries the
  fingerprint of the observed workspace.
\<close>

definition independent :: "Orchestrator \<Rightarrow> TaskNode \<Rightarrow> Artifact \<Rightarrow> bool" where
  "independent core t a \<longleftrightarrow>
     (\<forall>v \<in> set (ar_validations a). av_content_digest v = ar_content_digest a \<and>
        av_validator_id v \<noteq> o_manager_id core \<and> av_validator_id v \<notin> set (authors t) \<and>
        av_evidence v \<noteq> '''') \<and>
     (\<forall>v \<in> set (ar_reviews a). rv_content_digest v = ar_content_digest a \<and>
        rv_reviewer_id v \<noteq> o_manager_id core \<and> rv_reviewer_id v \<notin> set (authors t) \<and>
        rv_evidence v \<noteq> '''') \<and>
     (tn_capability t = DEVELOPER_SANDBOX \<longrightarrow> present (ar_workspace_fingerprint a)) \<and>
     ar_worker_id a \<in> set (authors t)"

definition evidenced :: "Orchestrator \<Rightarrow> TaskNode \<Rightarrow> Artifact \<Rightarrow> bool" where
  "evidenced core t a \<longleftrightarrow> independent core t a \<and> evidence_gate core t a = Inr ()"

definition latest :: "Run \<Rightarrow> TaskNode \<Rightarrow> Artifact option" where
  "latest r t = (case last_opt (tn_artifact_ids t) of
     None \<Rightarrow> None | Some aid \<Rightarrow> map_of (run_artifacts r) aid)"

definition artifact_of :: "Run \<Rightarrow> ident \<Rightarrow> TaskNode \<Rightarrow> ident \<Rightarrow> bool" where
  "artifact_of r k t aid \<longleftrightarrow> (\<exists>a. map_of (run_artifacts r) aid = Some a \<and> ar_task_id a = k \<and>
     (ar_status a = ''candidate'' \<longrightarrow>
        last_opt (tn_artifact_ids t) = Some aid \<and> phase_of (tn_status t) \<in> {UnderReview, Failing}) \<and>
     (ar_status a = ''accepted'' \<longrightarrow>
        last_opt (tn_artifact_ids t) = Some aid \<and> phase_of (tn_status t) = Done))"

definition task_ok :: "Orchestrator \<Rightarrow> Run \<Rightarrow> ident \<Rightarrow> TaskNode \<Rightarrow> bool" where
  "task_ok core r k t \<longleftrightarrow> task_id t = k \<and> distinct (tn_artifact_ids t) \<and>
     (\<forall>aid \<in> set (tn_artifact_ids t). artifact_of r k t aid) \<and>
     (phase_of (tn_status t) = UnderReview \<longrightarrow>
        (\<exists>a. latest r t = Some a \<and> ar_status a = ''candidate'' \<and> independent core t a)) \<and>
     (phase_of (tn_status t) = Done \<longrightarrow>
        (\<exists>a. latest r t = Some a \<and> ar_status a = ''accepted'' \<and> evidenced core t a)) \<and>
     (tn_status t \<in> {DELEGATED, RUNNING} \<longrightarrow>
        (\<exists>w. tn_assignment t = Some w \<and> wa_worker_id w \<in> set (authors t))) \<and>
     attempts_used t \<le> max 0 (tn_max_attempts t)"

lemma task_okI:
  assumes "task_id t = k" "distinct (tn_artifact_ids t)" "attempts_used t \<le> max 0 (tn_max_attempts t)"
    and "\<And>aid. aid \<in> set (tn_artifact_ids t) \<Longrightarrow> artifact_of r k t aid"
    and "phase_of (tn_status t) = UnderReview \<Longrightarrow>
      \<exists>a. latest r t = Some a \<and> ar_status a = ''candidate'' \<and> independent core t a"
    and "phase_of (tn_status t) = Done \<Longrightarrow>
      \<exists>a. latest r t = Some a \<and> ar_status a = ''accepted'' \<and> evidenced core t a"
    and "tn_status t \<in> {DELEGATED, RUNNING} \<Longrightarrow>
      \<exists>w. tn_assignment t = Some w \<and> wa_worker_id w \<in> set (authors t)"
  shows "task_ok core r k t"
  unfolding task_ok_def by (intro conjI ballI impI assms)

lemma task_okD:
  assumes "task_ok core r k t"
  shows "task_id t = k" "distinct (tn_artifact_ids t)" "attempts_used t \<le> max 0 (tn_max_attempts t)"
    "aid \<in> set (tn_artifact_ids t) \<Longrightarrow> artifact_of r k t aid"
    "phase_of (tn_status t) = UnderReview \<Longrightarrow>
      \<exists>a. latest r t = Some a \<and> ar_status a = ''candidate'' \<and> independent core t a"
    "phase_of (tn_status t) = Done \<Longrightarrow>
      \<exists>a. latest r t = Some a \<and> ar_status a = ''accepted'' \<and> evidenced core t a"
    "tn_status t \<in> {DELEGATED, RUNNING} \<Longrightarrow>
      \<exists>w. tn_assignment t = Some w \<and> wa_worker_id w \<in> set (authors t)"
  using assms by (simp_all only: task_ok_def)

definition artifact_ok :: "Orchestrator \<Rightarrow> Run \<Rightarrow> ident \<Rightarrow> Artifact \<Rightarrow> bool" where
  "artifact_ok core r aid a \<longleftrightarrow> ar_id a = aid \<and> ar_run_id a = run_id r \<and>
     o_sha256 core (ar_content a) = ar_content_digest a \<and>
     (\<exists>t. map_of (run_tasks r) (ar_task_id a) = Some t \<and> aid \<in> set (tn_artifact_ids t)) \<and>
     (aid \<in> set (run_accepted_artifacts r) \<longleftrightarrow> ar_status a = ''accepted'')"

definition run_ok :: "Orchestrator \<Rightarrow> Run \<Rightarrow> bool" where
  "run_ok core r \<longleftrightarrow> distinct (map fst (run_tasks r)) \<and> distinct (map fst (run_artifacts r)) \<and>
     distinct (run_accepted_artifacts r) \<and>
     set (run_accepted_artifacts r) \<subseteq> fst ` set (run_artifacts r) \<and>
     (\<forall>k t. map_of (run_tasks r) k = Some t \<longrightarrow> task_ok core r k t) \<and>
     (\<forall>aid a. map_of (run_artifacts r) aid = Some a \<longrightarrow> artifact_ok core r aid a)"

lemma run_okD:
  assumes "run_ok core r"
  shows "distinct (map fst (run_tasks r))" "distinct (map fst (run_artifacts r))"
    "distinct (run_accepted_artifacts r)"
    "set (run_accepted_artifacts r) \<subseteq> fst ` set (run_artifacts r)"
    "map_of (run_tasks r) k = Some t \<Longrightarrow> task_ok core r k t"
    "map_of (run_artifacts r) aid = Some a \<Longrightarrow> artifact_ok core r aid a"
  using assms by (auto simp: run_ok_def)

lemma initial_ok: "run_ok core (initial_run rid objective constraints plan)"
  by (simp add: run_ok_def initial_run_def)

section \<open>Quiet changes\<close>

text \<open>What the invariant reads of a task apart from its status and assignment.\<close>

definition record_view :: "TaskNode \<Rightarrow>
    ident \<times> string list \<times> bool \<times> bool \<times> WorkerAssignment list \<times> ident list \<times> int \<times> int \<times> int" where
  "record_view t = (task_id t, tn_required_checks t, tn_review_required t, tn_high_risk t,
     tn_assignment_history t, tn_artifact_ids t, tn_attempts t, tn_attempt_baseline t, tn_max_attempts t)"

text \<open>A mild change keeps those and moves no task into or out of review or acceptance.\<close>

definition mild_task :: "TaskNode \<Rightarrow> TaskNode \<Rightarrow> bool" where
  "mild_task t t' \<longleftrightarrow> record_view t' = record_view t \<and>
     (tn_capability t' = tn_capability t \<or> phase_of (tn_status t) = Open) \<and>
     (phase_of (tn_status t') = phase_of (tn_status t) \<or>
        phase_of (tn_status t') = Failing \<and> phase_of (tn_status t) \<noteq> Done) \<and>
     (tn_status t' \<in> {DELEGATED, RUNNING} \<longrightarrow>
        tn_status t \<in> {DELEGATED, RUNNING} \<and> tn_assignment t' = tn_assignment t)"

definition mild :: "Run \<Rightarrow> Run \<Rightarrow> bool" where
  "mild r r' \<longleftrightarrow> run_artifacts r' = run_artifacts r \<and>
     run_accepted_artifacts r' = run_accepted_artifacts r \<and> run_id r' = run_id r \<and>
     map fst (run_tasks r') = map fst (run_tasks r) \<and>
     (\<forall>k t t'. map_of (run_tasks r) k = Some t \<longrightarrow> map_of (run_tasks r') k = Some t' \<longrightarrow>
        mild_task t t')"

text \<open>A quiet change is mild, keeps every packet and forgets no registered input.\<close>

definition quiet_task :: "TaskNode \<Rightarrow> TaskNode \<Rightarrow> bool" where
  "quiet_task t t' \<longleftrightarrow> record_view t' = record_view t \<and>
     (tn_capability t' = tn_capability t \<or> phase_of (tn_status t) = Open) \<and>
     (phase_of (tn_status t') = phase_of (tn_status t) \<or>
        phase_of (tn_status t') = Failing \<and> phase_of (tn_status t) \<noteq> Done) \<and>
     (tn_status t' \<in> {DELEGATED, RUNNING} \<longrightarrow>
        tn_status t \<in> {DELEGATED, RUNNING} \<and> tn_assignment t' = tn_assignment t) \<and>
     tn_packet t' = tn_packet t"

definition quiet :: "Run \<Rightarrow> Run \<Rightarrow> bool" where
  "quiet r r' \<longleftrightarrow> run_artifacts r' = run_artifacts r \<and>
     run_accepted_artifacts r' = run_accepted_artifacts r \<and> run_id r' = run_id r \<and>
     map fst (run_tasks r') = map fst (run_tasks r) \<and>
     fst ` set (run_available_inputs r) \<subseteq> fst ` set (run_available_inputs r') \<and>
     (\<forall>k t t'. map_of (run_tasks r) k = Some t \<longrightarrow> map_of (run_tasks r') k = Some t' \<longrightarrow>
        quiet_task t t')"

lemma quiet_task_mild: "quiet_task t t' \<Longrightarrow> mild_task t t'"
  by (simp add: quiet_task_def mild_task_def)

lemma quiet_mild: "quiet r r' \<Longrightarrow> mild r r'"
  by (simp add: quiet_def mild_def quiet_task_mild)

lemma quiet_task_refl [simp]: "quiet_task t t"
  by (simp add: quiet_task_def)

lemma quiet_refl [simp]: "quiet r r"
  by (simp add: quiet_def)

lemma quiet_task_trans: "quiet_task t t' \<Longrightarrow> quiet_task t' t'' \<Longrightarrow> quiet_task t t''"
  unfolding quiet_task_def by (elim conjE) (intro conjI; (metis phase.distinct)?; simp?)

lemma same_keys_task:
  "map fst d' = map fst d \<Longrightarrow> map_of d' k = Some v' \<Longrightarrow> \<exists>v. map_of d k = Some v"
  by (metis keys_map_of list.set_map)

lemma quiet_inputs:
  "quiet r r' \<Longrightarrow> fst ` set (run_available_inputs r) \<subseteq> fst ` set (run_available_inputs r')"
  by (simp only: quiet_def)

lemma quiet_trans:
  assumes "quiet r r'" and "quiet r' r''"
  shows "quiet r r''"
  unfolding quiet_def
proof (intro conjI allI impI)
  fix k t t''
  assume t: "map_of (run_tasks r) k = Some t" and t'': "map_of (run_tasks r'') k = Some t''"
  have "map fst (run_tasks r'') = map fst (run_tasks r')" using assms(2) by (simp add: quiet_def)
  from same_keys_task[OF this t''] obtain t' where "map_of (run_tasks r') k = Some t'" by blast
  with assms t t'' show "quiet_task t t''" by (meson quiet_def quiet_task_trans)
next
  show "fst ` set (run_available_inputs r) \<subseteq> fst ` set (run_available_inputs r'')"
    using quiet_inputs[OF assms(1)] quiet_inputs[OF assms(2)] by (rule subset_trans)
qed (use assms in \<open>simp_all add: quiet_def\<close>)

lemma quiet_set_task:
  "map_of (run_tasks r) k = Some t \<Longrightarrow> quiet_task t t' \<Longrightarrow> quiet r (set_task k t' r)"
  by (auto simp: quiet_def keys_update map_of_in_keys)

lemma quiet_refreshed:
  assumes "refreshed r r'"
  shows "quiet r r'"
  unfolding quiet_def
proof (intro conjI allI impI)
  fix k t t'
  assume t: "map_of (run_tasks r) k = Some t" and t': "map_of (run_tasks r') k = Some t'"
  from assms t' obtain u where "map_of (run_tasks r) k = Some u" "settle_step r u t'"
    by (rule refreshed_task)
  with t show "quiet_task t t'"
    by (auto simp: settle_step_def quiet_task_def record_view_def task_id_def split: if_splits)
qed (use refreshed_frame[OF assms] in auto)

lemma quiet_then_refresh:
  assumes "then_refresh x r1 evs = Inr (y, r', evs')" and "distinct (map fst (run_tasks r1))" and "quiet r r1"
  shows "quiet r r'"
  using assms quiet_trans[OF assms(3) quiet_refreshed] refresh_refreshed
  by (auto simp: then_refresh_Inr)

text \<open>The invariant survives mild changes, and quiet ones in particular.\<close>

lemma independent_view:
  "record_view t' = record_view t \<Longrightarrow> tn_capability t' = tn_capability t \<Longrightarrow>
     independent core t' a = independent core t a"
  by (simp add: independent_def authors_def record_view_def)

lemma evidenced_view:
  assumes "record_view t' = record_view t" and "tn_capability t' = tn_capability t"
  shows "evidenced core t' a = evidenced core t a"
proof -
  have same: "tn_required_checks t' = tn_required_checks t" "authors t' = authors t"
    "needs_review t' = needs_review t"
    using assms by (simp_all add: record_view_def authors_def needs_review_def)
  show ?thesis
    unfolding evidenced_def independent_view[OF assms] evidence_gate_def evidence_principals_def
      missing_checks_def same ..
qed

lemma task_ok_mild:
  assumes ok: "task_ok core r k t" and q: "mild_task t t'" and arts: "run_artifacts r' = run_artifacts r"
  shows "task_ok core r' k t'"
proof -
  have view: "record_view t' = record_view t" using q by (simp add: mild_task_def)
  then have same: "task_id t' = task_id t" "tn_artifact_ids t' = tn_artifact_ids t"
    "attempts_used t' = attempts_used t" "tn_max_attempts t' = tn_max_attempts t" "authors t' = authors t"
    by (simp_all add: record_view_def attempts_used_def authors_def)
  have lat: "latest r' t' = latest r t" unfolding latest_def arts same ..
  have ph: "phase_of (tn_status t') = phase_of (tn_status t) \<or>
      phase_of (tn_status t') = Failing \<and> phase_of (tn_status t) \<noteq> Done" using q by (simp add: mild_task_def)
  have cap: "tn_capability t' = tn_capability t" if "phase_of (tn_status t) \<noteq> Open"
    using q that by (auto simp: mild_task_def)
  show ?thesis
  proof (rule task_okI)
    show "task_id t' = k" "distinct (tn_artifact_ids t')" "attempts_used t' \<le> max 0 (tn_max_attempts t')"
      unfolding same using task_okD(1-3)[OF ok] by auto
  next
    fix aid
    assume "aid \<in> set (tn_artifact_ids t')"
    with ok have "artifact_of r k t aid" unfolding same by (intro task_okD(4))
    then obtain a where "map_of (run_artifacts r) aid = Some a" "ar_task_id a = k"
      "ar_status a = ''candidate'' \<longrightarrow>
        last_opt (tn_artifact_ids t) = Some aid \<and> phase_of (tn_status t) \<in> {UnderReview, Failing}"
      "ar_status a = ''accepted'' \<longrightarrow>
        last_opt (tn_artifact_ids t) = Some aid \<and> phase_of (tn_status t) = Done"
      unfolding artifact_of_def by blast
    then show "artifact_of r' k t' aid"
      unfolding artifact_of_def arts same using ph by (intro exI[of _ a]) auto
  next
    assume rev: "phase_of (tn_status t') = UnderReview"
    with ph have was: "phase_of (tn_status t) = UnderReview" by simp
    with cap have "tn_capability t' = tn_capability t" by simp
    with task_okD(5)[OF ok was] independent_view[OF view this]
    show "\<exists>a. latest r' t' = Some a \<and> ar_status a = ''candidate'' \<and> independent core t' a"
      unfolding lat by simp
  next
    assume "phase_of (tn_status t') = Done"
    with ph have was: "phase_of (tn_status t) = Done" by simp
    with cap have "tn_capability t' = tn_capability t" by simp
    with task_okD(6)[OF ok was] evidenced_view[OF view this]
    show "\<exists>a. latest r' t' = Some a \<and> ar_status a = ''accepted'' \<and> evidenced core t' a"
      unfolding lat by simp
  next
    assume "tn_status t' \<in> {DELEGATED, RUNNING}"
    with q have "tn_status t \<in> {DELEGATED, RUNNING}" "tn_assignment t' = tn_assignment t"
      unfolding mild_task_def by blast+
    with task_okD(7)[OF ok] show "\<exists>w. tn_assignment t' = Some w \<and> wa_worker_id w \<in> set (authors t')"
      unfolding same by simp
  qed
qed

lemma mild_ok:
  assumes ok: "run_ok core r" and q: "mild r r'"
  shows "run_ok core r'"
proof -
  have keys: "map fst (run_tasks r') = map fst (run_tasks r)" using q by (simp add: mild_def)
  have arts: "run_artifacts r' = run_artifacts r" using q by (simp add: mild_def)
  have step: "\<exists>t. map_of (run_tasks r) k = Some t \<and> mild_task t t'"
    if "map_of (run_tasks r') k = Some t'" for k t'
    using same_keys_task[OF keys that] that q by (auto simp: mild_def)
  have "task_ok core r' k t'" if t': "map_of (run_tasks r') k = Some t'" for k t'
  proof -
    from step[OF t'] obtain t where t: "map_of (run_tasks r) k = Some t" "mild_task t t'" by blast
    from task_ok_mild[OF run_okD(5)[OF ok t(1)] t(2) arts] show ?thesis .
  qed
  moreover have "artifact_ok core r' aid a" if "map_of (run_artifacts r') aid = Some a" for aid a
  proof -
    have a: "artifact_ok core r aid a" using run_okD(6)[OF ok] that arts by simp
    then obtain t where t: "map_of (run_tasks r) (ar_task_id a) = Some t" "aid \<in> set (tn_artifact_ids t)"
      by (auto simp: artifact_ok_def)
    from same_keys_task[OF keys[symmetric] t(1)] obtain t' where
      t': "map_of (run_tasks r') (ar_task_id a) = Some t'" by blast
    with q t have "tn_artifact_ids t' = tn_artifact_ids t"
      by (auto simp: mild_def mild_task_def record_view_def)
    with a t t' q show ?thesis by (auto simp: artifact_ok_def mild_def)
  qed
  ultimately show ?thesis using ok q keys arts by (auto simp: run_ok_def mild_def)
qed

lemma quiet_ok: "run_ok core r \<Longrightarrow> quiet r r' \<Longrightarrow> run_ok core r'"
  using mild_ok quiet_mild by blast

end
