(* ===== verification/Quiet_Ops.thy ===== *)
theory Quiet_Ops
  imports Invariants
begin

text \<open>
  The operations that are quiet: they change no artifact, accept nothing, and move no task into
  or out of review or acceptance except by failing it. Each lemma also shows that an operation
  keeps the run's identity, version and cursor and stamps its events with the run.
\<close>

section \<open>The shape of a quiet operation\<close>

definition stamped :: "Run \<Rightarrow> Run \<Rightarrow> Event list \<Rightarrow> bool" where
  "stamped r r' evs \<longleftrightarrow> run_id r' = run_id r \<and> run_version r' = run_version r \<and>
     run_event_cursor r' = run_event_cursor r \<and> (\<forall>e \<in> set evs. ev_run_id e = run_id r)"

definition quiet_op :: "Run \<Rightarrow> Run \<Rightarrow> Event list \<Rightarrow> bool" where
  "quiet_op r r' evs \<longleftrightarrow> quiet r r' \<and> stamped r r' evs"

lemma stamped_trans:
  "stamped r r1 evs1 \<Longrightarrow> stamped r1 r2 evs2 \<Longrightarrow> stamped r r2 (evs1 @ evs2)"
  by (auto simp: stamped_def)

lemma quiet_op_trans:
  "quiet_op r r1 evs1 \<Longrightarrow> quiet_op r1 r2 evs2 \<Longrightarrow> quiet_op r r2 (evs1 @ evs2)"
  unfolding quiet_op_def using quiet_trans stamped_trans by blast

lemma quiet_op_self: "\<forall>e \<in> set evs. ev_run_id e = run_id r \<Longrightarrow> quiet_op r r evs"
  by (simp add: quiet_op_def stamped_def)

lemma quiet_op_set_task:
  "map_of (run_tasks r) k = Some t \<Longrightarrow> quiet_task t t' \<Longrightarrow> \<forall>e \<in> set evs. ev_run_id e = run_id r \<Longrightarrow>
     quiet_op r (set_task k t' r) evs"
  by (simp add: quiet_op_def stamped_def quiet_set_task)

text \<open>Only the tasks, artifacts, accepted list and identity of the new snapshot matter.\<close>

lemma quiet_op_fields:
  assumes "quiet_op r r1 evs" and "run_tasks r2 = run_tasks r1" "run_artifacts r2 = run_artifacts r1"
    "run_accepted_artifacts r2 = run_accepted_artifacts r1" "run_id r2 = run_id r1"
    "run_version r2 = run_version r1" "run_event_cursor r2 = run_event_cursor r1"
    "run_available_inputs r2 = run_available_inputs r1"
    and "\<forall>e \<in> set evs'. ev_run_id e = run_id r"
  shows "quiet_op r r2 evs'"
  using assms by (simp add: quiet_op_def quiet_def stamped_def)

lemma quiet_op_keys: "quiet_op r r1 evs \<Longrightarrow> map fst (run_tasks r1) = map fst (run_tasks r)"
  by (simp add: quiet_op_def quiet_def)

lemma quiet_op_then_refresh:
  assumes ref: "then_refresh x r1 evs = Inr (y, r', evs')" and "distinct (map fst (run_tasks r))"
    and q: "quiet_op r r1 evs"
  shows "quiet_op r r' evs'"
proof -
  have d: "distinct (map fst (run_tasks r1))" using assms(2) quiet_op_keys[OF q] by simp
  from ref obtain more where more: "refresh r1 = Inr (r', more)" and evs': "evs' = evs @ more"
    by (auto simp: then_refresh_Inr)
  have re: "refreshed r1 r'" using refresh_refreshed[OF more d] .
  have "quiet_op r1 r' more"
    using quiet_refreshed[OF re] refreshed_frame[OF re] refresh_events[OF more d]
    by (simp add: quiet_op_def stamped_def)
  with q show ?thesis unfolding evs' by (rule quiet_op_trans)
qed

lemma quiet_op_ok: "quiet_op r r' evs \<Longrightarrow> run_ok core r \<Longrightarrow> run_ok core r'"
  unfolding quiet_op_def using quiet_ok by blast

section \<open>Planning\<close>

lemma set_completion_criteria_quiet:
  "set_completion_criteria criteria r = Inr (x, r', evs) \<Longrightarrow> quiet_op r r' evs"
  by (auto simp: set_completion_criteria_def split: if_splits intro: quiet_op_fields[OF quiet_op_self[of "[]"]])

lemma register_input_quiet:
  assumes "register_input name reference r = Inr (x, r', evs)" and "distinct (map fst (run_tasks r))"
  shows "quiet_op r r' evs"
proof -
  let ?r = "r\<lparr>run_available_inputs := AList.update name reference (run_available_inputs r)\<rparr>"
  let ?ev = "event r ''input.registered'' [(''name'', VStr name), (''reference'', VStr reference)]"
  from assms(1) have ref: "then_refresh () ?r [?ev] = Inr (x, r', evs)"
    by (simp add: register_input_def guard_Inr)
  have "quiet_op r ?r [?ev]" by (auto simp: quiet_op_def quiet_def stamped_def)
  with ref assms(2) show ?thesis by (rule quiet_op_then_refresh)
qed

lemma bind_workspace_quiet:
  assumes "bind_workspace tid w r = Inr (x, r', evs)" and "distinct (map fst (run_tasks r))"
  shows "quiet_op r r' evs"
  using assms unfolding bind_workspace_def
  by (auto simp: bind_ok_Inr_iff quiet_task_def record_view_def task_id_def
      split: if_splits elim!: quiet_op_then_refresh intro!: quiet_op_set_task)

lemma replace_workspace_quiet:
  assumes "replace_workspace tid w w' reason r = Inr (x, r', evs)"
  shows "quiet_op r r' evs"
  using assms unfolding replace_workspace_def
  by (auto simp: bind_ok_Inr_iff quiet_task_def record_view_def task_id_def
      split: if_splits intro!: quiet_op_set_task)

section \<open>Execution\<close>

lemma start_quiet:
  assumes "start tid r = Inr (x, r', evs)"
  shows "quiet_op r r' evs"
  using assms unfolding start_def
  by (auto simp: bind_ok_Inr_iff transition_Inr TRANSITIONS_entered quiet_task_def record_view_def
      task_id_def split: if_splits option.splits intro!: quiet_op_set_task)

lemma provisional_result_quiet: "provisional_result t aid wid result = Inr t' \<Longrightarrow> quiet_task t t'"
  by (auto simp: provisional_result_def quiet_task_def record_view_def task_id_def split: if_splits)

lemma record_provisional_result_quiet:
  "record_provisional_result tid aid wid result r = Inr (x, r', evs) \<Longrightarrow> quiet_op r r' evs"
  by (auto simp: record_provisional_result_def bind_ok_Inr_iff
      intro: quiet_op_set_task provisional_result_quiet)

lemma record_capability_request_quiet:
  assumes "record_capability_request new_id tid aid wid result r = Inr (x, r', evs)"
  shows "quiet_op r r' evs"
proof (cases "wr_capability_request result")
  case None
  with assms show ?thesis by (auto simp: record_capability_request_def bind_ok_Inr_iff)
next
  case (Some payload)
  with assms show ?thesis
    by (auto simp: record_capability_request_def bind_ok_Inr_iff Let_def split: if_splits
        intro: quiet_op_fields[OF quiet_op_set_task[where evs = "[]"]] provisional_result_quiet)
qed

section \<open>Failure, interruption, closing\<close>

lemma fail_task_quiet:
  assumes "map_of (run_tasks r) key = Some t" and "fail_task new_id key t c evidence r = Inr (x, r', evs)"
  shows "quiet_op r r' evs"
proof -
  from assms(2) have "FAILED \<in> TRANSITIONS (tn_status t)"
    and r': "r' = (set_task key (t\<lparr>tn_status := FAILED, tn_blocker := Some evidence\<rparr>) r)\<lparr>run_failures := run_failures r @ [x]\<rparr>"
    and evs: "\<forall>e \<in> set evs. ev_run_id e = run_id r"
    by (auto simp: fail_task_def bind_ok_Inr_iff transition_Inr Let_def split: if_splits option.splits)
  then have "quiet_task t (t\<lparr>tn_status := FAILED, tn_blocker := Some evidence\<rparr>)"
    by (auto simp: TRANSITIONS_entered IN_FLIGHT_TASK_STATUSES_def quiet_task_def record_view_def task_id_def)
  with assms(1) evs show ?thesis
    unfolding r' by (intro quiet_op_fields[OF quiet_op_set_task[where evs = "[]"]]) auto
qed

lemma fail_quiet: "fail new_id tid c evidence r = Inr (x, r', evs) \<Longrightarrow> quiet_op r r' evs"
  by (auto simp: fail_def bind_ok_Inr_iff intro: fail_task_quiet)

lemma fail_assignment_quiet:
  "fail_assignment new_id tid aid wid c evidence r = Inr (x, r', evs) \<Longrightarrow> quiet_op r r' evs"
  by (auto simp: fail_assignment_def bind_ok_Inr_iff split: if_splits intro: fail_task_quiet)

lemma interrupt_task_quiet:
  assumes "map_of (run_tasks r) key = Some t" and "interrupt_task ids key t r = Inr (r', evs)"
  shows "quiet_op r r' evs"
proof (cases "tn_status t \<in> {DELEGATED, RUNNING}")
  case True
  let ?t = "t\<lparr>tn_status := FAILED, tn_blocker := Some INTERRUPTED\<rparr>"
  have "quiet_task t ?t"
    using True by (auto simp: quiet_task_def record_view_def task_id_def)
  with assms(1) have "quiet_op r (set_task key ?t r) []" by (intro quiet_op_set_task) auto
  then show ?thesis
    by (rule quiet_op_fields)
       (use assms(2) True in \<open>auto simp: interrupt_task_def bind_ok_Inr_iff transition_Inr Let_def
          split: option.splits\<close>)
next
  case False
  with assms(2) show ?thesis by (simp add: interrupt_task_def quiet_op_self)
qed

lemma interrupt_from_quiet: "interrupt_from ids ks r = Inr (r', evs) \<Longrightarrow> quiet_op r r' evs"
proof (induction ids ks r arbitrary: r' evs rule: interrupt_from.induct)
  case (1 ids r)
  then show ?case by (simp add: quiet_op_self)
next
  case (2 ids k ks r)
  then show ?case
    by (auto simp: bind_ok_Inr_iff split: option.splits
        intro: quiet_op_trans[OF interrupt_task_quiet])
qed

lemma resume_quiet: "resume ids r = Inr (x, r', evs) \<Longrightarrow> quiet_op r r' evs"
  by (auto simp: resume_def bind_ok_Inr_iff dest!: interrupt_from_quiet)
     (auto simp: quiet_op_def stamped_def)

lemma abandon_quiet: "abandon reason actor r = Inr (x, r', evs) \<Longrightarrow> quiet_op r r' evs"
  by (auto simp: abandon_def Let_def split: if_splits intro: quiet_op_fields[OF quiet_op_self[of "[]"]])

lemma complete_quiet: "complete_run result evidence r = Inr (x, r', evs) \<Longrightarrow> quiet_op r r' evs"
  by (auto simp: complete_run_def Let_def bind_ok_Inr_iff split: if_splits
      intro: quiet_op_fields[OF quiet_op_self[of "[]"]])

end
