(* ===== verification/Quiet_Gates.thy ===== *)
theory Quiet_Gates
  imports Quiet_Ops
begin

text \<open>
  The quiet operations on approvals, capabilities and replan proposals.
\<close>

lemma gates_quiet [simp]: "quiet_task t (t\<lparr>tn_approval_gates := gs\<rparr>)"
  by (simp add: quiet_task_def record_view_def task_id_def)

lemma blocker_quiet [simp]: "quiet_task t (t\<lparr>tn_blocker := b\<rparr>)"
  by (simp add: quiet_task_def record_view_def task_id_def)

section \<open>Superseding an approval\<close>

lemma replace_gates_quiet:
  "replace_gates r old new gs t = Inr (gs', t', evs) \<Longrightarrow>
     quiet_task t t' \<and> (\<forall>e \<in> set evs. ev_run_id e = run_id r)"
proof (induction r old new gs t arbitrary: gs' t' evs rule: replace_gates.induct)
  case (1 r old new t)
  then show ?case by simp
next
  case (2 r old new g gs t)
  show ?case
  proof (cases "ag_request_id g = old")
    case True
    with "2.prems" obtain t1 evs1 gs2 evs2 where
      one: "(if tn_status t = READY then transition r t BLOCKED ''Replacement approval pending''
             else Inr (t, [])) = Inr (t1, evs1)"
      and rest: "replace_gates r old new gs (t1\<lparr>tn_blocker := Some (blocker_text APPROVAL_PENDING)\<rparr>) = Inr (gs2, t', evs2)"
      and evs: "evs = evs1 @ [event r ''task.approval_gate_replaced''
        [(''task_id'', VStr (task_id t)), (''prior_approval_id'', VStr old), (''gate'', VGate new)]] @ evs2"
      by (auto simp: bind_ok_Inr_iff)
    have q1: "quiet_task t t1" and ids: "\<forall>e \<in> set evs1. ev_run_id e = run_id r"
      using one by (auto simp: transition_Inr quiet_task_def record_view_def task_id_def split: if_splits)
    from "2.IH"(1)[OF True one refl rest] have
      "quiet_task (t1\<lparr>tn_blocker := Some (blocker_text APPROVAL_PENDING)\<rparr>) t'"
      and ids2: "\<forall>e \<in> set evs2. ev_run_id e = run_id r" by blast+
    then have "quiet_task t t'" by (intro quiet_task_trans[OF quiet_task_trans[OF q1 blocker_quiet]])
    with ids ids2 show ?thesis unfolding evs by auto
  next
    case False
    with "2.prems" "2.IH"(2)[OF False] show ?thesis by (auto simp: bind_ok_Inr_iff)
  qed
qed

lemma replace_in_tasks_quiet:
  "replace_in_tasks old new ks r = Inr (r', evs) \<Longrightarrow> quiet_op r r' evs"
proof (induction old new ks r arbitrary: r' evs rule: replace_in_tasks.induct)
  case (1 old new r)
  then show ?case by (simp add: quiet_op_self)
next
  case (2 old new k ks r)
  show ?case
  proof (cases "map_of (run_tasks r) k")
    case None
    with 2 show ?thesis by simp
  next
    case (Some t)
    with "2.prems" obtain gs t1 evs1 evs2 where
      one: "replace_gates r old new (tn_approval_gates t) t = Inr (gs, t1, evs1)"
      and rest: "replace_in_tasks old new ks (set_task k (t1\<lparr>tn_approval_gates := gs\<rparr>) r) = Inr (r', evs2)"
      and evs: "evs = evs1 @ evs2"
      by (auto simp: bind_ok_Inr_iff)
    from replace_gates_quiet[OF one] have "quiet_task t (t1\<lparr>tn_approval_gates := gs\<rparr>)"
      and ids: "\<forall>e \<in> set evs1. ev_run_id e = run_id r"
      using quiet_task_trans gates_quiet by blast+
    with Some have "quiet_op r (set_task k (t1\<lparr>tn_approval_gates := gs\<rparr>) r) evs1"
      by (intro quiet_op_set_task)
    moreover have "quiet_op (set_task k (t1\<lparr>tn_approval_gates := gs\<rparr>) r) r' evs2"
      using "2.IH"(2)[OF Some one refl refl rest] by simp
    ultimately show ?thesis unfolding evs by (rule quiet_op_trans)
  qed
qed

lemma supersede_quiet:
  assumes "supersede old request r = Inr (r', evs)"
  shows "quiet_op r r' evs"
proof -
  from assms obtain prior evs1 where
    rep: "replace_in_tasks old
       \<lparr>ag_request_id = aq_id request, ag_action = aq_action request,
        ag_scope_json = aq_scope_json request, ag_scope_digest = aq_scope_digest request\<rparr>
       (map fst (run_tasks r))
       (r\<lparr>run_approvals := AList.update old
          (prior\<lparr>aq_status := AP_SUPERSEDED, aq_replacement_id := Some (aq_id request)\<rparr>)
          (run_approvals r)\<rparr>) = Inr (r', evs1)"
    and evs: "evs = event r ''approval.superseded''
               [(''approval_id'', VStr old), (''replacement_id'', VStr (aq_id request))] # evs1"
    unfolding supersede_def by (auto simp: bind_ok_Inr_iff split: option.splits if_splits)
  from replace_in_tasks_quiet[OF rep] show ?thesis
    unfolding evs by (simp add: quiet_op_def quiet_def stamped_def)
qed

lemma request_approval_quiet:
  assumes "request_approval core new_id action scope reason category target risk refs capability
    required supersedes r = Inr (x, r', evs)"
  shows "quiet_op r r' evs"
proof -
  from assms obtain r1 evs1 request where
    sup: "(case supersedes of None \<Rightarrow> Inr (r, []) | Some old \<Rightarrow> supersede old request r) = Inr (r1, evs1)"
    and r': "r' = r1\<lparr>run_approvals := AList.update new_id request (run_approvals r1)\<rparr>"
    and evs: "evs = evs1 @ [event r ''approval.required'' [(''request'', VApproval request)]]"
    unfolding request_approval_def by (auto simp: bind_ok_Inr_iff)
  have q: "quiet_op r r1 evs1"
    using sup by (cases supersedes) (auto simp: quiet_op_self intro: supersede_quiet)
  then have "\<forall>e \<in> set evs. ev_run_id e = run_id r" unfolding evs by (simp add: quiet_op_def stamped_def)
  with q show ?thesis unfolding r' by (intro quiet_op_fields[OF q]) auto
qed

section \<open>Gates and decisions\<close>

lemma recover_legacy_quiet:
  assumes "recover_legacy_approval_gate core tid legacy aid action scope r = Inr (x, r', evs)"
    and "distinct (map fst (run_tasks r))"
  shows "quiet_op r r' evs"
  using assms unfolding recover_legacy_approval_gate_def
  by (auto simp: bind_ok_Inr_iff Let_def quiet_task_def record_view_def task_id_def
      split: if_splits option.splits elim!: quiet_op_then_refresh intro!: quiet_op_set_task)

lemma gate_task_quiet:
  assumes "gate_task core tid aid action scope r = Inr (x, r', evs)"
    and "distinct (map fst (run_tasks r))"
  shows "quiet_op r r' evs"
  using assms unfolding gate_task_def
  by (auto simp: bind_ok_Inr_iff Let_def transition_Inr quiet_task_def record_view_def task_id_def
      split: if_splits option.splits elim!: quiet_op_then_refresh intro!: quiet_op_set_task)

lemma decide_task_quiet: "quiet_task t (decide_task aid ok t)"
  by (simp add: decide_task_def)

lemma map_of_map_tasks: "map_of (map (\<lambda>(k, t). (k, f t)) d) k = map_option f (map_of d k)"
  by (induct d) auto

lemma decided_quiet: "\<forall>e \<in> set evs. ev_run_id e = run_id r \<Longrightarrow> quiet_op r (decided aid d request r) evs"
  by (auto simp: quiet_op_def quiet_def stamped_def decided_def map_of_map_tasks decide_task_quiet)

lemma decide_approval_quiet:
  assumes "decide_approval aid ok human reason r = Inr (x, r', evs)"
    and "distinct (map fst (run_tasks r))"
  shows "quiet_op r r' evs"
  using assms unfolding decide_approval_def Let_def
  by (auto simp: guard_Inr split: option.splits elim!: quiet_op_then_refresh intro!: decided_quiet
      simp del: if_split_asm)

section \<open>Capabilities\<close>

lemma set_request_quiet:
  "\<forall>e \<in> set evs. ev_run_id e = run_id r \<Longrightarrow> quiet_op r (set_request k c r) evs"
  by (simp add: quiet_op_def quiet_def stamped_def set_request_def)

lemma link_capability_approval_quiet:
  "link_capability_approval core request_id approval_id w r = Inr (x, r', evs) \<Longrightarrow> quiet_op r r' evs"
  by (auto simp: link_capability_approval_def bind_ok_Inr_iff split: if_splits option.splits
      intro!: set_request_quiet)

lemma approve_capability_request_quiet:
  "approve_capability_request request_id r = Inr (x, r', evs) \<Longrightarrow> quiet_op r r' evs"
  by (auto simp: approve_capability_request_def bind_ok_Inr_iff split: if_splits intro!: set_request_quiet)

lemma deny_capability_request_quiet:
  "deny_capability_request request_id reason r = Inr (x, r', evs) \<Longrightarrow> quiet_op r r' evs"
  by (auto simp: deny_capability_request_def bind_ok_Inr_iff split: if_splits intro!: set_request_quiet)

lemma mark_capability_escalated_quiet:
  "mark_capability_escalated request_id r = Inr (x, r', evs) \<Longrightarrow> quiet_op r r' evs"
  by (auto simp: mark_capability_escalated_def bind_ok_Inr_iff split: if_splits intro!: set_request_quiet)

lemma with_capability_quiet:
  "phase_of (tn_status t) = Open \<Longrightarrow> tn_status t \<notin> {DELEGATED, RUNNING} \<Longrightarrow>
     quiet_task t (with_capability c w b t)"
  by (simp add: with_capability_def Let_def quiet_task_def record_view_def task_id_def)

lemma escalation_events_ids: "\<forall>e \<in> set (escalation_events r c t). ev_run_id e = run_id r"
  by (auto simp: escalation_events_def)

lemma escalate_task_Inr:
  "escalate_task core request_id r = Inr (x, r', evs) \<longleftrightarrow>
     (\<exists>c t. map_of (run_capability_requests r) request_id = Some c \<and>
        map_of (run_tasks r) (cr_task_id c) = Some t \<and> cr_status c \<in> {CR_PENDING, CR_APPROVED} \<and>
        present (cr_approval_id c) \<and> tn_status t \<in> {BLOCKED, READY, REVISION_REQUIRED} \<and>
        validate_capability_checks t (Some (cr_requested_capability c)) = Inr () \<and>
        linked_granted r (cr_approval_id c) \<and>
        approved core r (cr_approval_id c) ''change_capability''
          (capability_scope (task_id t) (cr_requested_capability c) (cr_workspace_id c)) = Inr () \<and>
        (needs_workspace (cr_requested_capability c) \<longrightarrow> present (cr_workspace_id c)) \<and>
        then_refresh (c\<lparr>cr_status := CR_ESCALATED\<rparr>)
             (set_task (cr_task_id c)
               (with_capability (cr_requested_capability c) (cr_workspace_id c)
                 (blocker_text APPROVAL_PREREQUISITES_SATISFIED) t)
               (set_request request_id (c\<lparr>cr_status := CR_ESCALATED\<rparr>) r))
             (escalation_events r c t) = Inr (x, r', evs))"
  by (simp add: escalate_task_def bind_ok_Inr_iff guard_Inr)

lemma escalate_task_quiet:
  assumes "escalate_task core request_id r = Inr (x, r', evs)" and "distinct (map fst (run_tasks r))"
  shows "quiet_op r r' evs"
proof -
  from assms(1) obtain c t where t: "map_of (run_tasks r) (cr_task_id c) = Some t"
    and st: "tn_status t \<in> {BLOCKED, READY, REVISION_REQUIRED}"
    and ref: "then_refresh (c\<lparr>cr_status := CR_ESCALATED\<rparr>)
       (set_task (cr_task_id c)
         (with_capability (cr_requested_capability c) (cr_workspace_id c)
           (blocker_text APPROVAL_PREREQUISITES_SATISFIED) t)
         (set_request request_id (c\<lparr>cr_status := CR_ESCALATED\<rparr>) r))
       (escalation_events r c t) = Inr (x, r', evs)"
    unfolding escalate_task_Inr by blast
  let ?r1 = "set_request request_id (c\<lparr>cr_status := CR_ESCALATED\<rparr>) r"
  let ?t = "with_capability (cr_requested_capability c) (cr_workspace_id c)
    (blocker_text APPROVAL_PREREQUISITES_SATISFIED) t"
  have q: "quiet_task t ?t" by (rule with_capability_quiet) (use st in auto)
  have "quiet_op r ?r1 []" by (simp add: set_request_quiet)
  moreover have "quiet_op ?r1 (set_task (cr_task_id c) ?t ?r1) (escalation_events r c t)"
    using t q escalation_events_ids[of r c t] by (intro quiet_op_set_task) (auto simp: set_request_def)
  ultimately have "quiet_op r (set_task (cr_task_id c) ?t ?r1) ([] @ escalation_events r c t)"
    by (rule quiet_op_trans)
  then have "quiet_op r (set_task (cr_task_id c) ?t ?r1) (escalation_events r c t)" by simp
  with ref assms(2) show ?thesis by (rule quiet_op_then_refresh)
qed

lemma apply_capability_escalation_quiet:
  assumes "apply_capability_escalation core request_id m r = Inr (x, r', evs)"
    and "distinct (map fst (run_tasks r))"
  shows "quiet_op r r' evs"
  using assms unfolding apply_capability_escalation_def
  by (auto simp: bind_ok_Inr_iff quiet_op_self split: if_splits intro: escalate_task_quiet)

lemma change_capability_quiet:
  assumes "change_capability core tid capability aid w r = Inr (x, r', evs)"
    and "distinct (map fst (run_tasks r))"
  shows "quiet_op r r' evs"
proof -
  let ?b = "approved_blocker capability w"
  let ?ev = "event r ''capability.escalated''
    [(''task_id'', VStr tid), (''capability'', VStr (capability_value capability)),
     (''workspace_id'', opt_value w), (''approval_id'', VStr aid)]"
  from assms(1) obtain t t3 evs1 where t: "map_of (run_tasks r) tid = Some t"
    and st: "tn_status t \<in> {PLANNED, READY, REVISION_REQUIRED, BLOCKED}"
    and demote: "(let t2 = with_capability capability w ?b t in
      if tn_status t2 = READY \<and> \<not> ready (set_task tid t2 r) t2
      then bind_ok (transition r t2 BLOCKED (blocker_text CAPABILITY_PREREQUISITES_MISSING))
        (\<lambda>(t3, evs). Inr (t3\<lparr>tn_blocker := Some (blocker_text CAPABILITY_PREREQUISITES_MISSING)\<rparr>, evs))
      else Inr (t2, [])) = Inr (t3, evs1)"
    and ref: "then_refresh () (set_task tid t3 r) (?ev # evs1) = Inr (x, r', evs)"
    unfolding change_capability_def
    by (auto simp: guard_Inr bind_ok_Inr_iff Let_def simp del: blocker_text.simps split del: if_split)
  let ?t2 = "with_capability capability w ?b t"
  have q: "quiet_task t ?t2" by (rule with_capability_quiet) (use st in auto)
  have q2: "quiet_task ?t2 t3" and ids: "\<forall>e \<in> set evs1. ev_run_id e = run_id r"
    using demote by (auto simp: Let_def bind_ok_Inr_iff transition_Inr quiet_task_def record_view_def
        task_id_def split: if_splits)
  from t quiet_task_trans[OF q q2] ids have "quiet_op r (set_task tid t3 r) (?ev # evs1)"
    by (intro quiet_op_set_task) auto
  with ref assms(2) show ?thesis by (rule quiet_op_then_refresh)
qed

section \<open>Proposals\<close>

lemma propose_replan_quiet: "propose_replan p r = Inr (x, r', evs) \<Longrightarrow> quiet_op r r' evs"
  by (auto simp: propose_replan_def bind_ok_Inr_iff split: if_splits
      intro: quiet_op_fields[OF quiet_op_self[of "[]"]])

end
