(* ===== verification/Evidence_Ops.thy ===== *)
theory Evidence_Ops
  imports Quiet_Gates
begin

text \<open>
  The operations that build and judge artifacts keep the invariant: delegation, submission,
  validation, review, acceptance, integration and recovery.
\<close>

section \<open>Changing one task and one of its artifacts\<close>

lemma artifact_of_cong:
  "map_of (run_artifacts r') aid = map_of (run_artifacts r) aid \<Longrightarrow>
     artifact_of r' k t aid = artifact_of r k t aid"
  by (simp add: artifact_of_def)

lemma task_ok_artifacts:
  assumes "task_ok core r k t"
    and "\<And>aid. aid \<in> set (tn_artifact_ids t) \<Longrightarrow>
      map_of (run_artifacts r') aid = map_of (run_artifacts r) aid"
  shows "task_ok core r' k t"
proof -
  have lat: "latest r' t = latest r t"
    unfolding latest_def using assms(2) last_opt_mem[of "tn_artifact_ids t"]
    by (cases "last_opt (tn_artifact_ids t)") auto
  show ?thesis
  proof (rule task_okI)
    show "task_id t = k" "distinct (tn_artifact_ids t)" "attempts_used t \<le> max 0 (tn_max_attempts t)"
      by (fact task_okD(1-3)[OF assms(1)])+
    show "artifact_of r' k t aid" if "aid \<in> set (tn_artifact_ids t)" for aid
      unfolding artifact_of_cong[OF assms(2)[OF that]] using assms(1) that by (rule task_okD(4))
  next
    assume "phase_of (tn_status t) = UnderReview"
    then show "\<exists>a. latest r' t = Some a \<and> ar_status a = ''candidate'' \<and> independent core t a"
      unfolding lat by (rule task_okD(5)[OF assms(1)])
  next
    assume "phase_of (tn_status t) = Done"
    then show "\<exists>a. latest r' t = Some a \<and> ar_status a = ''accepted'' \<and> evidenced core t a"
      unfolding lat by (rule task_okD(6)[OF assms(1)])
  next
    assume "tn_status t \<in> {DELEGATED, RUNNING}"
    then show "\<exists>w. tn_assignment t = Some w \<and> wa_worker_id w \<in> set (authors t)"
      by (rule task_okD(7)[OF assms(1)])
  qed
qed

text \<open>Changing one task, with the artifacts as they are.\<close>

lemma set_task_ok:
  assumes ok: "run_ok core r" and t: "map_of (run_tasks r) k = Some t"
    and ids: "tn_artifact_ids t' = tn_artifact_ids t" and t': "task_ok core r k t'"
    and r': "run_tasks r' = AList.update k t' (run_tasks r)" "run_artifacts r' = run_artifacts r"
      "run_accepted_artifacts r' = run_accepted_artifacts r" "run_id r' = run_id r"
  shows "run_ok core r'"
proof -
  have "task_ok core r' j u" if "map_of (run_tasks r') j = Some u" for j u
  proof (cases "j = k")
    case True
    with that r' t' show ?thesis by (auto intro: task_ok_artifacts)
  next
    case False
    with that r' have "task_ok core r j u" by (intro run_okD(5)[OF ok]) simp
    with r' show ?thesis by (auto intro: task_ok_artifacts)
  qed
  moreover have "artifact_ok core r' aid a" if "map_of (run_artifacts r') aid = Some a" for aid a
  proof -
    have "artifact_ok core r aid a" using that r' by (intro run_okD(6)[OF ok]) simp
    with r' t ids show ?thesis by (auto simp: artifact_ok_def)
  qed
  ultimately show ?thesis using run_okD(1-4)[OF ok] r' by (simp add: run_ok_def)
qed

text \<open>Changing one artifact together with its task.\<close>

definition same_source :: "Artifact \<Rightarrow> Artifact \<Rightarrow> bool" where
  "same_source a a' \<longleftrightarrow> ar_id a' = ar_id a \<and> ar_run_id a' = ar_run_id a \<and> ar_task_id a' = ar_task_id a \<and>
     ar_content a' = ar_content a \<and> ar_content_digest a' = ar_content_digest a"

lemma update_ok:
  assumes ok: "run_ok core r" and t: "map_of (run_tasks r) k = Some t"
    and a: "map_of (run_artifacts r) aid = Some a" "ar_task_id a = k" "same_source a a'"
    and ids: "tn_artifact_ids t' = tn_artifact_ids t" and t': "task_ok core r' k t'"
    and r': "run_tasks r' = AList.update k t' (run_tasks r)"
      "run_artifacts r' = AList.update aid a' (run_artifacts r)" "run_id r' = run_id r"
    and acc: "distinct (run_accepted_artifacts r')"
      "\<And>x. x \<noteq> aid \<Longrightarrow> x \<in> set (run_accepted_artifacts r') \<longleftrightarrow> x \<in> set (run_accepted_artifacts r)"
      "aid \<in> set (run_accepted_artifacts r') \<longleftrightarrow> ar_status a' = ''accepted''"
  shows "run_ok core r'"
proof -
  have "task_ok core r' j u" if u: "map_of (run_tasks r') j = Some u" for j u
  proof (cases "j = k")
    case True
    with u r' t' show ?thesis by simp
  next
    case False
    with u r' have ok': "task_ok core r j u" by (intro run_okD(5)[OF ok]) simp
    have "aid \<notin> set (tn_artifact_ids u)"
      using task_okD(4)[OF ok', of aid] a False by (auto simp: artifact_of_def)
    then show ?thesis by (intro task_ok_artifacts[OF ok']) (auto simp: r'(2))
  qed
  moreover have "artifact_ok core r' x b" if b: "map_of (run_artifacts r') x = Some b" for x b
  proof (cases "x = aid")
    case True
    have here: "artifact_ok core r aid a" using ok a(1) by (rule run_okD)
    have "b = a'" using True b r'(2) by simp
    moreover have "\<exists>u. map_of (run_tasks r') (ar_task_id a') = Some u \<and> aid \<in> set (tn_artifact_ids u)"
      using here t a(2,3) ids r'(1) by (simp add: artifact_ok_def same_source_def)
    ultimately show ?thesis using True here a(3) acc(3) r'(3)
      by (simp add: artifact_ok_def same_source_def)
  next
    case False
    with b r' have "artifact_ok core r x b" by (intro run_okD(6)[OF ok]) simp
    with False r' t ids acc(2) show ?thesis by (auto simp: artifact_ok_def)
  qed
  moreover have "set (run_accepted_artifacts r') \<subseteq> fst ` set (run_artifacts r')"
  proof
    fix x
    assume x: "x \<in> set (run_accepted_artifacts r')"
    show "x \<in> fst ` set (run_artifacts r')"
    proof (cases "x = aid")
      case True
      then show ?thesis by (auto simp: r' keys_map_of)
    next
      case False
      with x acc(2) run_okD(4)[OF ok] have "x \<in> fst ` set (run_artifacts r)" by blast
      with False show ?thesis by (auto simp: r' keys_map_of)
    qed
  qed
  ultimately show ?thesis using run_okD(1,2)[OF ok] acc(1) r' by (simp add: run_ok_def)
qed

section \<open>Delegation\<close>

lemma delegate_Inr:
  "delegate core new_id tid worker_id r = Inr (x, r', evs) \<longleftrightarrow>
     (\<exists>t t2. map_of (run_tasks r) tid = Some t \<and> substantive worker_id \<and> worker_id \<noteq> o_manager_id core \<and>
        attempts_used t < tn_max_attempts t \<and> ready r t \<and> tn_status t \<in> {READY, REVISION_REQUIRED} \<and>
        x = \<lparr>wa_id = new_id, wa_worker_id = worker_id, wa_task_id = tid,
             wa_capability = tn_capability t, wa_workspace_id = tn_workspace_id t\<rparr> \<and>
        t2 = t\<lparr>tn_status := DELEGATED, tn_assignment := Some x,
               tn_assignment_history := tn_assignment_history t @ [x], tn_attempts := tn_attempts t + 1\<rparr> \<and>
        r' = set_task tid t2 r \<and>
        evs = [event r ''task.delegated''
                 [(''task_id'', VStr (task_id t)), (''previous'', VStr (status_value (tn_status t))),
                  (''reason'', VStr ''Manager delegation'')],
               event r ''assignment.created''
                 [(''assignment'', VAssignment x), (''attempt'', VInt (tn_attempts t2))]])"
proof -
  have low: "lower ''DELEGATED'' = ''delegated''" by code_simp
  show ?thesis
    unfolding delegate_def ready_def
    by (auto simp: Inr_simps transition_Inr TRANSITIONS_entered low Let_def not_le
        none_Inr)
qed

lemma authors_delegated:
  "authors (t\<lparr>tn_status := s, tn_assignment := b, tn_assignment_history := h @ [w], tn_attempts := n\<rparr>) =
     map wa_worker_id h @ [wa_worker_id w]"
  by (simp add: authors_def)

lemma delegate_ok:
  assumes ok: "run_ok core r" and del: "delegate core new_id tid worker_id r = Inr (x, r', evs)"
  shows "run_ok core r'"
proof -
  from del obtain t where t: "map_of (run_tasks r) tid = Some t"
    and budget: "attempts_used t < tn_max_attempts t" and st: "tn_status t \<in> {READY, REVISION_REQUIRED}"
    and r': "r' = set_task tid (t\<lparr>tn_status := DELEGATED, tn_assignment := Some x,
      tn_assignment_history := tn_assignment_history t @ [x], tn_attempts := tn_attempts t + 1\<rparr>) r"
    unfolding delegate_Inr by blast
  let ?t = "t\<lparr>tn_status := DELEGATED, tn_assignment := Some x,
    tn_assignment_history := tn_assignment_history t @ [x], tn_attempts := tn_attempts t + 1\<rparr>"
  note tok = task_okD[OF run_okD(5)[OF ok t]]
  have open': "phase_of (tn_status t) = Open" using st by auto
  have "task_ok core r tid ?t"
  proof (rule task_okI)
    show "task_id ?t = tid" "distinct (tn_artifact_ids ?t)"
      "attempts_used ?t \<le> max 0 (tn_max_attempts ?t)"
      using tok(1,2) budget by (auto simp: task_id_def attempts_used_def)
  next
    fix aid
    assume "aid \<in> set (tn_artifact_ids ?t)"
    with tok(4) open' show "artifact_of r tid ?t aid" by (auto simp: artifact_of_def)
  qed (auto simp: authors_delegated)
  with ok t show ?thesis unfolding r' by (intro set_task_ok[OF ok t]) simp_all
qed

section \<open>Submission\<close>

lemma submit_Inr:
  "submit core new_id tid assignment_id worker_id result fp r = Inr (x, r', evs) \<longleftrightarrow>
     (\<exists>t inputs. map_of (run_tasks r) tid = Some t \<and> holds_assignment t assignment_id worker_id \<and>
        wr_task_id result = tid \<and> wr_status result = result_completed \<and>
        substantive (wr_deliverable result) \<and> input_artifact_ids r t = Inr inputs \<and>
        tn_status t = RUNNING \<and> (tn_capability t = DEVELOPER_SANDBOX \<longrightarrow> present fp) \<and>
        x = \<lparr>ar_id = new_id, ar_run_id = run_id r, ar_task_id = tid, ar_worker_id = worker_id,
             ar_kind = ''worker_result'', ar_content = wr_deliverable result,
             ar_content_digest = o_sha256 core (wr_deliverable result), ar_workspace_fingerprint = fp,
             ar_version = int (length (tn_artifact_ids t)) + 1,
             ar_predecessor_id = last_opt (tn_artifact_ids t), ar_input_artifact_ids = inputs,
             ar_status = ''candidate'', ar_integrated_commit = None, ar_validations = [], ar_reviews = []\<rparr> \<and>
        r' = set_artifact new_id x (set_task tid (t\<lparr>tn_status := SUBMITTED, tn_result := Some result,
               tn_artifact_ids := tn_artifact_ids t @ [new_id]\<rparr>) r) \<and>
        evs = [event r ''task.submitted''
            [(''task_id'', VStr (task_id t)), (''previous'', VStr (status_value (tn_status t))),
             (''reason'', VStr ''Candidate received'')],
          event r ''artifact.created'' [(''artifact'', VArtifact x)],
          event r ''artifact.submitted''
            [(''artifact_id'', VStr new_id), (''task_id'', VStr tid), (''version'', VInt (ar_version x))],
          event r ''assignment.completed''
            [(''assignment_id'', VStr assignment_id), (''task_id'', VStr (task_id t)),
             (''artifact_id'', VStr new_id)]])"
proof -
  have low: "lower ''SUBMITTED'' = ''submitted''" by code_simp
  show ?thesis
    unfolding submit_def
    by (auto simp: Inr_simps transition_Inr TRANSITIONS_entered low Let_def task_id_def)
qed


lemma submitted_task_ok:
  assumes tok: "task_ok core r tid t" and run: "tn_status t = RUNNING"
    and new: "map_of (run_artifacts r) new_id = None"
    and cand: "ar_task_id x = tid" "ar_status x = ''candidate''" "ar_validations x = []" "ar_reviews x = []"
      "tn_capability t = DEVELOPER_SANDBOX \<longrightarrow> present (ar_workspace_fingerprint x)"
      "ar_worker_id x \<in> set (authors t)"
    and r': "run_artifacts r' = AList.update new_id x (run_artifacts r)"
  shows "task_ok core r' tid (t\<lparr>tn_status := SUBMITTED, tn_result := res,
    tn_artifact_ids := tn_artifact_ids t @ [new_id]\<rparr>)" (is "task_ok core r' tid ?t")
proof -
  have old: "aid \<noteq> new_id \<and> artifact_of r tid t aid" if "aid \<in> set (tn_artifact_ids t)" for aid
    using task_okD(4)[OF tok that] new by (auto simp: artifact_of_def)
  show ?thesis
  proof (rule task_okI)
    show "task_id ?t = tid" "attempts_used ?t \<le> max 0 (tn_max_attempts ?t)"
      using task_okD(1,3)[OF tok] by (simp_all add: task_id_def attempts_used_def)
    show "distinct (tn_artifact_ids ?t)" using task_okD(2)[OF tok] old by auto
  next
    fix aid
    assume "aid \<in> set (tn_artifact_ids ?t)"
    then consider "aid = new_id" | "aid \<in> set (tn_artifact_ids t)" by auto
    then show "artifact_of r' tid ?t aid"
    proof cases
      case 1
      with cand show ?thesis by (simp add: artifact_of_def r')
    next
      case 2
      with old[OF 2] run show ?thesis by (auto simp: artifact_of_def r')
    qed
  next
    show "\<exists>a. latest r' ?t = Some a \<and> ar_status a = ''candidate'' \<and> independent core ?t a"
      using cand by (simp add: latest_def r' independent_def authors_def)
  qed simp_all
qed

lemma submit_ok:
  assumes ok: "run_ok core r"
    and sub: "submit core new_id tid assignment_id worker_id result fp r = Inr (x, r', evs)"
    and new: "map_of (run_artifacts r) new_id = None"
  shows "run_ok core r'"
proof -
  from sub obtain t where t: "map_of (run_tasks r) tid = Some t"
    and held: "holds_assignment t assignment_id worker_id" and run: "tn_status t = RUNNING"
    and x: "ar_id x = new_id" "ar_run_id x = run_id r" "ar_task_id x = tid" "ar_worker_id x = worker_id"
      "ar_content_digest x = o_sha256 core (ar_content x)" "ar_status x = ''candidate''"
      "ar_validations x = []" "ar_reviews x = []"
      "tn_capability t = DEVELOPER_SANDBOX \<longrightarrow> present (ar_workspace_fingerprint x)"
    and r': "r' = set_artifact new_id x (set_task tid (t\<lparr>tn_status := SUBMITTED, tn_result := Some result,
               tn_artifact_ids := tn_artifact_ids t @ [new_id]\<rparr>) r)"
    unfolding submit_Inr by auto
  let ?t = "t\<lparr>tn_status := SUBMITTED, tn_result := Some result,
               tn_artifact_ids := tn_artifact_ids t @ [new_id]\<rparr>"
  have tasks': "run_tasks r' = AList.update tid ?t (run_tasks r)" by (simp add: r')
  have arts': "run_artifacts r' = AList.update new_id x (run_artifacts r)" by (simp add: r')
  have acc': "run_accepted_artifacts r' = run_accepted_artifacts r" "run_id r' = run_id r" by (simp_all add: r')
  have tok: "task_ok core r tid t" using ok t by (rule run_okD)
  have "ar_worker_id x \<in> set (authors t)"
    using held task_okD(7)[OF tok] run x(4) by (auto simp: holds_assignment_iff)
  with tok run new x have new_ok: "task_ok core r' tid ?t"
    by (intro submitted_task_ok[where x = x]) (auto simp: arts')
  have "task_ok core r' j u" if u: "map_of (run_tasks r') j = Some u" for j u
  proof (cases "j = tid")
    case True
    with u new_ok tasks' show ?thesis by simp
  next
    case False
    with u have u': "task_ok core r j u" by (intro run_okD(5)[OF ok]) (simp add: tasks')
    have "new_id \<notin> set (tn_artifact_ids u)"
      using task_okD(4)[OF u', of new_id] new by (auto simp: artifact_of_def)
    then show ?thesis by (intro task_ok_artifacts[OF u']) (auto simp: arts')
  qed
  moreover have "artifact_ok core r' y b" if b: "map_of (run_artifacts r') y = Some b" for y b
  proof (cases "y = new_id")
    case True
    have "new_id \<notin> set (run_accepted_artifacts r)"
      using run_okD(4)[OF ok] new by (auto simp: map_of_eq_None_iff)
    with True b x show ?thesis by (simp add: arts' artifact_ok_def tasks' acc')
  next
    case False
    with b have "artifact_ok core r y b" by (intro run_okD(6)[OF ok]) (simp add: arts')
    with t show ?thesis by (auto simp: artifact_ok_def tasks' acc')
  qed
  moreover have "set (run_accepted_artifacts r') \<subseteq> fst ` set (run_artifacts r')"
    using run_okD(4)[OF ok] by (auto simp: acc' arts')
  ultimately show ?thesis
    using run_okD(1-3)[OF ok] by (simp add: run_ok_def tasks' arts' acc'(1))
qed

section \<open>Review of the current candidate\<close>

lemma reviewing_Inr:
  "(if tn_status t = SUBMITTED then transition r t REVIEWING ''Manager QA started'' else Inr (t, [])) =
       Inr (t1, evs) \<and> tn_status t1 = REVIEWING \<longleftrightarrow>
     tn_status t \<in> {SUBMITTED, REVIEWING} \<and> t1 = t\<lparr>tn_status := REVIEWING\<rparr> \<and>
        evs = (if tn_status t = SUBMITTED then [event r ''task.reviewing''
          [(''task_id'', VStr (task_id t)), (''previous'', VStr ''SUBMITTED''),
           (''reason'', VStr ''Manager QA started'')]] else [])"
proof (cases "tn_status t = SUBMITTED")
  case True
  have "lower ''REVIEWING'' = ''reviewing''" by code_simp
  with True show ?thesis by (auto simp: transition_Inr)
next
  case False
  have "t\<lparr>tn_status := REVIEWING\<rparr> = t" if "tn_status t = REVIEWING"
    using that by (cases t) simp
  with False show ?thesis by auto
qed

lemma candidate_Inr:
  "candidate core aid fp r = Inr (a, t1, r1, evs) \<longleftrightarrow>
     (\<exists>t. map_of (run_artifacts r) aid = Some a \<and> map_of (run_tasks r) (ar_task_id a) = Some t \<and>
        o_sha256 core (ar_content a) = ar_content_digest a \<and>
        (present (ar_workspace_fingerprint a) \<longrightarrow> ar_workspace_fingerprint a = fp) \<and>
        last_opt (tn_artifact_ids t) = Some aid \<and> ar_status a = ''candidate'' \<and>
        tn_status t \<in> {SUBMITTED, REVIEWING} \<and> t1 = t\<lparr>tn_status := REVIEWING\<rparr> \<and>
        r1 = set_task (ar_task_id a) t1 r \<and>
        evs = (if tn_status t = SUBMITTED then [event r ''task.reviewing''
          [(''task_id'', VStr (task_id t)), (''previous'', VStr ''SUBMITTED''),
           (''reason'', VStr ''Manager QA started'')]] else []))"
proof -
  have "candidate core aid fp r = Inr (a, t1, r1, evs) \<longleftrightarrow>
     (\<exists>t. map_of (run_artifacts r) aid = Some a \<and> map_of (run_tasks r) (ar_task_id a) = Some t \<and>
        o_sha256 core (ar_content a) = ar_content_digest a \<and>
        (present (ar_workspace_fingerprint a) \<longrightarrow> ar_workspace_fingerprint a = fp) \<and>
        last_opt (tn_artifact_ids t) = Some aid \<and> ar_status a = ''candidate'' \<and>
        ((if tn_status t = SUBMITTED then transition r t REVIEWING ''Manager QA started'' else Inr (t, [])) =
           Inr (t1, evs) \<and> tn_status t1 = REVIEWING) \<and>
        r1 = set_task (ar_task_id a) t1 r)"
    unfolding candidate_def by (simp add: Inr_simps split del: if_split) blast
  then show ?thesis unfolding reviewing_Inr by blast
qed

lemma candidate_ok:
  assumes ok: "run_ok core r" and cand: "candidate core aid fp r = Inr (a, t1, r1, evs)"
  shows "run_ok core r1" "map_of (run_tasks r1) (ar_task_id a) = Some t1"
    "map_of (run_artifacts r1) aid = Some a" "tn_status t1 = REVIEWING"
    "last_opt (tn_artifact_ids t1) = Some aid" "ar_status a = ''candidate''"
    "independent core t1 a" "\<forall>e \<in> set evs. ev_run_id e = run_id r" "quiet_op r r1 evs"
proof -
  from cand obtain t where t: "map_of (run_tasks r) (ar_task_id a) = Some t"
    and a: "map_of (run_artifacts r) aid = Some a" and last: "last_opt (tn_artifact_ids t) = Some aid"
    and st: "tn_status t \<in> {SUBMITTED, REVIEWING}" and t1: "t1 = t\<lparr>tn_status := REVIEWING\<rparr>"
    and r1: "r1 = set_task (ar_task_id a) t1 r" and cst: "ar_status a = ''candidate''"
    and evs: "\<forall>e \<in> set evs. ev_run_id e = run_id r"
    unfolding candidate_Inr by auto
  have "quiet_task t t1" using st by (auto simp: t1 quiet_task_def record_view_def task_id_def)
  with t evs show q: "quiet_op r r1 evs" unfolding r1 by (intro quiet_op_set_task)
  from q ok show ok1: "run_ok core r1" by (rule quiet_op_ok)
  show m: "map_of (run_tasks r1) (ar_task_id a) = Some t1" by (simp add: r1)
  show a1: "map_of (run_artifacts r1) aid = Some a" by (simp add: r1 a)
  show "tn_status t1 = REVIEWING" "last_opt (tn_artifact_ids t1) = Some aid" by (simp_all add: t1 last)
  then show "independent core t1 a" using task_okD(5)[OF run_okD(5)[OF ok1 m]] a1 by (auto simp: latest_def)
qed (use cand in \<open>auto simp: candidate_Inr\<close>)

text \<open>Recording one piece of evidence on the current candidate.\<close>

lemma evidence_ok:
  assumes ok: "run_ok core r" and t: "map_of (run_tasks r) (ar_task_id a) = Some t"
    and a: "map_of (run_artifacts r) aid = Some a" "ar_status a = ''candidate''"
    and t_st: "tn_status t = REVIEWING" "last_opt (tn_artifact_ids t) = Some aid"
    and a': "same_source a a'" "ar_status a' = ''candidate''" "independent core t a'"
  shows "run_ok core (set_artifact aid a' r)"
proof (rule update_ok[OF ok t a(1) refl a'(1), of t])
  have tok: "task_ok core r (ar_task_id a) t" using ok t by (rule run_okD)
  show "task_ok core (set_artifact aid a' r) (ar_task_id a) t"
  proof (rule task_okI)
    fix x
    assume x: "x \<in> set (tn_artifact_ids t)"
    from task_okD(4)[OF tok x] show "artifact_of (set_artifact aid a' r) (ar_task_id a) t x"
      using a a' t_st by (auto simp: artifact_of_def same_source_def)
  qed (use task_okD[OF tok] t_st a' in \<open>simp_all add: latest_def\<close>)
  have "artifact_ok core r aid a" using ok a(1) by (rule run_okD)
  with a a' show "aid \<in> set (run_accepted_artifacts (set_artifact aid a' r)) \<longleftrightarrow> ar_status a' = ''accepted''"
    by (simp add: artifact_ok_def)
qed (use run_okD(3)[OF ok] t in \<open>simp_all add: update_triv\<close>)

lemma validate_Inr:
  "validate core new_id aid check passed evidence validator fp r = Inr (x, r', evs) \<longleftrightarrow>
     (\<exists>a t r1 evs1. candidate core aid fp r = Inr (a, t, r1, evs1) \<and> validator \<noteq> o_manager_id core \<and>
        validator \<notin> set (authors t) \<and> evidence \<noteq> '''' \<and> validator \<noteq> '''' \<and>
        x = \<lparr>av_id = new_id, av_artifact_id = aid, av_content_digest = ar_content_digest a,
             av_check = check, av_passed = passed, av_evidence = evidence, av_validator_id = validator\<rparr> \<and>
        r' = set_artifact aid (a\<lparr>ar_validations := ar_validations a @ [x]\<rparr>) r1 \<and>
        evs = evs1 @ [event r ''artifact.validation_started''
              [(''artifact_id'', VStr aid), (''check'', VStr check), (''validator_id'', VStr validator)],
            event r ''artifact.validation_completed'' [(''validation'', VValidation x)]])"
  unfolding validate_def by (auto simp: Inr_simps Let_def)

lemma validate_ok:
  assumes ok: "run_ok core r"
    and val: "validate core new_id aid check passed evidence validator fp r = Inr (x, r', evs)"
  shows "run_ok core r'"
proof -
  from val obtain a t r1 evs1 where cand: "candidate core aid fp r = Inr (a, t, r1, evs1)"
    and v: "validator \<noteq> o_manager_id core" "validator \<notin> set (authors t)" "evidence \<noteq> ''''"
    and x: "av_content_digest x = ar_content_digest a" "av_validator_id x = validator" "av_evidence x = evidence"
    and r': "r' = set_artifact aid (a\<lparr>ar_validations := ar_validations a @ [x]\<rparr>) r1"
    unfolding validate_Inr by auto
  note c = candidate_ok[OF ok cand]
  show ?thesis
    unfolding r'
    by (rule evidence_ok[OF c(1-3,6,4,5)])
       (use c(6,7) v x in \<open>auto simp: same_source_def independent_def\<close>)
qed

lemma review_Inr:
  "review core new_id aid reviewer passed evidence fp r = Inr (x, r', evs) \<longleftrightarrow>
     (\<exists>a t r1 evs1. candidate core aid fp r = Inr (a, t, r1, evs1) \<and> reviewer \<noteq> o_manager_id core \<and>
        reviewer \<notin> set (authors t) \<and> evidence \<noteq> '''' \<and> reviewer \<noteq> '''' \<and>
        x = \<lparr>rv_id = new_id, rv_artifact_id = aid, rv_content_digest = ar_content_digest a,
             rv_reviewer_id = reviewer, rv_passed = passed, rv_evidence = evidence\<rparr> \<and>
        r' = set_artifact aid (a\<lparr>ar_reviews := ar_reviews a @ [x]\<rparr>) r1 \<and>
        evs = evs1 @ [event r ''artifact.reviewed'' [(''review'', VReview x)]])"
  unfolding review_def by (auto simp: Inr_simps Let_def)

lemma review_ok:
  assumes ok: "run_ok core r"
    and rev: "review core new_id aid reviewer passed evidence fp r = Inr (x, r', evs)"
  shows "run_ok core r'"
proof -
  from rev obtain a t r1 evs1 where cand: "candidate core aid fp r = Inr (a, t, r1, evs1)"
    and v: "reviewer \<noteq> o_manager_id core" "reviewer \<notin> set (authors t)" "evidence \<noteq> ''''"
    and x: "rv_content_digest x = ar_content_digest a" "rv_reviewer_id x = reviewer" "rv_evidence x = evidence"
    and r': "r' = set_artifact aid (a\<lparr>ar_reviews := ar_reviews a @ [x]\<rparr>) r1"
    unfolding review_Inr by auto
  note c = candidate_ok[OF ok cand]
  show ?thesis
    unfolding r'
    by (rule evidence_ok[OF c(1-3,6,4,5)])
       (use c(6,7) v x in \<open>auto simp: same_source_def independent_def\<close>)
qed

section \<open>Acceptance\<close>

lemma evidence_gate_Inr:
  "evidence_gate core t a = Inr u \<longleftrightarrow>
     o_manager_id core \<notin> set (evidence_principals t a) \<and>
     (\<forall>v \<in> set (ar_validations a). av_content_digest v = ar_content_digest a) \<and>
     (\<forall>v \<in> set (ar_reviews a). rv_content_digest v = ar_content_digest a) \<and>
     (\<forall>v \<in> set (ar_validations a). av_passed v) \<and>
     (\<forall>c \<in> set (tn_required_checks t). \<exists>v \<in> set (ar_validations a). av_check v = c) \<and>
     (needs_review t \<longrightarrow> ar_reviews a \<noteq> [] \<and> rv_passed (last (ar_reviews a))) \<and>
     (tn_required_checks t \<noteq> [] \<or> ar_reviews a \<noteq> [])"
proof -
  have "failed_checks a = [] \<longleftrightarrow> (\<forall>v \<in> set (ar_validations a). av_passed v)"
    by (simp add: failed_checks_def filter_empty_conv)
  moreover have "missing_checks t a = [] \<longleftrightarrow>
      (\<forall>c \<in> set (tn_required_checks t). \<exists>v \<in> set (ar_validations a). av_check v = c)"
    by (auto simp: missing_checks_def filter_empty_conv)
  ultimately show ?thesis unfolding evidence_gate_def by (simp add: guard_Inr)
qed

text \<open>The snapshot after the decision is recorded, before the refresh.\<close>

definition accepted_run :: "AcceptanceDecision \<Rightarrow> ident \<Rightarrow> Artifact \<Rightarrow> TaskNode \<Rightarrow> Run \<Rightarrow> Run" where
  "accepted_run decision aid a t r =
     set_task (ar_task_id a) (t\<lparr>tn_status := ACCEPTED\<rparr>)
       (set_artifact aid (a\<lparr>ar_status := ''accepted''\<rparr>)
         (r\<lparr>run_acceptances := run_acceptances r @ [decision],
            run_decisions := run_decisions r @ [Decision.truncate decision],
            run_accepted_artifacts := run_accepted_artifacts r @ [ar_id a]\<rparr>))"

lemma accept_Inr:
  assumes acc: "accept core new_id tid manager_id reason fp r = Inr (x, r', evs)"
  obtains aid a t r1 evs1 evs2 where
    "manager_id = None \<or> manager_id = Some (o_manager_id core)" "reason \<noteq> ''''"
    "candidate core aid fp r = Inr (a, t, r1, evs1)" "evidence_gate core t a = Inr ()"
    "ready r1 t" "validate_task_inputs r1 t = Inr ()"
    "x = acceptance_decision core new_id tid a reason"
    "then_refresh x (accepted_run x aid a t r1) evs2 = Inr (x, r', evs)"
    "\<forall>e \<in> set evs2. ev_run_id e = run_id r"
proof -
  from acc obtain t0 aid a t r1 evs1 where c: "candidate core aid fp r = Inr (a, t, r1, evs1)"
    and g: "manager_id = None \<or> manager_id = Some (o_manager_id core)" "reason \<noteq> ''''"
      "evidence_gate core t a = Inr ()" "ready r1 t" "validate_task_inputs r1 t = Inr ()"
    and rest: "(let decision = acceptance_decision core new_id tid a reason;
                    r2 = set_artifact aid (a\<lparr>ar_status := ''accepted''\<rparr>)
                      (r1\<lparr>run_acceptances := run_acceptances r1 @ [decision],
                          run_decisions := run_decisions r1 @ [Decision.truncate decision],
                          run_accepted_artifacts := run_accepted_artifacts r1 @ [ar_id a]\<rparr>) in
                bind_ok (transition r2 t ACCEPTED reason) (\<lambda>(t2, evs2).
                  then_refresh decision (set_task (ar_task_id a) t2 r2)
                    (evs1 @ evs2 @
                     [event r ''artifact.accepted''
                        [(''artifact_id'', VStr (ar_id a)), (''decision_id'', VStr new_id),
                         (''superseded_failed_checks'', VStrs [])]]))) = Inr (x, r', evs)"
    unfolding accept_def by (auto simp: Inr_simps)
  have same: "run_id r1 = run_id r" "\<forall>e \<in> set evs1. ev_run_id e = run_id r"
    using c by (auto simp: candidate_Inr)
  from rest obtain evs2 where
    "x = acceptance_decision core new_id tid a reason"
    "then_refresh x (accepted_run x aid a t r1) evs2 = Inr (x, r', evs)"
    "\<forall>e \<in> set evs2. ev_run_id e = run_id r"
    using same by (auto simp: Let_def bind_ok_Inr_iff transition_Inr accepted_run_def then_refresh_Inr)
  with c g that show ?thesis by blast
qed

lemma accepted_ok:
  assumes ok: "run_ok core r" and t: "map_of (run_tasks r) (ar_task_id a) = Some t"
    and a: "map_of (run_artifacts r) aid = Some a" "ar_status a = ''candidate''"
    and st: "tn_status t = REVIEWING" "last_opt (tn_artifact_ids t) = Some aid"
    and ev: "evidenced core t a"
  shows "run_ok core (accepted_run d aid a t r)" (is "run_ok core ?r")
proof -
  let ?a = "a\<lparr>ar_status := ''accepted''\<rparr>"
  let ?t = "t\<lparr>tn_status := ACCEPTED\<rparr>"
  have tok: "task_ok core r (ar_task_id a) t" using ok t by (rule run_okD)
  have aok: "artifact_ok core r aid a" using ok a(1) by (rule run_okD)
  have arts: "run_artifacts ?r = AList.update aid ?a (run_artifacts r)" by (simp add: accepted_run_def)
  have "task_ok core ?r (ar_task_id a) ?t"
  proof (rule task_okI)
    fix x
    assume "x \<in> set (tn_artifact_ids ?t)"
    then have "artifact_of r (ar_task_id a) t x" by (intro task_okD(4)[OF tok]) simp
    then show "artifact_of ?r (ar_task_id a) ?t x" using a st by (auto simp: artifact_of_def arts)
  next
    have "evidenced core ?t ?a"
      using ev by (simp add: evidenced_def independent_def evidence_gate_Inr evidence_principals_def
          authors_def needs_review_def)
    then show "\<exists>b. latest ?r ?t = Some b \<and> ar_status b = ''accepted'' \<and> evidenced core ?t b"
      using st by (simp add: latest_def arts)
  qed (use task_okD(1-3)[OF tok] in \<open>simp_all add: task_id_def attempts_used_def\<close>)
  moreover have "aid \<notin> set (run_accepted_artifacts r)" "ar_id a = aid"
    using aok a(2) by (simp_all add: artifact_ok_def)
  ultimately show ?thesis
    by (intro update_ok[OF ok t a(1) refl, of ?a ?t])
       (use run_okD(3)[OF ok] in \<open>auto simp: accepted_run_def same_source_def\<close>)
qed

lemma accept_ok:
  assumes ok: "run_ok core r" and acc: "accept core new_id tid manager_id reason fp r = Inr (x, r', evs)"
  shows "run_ok core r'"
  using acc
proof (rule accept_Inr)
  fix aid a t r1 evs1 evs2
  assume c: "candidate core aid fp r = Inr (a, t, r1, evs1)" and g: "evidence_gate core t a = Inr ()"
    and ref: "then_refresh x (accepted_run x aid a t r1) evs2 = Inr (x, r', evs)"
  note c = candidate_ok[OF ok c]
  have ok2: "run_ok core (accepted_run x aid a t r1)"
    by (rule accepted_ok[OF c(1-3,6,4,5)]) (simp add: evidenced_def c(7) g)
  from ref obtain more where "refresh (accepted_run x aid a t r1) = Inr (r', more)"
    by (auto simp: then_refresh_Inr)
  from refresh_refreshed[OF this run_okD(1)[OF ok2]] show ?thesis
    by (intro quiet_ok[OF ok2] quiet_refreshed)
qed

section \<open>Integration\<close>

lemma integrate_artifact_Inr:
  "integrate_artifact aid commit r = Inr (x, r', evs) \<longleftrightarrow>
     (\<exists>a t. map_of (run_artifacts r) aid = Some a \<and> map_of (run_tasks r) (ar_task_id a) = Some t \<and>
        ar_status a = ''accepted'' \<and> aid \<in> set (run_accepted_artifacts r) \<and> tn_status t = ACCEPTED \<and>
        last_opt (tn_artifact_ids t) = Some aid \<and> present (ar_workspace_fingerprint a) \<and>
        ar_integrated_commit a = None \<and> x = () \<and>
        r' = set_artifact aid (a\<lparr>ar_integrated_commit := Some commit\<rparr>) r \<and>
        evs = [event r ''artifact.integrated''
                [(''artifact_id'', VStr aid), (''task_id'', VStr (task_id t)), (''commit'', VStr commit)]])"
  unfolding integrate_artifact_def by (auto simp: Inr_simps)

lemma integrate_artifact_ok:
  assumes ok: "run_ok core r" and int: "integrate_artifact aid commit r = Inr (x, r', evs)"
  shows "run_ok core r'"
proof -
  from int obtain a t where a: "map_of (run_artifacts r) aid = Some a"
    and t: "map_of (run_tasks r) (ar_task_id a) = Some t" and st: "ar_status a = ''accepted''"
      "tn_status t = ACCEPTED" "last_opt (tn_artifact_ids t) = Some aid"
      "aid \<in> set (run_accepted_artifacts r)"
    and r': "r' = set_artifact aid (a\<lparr>ar_integrated_commit := Some commit\<rparr>) r"
    unfolding integrate_artifact_Inr by blast
  let ?a = "a\<lparr>ar_integrated_commit := Some commit\<rparr>"
  have tok: "task_ok core r (ar_task_id a) t" using ok t by (rule run_okD)
  have ev: "evidenced core t ?a" if "evidenced core t a"
    using that by (simp add: evidenced_def independent_def evidence_gate_Inr evidence_principals_def)
  have "task_ok core r' (ar_task_id a) t"
  proof (rule task_okI)
    show "artifact_of r' (ar_task_id a) t x" if "x \<in> set (tn_artifact_ids t)" for x
      using task_okD(4)[OF tok that] a st by (auto simp: artifact_of_def r')
    show "\<exists>b. latest r' t = Some b \<and> ar_status b = ''accepted'' \<and> evidenced core t b"
      using task_okD(6)[OF tok] st a ev by (auto simp: latest_def r')
  qed (use task_okD(1-3)[OF tok] st in simp_all)
  then show ?thesis
    by (intro update_ok[OF ok t a refl, of ?a t])
       (use run_okD(3)[OF ok] st t in \<open>simp_all add: r' same_source_def update_triv\<close>)
qed

section \<open>Recovery\<close>

lemma apply_action_quiet:
  assumes "apply_action r f reason act t = Inr (t', evs)" and "tn_status t = FAILED"
  shows "record_view t' = record_view t" "phase_of (tn_status t') = Open"
    "tn_status t' \<notin> {DELEGATED, RUNNING}" "\<forall>e \<in> set evs. ev_run_id e = run_id r"
  using assms by (auto simp: apply_action_def Inr_simps transition_Inr record_view_def task_id_def
      split: RecoveryAction.splits)

lemma rejected_ok:
  assumes ok: "run_ok core r" and t: "map_of (run_tasks r) k = Some t" and st: "tn_status t = FAILED"
    and t': "record_view t' = record_view t" "phase_of (tn_status t') = Open"
      "tn_status t' \<notin> {DELEGATED, RUNNING}"
    and rej: "reject_latest t' reason fid (set_task k t' r) = Inr (r', evs)"
  shows "run_ok core r'"
proof -
  have tok: "task_ok core r k t" using ok t by (rule run_okD)
  have ids: "tn_artifact_ids t' = tn_artifact_ids t" "task_id t' = task_id t"
    "attempts_used t' = attempts_used t" "tn_max_attempts t' = tn_max_attempts t"
    using t'(1) by (simp_all add: record_view_def attempts_used_def)
  have old: "\<exists>a. map_of (run_artifacts r) x = Some a \<and> ar_task_id a = k \<and> ar_status a \<noteq> ''accepted'' \<and>
      (ar_status a = ''candidate'' \<longrightarrow> last_opt (tn_artifact_ids t) = Some x)"
    if "x \<in> set (tn_artifact_ids t)" for x
    using task_okD(4)[OF tok that] st by (auto simp: artifact_of_def)
  show ?thesis
  proof (cases "last_opt (tn_artifact_ids t')")
    case None
    then have none: "tn_artifact_ids t' = []" by (simp add: last_opt_def split: if_splits)
    with rej have r': "r' = set_task k t' r" by (simp add: reject_latest_def)
    have "task_ok core r k t'"
      by (rule task_okI) (use task_okD(1-3)[OF tok] none ids t' in simp_all)
    then show ?thesis unfolding r' by (intro set_task_ok[OF ok t]) (simp_all add: ids)
  next
    case (Some aid)
    then have mem: "aid \<in> set (tn_artifact_ids t)" unfolding ids by (rule last_opt_mem)
    from old[OF mem] obtain a where a: "map_of (run_artifacts r) aid = Some a" "ar_task_id a = k" by blast
    let ?a = "a\<lparr>ar_status := ''rejected''\<rparr>"
    from rej Some a have r': "r' = set_artifact aid ?a (set_task k t' r)"
      by (auto simp: reject_latest_def bind_ok_Inr_iff)
    have "task_ok core r' k t'"
    proof (rule task_okI)
      fix x
      assume "x \<in> set (tn_artifact_ids t')"
      then have "x \<in> set (tn_artifact_ids t)" by (simp add: ids)
      from old[OF this] Some a show "artifact_of r' k t' x" by (auto simp: artifact_of_def r' ids)
    qed (use task_okD(1-3)[OF tok] ids t' in simp_all)
    moreover have "aid \<notin> set (run_accepted_artifacts r)"
      using old[OF mem] a run_okD(6)[OF ok a(1)] by (auto simp: artifact_ok_def)
    ultimately show ?thesis
      by (intro update_ok[OF ok t a(1,2), of ?a t'])
         (use run_okD(3)[OF ok] in \<open>simp_all add: r' same_source_def ids\<close>)
  qed
qed

lemma recover_Inr:
  "recover core new_id fid reason actor r = Inr (x, r', evs) \<longleftrightarrow>
     (\<exists>f t t1 evs1 r1 evs2. actor \<in> {''manager'', o_manager_id core} \<and>
        find (\<lambda>f. wf_id f = fid) (run_failures r) = Some f \<and>
        map_of (run_tasks r) (wf_task_id f) = Some t \<and>
        (\<forall>d \<in> set (run_recoveries r). rd_failure_id d \<noteq> fid) \<and> tn_status t = FAILED \<and>
        apply_action r f reason (recovery_action t (wf_classification f)) t = Inr (t1, evs1) \<and>
        reject_latest t1 reason (wf_id f) (set_task (wf_task_id f) t1 r) = Inr (r1, evs2) \<and> reason \<noteq> '''' \<and>
        x = recovery_decision core new_id f (task_id t1) (recovery_action t (wf_classification f)) reason \<and>
        r' = r1\<lparr>run_recoveries := run_recoveries r1 @ [x],
                run_decisions := run_decisions r1 @ [Decision.truncate x]\<rparr> \<and>
        evs = evs1 @ evs2 @ [event r ''recovery.decided'' [(''decision'', VRecovery x)]])"
  unfolding recover_def by (simp add: Inr_simps Let_def) blast

lemma run_ok_fields:
  assumes "run_ok core r" and "run_tasks r' = run_tasks r" "run_artifacts r' = run_artifacts r"
    "run_accepted_artifacts r' = run_accepted_artifacts r" "run_id r' = run_id r"
  shows "run_ok core r'"
  by (rule mild_ok[OF assms(1)]) (use assms in \<open>simp add: mild_def mild_task_def\<close>)

lemma recover_ok:
  assumes ok: "run_ok core r" and rec: "recover core new_id fid reason actor r = Inr (x, r', evs)"
  shows "run_ok core r'"
proof -
  from rec obtain f t t1 evs1 r1 evs2 where t: "map_of (run_tasks r) (wf_task_id f) = Some t"
    and st: "tn_status t = FAILED"
    and act: "apply_action r f reason (recovery_action t (wf_classification f)) t = Inr (t1, evs1)"
    and rej: "reject_latest t1 reason (wf_id f) (set_task (wf_task_id f) t1 r) = Inr (r1, evs2)"
    and r': "r' = r1\<lparr>run_recoveries := run_recoveries r1 @ [x],
                run_decisions := run_decisions r1 @ [Decision.truncate x]\<rparr>"
    unfolding recover_Inr by blast
  have "run_ok core r1" using rejected_ok[OF ok t st apply_action_quiet(1-3)[OF act st] rej] .
  then show ?thesis unfolding r' by (rule run_ok_fields) simp_all
qed

end
