(* ===== verification/Plan_Ops.thy ===== *)
theory Plan_Ops
  imports Evidence_Ops
begin

text \<open>
  The operations that change the plan keep the invariant: adding tasks, and applying a replan,
  which supersedes the artifacts of every task it resets.
\<close>

section \<open>Adding tasks\<close>

definition fresh_task :: "TaskNode \<Rightarrow> bool" where
  "fresh_task t \<longleftrightarrow> tn_status t = PLANNED \<and> tn_attempts t = 0 \<and> tn_artifact_ids t = [] \<and>
     tn_attempt_baseline t = 0"

lemma is_fresh_task_iff: "is_fresh_task r t \<Longrightarrow> task_id t \<notin> fst ` set (run_tasks r) \<and> fresh_task t"
  by (simp add: is_fresh_task_def fresh_task_def)

lemma insert_task_ok:
  assumes ok: "run_ok core r" and new: "k \<notin> fst ` set (run_tasks r)" and t: "task_id t = k" "fresh_task t"
  shows "run_ok core (set_task k t r)"
proof -
  have tok: "task_ok core (set_task k t r) k t"
    by (rule task_okI) (use t in \<open>simp_all add: fresh_task_def attempts_used_def\<close>)
  have "task_ok core (set_task k t r) j u" if u: "map_of (run_tasks (set_task k t r)) j = Some u" for j u
  proof (cases "j = k")
    case True
    with u tok show ?thesis by simp
  next
    case False
    with u have "task_ok core r j u" by (intro run_okD(5)[OF ok]) simp
    then show ?thesis by (rule task_ok_artifacts) simp
  qed
  moreover have "artifact_ok core (set_task k t r) x a" if a: "map_of (run_artifacts (set_task k t r)) x = Some a" for x a
  proof -
    from a have aok: "artifact_ok core r x a" by (intro run_okD(6)[OF ok]) simp
    then have "ar_task_id a \<noteq> k" using new by (auto simp: artifact_ok_def dest: map_of_in_keys)
    with aok show ?thesis by (auto simp: artifact_ok_def)
  qed
  ultimately show ?thesis using run_okD(1-4)[OF ok] by (simp add: run_ok_def)
qed

lemma add_task_Inr:
  "add_task t r = Inr (r', evs) \<longleftrightarrow> is_fresh_task r t \<and>
     task_id t \<notin> fst ` set (run_available_inputs r) \<and> task_id t \<notin> fst ` set (run_artifacts r) \<and>
     validate_capability_checks t None = Inr () \<and>
     r' = (set_task (task_id t) t r)
            \<lparr>run_plan := (run_plan r)\<lparr>wp_task_ids := wp_task_ids (run_plan r) @ [task_id t]\<rparr>\<rparr> \<and>
     evs = [event r ''task.created'' [(''task_id'', VStr (task_id t))]]"
  by (auto simp: add_task_def Inr_simps reject_identifier_collision_def)

lemma add_task_ok:
  assumes ok: "run_ok core r" and add: "add_task t r = Inr (r', evs)"
  shows "run_ok core r'" and "stamped r r' evs"
proof -
  from add have "run_ok core (set_task (task_id t) t r)"
    by (intro insert_task_ok[OF ok]) (auto simp: add_task_Inr is_fresh_task_iff)
  then show "run_ok core r'" by (rule run_ok_fields) (use add in \<open>auto simp: add_task_Inr\<close>)
  show "stamped r r' evs" using add by (auto simp: add_task_Inr stamped_def)
qed

lemma add_each_ok:
  "add_each ts r = Inr (r', evs) \<Longrightarrow> run_ok core r \<Longrightarrow> run_ok core r' \<and> stamped r r' evs"
proof (induction ts r arbitrary: r' evs rule: add_each.induct)
  case (1 r)
  then show ?case by (simp add: stamped_def)
next
  case (2 t ts r)
  from "2.prems"(1) obtain r1 evs1 evs2 where one: "add_task t r = Inr (r1, evs1)"
    and rest: "add_each ts r1 = Inr (r', evs2)" and evs: "evs = evs1 @ evs2"
    by (auto simp: bind_ok_Inr_iff)
  note a = add_task_ok[OF "2.prems"(2) one]
  from "2.IH"[OF one refl rest a(1)] a(2) show ?case unfolding evs using stamped_trans by blast
qed

lemma then_refresh_ok:
  assumes "then_refresh x r1 evs1 = Inr (y, r', evs)" and ok: "run_ok core r1" and "stamped r r1 evs1"
  shows "run_ok core r'" "stamped r r' evs" "refreshed r1 r'"
proof -
  from assms(1) obtain more where more: "refresh r1 = Inr (r', more)" and evs: "evs = evs1 @ more"
    by (auto simp: then_refresh_Inr)
  note re = refresh_refreshed[OF more run_okD(1)[OF ok]]
  then show "refreshed r1 r'" .
  show "run_ok core r'" using ok quiet_refreshed[OF re] by (rule quiet_ok)
  have "stamped r1 r' more"
    using refreshed_frame[OF re] refresh_events[OF more run_okD(1)[OF ok]] by (simp add: stamped_def)
  with assms(3) show "stamped r r' evs" unfolding evs by (rule stamped_trans)
qed

lemma add_tasks_Inr:
  "add_tasks tasks r = Inr (x, r', evs) \<longleftrightarrow>
     (\<exists>r1 evs1. wp_revision (run_plan r) = 0 \<and> (\<forall>(k, t) \<in> set (run_tasks r). tn_attempts t = 0) \<and>
        add_each tasks r = Inr (r1, evs1) \<and> graph r1 = Inr () \<and> then_refresh () r1 evs1 = Inr (x, r', evs))"
  unfolding add_tasks_def by (auto simp: Inr_simps case_prod_unfold)

lemma add_tasks_ok:
  assumes ok: "run_ok core r" and add: "add_tasks tasks r = Inr (x, r', evs)"
  shows "run_ok core r'" "stamped r r' evs"
proof -
  from add obtain r1 evs1 where each: "add_each tasks r = Inr (r1, evs1)"
    and ref: "then_refresh () r1 evs1 = Inr (x, r', evs)" unfolding add_tasks_Inr by blast
  from add_each_ok[OF each ok] have "run_ok core r1" "stamped r r1 evs1" by auto
  from then_refresh_ok[OF ref this] show "run_ok core r'" "stamped r r' evs" by auto
qed

section \<open>Superseding artifacts\<close>

definition withdraw :: "ident list \<Rightarrow> Run \<Rightarrow> Run" where
  "withdraw ids r = r\<lparr>run_artifacts := map (\<lambda>(x, a). (x, if x \<in> set ids then a\<lparr>ar_status := ''superseded''\<rparr> else a))
       (run_artifacts r),
     run_accepted_artifacts := filter (\<lambda>x. x \<notin> set ids) (run_accepted_artifacts r)\<rparr>"

lemma map_of_map_keyed: "map_of (map (\<lambda>(k, v). (k, f k v)) d) k = map_option (f k) (map_of d k)"
  by (induct d) auto

lemma keys_map_keyed [simp]: "map fst (map (\<lambda>(k, v). (k, f k v)) d) = map fst d"
  by (induct d) auto

lemma update_keyed:
  "distinct (map fst d) \<Longrightarrow> map_of d k = Some v \<Longrightarrow>
     AList.update k w d = map (\<lambda>(j, u). (j, if j = k then w else u)) d"
proof (induct d)
  case Nil
  then show ?case by simp
next
  case (Cons p d)
  then show ?case
    by (cases p) (auto simp: image_iff intro!: map_idI[symmetric])
qed

lemma supersede_artifacts_eq:
  "supersede_artifacts p ids r = Inr (r', evs) \<Longrightarrow> distinct (map fst (run_artifacts r)) \<Longrightarrow>
     distinct (run_accepted_artifacts r) \<Longrightarrow>
     r' = withdraw ids r \<and> (\<forall>e \<in> set evs. ev_run_id e = run_id r)"
proof (induction p ids r arbitrary: r' evs rule: supersede_artifacts.induct)
  case (1 p r)
  then show ?case by (simp add: withdraw_def case_prod_unfold)
next
  case (2 p aid aids r)
  from "2.prems"(1) obtain a evs1 where a: "map_of (run_artifacts r) aid = Some a"
    and rest: "supersede_artifacts p aids
         ((set_artifact aid (a\<lparr>ar_status := ''superseded''\<rparr>) r)
            \<lparr>run_accepted_artifacts := remove1 aid (run_accepted_artifacts r)\<rparr>) = Inr (r', evs1)"
    and evs: "evs = event r ''artifact.superseded''
         [(''artifact_id'', VStr aid), (''reason'', VStr (rp_trigger p)),
          (''proposal_id'', VStr (rp_id p))] # evs1"
    by (auto simp: bind_ok_Inr_iff)
  let ?r = "(set_artifact aid (a\<lparr>ar_status := ''superseded''\<rparr>) r)
            \<lparr>run_accepted_artifacts := remove1 aid (run_accepted_artifacts r)\<rparr>"
  have aeq: "dget (run_artifacts r) aid = Inr a" using a by simp
  have "r' = withdraw aids ?r \<and> (\<forall>e \<in> set evs1. ev_run_id e = run_id ?r)"
    by (rule "2.IH"[OF aeq rest]) (use "2.prems" in simp_all)
  moreover have "withdraw aids ?r = withdraw (aid # aids) r"
  proof -
    have "map (\<lambda>(x, b). (x, if x \<in> set aids then b\<lparr>ar_status := ''superseded''\<rparr> else b))
        (AList.update aid (a\<lparr>ar_status := ''superseded''\<rparr>) (run_artifacts r)) =
      map (\<lambda>(x, b). (x, if x \<in> set (aid # aids) then b\<lparr>ar_status := ''superseded''\<rparr> else b)) (run_artifacts r)"
    proof -
      have "b = a" if "(aid, b) \<in> set (run_artifacts r)" for b
        using that "2.prems"(2) a by (metis option.inject set_dict_map_of)
      then show ?thesis
        unfolding update_keyed[OF "2.prems"(2) a] map_map by (intro map_cong[OF refl]) auto
    qed
    moreover have "filter (\<lambda>x. x \<notin> set aids) (remove1 aid (run_accepted_artifacts r)) =
        filter (\<lambda>x. x \<notin> set (aid # aids)) (run_accepted_artifacts r)"
      using "2.prems"(3) by (auto simp: distinct_remove1_removeAll removeAll_filter_not_eq intro!: filter_cong)
    ultimately show ?thesis by (simp add: withdraw_def set_artifact_def)
  qed
  ultimately show ?case by (auto simp: evs)
qed

lemma reset_task_idem [simp]: "reset_task p k (reset_task p k t) = reset_task p k t"
  by (simp add: reset_task_def Let_def)

text \<open>What invalidating a list of tasks amounts to.\<close>

definition reset_all :: "ReplanProposal \<Rightarrow> ident list \<Rightarrow> Run \<Rightarrow> Run" where
  "reset_all p ks = map_tasks (\<lambda>k t. if k \<in> set ks then reset_task p k t else t)"

definition invalidated :: "ReplanProposal \<Rightarrow> ident list \<Rightarrow> Run \<Rightarrow> Run" where
  "invalidated p ks r = reset_all p ks (withdraw (artifacts_of r ks) r)"

lemma withdraw_withdraw: "withdraw B (set_task k t (withdraw A r)) = set_task k t (withdraw (A @ B) r)"
  by (auto simp: withdraw_def set_task_def case_prod_unfold intro!: filter_cong)

lemma reset_all_Cons:
  assumes t: "map_of (run_tasks r) k = Some t" and d: "distinct (map fst (run_tasks r))"
  shows "reset_all p ks (set_task k (reset_task p k t) r) = reset_all p (k # ks) r"
proof -
  have "u = t" if "(k, u) \<in> set (run_tasks r)" for u
    using that d t by (metis option.inject set_dict_map_of)
  then have "map (\<lambda>(j, u). (j, if j \<in> set ks then reset_task p j u else u))
      (AList.update k (reset_task p k t) (run_tasks r)) =
    map (\<lambda>(j, u). (j, if j \<in> set (k # ks) then reset_task p j u else u)) (run_tasks r)"
    unfolding update_keyed[OF d t] map_map by (intro map_cong[OF refl]) auto
  then show ?thesis by (simp add: reset_all_def map_tasks_def set_task_def)
qed

lemma artifacts_of_reset:
  "map_of (run_tasks r) k = Some t \<Longrightarrow>
     artifacts_of (set_task k (reset_task p k t) (withdraw ids r)) ks = artifacts_of r ks"
  by (induction ks) (auto simp: artifacts_of_def withdraw_def reset_task_def Let_def split: option.splits)

lemma invalidated_Cons:
  assumes t: "map_of (run_tasks r) k = Some t" and d: "distinct (map fst (run_tasks r))"
  shows "invalidated p (k # ks) r =
    invalidated p ks (set_task k (reset_task p k t) (withdraw (tn_artifact_ids t) r))"
proof -
  have arts: "artifacts_of r (k # ks) = tn_artifact_ids t @ artifacts_of r ks"
    using t by (simp add: artifacts_of_def)
  let ?w = "withdraw (artifacts_of r (k # ks)) r"
  have fr: "run_tasks ?w = run_tasks r" by (simp add: withdraw_def)
  have "reset_all p ks (set_task k (reset_task p k t) ?w) = reset_all p (k # ks) ?w"
    by (rule reset_all_Cons) (use t d in \<open>simp_all add: fr\<close>)
  then show ?thesis
    unfolding invalidated_def artifacts_of_reset[OF t] withdraw_withdraw arts by simp
qed

lemma invalidate_eq:
  "invalidate p ks r = Inr (r', evs) \<Longrightarrow> distinct (map fst (run_tasks r)) \<Longrightarrow>
     distinct (map fst (run_artifacts r)) \<Longrightarrow> distinct (run_accepted_artifacts r) \<Longrightarrow>
     r' = invalidated p ks r \<and> (\<forall>e \<in> set evs. ev_run_id e = run_id r)"
proof (induction p ks r arbitrary: r' evs rule: invalidate.induct)
  case (1 p r)
  then show ?case
    by (simp add: invalidated_def reset_all_def map_tasks_def withdraw_def artifacts_of_def case_prod_unfold)
next
  case (2 p k ks r)
  from "2.prems"(1) obtain t r1 evs1 evs2 where t: "map_of (run_tasks r) k = Some t"
    and sup: "supersede_artifacts p (tn_artifact_ids t) r = Inr (r1, evs1)"
    and rest: "invalidate p ks (set_task k (reset_task p k t) r1) = Inr (r', evs2)"
    and evs: "evs = evs1 @
         [event r ''task.invalidated'' [(''task_id'', VStr k), (''reason'', VStr (rp_trigger p))]] @ evs2"
    by (auto simp: bind_ok_Inr_iff)
  from supersede_artifacts_eq[OF sup "2.prems"(3,4)] have
    r1: "r1 = withdraw (tn_artifact_ids t) r" and ids: "\<forall>e \<in> set evs1. ev_run_id e = run_id r" by auto
  let ?r = "set_task k (reset_task p k t) r1"
  have teq: "dget (run_tasks r) k = Inr t" using t by simp
  have fr: "run_tasks r1 = run_tasks r" "run_id r1 = run_id r" by (simp_all add: r1 withdraw_def)
  have ih: "r' = invalidated p ks ?r \<and> (\<forall>e \<in> set evs2. ev_run_id e = run_id ?r)"
  proof (rule "2.IH"[OF teq sup refl rest])
    show "distinct (map fst (run_tasks ?r))" using "2.prems"(2) by (simp add: fr)
    show "distinct (map fst (run_artifacts ?r))" "distinct (run_accepted_artifacts ?r)"
      using "2.prems"(3,4) by (simp_all add: r1 withdraw_def del: map_map)
  qed
  have "invalidated p ks ?r = invalidated p (k # ks) r"
    using t "2.prems"(2) unfolding r1 by (rule invalidated_Cons[symmetric])
  with ih ids fr show ?case by (auto simp: evs)
qed

section \<open>Resetting the affected tasks keeps the invariant\<close>

lemma map_tasks_simps [simp]:
  "map_of (run_tasks (map_tasks f r)) k = map_option (f k) (map_of (run_tasks r) k)"
  "map fst (run_tasks (map_tasks f r)) = map fst (run_tasks r)"
  "run_artifacts (map_tasks f r) = run_artifacts r"
  "run_accepted_artifacts (map_tasks f r) = run_accepted_artifacts r"
  "run_id (map_tasks f r) = run_id r" "run_plan (map_tasks f r) = run_plan r"
  "run_version (map_tasks f r) = run_version r"
  "run_event_cursor (map_tasks f r) = run_event_cursor r"
  "run_available_inputs (map_tasks f r) = run_available_inputs r"
  by (simp_all add: map_tasks_def map_of_map_keyed del: map_map)

lemma map_tasks_mild: "(\<And>k t. mild_task t (f k t)) \<Longrightarrow> mild r (map_tasks f r)"
  by (auto simp: mild_def)

lemma invalidated_simps [simp]:
  "map_of (run_tasks (invalidated p ks r)) k =
     map_option (\<lambda>t. if k \<in> set ks then reset_task p k t else t) (map_of (run_tasks r) k)"
  "map fst (run_tasks (invalidated p ks r)) = map fst (run_tasks r)"
  "map_of (run_artifacts (invalidated p ks r)) x = map_option (\<lambda>a.
     if x \<in> set (artifacts_of r ks) then a\<lparr>ar_status := ''superseded''\<rparr> else a) (map_of (run_artifacts r) x)"
  "map fst (run_artifacts (invalidated p ks r)) = map fst (run_artifacts r)"
  "run_accepted_artifacts (invalidated p ks r) =
     filter (\<lambda>x. x \<notin> set (artifacts_of r ks)) (run_accepted_artifacts r)"
  "run_id (invalidated p ks r) = run_id r" "run_plan (invalidated p ks r) = run_plan r"
  "run_version (invalidated p ks r) = run_version r"
  "run_event_cursor (invalidated p ks r) = run_event_cursor r"
  "run_available_inputs (invalidated p ks r) = run_available_inputs r"
  by (simp_all add: invalidated_def reset_all_def withdraw_def map_of_map_keyed del: map_map)

lemma reset_task_simps [simp]:
  "tn_artifact_ids (reset_task p k t) = tn_artifact_ids t" "task_id (reset_task p k t) = task_id t"
  "tn_packet (reset_task p k t) = tn_packet t"
  "tn_status (reset_task p k t) = (if k \<in> set (rp_remove p) then CANCELLED else PLANNED)"
  "tn_max_attempts (reset_task p k t) = tn_max_attempts t"
  by (simp_all add: reset_task_def Let_def task_id_def)

lemma reset_task_attempts:
  "attempts_used (reset_task p k t) = (if k \<in> set (rp_remove p) then attempts_used t else 0)"
  by (simp add: reset_task_def Let_def attempts_used_def)

lemma invalidated_ok:
  assumes ok: "run_ok core r"
  shows "run_ok core (invalidated p ks r)" (is "run_ok core ?r")
proof -
  have own: "x \<in> set (artifacts_of r ks) \<longleftrightarrow> j \<in> set ks"
    if u: "map_of (run_tasks r) j = Some u" and x: "x \<in> set (tn_artifact_ids u)" for j u x
  proof -
    have one: "k = j" if "map_of (run_tasks r) k = Some t" "x \<in> set (tn_artifact_ids t)" for k t
      using task_okD(4)[OF run_okD(5)[OF ok that(1)] that(2)] task_okD(4)[OF run_okD(5)[OF ok u] x]
      by (auto simp: artifact_of_def)
    show ?thesis unfolding artifacts_of_mem using one u x by blast
  qed
  have "task_ok core ?r j u'" if u': "map_of (run_tasks ?r) j = Some u'" for j u'
  proof -
    from u' obtain u where u: "map_of (run_tasks r) j = Some u"
      and u'_def: "u' = (if j \<in> set ks then reset_task p j u else u)" by auto
    have uok: "task_ok core r j u" using ok u by (rule run_okD)
    show ?thesis
    proof (cases "j \<in> set ks")
      case False
      with u uok own[OF u] show ?thesis
        unfolding u'_def by (auto intro!: task_ok_artifacts[OF uok] simp: option.map_ident)
    next
      case True
      have "artifact_of ?r j (reset_task p j u) x" if "x \<in> set (tn_artifact_ids u)" for x
        using task_okD(4)[OF uok that] own[OF u that] True by (auto simp: artifact_of_def)
      then have "task_ok core ?r j (reset_task p j u)"
        by (intro task_okI) (use task_okD(1-3)[OF uok] in \<open>auto simp: reset_task_attempts split: if_splits\<close>)
      with True show ?thesis by (simp add: u'_def)
    qed
  qed
  moreover have "artifact_ok core ?r x a'" if a': "map_of (run_artifacts ?r) x = Some a'" for x a'
  proof -
    from a' obtain a where a: "map_of (run_artifacts r) x = Some a"
      and a'_def: "a' = (if x \<in> set (artifacts_of r ks) then a\<lparr>ar_status := ''superseded''\<rparr> else a)" by auto
    have aok: "artifact_ok core r x a" using ok a by (rule run_okD)
    then obtain t where "map_of (run_tasks r) (ar_task_id a) = Some t" "x \<in> set (tn_artifact_ids t)"
      by (auto simp: artifact_ok_def)
    then have "\<exists>t. map_of (run_tasks ?r) (ar_task_id a') = Some t \<and> x \<in> set (tn_artifact_ids t)"
      by (simp add: a'_def)
    with aok show ?thesis by (auto simp: artifact_ok_def a'_def)
  qed
  moreover have "set (run_accepted_artifacts ?r) \<subseteq> fst ` set (run_artifacts ?r)"
  proof -
    have "fst ` set (run_artifacts ?r) = fst ` set (run_artifacts r)"
      by (metis invalidated_simps(4) list.set_map)
    with run_okD(4)[OF ok] show ?thesis by auto
  qed
  ultimately show ?thesis using run_okD(1-3)[OF ok] by (simp add: run_ok_def)
qed

section \<open>Applying a proposal\<close>

lemma rewire_mild: "mild r (rewire deps r)"
  unfolding rewire_def
  by (rule map_tasks_mild)
     (auto simp: mild_task_def record_view_def task_id_def set_dependencies_def split: option.splits)

lemma insert_tasks_Cons: "insert_tasks (t # ts) r = insert_tasks ts (set_task (task_id t) t r)"
  by (simp add: insert_tasks_def)

lemma insert_tasks_Nil [simp]: "insert_tasks [] r = r"
  by (simp add: insert_tasks_def)

lemma insert_tasks_frame:
  "run_artifacts (insert_tasks ts r) = run_artifacts r"
  "run_accepted_artifacts (insert_tasks ts r) = run_accepted_artifacts r"
  "run_id (insert_tasks ts r) = run_id r" "run_version (insert_tasks ts r) = run_version r"
  "run_event_cursor (insert_tasks ts r) = run_event_cursor r"
  "run_plan (insert_tasks ts r) = run_plan r"
  "run_available_inputs (insert_tasks ts r) = run_available_inputs r"
  by (induction ts arbitrary: r) (simp_all add: insert_tasks_Cons)

lemma added_fresh:
  "added_defects r seen ts = [] \<Longrightarrow>
     distinct (map task_id ts) \<and> set (map task_id ts) \<inter> set seen = {} \<and>
     (\<forall>t \<in> set ts. is_fresh_task r t \<and> reject_identifier_collision r (task_id t) = Inr () \<and>
        validate_capability_checks t None = Inr ())"
proof (induction r seen ts rule: added_defects.induct)
  case (1 r seen)
  then show ?case by simp
next
  case (2 r seen t ts)
  have none: "m = Inr ()" if "gate_message m = []" "\<And>e. m = Inl e \<Longrightarrow> \<exists>g. e = GateError g" for m
    using that by (auto simp: gate_message_def split: sum.splits)
  from "2.prems" have new: "task_id t \<notin> set seen" and fresh: "is_fresh_task r t"
    and msgs: "gate_message (reject_identifier_collision r (task_id t)) = []"
      "gate_message (validate_capability_checks t None) = []"
    and rest: "added_defects r (task_id t # seen) ts = []"
    by (auto split: if_splits)
  have "reject_identifier_collision r (task_id t) = Inr ()"
    by (rule none[OF msgs(1)]) (auto simp: reject_identifier_collision_def split: if_splits)
  moreover have "validate_capability_checks t None = Inr ()"
    by (rule none[OF msgs(2)]) (auto simp: validate_capability_checks_def Let_def split: if_splits)
  ultimately show ?case using "2.IH"[OF rest] new fresh by auto
qed

lemma insert_tasks_ok:
  "run_ok core r \<Longrightarrow> distinct (map task_id ts) \<Longrightarrow> set (map task_id ts) \<inter> fst ` set (run_tasks r) = {} \<Longrightarrow>
     (\<forall>t \<in> set ts. fresh_task t) \<Longrightarrow> run_ok core (insert_tasks ts r)"
proof (induction ts arbitrary: r)
  case Nil
  then show ?case by simp
next
  case (Cons t ts)
  have "run_ok core (set_task (task_id t) t r)"
    by (rule insert_task_ok[OF Cons.prems(1)]) (use Cons.prems in auto)
  then show ?case
    unfolding insert_tasks_Cons by (rule Cons.IH) (use Cons.prems in auto)
qed

lemma replan_defects_Nil:
  assumes "replan_defects r p = []"
  shows "added_defects r [] (rp_add p) = []" "wp_revision (run_plan r) < wp_max_replans (run_plan r)"
    "set (rp_reopen p) \<subseteq> fst ` set (run_tasks r)" "set (rp_remove p) \<subseteq> fst ` set (run_tasks r)"
    "fst ` set (rp_dependencies p) \<subseteq> fst ` set (run_tasks r)"
    "set (rp_remove p) \<inter> set (rp_reopen p) = {}"
proof -
  from assms have "unknown_references r ''reopen'' (rp_reopen p) = [] \<and>
      unknown_references r ''remove'' (rp_remove p) = [] \<and>
      unknown_references r ''dependencies'' (map fst (rp_dependencies p)) = [] \<and>
      sorted_set (filter (\<lambda>k. k \<in> set (rp_reopen p)) (rp_remove p)) = [] \<and>
      added_defects r [] (rp_add p) = [] \<and> wp_revision (run_plan r) < wp_max_replans (run_plan r)"
    unfolding replan_defects_def Let_def by (simp split: if_splits)
  then show "added_defects r [] (rp_add p) = []" "wp_revision (run_plan r) < wp_max_replans (run_plan r)"
    "set (rp_reopen p) \<subseteq> fst ` set (run_tasks r)" "set (rp_remove p) \<subseteq> fst ` set (run_tasks r)"
    "fst ` set (rp_dependencies p) \<subseteq> fst ` set (run_tasks r)"
    "set (rp_remove p) \<inter> set (rp_reopen p) = {}"
    by (auto simp: unknown_references_def filter_empty_conv)
qed

text \<open>The plan after the proposal, before the plan record and the refresh.\<close>

definition replanned :: "ReplanProposal \<Rightarrow> Run \<Rightarrow> Run" where
  "replanned p r = insert_tasks (rp_add p) (rewire (rp_dependencies p) (invalidated p (replan_affected r p) r))"

lemma apply_replan_Inr:
  assumes ok: "run_ok core r" and app: "apply_replan core pid r = Inr (x, r', evs)"
  obtains p evs1 where "map_of (run_replans r) pid = Some p" "rp_base_revision p = wp_revision (run_plan r)"
    "replan_defects r p = []" "graph (replanned p r) = Inr ()"
    "rp_requires_approval p \<Longrightarrow> approved core r (rp_approval_id p) ''replan'' (replan_scope p) = Inr ()"
    "then_refresh () (revise_plan p (replanned p r)) evs1 = Inr (x, r', evs)"
    "\<forall>e \<in> set evs1. ev_run_id e = run_id r"
proof -
  from app obtain p r1 evs1 where p: "map_of (run_replans r) pid = Some p"
    "rp_base_revision p = wp_revision (run_plan r)" and val: "validate_replan r p = Inr ()"
    and appr: "(if rp_requires_approval p
                  then approved core r (rp_approval_id p) ''replan'' (replan_scope p)
                  else Inr ()) = Inr ()"
    and inv: "invalidate p (replan_affected r p) r = Inr (r1, evs1)"
    and g: "graph (insert_tasks (rp_add p) (rewire (rp_dependencies p) r1)) = Inr ()"
    and ref: "then_refresh () (revise_plan p (insert_tasks (rp_add p) (rewire (rp_dependencies p) r1)))
      (evs1 @ [event r ''plan.replan_applied''
         [(''proposal_id'', VStr (rp_id p)),
          (''revision'', VInt (wp_revision (run_plan (revise_plan p (insert_tasks (rp_add p) (rewire (rp_dependencies p) r1)))))),
          (''invalidated'', VStrs (sort (replan_affected r p)))]]) = Inr (x, r', evs)"
    unfolding apply_replan_def Let_def by (auto simp: Inr_simps split del: if_split)
  from invalidate_eq[OF inv run_okD(1-3)[OF ok]] have r1: "r1 = invalidated p (replan_affected r p) r"
    and ids: "\<forall>e \<in> set evs1. ev_run_id e = run_id r" by auto
  have "replan_defects r p = []" using val by (auto simp: validate_replan_def Let_def split: if_splits)
  moreover have "rp_requires_approval p \<Longrightarrow> approved core r (rp_approval_id p) ''replan'' (replan_scope p) = Inr ()"
    using appr by simp
  ultimately show ?thesis
    using that p g ref ids unfolding r1 replanned_def by fastforce
qed

lemma replanned_ok:
  assumes ok: "run_ok core r" and nodef: "replan_defects r p = []"
  shows "run_ok core (replanned p r)"
proof -
  note fresh = added_fresh[OF replan_defects_Nil(1)[OF nodef]]
  have "run_ok core (rewire (rp_dependencies p) (invalidated p (replan_affected r p) r))" (is "run_ok core ?r")
    using invalidated_ok[OF ok] rewire_mild by (rule mild_ok)
  moreover have "map fst (run_tasks ?r) = map fst (run_tasks r)" by (simp add: rewire_def)
  then have keys: "fst ` set (run_tasks ?r) = fst ` set (run_tasks r)" by (metis list.set_map)
  moreover have "set (map task_id (rp_add p)) \<inter> fst ` set (run_tasks ?r) = {}"
    unfolding keys using fresh is_fresh_task_iff by auto
  moreover have "\<forall>t \<in> set (rp_add p). fresh_task t" using fresh is_fresh_task_iff by blast
  ultimately show ?thesis
    unfolding replanned_def using fresh by (intro insert_tasks_ok) blast+
qed

lemma replanned_frame:
  "run_id (replanned p r) = run_id r" "run_version (replanned p r) = run_version r"
  "run_event_cursor (replanned p r) = run_event_cursor r" "run_plan (replanned p r) = run_plan r"
  by (simp_all add: replanned_def insert_tasks_frame rewire_def)

lemma apply_replan_ok:
  assumes ok: "run_ok core r" and app: "apply_replan core pid r = Inr (x, r', evs)"
  shows "run_ok core r'" "stamped r r' evs"
  using ok app
proof (atomize (full), elim apply_replan_Inr)
  fix p evs1
  assume nodef: "replan_defects r p = []"
    and ref: "then_refresh () (revise_plan p (replanned p r)) evs1 = Inr (x, r', evs)"
    and ids: "\<forall>e \<in> set evs1. ev_run_id e = run_id r"
  have "run_ok core (revise_plan p (replanned p r))"
    by (rule run_ok_fields[OF replanned_ok[OF ok nodef]]) (simp_all add: revise_plan_def)
  moreover have "stamped r (revise_plan p (replanned p r)) evs1"
    using ids by (simp add: stamped_def revise_plan_def replanned_frame)
  ultimately show "run_ok core r' \<and> stamped r r' evs" using then_refresh_ok[OF ref] by blast
qed

end
