(* ===== verification/Usage.thy ===== *)
theory Usage
  imports Kernel
begin

text \<open>
  Usage accounting: \<open>src/src/walter/usage.py\<close>, \<open>record_usage\<close> of the kernel and the accounting of
  \<open>UsageRecordingModel.get_response\<close> in \<open>src/src/walter/usage_model.py\<close>. Reading a float from text and
  adding floats are the machine's: \<open>float_of\<close> (None where Python raises \<open>ValueError\<close>) and
  \<open>float_sum\<close> are arguments.
\<close>

section \<open>Normalizing provider metadata\<close>

text \<open>
  What a provider hands over, as \<open>usage_mapping\<close> tells it apart: a dictionary, an object with
  \<open>model_dump\<close> or \<open>dict\<close> (whose result may be no mapping), an object with attributes, or
  anything else.
\<close>

datatype provider_usage =
    Mapping usage_dict
  | Model_Dump "usage_dict option"
  | Dict_Method "usage_dict option"
  | Attributes usage_dict
  | Opaque

fun usage_mapping :: "provider_usage \<Rightarrow> usage_dict" where
  "usage_mapping (Mapping d) = d"
| "usage_mapping (Model_Dump dumped) = (case dumped of None \<Rightarrow> [] | Some d \<Rightarrow> d)"
| "usage_mapping (Dict_Method dumped) = (case dumped of None \<Rightarrow> [] | Some d \<Rightarrow> d)"
| "usage_mapping (Attributes d) = filter (\<lambda>kv. \<not> starts_with (fst kv) ''_'') d"
| "usage_mapping Opaque = []"

definition usage_get :: "usage_dict \<Rightarrow> string \<Rightarrow> usage_value" where
  "usage_get d k = (case map_of d k of None \<Rightarrow> UNone | Some v \<Rightarrow> v)"

text \<open>\<open>int(f)\<close>: towards zero; infinities and not-a-number raise different exceptions.\<close>

fun int_of_float :: "py_float \<Rightarrow> py_error + int" where
  "int_of_float (Finite m e) =
     Inr (if e \<ge> 0 then m * 2 ^ nat e else sgn m * (\<bar>m\<bar> div 2 ^ nat (- e)))"
| "int_of_float (Infinite neg) = Inl OverflowError"
| "int_of_float NaN = Inl (ValueError ''cannot convert float NaN to integer'')"

text \<open>\<open>_integer\<close>: only the text branch catches an exception, and only \<open>ValueError\<close>.\<close>

fun integer :: "(string \<Rightarrow> py_float option) \<Rightarrow> usage_value \<Rightarrow> py_error + int option" where
  "integer float_of UNone = Inr None"
| "integer float_of (UBool b) = Inr None"
| "integer float_of (UInt i) = Inr (Some i)"
| "integer float_of (UFloat f) = bind_ok (int_of_float f) (\<lambda>i. Inr (Some i))"
| "integer float_of (UStr s) =
     (let text = strip s in
      if text = '''' then Inr None
      else (case float_of text of
              None \<Rightarrow> Inr None
            | Some f \<Rightarrow>
                (case int_of_float f of
                   Inl (ValueError m) \<Rightarrow> Inr None
                 | Inl e \<Rightarrow> Inl e
                 | Inr i \<Rightarrow> Inr (Some i))))"
| "integer float_of (UDict d) = Inr None"
| "integer float_of UOther = Inr None"

text \<open>\<open>_integer(usage.get(k1))\<close>, then \<open>_integer(usage.get(k2))\<close> when the first is unknown.\<close>

definition integer_of ::
    "(string \<Rightarrow> py_float option) \<Rightarrow> usage_dict \<Rightarrow> string \<Rightarrow> string \<Rightarrow> py_error + int option" where
  "integer_of float_of d k1 k2 =
     bind_ok (integer float_of (usage_get d k1)) (\<lambda>v.
       case v of None \<Rightarrow> integer float_of (usage_get d k2) | Some i \<Rightarrow> Inr (Some i))"

definition token_counts ::
    "(string \<Rightarrow> py_float option) \<Rightarrow> provider_usage \<Rightarrow> py_error + (int option \<times> int option \<times> int option)" where
  "token_counts float_of value =
     (let d = usage_mapping value in
      bind_ok (integer_of float_of d ''prompt_tokens'' ''input_tokens'') (\<lambda>inp.
      bind_ok (integer_of float_of d ''completion_tokens'' ''output_tokens'') (\<lambda>out.
      bind_ok (integer_of float_of d ''total_tokens'' ''total'') (\<lambda>total.
        Inr (inp, out,
          case (total, inp, out) of
            (None, Some i, Some j) \<Rightarrow> Some (i + j)
          | _ \<Rightarrow> total)))))"

text \<open>\<open>_number\<close>: \<open>float(value)\<close>; an integer becomes the nearest float, \<open>float_of_int\<close>.\<close>

fun number :: "(string \<Rightarrow> py_float option) \<Rightarrow> (int \<Rightarrow> py_float) \<Rightarrow> usage_value \<Rightarrow> py_float option" where
  "number float_of float_of_int (UInt i) = Some (float_of_int i)"
| "number float_of float_of_int (UFloat f) = Some f"
| "number float_of float_of_int (UStr s) = float_of (strip s)"
| "number float_of float_of_int _ = None"

text \<open>Order of floats as Python compares them: a comparison with not-a-number is false.\<close>

fun float_le :: "py_float \<Rightarrow> py_float \<Rightarrow> bool" where
  "float_le NaN _ = False"
| "float_le _ NaN = False"
| "float_le (Infinite neg) (Infinite neg') = (neg \<or> \<not> neg')"
| "float_le (Infinite neg) (Finite m e) = neg"
| "float_le (Finite m e) (Infinite neg) = (\<not> neg)"
| "float_le (Finite m e) (Finite m' e') =
     (if e \<le> e' then m \<le> m' * 2 ^ nat (e' - e) else m * 2 ^ nat (e - e') \<le> m')"

definition cost_at :: "(string \<Rightarrow> py_float option) \<Rightarrow> (int \<Rightarrow> py_float) \<Rightarrow> usage_dict \<Rightarrow> string \<Rightarrow> py_float option" where
  "cost_at float_of float_of_int d k =
     (case number float_of float_of_int (usage_get d k) of
        None \<Rightarrow> None | Some c \<Rightarrow> if float_le (Finite 0 0) c then Some c else None)"

definition usage_cost ::
    "(string \<Rightarrow> py_float option) \<Rightarrow> (int \<Rightarrow> py_float) \<Rightarrow> provider_usage \<Rightarrow> py_float option" where
  "usage_cost float_of float_of_int value =
     (let d = usage_mapping value in
      case cost_at float_of float_of_int d ''cost'' of
        Some c \<Rightarrow> Some c | None \<Rightarrow> cost_at float_of float_of_int d ''total_cost'')"

fun cached_details :: "(string \<Rightarrow> py_float option) \<Rightarrow> usage_dict \<Rightarrow> string list \<Rightarrow> py_error + int option" where
  "cached_details float_of d [] = Inr None"
| "cached_details float_of d (k # ks) =
     (case usage_get d k of
        UDict details \<Rightarrow>
          bind_ok (integer float_of (usage_get details ''cached_tokens'')) (\<lambda>v.
            case v of None \<Rightarrow> cached_details float_of d ks | Some i \<Rightarrow> Inr (Some i))
      | _ \<Rightarrow> cached_details float_of d ks)"

definition cached_tokens :: "(string \<Rightarrow> py_float option) \<Rightarrow> provider_usage \<Rightarrow> py_error + int option" where
  "cached_tokens float_of value =
     (let d = usage_mapping value in
      bind_ok (cached_details float_of d [''prompt_tokens_details'', ''input_tokens_details'']) (\<lambda>v.
        case v of None \<Rightarrow> integer float_of (usage_get d ''cached_tokens'') | Some i \<Rightarrow> Inr (Some i)))"

section \<open>Budgets\<close>

record UsageBudget =
  ub_max_calls :: "int option"
  ub_max_input_tokens :: "int option"
  ub_max_output_tokens :: "int option"
  ub_max_total_tokens :: "int option"
  ub_max_cost_usd :: "py_float option"

definition above :: "int option \<Rightarrow> int \<Rightarrow> bool" where
  "above limit used = (case limit of None \<Rightarrow> False | Some m \<Rightarrow> used > m)"

definition known :: "int option \<Rightarrow> int" where
  "known x = (case x of None \<Rightarrow> 0 | Some i \<Rightarrow> i)"

definition check :: "UsageBudget \<Rightarrow> int \<Rightarrow> int \<Rightarrow> int \<Rightarrow> int \<Rightarrow> int option \<Rightarrow> int option \<Rightarrow> py_float \<Rightarrow>
    py_error + unit" where
  "check b calls_used input_used output_used total_used requested_input requested_output cost_used =
     (if above (ub_max_calls b) (calls_used + 1)
      then Inl (UsageBudgetExceeded ''Model-call budget exhausted'')
      else if above (ub_max_input_tokens b) (input_used + known requested_input)
      then Inl (UsageBudgetExceeded ''Input-token budget exhausted'')
      else if above (ub_max_output_tokens b) (output_used + known requested_output)
      then Inl (UsageBudgetExceeded ''Output-token budget exhausted'')
      else if above (ub_max_total_tokens b) (total_used + (known requested_input + known requested_output))
      then Inl (UsageBudgetExceeded ''Total-token budget exhausted'')
      else if (case ub_max_cost_usd b of None \<Rightarrow> False | Some m \<Rightarrow> float_le m cost_used)
      then Inl (UsageBudgetExceeded ''Spend budget exhausted'')
      else Inr ())"

section \<open>Recording\<close>

definition normalize_usage_record ::
    "(string \<Rightarrow> py_float option) \<Rightarrow> ident \<Rightarrow> ident \<Rightarrow> string \<Rightarrow> string \<Rightarrow> string \<Rightarrow> ident option \<Rightarrow> ident option \<Rightarrow>
     ident option \<Rightarrow> provider_usage \<Rightarrow> py_error + ModelUsageRecord" where
  "normalize_usage_record float_of new_id rid provider model role tid assignment_id worker_id raw =
     (let d = usage_mapping raw in
      bind_ok (token_counts float_of (Mapping d)) (\<lambda>(inp, out, total).
        let unknown = (inp = None \<and> out = None \<and> total = None) in
        Inr \<lparr>mu_id = new_id, mu_run_id = rid, mu_task_id = tid, mu_assignment_id = assignment_id,
             mu_worker_id = worker_id, mu_provider = provider, mu_model = model, mu_role = role,
             mu_input_tokens = inp, mu_output_tokens = out, mu_total_tokens = total,
             mu_usage_known = (\<not> unknown),
             mu_unknown_reason =
               (if unknown then Some ''Provider did not return token usage data'' else None),
             mu_raw_usage = d\<rparr>))"

text \<open>
  \<open>record_usage\<close> on one snapshot, with the record at hand: it appends, whatever the run's status.
\<close>

definition append_usage :: "ModelUsageRecord \<Rightarrow> unit operation" where
  "append_usage record r =
     (let row = record\<lparr>mu_run_id := run_id r\<rparr> in
      Inr ((), r\<lparr>run_usage_records := run_usage_records r @ [row]\<rparr>,
        [event r ''model.usage.recorded'' [(''usage'', VUsage row)]]))"

text \<open>The pre-call check of \<open>get_response\<close> over the run's recorded usage.\<close>

definition precall_check ::
    "(string \<Rightarrow> py_float option) \<Rightarrow> (int \<Rightarrow> py_float) \<Rightarrow> (py_float list \<Rightarrow> py_float) \<Rightarrow> UsageBudget \<Rightarrow> Run \<Rightarrow>
     py_error + unit" where
  "precall_check float_of float_of_int float_sum b r =
     (let records = run_usage_records r in
      check b (int (length records)) (sum_list (map (\<lambda>u. known (mu_input_tokens u)) records))
        (sum_list (map (\<lambda>u. known (mu_output_tokens u)) records))
        (sum_list (map (\<lambda>u. known (mu_total_tokens u)) records)) None None
        (float_sum (map (\<lambda>u. case usage_cost float_of float_of_int (Mapping (mu_raw_usage u)) of
           None \<Rightarrow> Finite 0 0 | Some c \<Rightarrow> c) records)))"

text \<open>
  The provider's answer to a call is a response with raw usage, or a failure (an exception, a
  cancellation). A failure is recorded as a call of unknown usage before it is raised again; a response
  whose usage cannot be normalized is not recorded, as the exception leaves first. The identities of
  the caller are the fields of \<open>identity\<close>.
\<close>

datatype provider_answer = Response provider_usage | Failure

definition failed_call :: "ModelUsageRecord \<Rightarrow> ModelUsageRecord" where
  "failed_call identity = identity
     \<lparr>mu_input_tokens := None, mu_output_tokens := None, mu_total_tokens := None,
      mu_usage_known := False,
      mu_unknown_reason := Some ''SDK model attempt failed before returning usage; billing unknown'',
      mu_raw_usage := []\<rparr>"

datatype call_end = Returned | Raised_Provider | Raised py_error

text \<open>
  \<open>get_response\<close> awaits the provider between its check and its recording, and holds nothing while it
  waits, so the two are steps of their own: each reads the run as it is by then. \<open>lost\<close> is the exception
  of a \<open>record_usage\<close> whose attempts were all raced; it is logged when the call failed anyway, and raised
  in place of the response otherwise.
\<close>

definition ask ::
    "(string \<Rightarrow> py_float option) \<Rightarrow> (int \<Rightarrow> py_float) \<Rightarrow> (py_float list \<Rightarrow> py_float) \<Rightarrow> UsageBudget option \<Rightarrow> Run \<Rightarrow>
     py_error + unit" where
  "ask float_of float_of_int float_sum budget r =
     (case budget of None \<Rightarrow> Inr () | Some b \<Rightarrow> precall_check float_of float_of_int float_sum b r)"

definition answered ::
    "(string \<Rightarrow> py_float option) \<Rightarrow> ModelUsageRecord \<Rightarrow> provider_answer \<Rightarrow> py_error option \<Rightarrow> Run \<Rightarrow>
     call_end \<times> Run \<times> Event list" where
  "answered float_of identity answer lost r =
     (case answer of
        Failure \<Rightarrow>
          (case (case lost of Some e \<Rightarrow> Inl e | None \<Rightarrow> append_usage (failed_call identity) r) of
             Inl e \<Rightarrow> (Raised_Provider, r, [])
           | Inr (_, r', evs) \<Rightarrow> (Raised_Provider, r', evs))
      | Response raw \<Rightarrow>
          (case bind_ok (normalize_usage_record float_of (mu_id identity) (run_id r) (mu_provider identity)
             (mu_model identity) (mu_role identity) (mu_task_id identity) (mu_assignment_id identity)
             (mu_worker_id identity) raw)
             (\<lambda>record. case lost of Some e \<Rightarrow> Inl e | None \<Rightarrow> append_usage record r) of
             Inl e \<Rightarrow> (Raised e, r, [])
           | Inr (_, r', evs) \<Rightarrow> (Returned, r', evs)))"

text \<open>
  The model calls of a session. The driver runs the tasks that are ready at once, so several callers
  share the run: a caller asks, waits, and has its answer, and between the two any other caller may ask
  or have its own. A caller that waits cannot ask again; one that was refused waits for nothing. The
  state is the callers that wait and the run.
\<close>

datatype call_event = Asks nat | Has_Answer nat ModelUsageRecord provider_answer "py_error option"

fun caller :: "call_event \<Rightarrow> nat" where
  "caller (Asks c) = c"
| "caller (Has_Answer c identity answer lost) = c"

fun call_step :: "(string \<Rightarrow> py_float option) \<Rightarrow> (int \<Rightarrow> py_float) \<Rightarrow> (py_float list \<Rightarrow> py_float) \<Rightarrow> UsageBudget option \<Rightarrow>
    call_event \<Rightarrow> nat list \<times> Run \<Rightarrow> nat list \<times> Run" where
  "call_step fo fi fs budget (Asks c) (waiting, r) =
     (if c \<in> set waiting then (waiting, r)
      else case ask fo fi fs budget r of Inl e \<Rightarrow> (waiting, r) | Inr _ \<Rightarrow> (c # waiting, r))"
| "call_step fo fi fs budget (Has_Answer c identity answer lost) (waiting, r) =
     (if c \<notin> set waiting then (waiting, r)
      else (remove1 c waiting, fst (snd (answered fo identity answer lost r))))"

definition model_calls :: "(string \<Rightarrow> py_float option) \<Rightarrow> (int \<Rightarrow> py_float) \<Rightarrow> (py_float list \<Rightarrow> py_float) \<Rightarrow>
    UsageBudget option \<Rightarrow> call_event list \<Rightarrow> Run \<Rightarrow> nat list \<times> Run" where
  "model_calls fo fi fs budget cs r = fold (call_step fo fi fs budget) cs ([], r)"

section \<open>Lemmas\<close>

lemma check_Inr:
  "check b c i out t ri ro cost = Inr () \<longleftrightarrow>
     \<not> above (ub_max_calls b) (c + 1) \<and> \<not> above (ub_max_input_tokens b) (i + known ri) \<and>
     \<not> above (ub_max_output_tokens b) (out + known ro) \<and>
     \<not> above (ub_max_total_tokens b) (t + (known ri + known ro)) \<and>
     (\<forall>m. ub_max_cost_usd b = Some m \<longrightarrow> \<not> float_le m cost)"
  by (auto simp: check_def split: option.splits)

lemma append_usage_Inr:
  "append_usage u r = Inr (x, r', evs) \<longleftrightarrow> x = () \<and>
     r' = r\<lparr>run_usage_records := run_usage_records r @ [u\<lparr>mu_run_id := run_id r\<rparr>]\<rparr> \<and>
     evs = [event r ''model.usage.recorded'' [(''usage'', VUsage (u\<lparr>mu_run_id := run_id r\<rparr>))]]"
  by (auto simp: append_usage_def Let_def)

text \<open>An answer leaves at most one more row.\<close>

lemma answered_rows:
  assumes "answered fo identity answer lost r = (res, r', evs)"
  shows "run_usage_records r' = run_usage_records r \<or> (\<exists>u. run_usage_records r' = run_usage_records r @ [u])"
  using assms
  by (auto simp: answered_def append_usage_def Let_def bind_ok_def
      split: option.splits sum.splits provider_answer.splits prod.splits)

text \<open>
  The ledger of a session under a call budget: the rows and the calls still out. Each caller that
  passes the check adds at most itself, so the rows pass the budget by at most the callers that asked
  beside the one that filled it; a budget already spent admits no call.
\<close>

definition ledger :: "nat list \<times> Run \<Rightarrow> nat" where
  "ledger s = length (run_usage_records (snd s)) + length (fst s)"

definition within :: "int \<Rightarrow> nat \<Rightarrow> nat \<Rightarrow> nat list \<times> Run \<Rightarrow> bool" where
  "within m k before s \<longleftrightarrow> distinct (fst s) \<and> set (fst s) \<subseteq> {..<k} \<and> before \<le> length (run_usage_records (snd s)) \<and>
     int (ledger s) \<le> (if int before < m then m + int k - 1 else int before)"

lemma call_step_within:
  assumes b: "ub_max_calls b = Some m" and c: "caller e < k" and s: "within m k before s"
  shows "within m k before (call_step fo fi fs (Some b) e s)"
proof -
  obtain waiting r where st: "s = (waiting, r)" by (cases s)
  show ?thesis
  proof (cases e)
    case (Asks i)
    show ?thesis
    proof (cases "i \<in> set waiting \<or> (\<exists>x. ask fo fi fs (Some b) r = Inl x)")
      case True
      with s show ?thesis by (auto simp: st Asks)
    next
      case False
      then have free: "i \<notin> set waiting" and ok: "ask fo fi fs (Some b) r = Inr ()"
        by (auto split: sum.splits) (metis sum.exhaust old.unit.exhaust)
      from ok have room: "int (length (run_usage_records r)) + 1 \<le> m"
        by (auto simp: ask_def precall_check_def check_Inr above_def b Let_def)
      have "distinct (i # waiting)" "set (i # waiting) \<subseteq> {..<k}" using s free c by (auto simp: within_def st Asks)
      then have "length (i # waiting) \<le> k" using card_mono[of "{..<k}" "set (i # waiting)"] by (simp add: distinct_card)
      with s free ok room c show ?thesis by (auto simp: within_def ledger_def st Asks)
    qed
  next
    case (Has_Answer i identity answer lost)
    obtain res r' evs where a: "answered fo identity answer lost r = (res, r', evs)"
      by (cases "answered fo identity answer lost r")
    have "i \<in> set waiting \<Longrightarrow> length (remove1 i waiting) + 1 = length waiting"
      by (simp add: length_remove1) (metis Suc_pred length_pos_if_in_set)
    moreover have "set (remove1 i waiting) \<subseteq> set waiting" by (rule set_remove1_subset)
    ultimately show ?thesis using answered_rows[OF a] s
      by (auto simp: within_def ledger_def st Has_Answer a distinct_remove1)
  qed
qed

lemma model_calls_bounded:
  assumes "ub_max_calls b = Some m" and "\<forall>e \<in> set cs. caller e < k"
    and "model_calls fo fi fs (Some b) cs r = (waiting, r')"
  shows "int (length (run_usage_records r')) + int (length waiting) \<le>
    (if int (length (run_usage_records r)) < m then m + int k - 1 else int (length (run_usage_records r)))"
proof -
  let ?n = "length (run_usage_records r)"
  have "within m k ?n (fold (call_step fo fi fs (Some b)) cs s)" if "within m k ?n s" for s
    using assms(2) that
  proof (induction cs arbitrary: s)
    case (Cons e cs)
    from Cons.IH[OF _ call_step_within[OF assms(1) _ Cons.prems(2)]] Cons.prems(1) show ?case by simp
  qed simp
  moreover have "within m k ?n ([], r)" by (simp add: within_def ledger_def)
  ultimately have "within m k ?n (waiting, r')" using assms(3) unfolding model_calls_def by metis
  then show ?thesis by (simp add: within_def ledger_def)
qed

text \<open>
  The bound is met: two callers under a budget of one call both pass the check, as neither has its
  answer when the other asks.
\<close>

lemma parallel_calls_overshoot:
  assumes "run_usage_records r = []"
  shows "length (run_usage_records (snd (model_calls (\<lambda>s. None) (\<lambda>i. Finite i 0) (\<lambda>xs. Finite 0 0)
      (Some \<lparr>ub_max_calls = Some 1, ub_max_input_tokens = None, ub_max_output_tokens = None,
         ub_max_total_tokens = None, ub_max_cost_usd = None\<rparr>)
      [Asks 0, Asks 1, Has_Answer 0 u Failure None, Has_Answer 1 u Failure None] r))) = 2"
  using assms by (simp add: model_calls_def ask_def precall_check_def check_def above_def answered_def append_usage_def Let_def)

end
