(* ===== verification/System.thy ===== *)
theory System
  imports Plan_Ops Usage
begin

text \<open>
  The kernel as a transition system: every public mutation of \<open>Orchestrator\<close> is a command,
  \<open>perform\<close> runs its operation on a snapshot, \<open>mutate\<close> is the terminal-run gate of \<open>_mutate\<close>, and a
  run is reachable when it is created and then changed by commands that succeed, by the usage records
  of model calls, and by the version and cursor the store writes when it saves. Identifiers the
  source draws from \<open>uuid4\<close> are arguments of a command and must be fresh.
\<close>

section \<open>Commands\<close>

datatype command =
    Define_Criteria "string list"
  | Plan_Tasks "TaskNode list"
  | Register_Input ident string
  | Bind_Workspace ident ident
  | Replace_Workspace ident ident ident string
  | Delegate ident ident ident
  | Start ident
  | Submit ident ident ident ident WorkerResult "string option"
  | Record_Provisional ident ident ident WorkerResult
  | Request_Capability ident ident ident ident WorkerResult
  | Validate ident ident string bool string ident "string option"
  | Give_Review ident ident ident bool string "string option"
  | Accept ident ident "ident option" string "string option"
  | Integrate ident string
  | Fail ident ident FailureClass string
  | Fail_Assignment ident ident ident ident FailureClass string
  | Recover ident ident string ident
  | Resume_Run "nat \<Rightarrow> ident"
  | Abandon string "ident option"
  | Request_Approval ident string json_object string "string option" "string option" string
      "ident list" "CapabilityProfile option" bool "ident option"
  | Recover_Legacy_Gate ident ident ident string json_object
  | Gate_Task ident ident string json_object
  | Decide_Approval ident bool ident string
  | Link_Capability ident ident "ident option"
  | Apply_Escalation ident "ident option"
  | Approve_Capability ident
  | Deny_Capability ident string
  | Mark_Escalated ident
  | Change_Capability ident CapabilityProfile ident "ident option"
  | Propose_Replan ReplanProposal
  | Apply_Replan ident
  | Complete string "(string, ident list) dict"

text \<open>The result value is dropped: what matters here is the snapshot and the events.\<close>

definition effect :: "'a op_result \<Rightarrow> py_error + (Run \<times> Event list)" where
  "effect m = bind_ok m (\<lambda>(x, r, evs). Inr (r, evs))"

fun perform :: "Orchestrator \<Rightarrow> command \<Rightarrow> Run \<Rightarrow> py_error + (Run \<times> Event list)" where
  "perform core (Define_Criteria cs) r = effect (set_completion_criteria cs r)"
| "perform core (Plan_Tasks ts) r = effect (add_tasks ts r)"
| "perform core (Register_Input n ref) r = effect (register_input n ref r)"
| "perform core (Bind_Workspace tid w) r = effect (bind_workspace tid w r)"
| "perform core (Replace_Workspace tid w w' m) r = effect (replace_workspace tid w w' m r)"
| "perform core (Delegate i tid w) r = effect (delegate core i tid w r)"
| "perform core (Start tid) r = effect (start tid r)"
| "perform core (Submit i tid a w res fp) r = effect (submit core i tid a w res fp r)"
| "perform core (Record_Provisional tid a w res) r = effect (record_provisional_result tid a w res r)"
| "perform core (Request_Capability i tid a w res) r = effect (record_capability_request i tid a w res r)"
| "perform core (Validate i aid c ok ev v fp) r = effect (validate core i aid c ok ev v fp r)"
| "perform core (Give_Review i aid v ok ev fp) r = effect (review core i aid v ok ev fp r)"
| "perform core (Accept i tid m reason fp) r = effect (accept core i tid m reason fp r)"
| "perform core (Integrate aid c) r = effect (record_integration aid c r)"
| "perform core (Fail i tid c ev) r = effect (fail i tid c ev r)"
| "perform core (Fail_Assignment i tid a w c ev) r = effect (fail_assignment i tid a w c ev r)"
| "perform core (Recover i f reason a) r = effect (recover core i f reason a r)"
| "perform core (Resume_Run ids) r = effect (resume ids r)"
| "perform core (Abandon reason a) r = effect (abandon reason a r)"
| "perform core (Request_Approval i act sc reason cat tgt risk refs cap req old) r =
     effect (request_approval core i act sc reason cat tgt risk refs cap req old r)"
| "perform core (Recover_Legacy_Gate tid l a act sc) r = effect (recover_legacy_approval_gate core tid l a act sc r)"
| "perform core (Gate_Task tid a act sc) r = effect (gate_task core tid a act sc r)"
| "perform core (Decide_Approval a ok h reason) r = effect (decide_approval a ok h reason r)"
| "perform core (Link_Capability q a w) r = effect (link_capability_approval core q a w r)"
| "perform core (Apply_Escalation q m) r = effect (apply_capability_escalation core q m r)"
| "perform core (Approve_Capability q) r = effect (approve_capability_request q r)"
| "perform core (Deny_Capability q reason) r = effect (deny_capability_request q reason r)"
| "perform core (Mark_Escalated q) r = effect (mark_capability_escalated q r)"
| "perform core (Change_Capability tid c a w) r = effect (change_capability core tid c a w r)"
| "perform core (Propose_Replan p) r = effect (propose_replan p r)"
| "perform core (Apply_Replan p) r = effect (apply_replan core p r)"
| "perform core (Complete result ev) r = effect (complete_run result ev r)"

text \<open>\<open>_mutate\<close> on a loaded snapshot: a terminal run is closed to every operation.\<close>

definition mutate :: "Orchestrator \<Rightarrow> command \<Rightarrow> Run \<Rightarrow> py_error + (Run \<times> Event list)" where
  "mutate core c r =
     (if run_status r \<noteq> ''active'' then Inl (GateError ''Run is terminal'') else perform core c r)"

text \<open>Identifiers the code draws at random are new where they become keys.\<close>

fun fresh_ids :: "Run \<Rightarrow> command \<Rightarrow> bool" where
  "fresh_ids r (Submit i tid a w res fp) =
     (i \<notin> fst ` set (run_artifacts r) \<and> i \<notin> fst ` set (run_tasks r) \<and>
      i \<notin> fst ` set (run_available_inputs r))"
| "fresh_ids r (Request_Approval i act sc reason cat tgt risk refs cap req old) =
     (i \<notin> fst ` set (run_approvals r) \<and> i \<notin> fst ` set (run_approval_decisions r) \<and>
      (\<forall>t \<in> snd ` set (run_tasks r). i \<notin> ag_request_id ` set (tn_approval_gates t)))"
| "fresh_ids r _ = True"

section \<open>Reachable runs\<close>

inductive step :: "Orchestrator \<Rightarrow> Run \<Rightarrow> Run \<Rightarrow> bool" for core where
  command: "mutate core c r = Inr (r', evs) \<Longrightarrow> fresh_ids r c \<Longrightarrow> step core r r'"
| usage: "append_usage u r = Inr ((), r', evs) \<Longrightarrow> step core r r'"
| saved: "step core r (r\<lparr>run_version := v, run_event_cursor := n\<rparr>)"

inductive reachable :: "Orchestrator \<Rightarrow> Run \<Rightarrow> bool" for core where
  created: "create_run rid objective criteria constraints max_replans = Inr (r, evs) \<Longrightarrow> reachable core r"
| changed: "reachable core r \<Longrightarrow> step core r r' \<Longrightarrow> reachable core r'"

inductive_cases stepE: "step core r r'"

section \<open>Every command keeps the invariant\<close>

lemma effect_Inr: "effect m = Inr (r, evs) \<longleftrightarrow> (\<exists>x. m = Inr (x, r, evs))"
  by (cases m) (auto simp: effect_def)

lemma record_integration_Inr:
  "record_integration aid commit r = Inr (x, r', evs) \<longleftrightarrow> full_object_id commit \<and>
     (if already_integrated aid commit r then x = () \<and> r' = r \<and> evs = []
      else integrate_artifact aid commit r = Inr (x, r', evs))"
  by (auto simp: record_integration_def)

lemma stamped_ops:
  "delegate core i tid w r = Inr (x1, r', evs) \<Longrightarrow> stamped r r' evs"
  "submit core i tid a w res fp r = Inr (x2, r', evs) \<Longrightarrow> stamped r r' evs"
  "integrate_artifact aid commit r = Inr (x3, r', evs) \<Longrightarrow> stamped r r' evs"
  by (auto simp: delegate_Inr submit_Inr integrate_artifact_Inr stamped_def)

lemma validate_stamped:
  assumes "run_ok core r" and val: "validate core i aid c ok ev v fp r = Inr (x, r', evs)"
  shows "stamped r r' evs"
proof -
  from val obtain a t r1 evs1 where c: "candidate core aid fp r = Inr (a, t, r1, evs1)"
    and r': "r' = set_artifact aid (a\<lparr>ar_validations := ar_validations a @ [x]\<rparr>) r1"
    and evs: "\<forall>e \<in> set evs. e \<in> set evs1 \<or> ev_run_id e = run_id r"
    unfolding validate_Inr by auto
  with candidate_ok(9)[OF assms(1) c] show ?thesis by (auto simp: quiet_op_def stamped_def)
qed

lemma review_stamped:
  assumes "run_ok core r" and rev: "review core i aid v ok ev fp r = Inr (x, r', evs)"
  shows "stamped r r' evs"
proof -
  from rev obtain a t r1 evs1 where c: "candidate core aid fp r = Inr (a, t, r1, evs1)"
    and r': "r' = set_artifact aid (a\<lparr>ar_reviews := ar_reviews a @ [x]\<rparr>) r1"
    and evs: "\<forall>e \<in> set evs. e \<in> set evs1 \<or> ev_run_id e = run_id r"
    unfolding review_Inr by auto
  with candidate_ok(9)[OF assms(1) c] show ?thesis by (auto simp: quiet_op_def stamped_def)
qed

lemma accept_stamped:
  assumes ok: "run_ok core r" and acc: "accept core i tid m reason fp r = Inr (x, r', evs)"
  shows "stamped r r' evs"
  using acc
proof (rule accept_Inr)
  fix aid a t r1 evs1 evs2
  assume c: "candidate core aid fp r = Inr (a, t, r1, evs1)" and g: "evidence_gate core t a = Inr ()"
    and ref: "then_refresh x (accepted_run x aid a t r1) evs2 = Inr (x, r', evs)"
    and ids: "\<forall>e \<in> set evs2. ev_run_id e = run_id r"
  note cd = candidate_ok[OF ok c]
  have "run_ok core (accepted_run x aid a t r1)"
    by (rule accepted_ok[OF cd(1-3,6,4,5)]) (simp add: evidenced_def cd(7) g)
  moreover have "stamped r (accepted_run x aid a t r1) evs2"
    using cd(9) ids by (simp add: quiet_op_def stamped_def accepted_run_def)
  ultimately show ?thesis using then_refresh_ok(2)[OF ref] by blast
qed

lemma recover_stamped:
  assumes "recover core i fid reason actor r = Inr (x, r', evs)"
  shows "stamped r r' evs"
proof -
  from assms obtain f t t1 evs1 r1 evs2 where st: "tn_status t = FAILED"
    and act: "apply_action r f reason (recovery_action t (wf_classification f)) t = Inr (t1, evs1)"
    and rej: "reject_latest t1 reason (wf_id f) (set_task (wf_task_id f) t1 r) = Inr (r1, evs2)"
    and r': "r' = r1\<lparr>run_recoveries := run_recoveries r1 @ [x],
                run_decisions := run_decisions r1 @ [Decision.truncate x]\<rparr>"
    and evs: "evs = evs1 @ evs2 @ [event r ''recovery.decided'' [(''decision'', VRecovery x)]]"
    unfolding recover_Inr by blast
  have "run_id r1 = run_id r \<and> run_version r1 = run_version r \<and> run_event_cursor r1 = run_event_cursor r \<and>
      (\<forall>e \<in> set evs2. ev_run_id e = run_id r)"
    using rej by (auto simp: reject_latest_def bind_ok_Inr_iff split: option.splits)
  with apply_action_quiet(4)[OF act st] show ?thesis by (auto simp: stamped_def r' evs)
qed

lemmas quiet_ops =
  set_completion_criteria_quiet register_input_quiet bind_workspace_quiet replace_workspace_quiet
  start_quiet record_provisional_result_quiet record_capability_request_quiet fail_quiet
  fail_assignment_quiet resume_quiet abandon_quiet complete_quiet request_approval_quiet
  recover_legacy_quiet gate_task_quiet decide_approval_quiet link_capability_approval_quiet
  apply_capability_escalation_quiet approve_capability_request_quiet deny_capability_request_quiet
  mark_capability_escalated_quiet change_capability_quiet propose_replan_quiet

text \<open>A command is quiet, or one of nine that move artifacts, attempts or the plan.\<close>

fun is_quiet :: "command \<Rightarrow> bool" where
  "is_quiet (Plan_Tasks ts) = False"
| "is_quiet (Delegate i tid w) = False"
| "is_quiet (Submit i tid a w res fp) = False"
| "is_quiet (Validate i aid c ok ev v fp) = False"
| "is_quiet (Give_Review i aid v ok ev fp) = False"
| "is_quiet (Accept i tid m reason fp) = False"
| "is_quiet (Integrate aid c) = False"
| "is_quiet (Recover i f reason a) = False"
| "is_quiet (Apply_Replan p) = False"
| "is_quiet _ = True"

lemma perform_quiet:
  "perform core c r = Inr (r', evs) \<Longrightarrow> is_quiet c \<Longrightarrow> distinct (map fst (run_tasks r)) \<Longrightarrow>
     quiet_op r r' evs"
  by (cases c) (auto simp: effect_Inr intro: quiet_ops)

lemma perform_ok:
  assumes ok: "run_ok core r" and per: "perform core c r = Inr (r', evs)" and new: "fresh_ids r c"
  shows "run_ok core r' \<and> stamped r r' evs"
proof (cases "is_quiet c")
  case True
  from perform_quiet[OF per True run_okD(1)[OF ok]] have q: "quiet_op r r' evs" .
  with quiet_op_ok[OF q ok] show ?thesis by (simp add: quiet_op_def)
next
  case False
  have integ: "run_ok core r' \<and> stamped r r' evs"
    if "record_integration aid commit r = Inr (x, r', evs)" for aid commit x
  proof (cases "already_integrated aid commit r")
    case True
    with that ok show ?thesis by (simp add: record_integration_Inr stamped_def)
  next
    case False
    with that have "integrate_artifact aid commit r = Inr (x, r', evs)" by (simp add: record_integration_Inr)
    then show ?thesis using integrate_artifact_ok[OF ok] stamped_ops(3) by blast
  qed
  from False show ?thesis
  proof (cases c)
    case (Plan_Tasks ts)
    with per show ?thesis by (auto simp: effect_Inr intro: add_tasks_ok[OF ok])
  next
    case (Delegate i tid w)
    with per show ?thesis by (auto simp: effect_Inr intro: delegate_ok[OF ok] stamped_ops)
  next
    case (Submit i tid a w res fp)
    with new have "map_of (run_artifacts r) i = None" by (simp add: map_of_eq_None_iff)
    with Submit per show ?thesis by (auto simp: effect_Inr intro: submit_ok[OF ok] stamped_ops)
  next
    case (Validate i aid ch p ev v fp)
    with per show ?thesis by (auto simp: effect_Inr intro: validate_ok[OF ok] validate_stamped[OF ok])
  next
    case (Give_Review i aid v p ev fp)
    with per show ?thesis by (auto simp: effect_Inr intro: review_ok[OF ok] review_stamped[OF ok])
  next
    case (Accept i tid m reason fp)
    with per show ?thesis by (auto simp: effect_Inr intro: accept_ok[OF ok] accept_stamped[OF ok])
  next
    case (Integrate aid commit)
    with per integ show ?thesis by (auto simp: effect_Inr)
  next
    case (Recover i f reason a)
    with per show ?thesis by (auto simp: effect_Inr intro: recover_ok[OF ok] recover_stamped)
  next
    case (Apply_Replan p)
    with per show ?thesis by (auto simp: effect_Inr intro: apply_replan_ok[OF ok])
  qed simp_all
qed

lemma mutate_Inr:
  "mutate core c r = Inr (r', evs) \<longleftrightarrow> run_status r = ''active'' \<and> perform core c r = Inr (r', evs)"
  by (simp add: mutate_def)

lemma step_ok:
  assumes "step core r r'" and ok: "run_ok core r"
  shows "run_ok core r'"
  using assms(1)
proof (rule stepE)
  fix c evs
  assume "mutate core c r = Inr (r', evs)" "fresh_ids r c"
  with perform_ok[OF ok] show ?thesis by (auto simp: mutate_Inr)
next
  fix u evs
  assume "append_usage u r = Inr ((), r', evs)"
  then show "run_ok core r'" by (intro run_ok_fields[OF ok]) (auto simp: append_usage_Inr)
next
  fix v n
  assume "r' = r\<lparr>run_version := v, run_event_cursor := n\<rparr>"
  then show "run_ok core r'" by (intro run_ok_fields[OF ok]) auto
qed

lemma create_run_Inr:
  "create_run rid objective criteria constraints n = Inr (r, evs) \<longleftrightarrow>
     substantive objective \<and> (\<forall>x \<in> set criteria. substantive x) \<and> criteria \<noteq> [] \<and> 0 \<le> n \<and>
     r = initial_run rid objective constraints (initial_plan objective criteria n) \<and>
     evs = [event r ''run.created'' []]"
  by (auto simp: create_run_def Let_def)

lemma reachable_ok: "reachable core r \<Longrightarrow> run_ok core r"
proof (induction rule: reachable.induct)
  case (created rid objective criteria constraints n r evs)
  then show ?case by (auto simp: create_run_Inr initial_ok)
next
  case (changed r r')
  then show ?case using step_ok by blast
qed

end
