(* ===== verification/Provenance.thy ===== *)
theory Provenance
  imports System
begin

text \<open>
  Provenance as an invariant: whatever commands run, every accepted artifact keeps a complete
  canonical lineage. Most commands only extend what is accepted; accepting checks the lineage of
  what it adds; a replan withdraws a set of tasks that is closed under consumption.
\<close>

section \<open>When lineage carries over\<close>

lemma canonical_transfer:
  assumes own: "\<And>aid a t. P aid \<Longrightarrow> canonical_owner r aid = Some (a, t) \<Longrightarrow>
      \<exists>a' t'. canonical_owner r' aid = Some (a', t') \<and> ar_input_artifact_ids a' = ar_input_artifact_ids a \<and>
        tn_packet t' = tn_packet t"
    and res: "\<And>aid a t t' v x. P aid \<Longrightarrow> canonical_owner r aid = Some (a, t) \<Longrightarrow> tn_packet t' = tn_packet t \<Longrightarrow>
      v \<in> set (task_refs t) \<Longrightarrow> resolve_input r t v = Inr x \<Longrightarrow>
      resolve_input r' t' v = Inr x \<and> (\<forall>i. x = Some i \<longrightarrow> P i)"
  shows "canonical r aid \<Longrightarrow> P aid \<Longrightarrow> canonical r' aid"
proof (induction rule: canonical.induct)
  case (canonicalI aid a t inputs)
  obtain a' t' where own': "canonical_owner r' aid = Some (a', t')"
    and a': "ar_input_artifact_ids a' = ar_input_artifact_ids a" and pk: "tn_packet t' = tn_packet t"
    using own[OF canonicalI.prems canonicalI.hyps(1)] by blast
  note step = res[OF canonicalI.prems canonicalI.hyps(1) pk]
  have all: "resolved r' t' vs acc = Inr out \<and> (\<forall>i \<in> set out. i \<in> set acc \<or> P i)"
    if "set vs \<subseteq> set (task_refs t)" "resolved r t vs acc = Inr out" for vs acc out
    using that
  proof (induction vs arbitrary: acc)
    case Nil
    then show ?case by simp
  next
    case (Cons v vs)
    then obtain x where x: "resolve_input r t v = Inr x"
      and rest: "resolved r t vs (case x of None \<Rightarrow> acc | Some aid \<Rightarrow> add_once aid acc) = Inr out"
      by (auto simp: bind_ok_Inr_iff)
    have "v \<in> set (task_refs t)" using Cons.prems(1) by simp
    from step[OF this x] have x': "resolve_input r' t' v = Inr x" "\<forall>i. x = Some i \<longrightarrow> P i" by auto
    with Cons.IH[OF _ rest] Cons.prems(1) show ?case by (auto split: option.splits)
  qed
  have refs: "task_refs t' = task_refs t" using pk by (simp add: task_refs_def)
  from all[OF subset_refl canonicalI.hyps(2)] have "resolved r' t' (task_refs t') [] = Inr inputs"
    and "\<forall>i \<in> set inputs. P i" by (simp_all add: refs)
  with own' a' canonicalI show ?case by (intro canonical.canonicalI[of r' aid a' t' inputs]) auto
qed

section \<open>Extensions\<close>

text \<open>
  \<open>r'\<close> extends \<open>r\<close>: what was accepted in \<open>r\<close> still is, with the same provenance, and no reference
  that named an artifact or an input names a task now.
\<close>

definition extends :: "Run \<Rightarrow> Run \<Rightarrow> bool" where
  "extends r r' \<longleftrightarrow> run_id r' = run_id r \<and>
     set (run_accepted_artifacts r) \<subseteq> set (run_accepted_artifacts r') \<and>
     (\<forall>k t. map_of (run_tasks r) k = Some t \<longrightarrow> (\<exists>t'. map_of (run_tasks r') k = Some t' \<and>
        (tn_status t = ACCEPTED \<longrightarrow> tn_status t' = ACCEPTED \<and> tn_packet t' = tn_packet t \<and>
           last_opt (tn_artifact_ids t') = last_opt (tn_artifact_ids t)))) \<and>
     (\<forall>x a. map_of (run_artifacts r) x = Some a \<longrightarrow> (\<exists>a'. map_of (run_artifacts r') x = Some a' \<and>
        ar_task_id a' = ar_task_id a \<and> ar_run_id a' = ar_run_id a \<and>
        ar_input_artifact_ids a' = ar_input_artifact_ids a \<and>
        (ar_status a = ''accepted'' \<longrightarrow> ar_status a' = ''accepted''))) \<and>
     (\<forall>x. map_of (run_tasks r) x = None \<longrightarrow> x \<in> fst ` set (run_artifacts r) \<union> fst ` set (run_available_inputs r) \<longrightarrow>
        map_of (run_tasks r') x = None) \<and>
     (\<forall>x. map_of (run_tasks r) x = None \<longrightarrow> x \<notin> fst ` set (run_artifacts r) \<longrightarrow>
        x \<in> fst ` set (run_available_inputs r) \<longrightarrow>
        x \<notin> fst ` set (run_artifacts r') \<and> x \<in> fst ` set (run_available_inputs r'))"

lemma extendsD:
  assumes "extends r r'"
  shows "run_id r' = run_id r" "x \<in> set (run_accepted_artifacts r) \<Longrightarrow> x \<in> set (run_accepted_artifacts r')"
    "map_of (run_tasks r) k = Some t \<Longrightarrow> \<exists>t'. map_of (run_tasks r') k = Some t' \<and>
        (tn_status t = ACCEPTED \<longrightarrow> tn_status t' = ACCEPTED \<and> tn_packet t' = tn_packet t \<and>
           last_opt (tn_artifact_ids t') = last_opt (tn_artifact_ids t))"
    "map_of (run_artifacts r) y = Some a \<Longrightarrow> \<exists>a'. map_of (run_artifacts r') y = Some a' \<and>
        ar_task_id a' = ar_task_id a \<and> ar_run_id a' = ar_run_id a \<and>
        ar_input_artifact_ids a' = ar_input_artifact_ids a \<and>
        (ar_status a = ''accepted'' \<longrightarrow> ar_status a' = ''accepted'')"
    "map_of (run_tasks r) z = None \<Longrightarrow>
       z \<in> fst ` set (run_artifacts r) \<union> fst ` set (run_available_inputs r) \<Longrightarrow> map_of (run_tasks r') z = None"
    "map_of (run_tasks r) z = None \<Longrightarrow> z \<notin> fst ` set (run_artifacts r) \<Longrightarrow>
       z \<in> fst ` set (run_available_inputs r) \<Longrightarrow>
       z \<notin> fst ` set (run_artifacts r') \<and> z \<in> fst ` set (run_available_inputs r')"
proof -
  note d = assms[unfolded extends_def]
  show "run_id r' = run_id r" using d by (rule conjunct1)
  note d2 = d[THEN conjunct2]
  show "x \<in> set (run_accepted_artifacts r) \<Longrightarrow> x \<in> set (run_accepted_artifacts r')"
    by (rule subsetD[OF d2[THEN conjunct1]])
  note d3 = d2[THEN conjunct2]
  show "map_of (run_tasks r) k = Some t \<Longrightarrow> \<exists>t'. map_of (run_tasks r') k = Some t' \<and>
        (tn_status t = ACCEPTED \<longrightarrow> tn_status t' = ACCEPTED \<and> tn_packet t' = tn_packet t \<and>
           last_opt (tn_artifact_ids t') = last_opt (tn_artifact_ids t))"
    by (rule d3[THEN conjunct1, THEN spec, THEN spec, THEN mp])
  note d4 = d3[THEN conjunct2]
  show "map_of (run_artifacts r) y = Some a \<Longrightarrow> \<exists>a'. map_of (run_artifacts r') y = Some a' \<and>
        ar_task_id a' = ar_task_id a \<and> ar_run_id a' = ar_run_id a \<and>
        ar_input_artifact_ids a' = ar_input_artifact_ids a \<and>
        (ar_status a = ''accepted'' \<longrightarrow> ar_status a' = ''accepted'')"
    by (rule d4[THEN conjunct1, THEN spec, THEN spec, THEN mp])
  note d5 = d4[THEN conjunct2]
  show "map_of (run_tasks r) z = None \<Longrightarrow>
       z \<in> fst ` set (run_artifacts r) \<union> fst ` set (run_available_inputs r) \<Longrightarrow> map_of (run_tasks r') z = None"
    by (rule d5[THEN conjunct1, THEN spec, THEN mp, THEN mp])
  show "map_of (run_tasks r) z = None \<Longrightarrow> z \<notin> fst ` set (run_artifacts r) \<Longrightarrow>
       z \<in> fst ` set (run_available_inputs r) \<Longrightarrow>
       z \<notin> fst ` set (run_artifacts r') \<and> z \<in> fst ` set (run_available_inputs r')"
    by (rule d5[THEN conjunct2, THEN spec, THEN mp, THEN mp, THEN mp])
qed

lemma extends_keys:
  "extends r r' \<Longrightarrow> x \<in> fst ` set (run_artifacts r) \<Longrightarrow> x \<in> fst ` set (run_artifacts r')"
  using extendsD(4) by (metis keys_map_of)

lemma resolve_input_extends:
  assumes ext: "extends r r'" and pk: "tn_packet t' = tn_packet t" and res: "resolve_input r t v = Inr x"
  shows "resolve_input r' t' v = Inr x"
proof (cases "map_of (run_tasks r) v")
  case (Some u)
  with res obtain aid where u: "tn_status u = ACCEPTED" "last_opt (tn_artifact_ids u) = Some aid" "x = Some aid"
    by (auto simp: resolve_input_def split: option.splits if_splits)
  from extendsD(3)[OF ext Some] u obtain u' where "map_of (run_tasks r') v = Some u'"
    "tn_status u' = ACCEPTED" "last_opt (tn_artifact_ids u') = Some aid" by auto
  with u show ?thesis by (simp add: resolve_input_def)
next
  case None
  show ?thesis
  proof (cases "v \<in> fst ` set (run_artifacts r)")
    case True
    with None have "map_of (run_tasks r') v = None" by (intro extendsD(5)[OF ext]) auto
    with None True res extends_keys[OF ext True] show ?thesis by (simp add: resolve_input_def)
  next
    case False
    with None res have inp: "v \<in> fst ` set (run_available_inputs r)"
      "v \<notin> set (tp_dependencies (tn_packet t))" "x = None"
      by (auto simp: resolve_input_def split: if_splits)
    with None False have "map_of (run_tasks r') v = None" by (intro extendsD(5)[OF ext]) auto
    with extendsD(6)[OF ext None False inp(1)] inp pk show ?thesis by (simp add: resolve_input_def)
  qed
qed

lemma canonical_owner_extends:
  assumes ext: "extends r r'" and own: "canonical_owner r aid = Some (a, t)"
  shows "\<exists>a' t'. canonical_owner r' aid = Some (a', t') \<and> ar_input_artifact_ids a' = ar_input_artifact_ids a \<and>
    tn_packet t' = tn_packet t"
proof -
  from own have o: "map_of (run_artifacts r) aid = Some a" "map_of (run_tasks r) (ar_task_id a) = Some t"
    "ar_run_id a = run_id r" "ar_status a = ''accepted''" "aid \<in> set (run_accepted_artifacts r)"
    "tn_status t = ACCEPTED" "last_opt (tn_artifact_ids t) = Some aid" by (simp_all add: canonical_owner_Some)
  from extendsD(4)[OF ext o(1)] extendsD(3)[OF ext o(2)] extendsD(1)[OF ext] extendsD(2)[OF ext o(5)] o
  show ?thesis by (fastforce simp: canonical_owner_Some)
qed

lemma canonical_extends: "canonical r aid \<Longrightarrow> extends r r' \<Longrightarrow> canonical r' aid"
  by (rule canonical_transfer[where P = "\<lambda>_. True"])
     (auto intro: canonical_owner_extends resolve_input_extends)

lemma extends_refl [simp]: "extends r r"
  by (simp add: extends_def)

lemma extends_trans:
  assumes "extends r r1" and "extends r1 r2"
  shows "extends r r2"
  unfolding extends_def
proof (intro conjI allI impI)
  fix k t
  assume "map_of (run_tasks r) k = Some t"
  from extendsD(3)[OF assms(1) this] obtain t1 where "map_of (run_tasks r1) k = Some t1"
    "tn_status t = ACCEPTED \<longrightarrow> tn_status t1 = ACCEPTED \<and> tn_packet t1 = tn_packet t \<and>
       last_opt (tn_artifact_ids t1) = last_opt (tn_artifact_ids t)" by blast
  with extendsD(3)[OF assms(2) this(1)] show "\<exists>t'. map_of (run_tasks r2) k = Some t' \<and>
      (tn_status t = ACCEPTED \<longrightarrow> tn_status t' = ACCEPTED \<and> tn_packet t' = tn_packet t \<and>
         last_opt (tn_artifact_ids t') = last_opt (tn_artifact_ids t))" by force
next
  fix x a
  assume "map_of (run_artifacts r) x = Some a"
  from extendsD(4)[OF assms(1) this] obtain a1 where "map_of (run_artifacts r1) x = Some a1"
    "ar_task_id a1 = ar_task_id a" "ar_run_id a1 = ar_run_id a"
    "ar_input_artifact_ids a1 = ar_input_artifact_ids a" "ar_status a = ''accepted'' \<longrightarrow> ar_status a1 = ''accepted''"
    by blast
  with extendsD(4)[OF assms(2) this(1)] show "\<exists>a'. map_of (run_artifacts r2) x = Some a' \<and>
      ar_task_id a' = ar_task_id a \<and> ar_run_id a' = ar_run_id a \<and>
      ar_input_artifact_ids a' = ar_input_artifact_ids a \<and>
      (ar_status a = ''accepted'' \<longrightarrow> ar_status a' = ''accepted'')" by force
next
  fix x
  assume none: "map_of (run_tasks r) x = None"
    and x: "x \<in> fst ` set (run_artifacts r) \<union> fst ` set (run_available_inputs r)"
  from extendsD(5)[OF assms(1) this] have none1: "map_of (run_tasks r1) x = None" .
  have "x \<in> fst ` set (run_artifacts r1) \<union> fst ` set (run_available_inputs r1)"
    using x extends_keys[OF assms(1)] extendsD(6)[OF assms(1) none] by blast
  with none1 show "map_of (run_tasks r2) x = None" by (rule extendsD(5)[OF assms(2)])
next
  fix x
  assume x: "map_of (run_tasks r) x = None" "x \<notin> fst ` set (run_artifacts r)"
    "x \<in> fst ` set (run_available_inputs r)"
  then have "map_of (run_tasks r1) x = None" by (intro extendsD(5)[OF assms(1)]) auto
  with extendsD(6)[OF assms(1) x] extendsD(6)[OF assms(2)]
  show "x \<notin> fst ` set (run_artifacts r2)" "x \<in> fst ` set (run_available_inputs r2)" by blast+
next
  show "set (run_accepted_artifacts r) \<subseteq> set (run_accepted_artifacts r2)"
    using extendsD(2)[OF assms(1)] extendsD(2)[OF assms(2)] by blast
qed (use extendsD(1)[OF assms(1)] extendsD(1)[OF assms(2)] in simp)

section \<open>Commands that extend\<close>

lemma quiet_extends:
  assumes q: "quiet r r'"
  shows "extends r r'"
  unfolding extends_def
proof (intro conjI allI impI)
  have same: "run_artifacts r' = run_artifacts r" "run_accepted_artifacts r' = run_accepted_artifacts r"
    "map fst (run_tasks r') = map fst (run_tasks r)" using q by (simp_all add: quiet_def)
  fix k t
  assume t: "map_of (run_tasks r) k = Some t"
  from same_keys_task[OF same(3)[symmetric] t] obtain t' where t': "map_of (run_tasks r') k = Some t'" by blast
  with q t have "quiet_task t t'" by (simp add: quiet_def)
  then have "tn_status t = ACCEPTED \<longrightarrow> tn_status t' = ACCEPTED \<and> tn_packet t' = tn_packet t \<and>
      last_opt (tn_artifact_ids t') = last_opt (tn_artifact_ids t)"
    by (auto simp: quiet_task_def record_view_def)
  with t' show "\<exists>t'. map_of (run_tasks r') k = Some t' \<and> (tn_status t = ACCEPTED \<longrightarrow>
      tn_status t' = ACCEPTED \<and> tn_packet t' = tn_packet t \<and>
      last_opt (tn_artifact_ids t') = last_opt (tn_artifact_ids t))" by blast
next
  fix x
  assume "map_of (run_tasks r) x = None"
  moreover have "map fst (run_tasks r') = map fst (run_tasks r)" using q by (simp add: quiet_def)
  ultimately show "map_of (run_tasks r') x = None"
    by (metis map_of_eq_None_iff list.set_map)
next
  fix x
  assume "x \<in> fst ` set (run_available_inputs r)"
  with quiet_inputs[OF q] show "x \<in> fst ` set (run_available_inputs r')" by blast
qed (use q in \<open>auto simp: quiet_def\<close>)

lemma set_task_extends:
  "map_of (run_tasks r) k = Some t \<Longrightarrow> tn_status t \<noteq> ACCEPTED \<Longrightarrow> extends r (set_task k t' r)"
  by (auto simp: extends_def)

lemma insert_task_extends:
  assumes "k \<notin> fst ` set (run_tasks r)" "k \<notin> fst ` set (run_artifacts r)" "k \<notin> fst ` set (run_available_inputs r)"
    and "run_tasks r' = AList.update k t (run_tasks r)" "run_artifacts r' = run_artifacts r"
      "run_accepted_artifacts r' = run_accepted_artifacts r" "run_id r' = run_id r"
      "run_available_inputs r' = run_available_inputs r"
  shows "extends r r'"
  using assms by (auto simp: extends_def map_of_eq_None_iff dest: map_of_in_keys)

lemma set_artifact_extends:
  assumes "map_of (run_artifacts r) x = Some a" "same_source a a'"
    "ar_input_artifact_ids a' = ar_input_artifact_ids a"
    "ar_status a = ''accepted'' \<longrightarrow> ar_status a' = ''accepted''"
  shows "extends r (set_artifact x a' r)"
  using assms by (auto simp: extends_def same_source_def dest: map_of_in_keys)

lemma add_each_extends: "add_each ts r = Inr (r', evs) \<Longrightarrow> extends r r' \<and>
    run_accepted_artifacts r' = run_accepted_artifacts r"
proof (induction ts r arbitrary: r' evs rule: add_each.induct)
  case (1 r)
  then show ?case by simp
next
  case (2 t ts r)
  from "2.prems"(1) obtain r1 evs1 evs2 where one: "add_task t r = Inr (r1, evs1)"
    and rest: "add_each ts r1 = Inr (r', evs2)"
    by (auto simp: bind_ok_Inr_iff)
  have "extends r r1"
    by (rule insert_task_extends[of "task_id t" r r1 t])
       (use one in \<open>auto simp: add_task_Inr dest: is_fresh_task_iff\<close>)
  moreover have "run_accepted_artifacts r1 = run_accepted_artifacts r" using one by (auto simp: add_task_Inr)
  ultimately show ?case using "2.IH"[OF one refl rest] extends_trans by fastforce
qed

lemma then_refresh_extends:
  assumes "then_refresh x r1 evs1 = Inr (y, r', evs)" and "distinct (map fst (run_tasks r1))"
  shows "extends r1 r'" "run_accepted_artifacts r' = run_accepted_artifacts r1"
proof -
  from assms obtain more where "refresh r1 = Inr (r', more)" by (auto simp: then_refresh_Inr)
  from refresh_refreshed[OF this assms(2)] have re: "refreshed r1 r'" .
  from quiet_extends[OF quiet_refreshed[OF re]] show "extends r1 r'" .
  from refreshed_frame(2)[OF re] show "run_accepted_artifacts r' = run_accepted_artifacts r1" .
qed

lemma submit_extends:
  assumes sub: "submit core i tid a w res fp r = Inr (x, r', evs)"
    and new: "i \<notin> fst ` set (run_artifacts r)" "i \<notin> fst ` set (run_tasks r)"
      "i \<notin> fst ` set (run_available_inputs r)"
  shows "extends r r' \<and> run_accepted_artifacts r' = run_accepted_artifacts r"
proof -
  from sub obtain t where t: "map_of (run_tasks r) tid = Some t" "tn_status t = RUNNING"
    and r': "r' = set_artifact i x (set_task tid (t\<lparr>tn_status := SUBMITTED, tn_result := Some res,
               tn_artifact_ids := tn_artifact_ids t @ [i]\<rparr>) r)"
    unfolding submit_Inr by blast
  let ?r = "set_task tid (t\<lparr>tn_status := SUBMITTED, tn_result := Some res,
               tn_artifact_ids := tn_artifact_ids t @ [i]\<rparr>) r"
  have "extends r ?r" by (rule set_task_extends) (use t in auto)
  moreover have "extends ?r r'"
    unfolding r' extends_def
    using new t(1) by (auto simp: dest: map_of_in_keys)
  ultimately show ?thesis using extends_trans by (auto simp: r')
qed

lemma candidate_extends:
  assumes "run_ok core r" and "candidate core aid fp r = Inr (a, t, r1, evs)"
  shows "extends r r1" "run_accepted_artifacts r1 = run_accepted_artifacts r"
proof -
  from candidate_ok(9)[OF assms] have "quiet r r1" by (simp add: quiet_op_def)
  then show "extends r r1" by (rule quiet_extends)
  from \<open>quiet r r1\<close> show "run_accepted_artifacts r1 = run_accepted_artifacts r" by (simp add: quiet_def)
qed

lemma recover_extends:
  assumes ok: "run_ok core r" and rec: "recover core i fid reason actor r = Inr (x, r', evs)"
  shows "extends r r' \<and> run_accepted_artifacts r' = run_accepted_artifacts r"
proof -
  from rec obtain f t t1 evs1 r1 evs2 where t: "map_of (run_tasks r) (wf_task_id f) = Some t"
    and st: "tn_status t = FAILED"
    and act: "apply_action r f reason (recovery_action t (wf_classification f)) t = Inr (t1, evs1)"
    and rej: "reject_latest t1 reason (wf_id f) (set_task (wf_task_id f) t1 r) = Inr (r1, evs2)"
    and r': "r' = r1\<lparr>run_recoveries := run_recoveries r1 @ [x],
                run_decisions := run_decisions r1 @ [Decision.truncate x]\<rparr>"
    unfolding recover_Inr by blast
  let ?r = "set_task (wf_task_id f) t1 r"
  have one: "extends r ?r" by (rule set_task_extends[OF t]) (simp add: st)
  have ids: "tn_artifact_ids t1 = tn_artifact_ids t"
    using apply_action_quiet(1)[OF act st] by (simp add: record_view_def)
  have "extends ?r r1 \<and> run_accepted_artifacts r1 = run_accepted_artifacts r"
  proof (cases "last_opt (tn_artifact_ids t1)")
    case None
    with rej have "r1 = ?r" by (simp add: reject_latest_def)
    then show ?thesis by simp
  next
    case (Some aid)
    with rej obtain a where a: "map_of (run_artifacts r) aid = Some a"
      and r1: "r1 = set_artifact aid (a\<lparr>ar_status := ''rejected''\<rparr>) ?r"
      by (auto simp: reject_latest_def bind_ok_Inr_iff)
    have "aid \<in> set (tn_artifact_ids t)" using last_opt_mem[OF Some] ids by simp
    from task_okD(4)[OF run_okD(5)[OF ok t] this] a st have "ar_status a \<noteq> ''accepted''"
      by (auto simp: artifact_of_def)
    then show ?thesis unfolding r1
      using a by (auto intro!: set_artifact_extends simp: same_source_def)
  qed
  moreover have "extends r1 r'" by (simp add: r' extends_def)
  ultimately show ?thesis using one extends_trans by (auto simp: r')
qed

section \<open>Acceptance\<close>

lemma accept_lineage:
  assumes ok: "run_ok core r" and acc: "accept core i tid m reason fp r = Inr (x, r', evs)"
  shows "extends r r' \<and> (\<exists>aid. set (run_accepted_artifacts r') = insert aid (set (run_accepted_artifacts r)) \<and>
    canonical r' aid)"
  using acc
proof (rule accept_Inr)
  fix aid a t r1 evs1 evs2
  assume c: "candidate core aid fp r = Inr (a, t, r1, evs1)" and g: "evidence_gate core t a = Inr ()"
    and val: "validate_task_inputs r1 t = Inr ()"
    and ref: "then_refresh x (accepted_run x aid a t r1) evs2 = Inr (x, r', evs)"
  note cd = candidate_ok[OF ok c]
  let ?r = "accepted_run x aid a t r1"
  have ok2: "run_ok core ?r"
    by (rule accepted_ok[OF cd(1-3,6,4,5)]) (simp add: evidenced_def cd(7) g)
  have aok: "artifact_ok core r1 aid a" using cd(1,3) by (rule run_okD)
  have ext1: "extends r1 ?r"
    using cd(2,3,4) by (auto simp: accepted_run_def extends_def dest: map_of_in_keys)
  from val obtain inputs where inp: "input_artifact_ids r1 t = Inr inputs"
    and eq: "set (ar_input_artifact_ids a) = set inputs"
    unfolding validate_task_inputs_Inr using cd(3,5) by auto
  let ?t = "t\<lparr>tn_status := ACCEPTED\<rparr>"
  from inp have res: "resolved r1 t (task_refs t) [] = Inr inputs" and can: "\<forall>j \<in> set inputs. canonical r1 j"
    by (simp_all add: input_artifact_ids_iff)
  have "resolved ?r ?t vs acc = Inr out" if "resolved r1 t vs acc = Inr out" for vs acc out
    using that
  proof (induction vs arbitrary: acc)
    case Nil
    then show ?case by simp
  next
    case (Cons v vs)
    then obtain y where y: "resolve_input r1 t v = Inr y" by (auto simp: bind_ok_Inr_iff)
    from resolve_input_extends[OF ext1 _ y, of ?t] Cons y show ?case by simp
  qed
  from this[OF res] have "resolved ?r ?t (task_refs ?t) [] = Inr inputs" by (simp add: task_refs_def)
  moreover have "canonical_owner ?r aid = Some (a\<lparr>ar_status := ''accepted''\<rparr>, ?t)"
    using aok cd(2,3,5) by (simp add: canonical_owner_Some accepted_run_def artifact_ok_def)
  ultimately have "canonical ?r aid"
    using eq can canonical_extends[OF _ ext1]
    by (intro canonical.canonicalI[of ?r aid "a\<lparr>ar_status := ''accepted''\<rparr>" ?t inputs]) auto
  note tr = then_refresh_extends[OF ref run_okD(1)[OF ok2]]
  have "canonical r' aid" using \<open>canonical ?r aid\<close> tr(1) by (rule canonical_extends)
  moreover have "set (run_accepted_artifacts r') = insert aid (set (run_accepted_artifacts r))"
    using aok by (simp add: tr(2) accepted_run_def candidate_extends(2)[OF ok c] artifact_ok_def)
  moreover have "extends r r'"
    using extends_trans[OF extends_trans[OF candidate_extends(1)[OF ok c] ext1] tr(1)] .
  ultimately show ?thesis by blast
qed

section \<open>Replanning\<close>

lemma run_ok_owner:
  assumes ok: "run_ok core r" and "map_of (run_tasks r) j = Some u" "x \<in> set (tn_artifact_ids u)"
    and "map_of (run_tasks r) k = Some t" "x \<in> set (tn_artifact_ids t)"
  shows "j = k"
  using task_okD(4)[OF run_okD(5)[OF ok assms(2)] assms(3)] task_okD(4)[OF run_okD(5)[OF ok assms(4)] assms(5)]
  by (auto simp: artifact_of_def)

lemma replan_affected_closed:
  assumes "distinct (map fst (run_tasks r))" and "u \<in> set (replan_affected r p)" and "(u, k) \<in> consumes r"
  shows "k \<in> set (replan_affected r p)"
  using assms by (auto simp: replan_affected_correct intro: rtrancl_into_rtrancl)

lemma replan_affected_seeds:
  "distinct (map fst (run_tasks r)) \<Longrightarrow> k \<in> set (seeds r p) \<Longrightarrow> k \<in> set (replan_affected r p)"
  by (auto simp: replan_affected_correct)

lemma insert_tasks_other: "k \<notin> set (map task_id ts) \<Longrightarrow>
    map_of (run_tasks (insert_tasks ts r)) k = map_of (run_tasks r) k"
  by (induction ts arbitrary: r) (auto simp: insert_tasks_Cons)

lemma replanned_unaffected:
  assumes ok: "run_ok core r" and nodef: "replan_defects r p = []"
    and t: "map_of (run_tasks r) k = Some t" and k: "k \<notin> set (replan_affected r p)"
  shows "map_of (run_tasks (replanned p r)) k = Some t"
proof -
  note d = run_okD(1)[OF ok]
  have "k \<notin> set (map task_id (rp_add p))"
    using added_fresh[OF replan_defects_Nil(1)[OF nodef]] is_fresh_task_iff[of r] map_of_in_keys[OF t]
    unfolding set_map by blast
  moreover have "map_of (rp_dependencies p) k = None"
  proof (rule ccontr)
    assume "map_of (rp_dependencies p) k \<noteq> None"
    then have "k \<in> fst ` set (rp_dependencies p)" by (auto dest: map_of_in_keys)
    with map_of_in_keys[OF t] have "k \<in> set (seeds r p)" by (simp add: seeds_def)
    with replan_affected_seeds[OF d] k show False by blast
  qed
  ultimately show ?thesis
    unfolding replanned_def using t k by (simp add: insert_tasks_other rewire_def)
qed

lemma replanned_no_task:
  assumes nodef: "replan_defects r p = []" and "map_of (run_tasks r) k = None"
    and "k \<in> fst ` set (run_artifacts r) \<union> fst ` set (run_available_inputs r)"
  shows "map_of (run_tasks (replanned p r)) k = None"
proof -
  have "k \<notin> set (map task_id (rp_add p))"
    using added_fresh[OF replan_defects_Nil(1)[OF nodef]] assms(3)
    by (auto simp: reject_identifier_collision_def split: if_splits)
  then show ?thesis
    unfolding replanned_def using assms(2) by (simp add: insert_tasks_other rewire_def)
qed

lemma replanned_keys:
  "fst ` set (run_artifacts (replanned p r)) = fst ` set (run_artifacts r)"
  "run_available_inputs (replanned p r) = run_available_inputs r"
  "run_accepted_artifacts (replanned p r) =
     filter (\<lambda>x. x \<notin> set (artifacts_of r (replan_affected r p))) (run_accepted_artifacts r)"
  "map_of (run_artifacts (replanned p r)) x = map_option (\<lambda>a.
     if x \<in> set (artifacts_of r (replan_affected r p)) then a\<lparr>ar_status := ''superseded''\<rparr> else a)
     (map_of (run_artifacts r) x)"
proof -
  have arts: "run_artifacts (replanned p r) = run_artifacts (invalidated p (replan_affected r p) r)"
    by (simp add: replanned_def insert_tasks_frame rewire_def)
  show "fst ` set (run_artifacts (replanned p r)) = fst ` set (run_artifacts r)"
    unfolding arts by (metis invalidated_simps(4) list.set_map)
qed (simp_all add: replanned_def insert_tasks_frame rewire_def)

lemma replanned_canonical:
  assumes ok: "run_ok core r" and nodef: "replan_defects r p = []"
  shows "canonical r aid \<Longrightarrow> aid \<notin> set (artifacts_of r (replan_affected r p)) \<Longrightarrow>
    canonical (replanned p r) aid"
proof (rule canonical_transfer[where P = "\<lambda>x. x \<notin> set (artifacts_of r (replan_affected r p))"])
  let ?aff = "replan_affected r p"
  note d = run_okD(1)[OF ok]
  have owner: "ar_task_id a \<notin> set ?aff \<and> map_of (run_tasks (replanned p r)) (ar_task_id a) = Some t"
    if "x \<notin> set (artifacts_of r ?aff)" "canonical_owner r x = Some (a, t)" for x a t
  proof -
    from that(2) have t: "map_of (run_tasks r) (ar_task_id a) = Some t"
      and x: "x \<in> set (tn_artifact_ids t)" by (auto simp: canonical_owner_Some dest: last_opt_mem)
    with that(1) have "ar_task_id a \<notin> set ?aff" unfolding artifacts_of_mem by blast
    with replanned_unaffected[OF ok nodef t] show ?thesis by blast
  qed
  fix x a t
  assume x: "x \<notin> set (artifacts_of r ?aff)" and own: "canonical_owner r x = Some (a, t)"
  from owner[OF x own] own x show "\<exists>a' t'. canonical_owner (replanned p r) x = Some (a', t') \<and>
      ar_input_artifact_ids a' = ar_input_artifact_ids a \<and> tn_packet t' = tn_packet t"
    by (auto simp: canonical_owner_Some replanned_keys replanned_frame)
  fix t' :: TaskNode and v y
  assume pk: "tn_packet t' = tn_packet t" and v: "v \<in> set (task_refs t)" and res: "resolve_input r t v = Inr y"
  from own have t: "map_of (run_tasks r) (ar_task_id a) = Some t" by (simp add: canonical_owner_Some)
  have clean: "u \<notin> set ?aff" if "map_of (run_tasks r) u = Some tu" "v = u \<or> v \<in> set (tn_artifact_ids tu)" for u tu
  proof
    assume "u \<in> set ?aff"
    moreover have "(u, ar_task_id a) \<in> consumes r" using that t v by (auto simp: consumes_def)
    ultimately have "ar_task_id a \<in> set ?aff" by (rule replan_affected_closed[OF d])
    with owner[OF x own] show False by blast
  qed
  show "resolve_input (replanned p r) t' v = Inr y \<and> (\<forall>i. y = Some i \<longrightarrow> i \<notin> set (artifacts_of r ?aff))"
  proof (cases "map_of (run_tasks r) v")
    case (Some u)
    then have free: "v \<notin> set ?aff" using clean by blast
    from Some res obtain i where u: "tn_status u = ACCEPTED" "last_opt (tn_artifact_ids u) = Some i" "y = Some i"
      by (auto simp: resolve_input_def split: option.splits if_splits)
    have "i \<notin> set (artifacts_of r ?aff)"
    proof
      assume "i \<in> set (artifacts_of r ?aff)"
      then obtain w tw where w: "w \<in> set ?aff" "map_of (run_tasks r) w = Some tw" "i \<in> set (tn_artifact_ids tw)"
        by (auto simp: artifacts_of_mem)
      have "w = v" using run_ok_owner[OF ok w(2,3) Some last_opt_mem[OF u(2)]] .
      with w free show False by simp
    qed
    with u replanned_unaffected[OF ok nodef Some free] show ?thesis by (simp add: resolve_input_def)
  next
    case None
    from None res have ref: "v \<in> fst ` set (run_artifacts r) \<union> fst ` set (run_available_inputs r)"
      by (auto simp: resolve_input_def split: if_splits)
    have "v \<notin> set (artifacts_of r ?aff)" using clean by (auto simp: artifacts_of_mem)
    moreover have "resolve_input (replanned p r) t' v = resolve_input r t v"
      using None replanned_no_task[OF nodef None ref] pk by (simp add: resolve_input_def replanned_keys)
    ultimately show ?thesis using res None by (auto simp: resolve_input_def split: if_splits)
  qed
qed

section \<open>The invariant\<close>

definition lineage_ok :: "Run \<Rightarrow> bool" where
  "lineage_ok r \<longleftrightarrow> (\<forall>aid \<in> set (run_accepted_artifacts r). canonical r aid)"

lemma lineage_extends:
  "lineage_ok r \<Longrightarrow> extends r r' \<and> run_accepted_artifacts r' = run_accepted_artifacts r \<Longrightarrow> lineage_ok r'"
  using canonical_extends by (auto simp: lineage_ok_def)

lemma apply_replan_lineage:
  assumes ok: "run_ok core r" and lin: "lineage_ok r" and app: "apply_replan core pid r = Inr (x, r', evs)"
  shows "lineage_ok r'"
  using ok app
proof (rule apply_replan_Inr)
  fix p evs1
  assume nodef: "replan_defects r p = []"
    and ref: "then_refresh () (revise_plan p (replanned p r)) evs1 = Inr (x, r', evs)"
  have one: "lineage_ok (replanned p r)"
    using lin replanned_canonical[OF ok nodef] by (auto simp: lineage_ok_def replanned_keys)
  have two: "extends (replanned p r) (revise_plan p (replanned p r))"
    "run_accepted_artifacts (revise_plan p (replanned p r)) = run_accepted_artifacts (replanned p r)"
    by (simp_all add: extends_def revise_plan_def)
  have "distinct (map fst (run_tasks (revise_plan p (replanned p r))))"
    using run_okD(1)[OF replanned_ok[OF ok nodef]] by (simp add: revise_plan_def)
  from lineage_extends[OF one conjI[OF two]] then_refresh_extends[OF ref this] show ?thesis
    using lineage_extends by blast
qed

lemma perform_lineage:
  assumes ok: "run_ok core r" and lin: "lineage_ok r" and per: "perform core c r = Inr (r', evs)"
    and new: "fresh_ids r c"
  shows "lineage_ok r'"
proof (cases "is_quiet c")
  case True
  from perform_quiet[OF per True run_okD(1)[OF ok]] have "quiet r r'" by (simp add: quiet_op_def)
  with quiet_extends[OF this] show ?thesis by (intro lineage_extends[OF lin]) (simp add: quiet_def)
next
  case False
  show ?thesis
  proof (cases c)
    case (Plan_Tasks ts)
    with per obtain r1 evs1 where each: "add_each ts r = Inr (r1, evs1)"
      and ref: "then_refresh () r1 evs1 = Inr ((), r', evs)" by (auto simp: effect_Inr add_tasks_Inr)
    have "run_ok core r1" using add_each_ok[OF each ok] by blast
    from then_refresh_extends[OF ref run_okD(1)[OF this]] lineage_extends[OF lin add_each_extends[OF each]]
    show ?thesis using lineage_extends by blast
  next
    case (Delegate i tid w)
    with per obtain t t' where "map_of (run_tasks r) tid = Some t" "tn_status t \<noteq> ACCEPTED" "r' = set_task tid t' r"
      by (auto simp: effect_Inr delegate_Inr)
    with set_task_extends show ?thesis by (intro lineage_extends[OF lin]) auto
  next
    case (Submit i tid a w res fp)
    with per obtain x where "submit core i tid a w res fp r = Inr (x, r', evs)" by (auto simp: effect_Inr)
    from submit_extends[OF this] new Submit show ?thesis by (intro lineage_extends[OF lin]) auto
  next
    case (Validate i aid ch b ev v fp)
    with per obtain a t r1 evs1 x where cand: "candidate core aid fp r = Inr (a, t, r1, evs1)"
      and r': "r' = set_artifact aid (a\<lparr>ar_validations := ar_validations a @ [x]\<rparr>) r1"
      by (auto simp: effect_Inr validate_Inr)
    have "extends r1 r'" unfolding r'
      using candidate_ok(3)[OF ok cand] by (auto intro!: set_artifact_extends simp: same_source_def)
    with candidate_extends[OF ok cand] show ?thesis
      by (intro lineage_extends[OF lin]) (auto intro: extends_trans simp: r')
  next
    case (Give_Review i aid v b ev fp)
    with per obtain a t r1 evs1 x where cand: "candidate core aid fp r = Inr (a, t, r1, evs1)"
      and r': "r' = set_artifact aid (a\<lparr>ar_reviews := ar_reviews a @ [x]\<rparr>) r1"
      by (auto simp: effect_Inr review_Inr)
    have "extends r1 r'" unfolding r'
      using candidate_ok(3)[OF ok cand] by (auto intro!: set_artifact_extends simp: same_source_def)
    with candidate_extends[OF ok cand] show ?thesis
      by (intro lineage_extends[OF lin]) (auto intro: extends_trans simp: r')
  next
    case (Accept i tid m reason fp)
    with per obtain x where "accept core i tid m reason fp r = Inr (x, r', evs)" by (auto simp: effect_Inr)
    from accept_lineage[OF ok this] obtain aid where ext: "extends r r'" and new: "canonical r' aid"
      and acc: "set (run_accepted_artifacts r') = insert aid (set (run_accepted_artifacts r))" by blast
    have "canonical r' y" if "y \<in> set (run_accepted_artifacts r)" for y
      using lin that canonical_extends[OF _ ext] by (simp add: lineage_ok_def)
    with new acc show ?thesis by (simp add: lineage_ok_def)
  next
    case (Integrate aid commit)
    with per obtain x where int: "record_integration aid commit r = Inr (x, r', evs)" by (auto simp: effect_Inr)
    show ?thesis
    proof (cases "already_integrated aid commit r")
      case True
      with int lin show ?thesis by (simp add: record_integration_Inr)
    next
      case False
      with int obtain a where "map_of (run_artifacts r) aid = Some a"
        and r': "r' = set_artifact aid (a\<lparr>ar_integrated_commit := Some commit\<rparr>) r"
        by (auto simp: record_integration_Inr integrate_artifact_Inr)
      then show ?thesis
        by (intro lineage_extends[OF lin]) (auto intro!: set_artifact_extends simp: same_source_def)
    qed
  next
    case (Recover i f reason a)
    with per obtain x where "recover core i f reason a r = Inr (x, r', evs)" by (auto simp: effect_Inr)
    from recover_extends[OF ok this] show ?thesis by (rule lineage_extends[OF lin])
  next
    case (Apply_Replan pid)
    with per obtain x where "apply_replan core pid r = Inr (x, r', evs)" by (auto simp: effect_Inr)
    from apply_replan_lineage[OF ok lin this] show ?thesis .
  qed (use False in simp_all)
qed

lemma reachable_lineage: "reachable core r \<Longrightarrow> lineage_ok r"
proof (induction rule: reachable.induct)
  case (created rid objective criteria constraints n r evs)
  then show ?case by (auto simp: create_run_Inr initial_run_def lineage_ok_def)
next
  case (changed r r')
  from changed.hyps(2) show ?case
  proof (rule stepE)
    fix c evs
    assume "mutate core c r = Inr (r', evs)" "fresh_ids r c"
    with perform_lineage[OF reachable_ok[OF changed.hyps(1)] changed.IH] show ?thesis
      by (auto simp: mutate_Inr)
  next
    fix u evs
    assume "append_usage u r = Inr ((), r', evs)"
    then show "lineage_ok r'"
      by (intro lineage_extends[OF changed.IH]) (auto simp: append_usage_Inr extends_def)
  next
    fix v n
    assume "r' = r\<lparr>run_version := v, run_event_cursor := n\<rparr>"
    then show "lineage_ok r'" by (intro lineage_extends[OF changed.IH]) (auto simp: extends_def)
  qed
qed

end
