(* ===== verification/Governance.thy ===== *)
theory Governance
  imports Provenance
begin

text \<open>
  Human authority over a run: approvals, their decisions and the replan budget. Three operations
  change them, \<open>request_approval\<close>, \<open>decide_approval\<close> and \<open>apply_replan\<close>; every other command leaves
  them as they are. In every reachable run an approved or rejected request carries the recorded
  decision of a named human, a pending one carries none, and the plan's revision is in its budget.
\<close>

section \<open>What the other commands leave alone\<close>

text \<open>What of a run only human authority, a replan or a model call changes.\<close>

definition governance :: "Run \<Rightarrow> (ident, ApprovalRequest) dict \<times> (ident, ApprovalDecision) dict \<times>
    (int \<times> int) \<times> int \<times> ModelUsageRecord list" where
  "governance r = (run_approvals r, run_approval_decisions r,
     (wp_revision (run_plan r), wp_max_replans (run_plan r)), run_schema_version r, run_usage_records r)"

lemma governance_simps [simp]:
  "governance (set_task k t r) = governance r" "governance (set_artifact x a r) = governance r"
  "governance (set_request q c r) = governance r"
  by (simp_all add: governance_def set_request_def)

lemma governance_refresh:
  assumes "then_refresh x r1 evs1 = Inr (y, r', evs)" and "distinct (map fst (run_tasks r1))"
  shows "governance r' = governance r1"
proof -
  from assms obtain more where "refresh r1 = Inr (r', more)" by (auto simp: then_refresh_Inr)
  from refreshed_frame[OF refresh_refreshed[OF this assms(2)]] show ?thesis by (simp add: governance_def)
qed

lemma governance_planning:
  assumes "distinct (map fst (run_tasks r))"
  shows "set_completion_criteria cs r = Inr (x, r', evs) \<Longrightarrow> governance r' = governance r"
    "register_input n ref r = Inr (x, r', evs) \<Longrightarrow> governance r' = governance r"
    "bind_workspace tid w r = Inr (x, r', evs) \<Longrightarrow> governance r' = governance r"
    "replace_workspace tid w w' reason r = Inr (x, r', evs) \<Longrightarrow> governance r' = governance r"
proof -
  show "set_completion_criteria cs r = Inr (x, r', evs) \<Longrightarrow> governance r' = governance r"
    by (auto simp: set_completion_criteria_def governance_def split: if_splits)
  show "governance r' = governance r" if reg: "register_input n ref r = Inr (x, r', evs)"
  proof -
    from reg have "then_refresh () (r\<lparr>run_available_inputs := AList.update n ref (run_available_inputs r)\<rparr>)
        [event r ''input.registered'' [(''name'', VStr n), (''reference'', VStr ref)]] = Inr (x, r', evs)"
      by (simp add: register_input_def guard_Inr)
    from governance_refresh[OF this] assms show ?thesis by (simp add: governance_def)
  qed
  show "bind_workspace tid w r = Inr (x, r', evs) \<Longrightarrow> governance r' = governance r"
    using assms by (auto simp: bind_workspace_def Inr_simps dest!: governance_refresh)
  show "replace_workspace tid w w' reason r = Inr (x, r', evs) \<Longrightarrow> governance r' = governance r"
    by (auto simp: replace_workspace_def Inr_simps)
qed

lemma governance_execution:
  "delegate core i tid w r = Inr (x1, r', evs) \<Longrightarrow> governance r' = governance r"
  "start tid r = Inr (x2, r', evs) \<Longrightarrow> governance r' = governance r"
  "submit core i tid a w res fp r = Inr (x3, r', evs) \<Longrightarrow> governance r' = governance r"
  "record_provisional_result tid a w res r = Inr (x4, r', evs) \<Longrightarrow> governance r' = governance r"
  by (auto simp: delegate_Inr submit_Inr start_def record_provisional_result_def Inr_simps split: option.splits)

lemma governance_request: "governance (r\<lparr>run_capability_requests := c\<rparr>) = governance r"
  by (simp add: governance_def)

lemma governance_capability_request:
  assumes "record_capability_request i tid a w res r = Inr (x, r', evs)"
  shows "governance r' = governance r"
proof (cases "wr_capability_request res")
  case None
  with assms show ?thesis by (auto simp: record_capability_request_def Inr_simps)
next
  case (Some p)
  with assms show ?thesis
    by (auto simp: record_capability_request_def Inr_simps Let_def governance_request)
qed

lemma governance_judging:
  "validate core i aid c ok ev v fp r = Inr (x1, r', evs) \<Longrightarrow> governance r' = governance r"
  "review core i aid v ok ev fp r = Inr (x2, r', evs) \<Longrightarrow> governance r' = governance r"
  "record_integration aid commit r = Inr (x3, r', evs) \<Longrightarrow> governance r' = governance r"
  by (auto simp: validate_Inr review_Inr candidate_Inr record_integration_Inr integrate_artifact_Inr
      split: if_splits)

lemma governance_accept:
  assumes ok: "run_ok core r" and acc: "accept core i tid m reason fp r = Inr (x, r', evs)"
  shows "governance r' = governance r"
  using acc
proof (rule accept_Inr)
  fix aid a t r1 evs1 evs2
  assume c: "candidate core aid fp r = Inr (a, t, r1, evs1)" and g: "evidence_gate core t a = Inr ()"
    and ref: "then_refresh x (accepted_run x aid a t r1) evs2 = Inr (x, r', evs)"
  note cd = candidate_ok[OF ok c]
  have "run_ok core (accepted_run x aid a t r1)"
    by (rule accepted_ok[OF cd(1-3,6,4,5)]) (simp add: evidenced_def cd(7) g)
  from governance_refresh[OF ref run_okD(1)[OF this]] c show ?thesis
    by (auto simp: accepted_run_def candidate_Inr governance_def)
qed

lemma governance_failures: "governance (r\<lparr>run_failures := f\<rparr>) = governance r"
  by (simp add: governance_def)

lemma governance_fail:
  "fail_task i k t c ev r = Inr (x1, r', evs) \<Longrightarrow> governance r' = governance r"
  "fail i tid c ev r = Inr (x2, r', evs) \<Longrightarrow> governance r' = governance r"
  "fail_assignment i tid a w c ev r = Inr (x3, r', evs) \<Longrightarrow> governance r' = governance r"
proof -
  show one: "governance r' = governance r" if "fail_task i k t c ev r = Inr (x1, r', evs)" for k t x1
    using that by (auto simp: fail_task_def Inr_simps Let_def governance_failures)
  show "fail i tid c ev r = Inr (x2, r', evs) \<Longrightarrow> governance r' = governance r"
    by (auto simp: fail_def Inr_simps intro: one)
  show "fail_assignment i tid a w c ev r = Inr (x3, r', evs) \<Longrightarrow> governance r' = governance r"
    by (auto simp: fail_assignment_def Inr_simps intro: one)
qed

lemma governance_recover:
  assumes "recover core i fid reason actor r = Inr (x, r', evs)"
  shows "governance r' = governance r"
  using assms by (auto simp: recover_Inr reject_latest_def bind_ok_Inr_iff governance_def split: option.splits)

lemma governance_interrupt:
  "interrupt_from ids ks r = Inr (r', evs) \<Longrightarrow> governance r' = governance r"
proof (induction ids ks r arbitrary: r' evs rule: interrupt_from.induct)
  case (1 ids r)
  then show ?case by simp
next
  case (2 ids k ks r)
  show ?case
  proof (cases "map_of (run_tasks r) k")
    case None
    with 2 show ?thesis by simp
  next
    case (Some t)
    with "2.prems" obtain r1 evs1 evs2 where one: "interrupt_task ids k t r = Inr (r1, evs1)"
      and rest: "interrupt_from ids ks r1 = Inr (r', evs2)" by (auto simp: bind_ok_Inr_iff)
    have "governance r1 = governance r"
      using one by (auto simp: interrupt_task_def Let_def Inr_simps governance_failures split: if_splits)
    with "2.IH"(2)[OF Some one refl rest] show ?thesis by simp
  qed
qed

lemma governance_closing:
  "resume ids r = Inr (x1, r', evs) \<Longrightarrow> governance r' = governance r"
  "abandon reason a r = Inr (x2, r', evs) \<Longrightarrow> governance r' = governance r"
  "complete_run result ev r = Inr (x3, r', evs) \<Longrightarrow> governance r' = governance r"
  by (auto simp: resume_def abandon_def complete_run_def Let_def Inr_simps governance_def
      dest!: governance_interrupt split: if_splits)

lemma governance_gates:
  assumes "distinct (map fst (run_tasks r))"
  shows "recover_legacy_approval_gate core tid l a act sc r = Inr (x, r', evs) \<Longrightarrow> governance r' = governance r"
    "gate_task core tid a act sc r = Inr (x, r', evs) \<Longrightarrow> governance r' = governance r"
  using assms by (auto simp: recover_legacy_approval_gate_def gate_task_def Let_def Inr_simps
      dest!: governance_refresh)

lemma governance_capability:
  assumes "distinct (map fst (run_tasks r))"
  shows "link_capability_approval core q a w r = Inr (x, r', evs) \<Longrightarrow> governance r' = governance r"
    "approve_capability_request q r = Inr (x, r', evs) \<Longrightarrow> governance r' = governance r"
    "deny_capability_request q reason r = Inr (x, r', evs) \<Longrightarrow> governance r' = governance r"
    "mark_capability_escalated q r = Inr (x, r', evs) \<Longrightarrow> governance r' = governance r"
    "escalate_task core q r = Inr (y, r', evs) \<Longrightarrow> governance r' = governance r"
    "change_capability core tid c a w r = Inr (x, r', evs) \<Longrightarrow> governance r' = governance r"
proof -
  show "link_capability_approval core q a w r = Inr (x, r', evs) \<Longrightarrow> governance r' = governance r"
    "approve_capability_request q r = Inr (x, r', evs) \<Longrightarrow> governance r' = governance r"
    "deny_capability_request q reason r = Inr (x, r', evs) \<Longrightarrow> governance r' = governance r"
    "mark_capability_escalated q r = Inr (x, r', evs) \<Longrightarrow> governance r' = governance r"
    by (auto simp: link_capability_approval_def approve_capability_request_def
        deny_capability_request_def mark_capability_escalated_def Inr_simps)
  have d: "distinct (map fst (run_tasks (set_task k t (set_request q c r))))" for k t c
    using assms by (simp add: set_request_def)
  show "escalate_task core q r = Inr (y, r', evs) \<Longrightarrow> governance r' = governance r"
    using governance_refresh[OF _ d] by (fastforce simp: escalate_task_Inr)
  show "change_capability core tid c a w r = Inr (x, r', evs) \<Longrightarrow> governance r' = governance r"
    using assms by (auto simp: change_capability_def Let_def Inr_simps dest!: governance_refresh)
qed

lemma governance_escalation:
  assumes "distinct (map fst (run_tasks r))"
  shows "apply_capability_escalation core q m r = Inr (y, r', evs) \<Longrightarrow> governance r' = governance r"
  by (auto simp: apply_capability_escalation_def Inr_simps split: if_splits intro: governance_capability(5)[OF assms])

lemma governance_add_task: "add_task t r = Inr (r', evs) \<Longrightarrow> governance r' = governance r"
  by (auto simp: add_task_Inr governance_def)

lemma governance_add_each: "add_each ts r = Inr (r', evs) \<Longrightarrow> governance r' = governance r"
proof (induction ts r arbitrary: r' evs rule: add_each.induct)
  case (1 r)
  then show ?case by simp
next
  case (2 t ts r)
  from "2.prems" obtain r1 evs1 evs2 where one: "add_task t r = Inr (r1, evs1)"
    and rest: "add_each ts r1 = Inr (r', evs2)" by (auto simp: bind_ok_Inr_iff)
  from "2.IH"[OF one refl rest] governance_add_task[OF one] show ?case by simp
qed

lemma governance_add_tasks:
  assumes ok: "run_ok core r" and add: "add_tasks ts r = Inr (x, r', evs)"
  shows "governance r' = governance r"
proof -
  from add obtain r1 evs1 where each: "add_each ts r = Inr (r1, evs1)"
    and ref: "then_refresh () r1 evs1 = Inr (x, r', evs)" by (auto simp: add_tasks_Inr)
  have "run_ok core r1" using add_each_ok[OF each ok] by blast
  from governance_refresh[OF ref run_okD(1)[OF this]] governance_add_each[OF each] show ?thesis by simp
qed

lemma governance_propose: "propose_replan p r = Inr (x, r', evs) \<Longrightarrow> governance r' = governance r"
  by (auto simp: propose_replan_def Inr_simps governance_def)

text \<open>The commands that exercise human authority or spend the replan budget.\<close>

fun governs :: "command \<Rightarrow> bool" where
  "governs (Request_Approval i act sc reason cat tgt risk refs cap req old) = True"
| "governs (Decide_Approval a ok h reason) = True"
| "governs (Apply_Replan p) = True"
| "governs _ = False"

lemma perform_governance:
  assumes ok: "run_ok core r" and per: "perform core c r = Inr (r', evs)" and no: "\<not> governs c"
  shows "governance r' = governance r"
proof -
  note d = run_okD(1)[OF ok]
  note ops = governance_planning[OF d] governance_execution governance_capability_request
    governance_judging governance_accept[OF ok] governance_fail governance_recover governance_closing
    governance_gates[OF d] governance_capability[OF d] governance_escalation[OF d]
    governance_add_tasks[OF ok] governance_propose
  from per no show ?thesis by (cases c) (auto simp: effect_Inr intro: ops)
qed

section \<open>The recorded authority\<close>

definition decision_backs :: "Run \<Rightarrow> ident \<Rightarrow> bool \<Rightarrow> bool" where
  "decision_backs r k b \<longleftrightarrow> (\<exists>d. map_of (run_approval_decisions r) k = Some d \<and> al_approved d = b \<and>
     al_request_id d = k \<and> al_human_id d \<noteq> '''' \<and> al_reason d \<noteq> '''')"

definition approval_ok :: "Run \<Rightarrow> ident \<Rightarrow> ApprovalRequest \<Rightarrow> bool" where
  "approval_ok r k q \<longleftrightarrow> aq_id q = k \<and>
     (aq_status q = AP_PENDING \<longrightarrow> map_of (run_approval_decisions r) k = None) \<and>
     (aq_status q = AP_APPROVED \<longrightarrow> decision_backs r k True) \<and>
     (aq_status q = AP_REJECTED \<longrightarrow> decision_backs r k False)"

definition governed :: "Run \<Rightarrow> bool" where
  "governed r \<longleftrightarrow>
     (\<forall>k q. map_of (run_approvals r) k = Some q \<longrightarrow> approval_ok r k q) \<and>
     0 \<le> wp_revision (run_plan r) \<and> wp_revision (run_plan r) \<le> wp_max_replans (run_plan r)"

lemma governed_cong: "governance r' = governance r \<Longrightarrow> governed r' \<longleftrightarrow> governed r"
  by (simp add: governance_def governed_def approval_ok_def decision_backs_def)

lemma replace_gates_tasks:
  assumes "replace_in_tasks old new ks r = Inr (r', evs)"
  shows "run_approvals r' = run_approvals r \<and> run_approval_decisions r' = run_approval_decisions r \<and>
    run_plan r' = run_plan r \<and> run_schema_version r' = run_schema_version r \<and>
    run_usage_records r' = run_usage_records r"
  using assms
proof (induction old new ks r arbitrary: evs rule: replace_in_tasks.induct)
  case (1 old new r)
  then show ?case by simp
next
  case (2 old new k ks r)
  then show ?case by (cases "map_of (run_tasks r) k") (fastforce simp: bind_ok_Inr_iff)+
qed

lemma supersede_frame:
  assumes "supersede old q r = Inr (r', evs)"
  shows "run_approval_decisions r' = run_approval_decisions r \<and> run_plan r' = run_plan r \<and>
    run_schema_version r' = run_schema_version r \<and> run_usage_records r' = run_usage_records r \<and>
    (\<exists>prior. map_of (run_approvals r) old = Some prior \<and> run_approvals r' =
      AList.update old (prior\<lparr>aq_status := AP_SUPERSEDED, aq_replacement_id := Some (aq_id q)\<rparr>) (run_approvals r))"
  using assms by (auto simp: supersede_def bind_ok_Inr_iff dest!: replace_gates_tasks
      split: option.splits if_splits)

lemma request_governed:
  assumes gov: "governed r" and req: "request_approval core i act sc reason cat tgt risk refs cap b old r = Inr (q, r', evs)"
    and new: "i \<notin> fst ` set (run_approval_decisions r)"
  shows "governed r'"
proof -
  from req obtain r1 evs1 where q: "make_request core i (run_id r) act sc reason cat tgt risk refs cap b = Inr q"
    and sup: "(case old of None \<Rightarrow> Inr (r, []) | Some o' \<Rightarrow> supersede o' q r) = Inr (r1, evs1)"
    and r': "r' = r1\<lparr>run_approvals := AList.update i q (run_approvals r1)\<rparr>"
    by (auto simp: request_approval_def bind_ok_Inr_iff)
  have dec: "run_approval_decisions r1 = run_approval_decisions r" and plan: "run_plan r1 = run_plan r"
    and app: "run_approvals r1 = run_approvals r \<or> (\<exists>o' prior. run_approvals r1 =
      AList.update o' (prior\<lparr>aq_status := AP_SUPERSEDED, aq_replacement_id := Some (aq_id q)\<rparr>) (run_approvals r) \<and>
      map_of (run_approvals r) o' = Some prior)"
    using sup by (auto dest!: supersede_frame split: option.splits)
  have "aq_id q = i" "aq_status q = AP_PENDING" using q by (auto simp: make_request_def Let_def split: if_splits)
  with new have one: "approval_ok r' i q"
    by (simp add: approval_ok_def r' dec map_of_eq_None_iff)
  have two: "approval_ok r1 k p" if "map_of (run_approvals r1) k = Some p" for k p
    using app gov that dec
    by (auto simp: governed_def approval_ok_def decision_backs_def update_conv' split: if_splits)
  have "approval_ok r' k p" if "map_of (run_approvals r') k = Some p" for k p
    using that one two[of k p]
    by (auto simp: r' update_conv' approval_ok_def decision_backs_def split: if_splits)
  with gov show ?thesis by (simp add: governed_def r' plan)
qed

lemma decide_Inr:
  assumes ok: "run_ok core r" and dec: "decide_approval a b h reason r = Inr (d, r', evs)"
  obtains q where "map_of (run_approvals r) a = Some q" "map_of (run_approval_decisions r) a = None"
    "al_request_id d = a" "al_approved d = b" "al_human_id d = h" "al_reason d = reason" "h \<noteq> ''''"
    "reason \<noteq> ''''" "al_status d = (if b then AP_APPROVED else AP_REJECTED)"
    "governance r' = governance (decided a d q r)"
proof -
  let ?d = "\<lparr>al_request_id = a, al_approved = b, al_human_id = h, al_reason = reason,
        al_status = (if b then AP_APPROVED else AP_REJECTED)\<rparr>"
  from dec obtain q evs1 where q: "map_of (run_approvals r) a = Some q"
    "map_of (run_approval_decisions r) a = None" "h \<noteq> ''''" "reason \<noteq> ''''"
    and ref: "then_refresh ?d (decided a ?d q r) evs1 = Inr (d, r', evs)"
    unfolding decide_approval_def Let_def map_of_eq_None_iff
    by (auto split: option.splits if_splits simp del: then_refresh_Inr)
  from ref have d: "d = ?d" unfolding then_refresh_Inr by blast
  have "distinct (map fst (run_tasks (decided a d q r)))"
    using run_okD(1)[OF ok] by (simp add: decided_def o_def case_prod_beta')
  with governance_refresh[OF ref] have "governance r' = governance (decided a d q r)" by (simp add: d)
  with q d show thesis by (intro that) simp_all
qed

lemma decide_governed:
  assumes ok: "run_ok core r" and gov: "governed r" and dec: "decide_approval a b h reason r = Inr (d, r', evs)"
  shows "governed r'"
  using ok dec
proof (rule decide_Inr)
  fix q
  assume q: "map_of (run_approvals r) a = Some q" and d: "al_request_id d = a" "al_approved d = b"
    "al_human_id d = h" "al_reason d = reason" "h \<noteq> ''''" "reason \<noteq> ''''"
    "al_status d = (if b then AP_APPROVED else AP_REJECTED)"
    and same: "governance r' = governance (decided a d q r)"
  have "aq_id q = a" using gov q by (simp add: governed_def approval_ok_def)
  with gov d have "governed (decided a d q r)"
    by (auto simp: governed_def approval_ok_def decision_backs_def decided_def update_conv' split: if_splits)
  with governed_cong[OF same] show ?thesis by simp
qed

lemma insert_tasks_governance: "governance (insert_tasks ts r) = governance r"
  by (induction ts arbitrary: r) (simp_all add: insert_tasks_Cons)

lemma replanned_governance: "governance (replanned p r) = governance r"
  by (simp add: replanned_def insert_tasks_governance)
     (simp add: governance_def rewire_def invalidated_def reset_all_def withdraw_def map_tasks_def)

lemma replan_governed:
  assumes ok: "run_ok core r" and gov: "governed r" and app: "apply_replan core pid r = Inr (x, r', evs)"
  shows "governed r' \<and> run_approval_decisions r' = run_approval_decisions r \<and>
    run_schema_version r' = run_schema_version r \<and> run_usage_records r' = run_usage_records r"
  using ok app
proof (rule apply_replan_Inr)
  fix p evs1
  assume nodef: "replan_defects r p = []"
    and ref: "then_refresh () (revise_plan p (replanned p r)) evs1 = Inr (x, r', evs)"
  have "distinct (map fst (run_tasks (revise_plan p (replanned p r))))"
    using run_okD(1)[OF replanned_ok[OF ok nodef]] by (simp add: revise_plan_def)
  note same = governance_refresh[OF ref this]
  have "governed (revise_plan p (replanned p r))"
    using gov replan_defects_Nil(2)[OF nodef] replanned_governance[of p r]
    by (simp add: governed_def approval_ok_def decision_backs_def governance_def revise_plan_def)
  with governed_cong[OF same] same replanned_governance[of p r] show ?thesis
    by (simp add: governance_def revise_plan_def)
qed

text \<open>A recorded decision stays as it was recorded.\<close>

lemma request_decisions:
  assumes "request_approval core i act sc reason cat tgt risk refs cap b old r = Inr (q, r', evs)"
  shows "run_approval_decisions r' = run_approval_decisions r \<and>
    run_schema_version r' = run_schema_version r \<and> run_usage_records r' = run_usage_records r"
  using assms by (auto simp: request_approval_def bind_ok_Inr_iff dest!: supersede_frame split: option.splits)

lemma decide_decisions:
  assumes ok: "run_ok core r" and dec: "decide_approval a b h reason r = Inr (d, r', evs)"
  shows "map_of (run_approval_decisions r) \<subseteq>\<^sub>m map_of (run_approval_decisions r') \<and>
    run_schema_version r' = run_schema_version r \<and> run_usage_records r' = run_usage_records r"
  using ok dec
proof (rule decide_Inr)
  fix q
  assume "map_of (run_approval_decisions r) a = None" "governance r' = governance (decided a d q r)"
  then show ?thesis by (auto simp: map_le_def governance_def decided_def update_conv')
qed

definition decisions_kept :: "Run \<Rightarrow> Run \<Rightarrow> bool" where
  "decisions_kept r r' \<longleftrightarrow> map_of (run_approval_decisions r) \<subseteq>\<^sub>m map_of (run_approval_decisions r')"

lemma perform_governed:
  assumes ok: "run_ok core r" and gov: "governed r" and per: "perform core c r = Inr (r', evs)"
    and new: "fresh_ids r c"
  shows "governed r' \<and> decisions_kept r r' \<and> run_schema_version r' = run_schema_version r \<and>
    run_usage_records r' = run_usage_records r"
proof (cases "governs c")
  case False
  from perform_governance[OF ok per False] have "governance r' = governance r" .
  with gov governed_cong[OF this] show ?thesis by (simp add: governance_def decisions_kept_def)
next
  case True
  then show ?thesis
  proof (cases c)
    case (Request_Approval i act sc reason cat tgt risk refs cap b old)
    with per obtain q where req: "request_approval core i act sc reason cat tgt risk refs cap b old r = Inr (q, r', evs)"
      by (auto simp: effect_Inr)
    from request_governed[OF gov req] new request_decisions[OF req] Request_Approval show ?thesis
      by (simp add: decisions_kept_def)
  next
    case (Decide_Approval a b h reason)
    with per obtain d where dec: "decide_approval a b h reason r = Inr (d, r', evs)"
      by (auto simp: effect_Inr)
    from decide_decisions[OF ok dec] decide_governed[OF ok gov dec] show ?thesis
      by (simp add: decisions_kept_def)
  next
    case (Apply_Replan p)
    with per obtain x where "apply_replan core p r = Inr (x, r', evs)" by (auto simp: effect_Inr)
    from replan_governed[OF ok gov this] show ?thesis by (simp add: decisions_kept_def)
  qed simp_all
qed

lemma step_governed:
  assumes "step core r r'" and ok: "run_ok core r" and gov: "governed r"
  shows "governed r' \<and> decisions_kept r r'"
  using assms(1)
proof (rule stepE)
  fix c evs
  assume "mutate core c r = Inr (r', evs)" "fresh_ids r c"
  with perform_governed[OF ok gov] show ?thesis by (auto simp: mutate_Inr)
next
  fix u evs
  assume "append_usage u r = Inr ((), r', evs)"
  with gov show ?thesis
    by (auto simp: append_usage_Inr governed_def approval_ok_def decision_backs_def decisions_kept_def)
next
  fix v n
  assume "r' = r\<lparr>run_version := v, run_event_cursor := n\<rparr>"
  then have "governance r' = governance r" by (simp add: governance_def)
  with gov governed_cong[OF this] show ?thesis by (simp add: governance_def decisions_kept_def)
qed

lemma reachable_governed: "reachable core r \<Longrightarrow> governed r"
proof (induction rule: reachable.induct)
  case (created rid objective criteria constraints n r evs)
  then show ?case by (auto simp: create_run_Inr initial_run_def initial_plan_def governed_def)
next
  case (changed r r')
  then show ?case using step_governed reachable_ok by blast
qed

end
