(* ===== verification/Store.thy ===== *)
theory Store
  imports System
begin

text \<open>
  The run store of \<open>src/src/walter/store.py\<close>: a row per run with its version and snapshot, an
  append-only log of events, and the optimistic version check of \<open>save\<close>. A snapshot column holds
  what \<open>json.loads\<close> makes of its text. Pydantic's conversions between models and JSON
  (\<open>model_dump_json\<close>, \<open>model_validate\<close>) are a parameter, \<open>Codec\<close>; \<open>codec_ok\<close> is the documented
  round trip, for models whose usage metadata is representable in JSON; how a document holds a float is left
  to the conversion. A statement that raises
  rolls the transaction back, so it has no new store.
\<close>

section \<open>Columns and conversions\<close>

datatype payload = Document json | Unreadable string

datatype loc_part = LKey string | LIndex int

record SchemaError =
  se_loc :: "loc_part list"
  se_type :: string
  se_msg :: string

record Codec =
  cd_dump :: "Run \<Rightarrow> json"
  cd_validate :: "json \<Rightarrow> SchemaError list + Run"
  cd_dump_event :: "Event \<Rightarrow> json"
  cd_validate_event :: "json \<Rightarrow> py_error + Event"
  cd_wire :: "Event \<Rightarrow> Event"

text \<open>Usage metadata that survives JSON: no infinities, not-a-number or foreign objects.\<close>

fun plain_usage :: "usage_value \<Rightarrow> bool" where
  "plain_usage (UFloat f) = (case f of Finite m e \<Rightarrow> True | Infinite neg \<Rightarrow> False | NaN \<Rightarrow> False)"
| "plain_usage (UDict d) = (\<forall>kv \<in> set d. plain_usage (snd kv))"
| "plain_usage UOther = False"
| "plain_usage UNone = True"
| "plain_usage (UBool b) = True"
| "plain_usage (UInt i) = True"
| "plain_usage (UStr s) = True"

definition plain_record :: "ModelUsageRecord \<Rightarrow> bool" where
  "plain_record u = (\<forall>kv \<in> set (mu_raw_usage u). plain_usage (snd kv))"

definition plain_run :: "Run \<Rightarrow> bool" where
  "plain_run r = (\<forall>u \<in> set (run_usage_records r). plain_record u)"

text \<open>
  An event's data come back as plain JSON: \<open>cd_wire\<close> is what an event reads back as. Its run, place and
  kind are typed fields and survive.
\<close>

definition codec_ok :: "Codec \<Rightarrow> bool" where
  "codec_ok cd \<longleftrightarrow>
     (\<forall>r. plain_run r \<longrightarrow> cd_validate cd (cd_dump cd r) = Inr r \<and>
        (\<exists>kvs. cd_dump cd r = JObj kvs \<and> map_of kvs ''schema_version'' = Some (JInt (run_schema_version r)))) \<and>
     (\<forall>e. cd_validate_event cd (cd_dump_event cd e) = Inr (cd_wire cd e) \<and>
        ev_run_id (cd_wire cd e) = ev_run_id e \<and> ev_sequence (cd_wire cd e) = ev_sequence e \<and>
        ev_kind (cd_wire cd e) = ev_kind e)"

section \<open>Loading a snapshot\<close>

text \<open>\<open>int(part)\<close> of a location inside a list: decimal text with an optional sign.\<close>

fun digits_value :: "string \<Rightarrow> nat \<Rightarrow> nat option" where
  "digits_value [] acc = Some acc"
| "digits_value (c # cs) acc =
     (let n = (of_char c :: nat) in
      if 48 \<le> n \<and> n \<le> 57 then digits_value cs (10 * acc + (n - 48)) else None)"

fun int_of_text :: "string \<Rightarrow> int option" where
  "int_of_text (CHR ''-'' # c # cs) = map_option (\<lambda>n. - int n) (digits_value (c # cs) 0)"
| "int_of_text (CHR ''+'' # c # cs) = map_option int (digits_value (c # cs) 0)"
| "int_of_text (c # cs) = map_option int (digits_value (c # cs) 0)"
| "int_of_text [] = None"

definition list_index :: "'a list \<Rightarrow> loc_part \<Rightarrow> py_error + nat" where
  "list_index vs part =
     bind_ok (case part of
         LIndex i \<Rightarrow> Inr i
       | LKey s \<Rightarrow> (case int_of_text (strip s) of
           None \<Rightarrow> Inl (ValueError ''invalid literal for int()'') | Some i \<Rightarrow> Inr i))
       (\<lambda>i. let j = (if i < 0 then i + int (length vs) else i) in
         if 0 \<le> j \<and> j < int (length vs) then Inr (nat j) else Inl IndexError)"

text \<open>\<open>_drop_path\<close>: the document without the field the location addresses.\<close>

fun drop_path :: "json \<Rightarrow> loc_part list \<Rightarrow> py_error + json" where
  "drop_path doc [] = Inl IndexError"
| "drop_path (JArr vs) [part] =
     bind_ok (list_index vs part) (\<lambda>i. Inr (JArr (take i vs @ drop (Suc i) vs)))"
| "drop_path (JObj kvs) [part] =
     Inr (JObj (case part of LKey s \<Rightarrow> filter (\<lambda>kv. fst kv \<noteq> s) kvs | LIndex i \<Rightarrow> kvs))"
| "drop_path doc [part] = Inl (AttributeError ''pop'')"
| "drop_path (JArr vs) (part # p # ps) =
     bind_ok (list_index vs part) (\<lambda>i.
       bind_ok (drop_path (vs ! i) (p # ps)) (\<lambda>v. Inr (JArr (vs[i := v]))))"
| "drop_path (JObj kvs) (LKey s # p # ps) =
     bind_ok (dget kvs s) (\<lambda>d.
       bind_ok (drop_path d (p # ps)) (\<lambda>v. Inr (JObj (AList.update s v kvs))))"
| "drop_path (JObj kvs) (LIndex i # p # ps) = Inl (KeyError (show_int i))"
| "drop_path (JStr s) (LIndex i # p # ps) =
     bind_ok (list_index s (LIndex i)) (\<lambda>n. bind_ok (drop_path (JStr [s ! n]) (p # ps)) (\<lambda>v. Inr (JStr s)))"
| "drop_path doc (part # p # ps) = Inl (TypeError ''not subscriptable'')"

fun drop_paths :: "json \<Rightarrow> loc_part list list \<Rightarrow> py_error + json" where
  "drop_paths doc [] = Inr doc"
| "drop_paths doc (p # ps) = bind_ok (drop_path doc p) (\<lambda>doc'. drop_paths doc' ps)"

fun show_part :: "loc_part \<Rightarrow> string" where
  "show_part (LKey s) = s"
| "show_part (LIndex i) = show_int i"

definition format_location :: "loc_part list \<Rightarrow> string" where
  "format_location l = (if l = [] then ''<root>'' else join ''.'' (map show_part l))"

definition SCHEMA_VERSION :: int where
  "SCHEMA_VERSION = 2"

definition extras :: "SchemaError list \<Rightarrow> loc_part list list" where
  "extras errs = map se_loc (filter (\<lambda>e. se_type e = ''extra_forbidden'') errs)"

text \<open>The loop of at most a thousand rounds: validate, and prune the unknown fields it reports.\<close>

fun prune :: "Codec \<Rightarrow> ident \<Rightarrow> nat \<Rightarrow> json \<Rightarrow> py_error + Run" where
  "prune cd rid 0 doc = Inl (SnapshotIncompatible (''Run '' @ rid @
     '': snapshot still failed validation after pruning unknown fields.''))"
| "prune cd rid (Suc n) doc =
     (case cd_validate cd doc of
        Inr r \<Rightarrow> Inr r
      | Inl errs \<Rightarrow>
          if extras errs = []
          then Inl (SnapshotIncompatible (''Run '' @ rid @
            '': snapshot failed validation and cannot be silently repaired: '' @
            join ''; '' (map (\<lambda>e. format_location (se_loc e) @ '': '' @ se_msg e) errs)))
          else bind_ok (drop_paths doc (extras errs)) (prune cd rid n))"

fun type_name :: "json \<Rightarrow> string" where
  "type_name JNull = ''NoneType''"
| "type_name (JBool b) = ''bool''"
| "type_name (JInt i) = ''int''"
| "type_name (JStr s) = ''str''"
| "type_name (JArr vs) = ''list''"
| "type_name (JObj kvs) = ''dict''"

definition load_snapshot :: "Codec \<Rightarrow> ident \<Rightarrow> payload \<Rightarrow> py_error + Run" where
  "load_snapshot cd rid payload =
     (case payload of
        Unreadable exc \<Rightarrow> Inl (SnapshotIncompatible
          (''Run '' @ rid @ '': snapshot is not valid JSON ('' @ exc @ '').''))
      | Document doc \<Rightarrow>
        (case doc of
           JObj kvs \<Rightarrow>
             (let found = (case map_of kvs ''schema_version'' of None \<Rightarrow> JInt SCHEMA_VERSION | Some v \<Rightarrow> v) in
              if found \<noteq> JInt SCHEMA_VERSION
              then Inl (SnapshotIncompatible (''Run '' @ rid @ '': snapshot schema_version='' @ py_repr found @
                '' but this build expects '' @ show_int SCHEMA_VERSION @
                ''. Migrate the operational store with a compatible Walter '' @
                ''version, or restore the run from a supported backup, before loading it.''))
              else prune cd rid 1000 doc)
         | _ \<Rightarrow> Inl (SnapshotIncompatible (''Run '' @ rid @
             '': snapshot root must be a JSON object, found '' @ type_name doc @ ''.''))))"

section \<open>Rows\<close>

record Db =
  db_runs :: "(ident, int \<times> payload) dict"
  db_events :: "(ident \<times> int \<times> json) list"
  db_backups :: "(ident \<times> int \<times> int \<times> payload) list"

definition empty_db :: Db where
  "empty_db = \<lparr>db_runs = [], db_events = [], db_backups = []\<rparr>"

text \<open>\<open>SELECT sequence,payload FROM events WHERE run_id=? ORDER BY sequence\<close>\<close>

definition event_rows :: "ident \<Rightarrow> Db \<Rightarrow> (int \<times> json) list" where
  "event_rows rid db = sort_key fst (map snd (filter (\<lambda>row. fst row = rid) (db_events db)))"

text \<open>The check of each event against its place, which \<open>load\<close> and \<open>events\<close> share.\<close>

fun read_events :: "Codec \<Rightarrow> ident \<Rightarrow> int \<Rightarrow> (int \<times> json) list \<Rightarrow> py_error + Event list" where
  "read_events cd rid expected [] = Inr []"
| "read_events cd rid expected ((sequence, body) # rows) =
     bind_ok (cd_validate_event cd body) (\<lambda>e.
       if sequence \<noteq> expected \<or> ev_sequence e \<noteq> sequence \<or> ev_run_id e \<noteq> rid
       then Inl (ValueError ''Corrupt event payload identity or sequence'')
       else bind_ok (read_events cd rid (expected + 1) rows) (\<lambda>es. Inr (e # es)))"

definition load :: "Codec \<Rightarrow> ident \<Rightarrow> Db \<Rightarrow> py_error + Run" where
  "load cd rid db =
     (case map_of (db_runs db) rid of
        None \<Rightarrow> Inl (KeyError rid)
      | Some (version, snapshot) \<Rightarrow>
        bind_ok (load_snapshot cd rid snapshot) (\<lambda>r.
          if run_id r \<noteq> rid
          then Inl (SnapshotIncompatible (''Run '' @ rid @ '': snapshot identity mismatch (embedded run id '' @
            repr_str (run_id r) @ '').''))
          else if run_version r \<noteq> version
          then Inl (SnapshotIncompatible (''Run '' @ rid @ '': snapshot version '' @ show_int (run_version r) @
            '' does not match stored version '' @ show_int version @ ''.''))
          else (let rows = event_rows rid db;
                    cursor = (case last_opt rows of None \<Rightarrow> 0 | Some row \<Rightarrow> fst row) in
            if int (length rows) \<noteq> cursor \<or> cursor \<noteq> run_event_cursor r
            then Inl (ValueError ''Snapshot/event cursor mismatch'')
            else bind_ok (read_events cd rid 1 rows) (\<lambda>es. Inr r))))"

definition events :: "Codec \<Rightarrow> ident \<Rightarrow> Db \<Rightarrow> py_error + Event list" where
  "events cd rid db =
     (if map_of (db_runs db) rid = None then Inl (KeyError rid)
      else read_events cd rid 1 (event_rows rid db))"

text \<open>\<open>COALESCE(MAX(sequence),0)\<close>\<close>

definition version_info :: "ident \<Rightarrow> Db \<Rightarrow> py_error + int \<times> int" where
  "version_info rid db =
     (case map_of (db_runs db) rid of
        None \<Rightarrow> Inl (KeyError rid)
      | Some (version, snapshot) \<Rightarrow>
        (let seqs = map fst (event_rows rid db) in
         Inr (version, if seqs = [] then 0 else Max (set seqs))))"

fun load_all :: "Codec \<Rightarrow> ident list \<Rightarrow> Db \<Rightarrow> py_error + Run list" where
  "load_all cd [] db = Inr []"
| "load_all cd (rid # rids) db =
     bind_ok (load cd rid db) (\<lambda>r. bind_ok (load_all cd rids db) (\<lambda>rs. Inr (r # rs)))"

definition list_runs :: "Codec \<Rightarrow> Db \<Rightarrow> py_error + Run list" where
  "list_runs cd db = load_all cd (map fst (db_runs db)) db"

definition run_ids :: "Db \<Rightarrow> ident list" where
  "run_ids db = sort (map fst (db_runs db))"

definition delete_run :: "ident \<Rightarrow> Db \<Rightarrow> bool \<times> Db" where
  "delete_run rid db =
     (rid \<in> fst ` set (db_runs db),
      \<lparr>db_runs = filter (\<lambda>row. fst row \<noteq> rid) (db_runs db),
       db_events = filter (\<lambda>row. fst row \<noteq> rid) (db_events db),
       db_backups = filter (\<lambda>row. fst row \<noteq> rid) (db_backups db)\<rparr>)"

section \<open>Saving\<close>

text \<open>\<open>INSERT INTO events\<close> for each event in turn; the primary key is \<open>(run_id, sequence)\<close>.\<close>

fun insert_events :: "Codec \<Rightarrow> ident \<Rightarrow> int \<Rightarrow> Event list \<Rightarrow> (ident \<times> int \<times> json) list \<Rightarrow>
    py_error + (ident \<times> int \<times> json) list" where
  "insert_events cd rid index [] rows = Inr rows"
| "insert_events cd rid index (e # es) rows =
     (if ev_run_id e \<noteq> rid then Inl (ValueError ''Event belongs to another run'')
      else if \<exists>row \<in> set rows. fst row = rid \<and> fst (snd row) = index
      then Inl (IntegrityError ''UNIQUE constraint failed: events.run_id, events.sequence'')
      else insert_events cd rid (index + 1) es
        (rows @ [(rid, index, cd_dump_event cd (e\<lparr>ev_sequence := index\<rparr>))]))"

definition saved_run :: "Run \<Rightarrow> int option \<Rightarrow> int \<Rightarrow> Run" where
  "saved_run r expected cursor =
     r\<lparr>run_version := (case expected of None \<Rightarrow> 0 | Some v \<Rightarrow> v) + 1, run_event_cursor := cursor\<rparr>"

definition save :: "Codec \<Rightarrow> Run \<Rightarrow> Event list \<Rightarrow> int option \<Rightarrow> Db \<Rightarrow> py_error + (Run \<times> Db)" where
  "save cd r evs expected db =
     (if evs = [] then Inl (ValueError ''Every mutation requires an event'')
      else (let row = map_of (db_runs db) (run_id r) in
        if (row = None \<and> expected \<noteq> None) \<or> (\<exists>v. row = Some v \<and> expected \<noteq> Some (fst v))
        then Inl (ConcurrentUpdate ''Run changed; reload before applying this operation'')
        else bind_ok (case row of None \<Rightarrow> Inr 0
               | Some v \<Rightarrow> bind_ok (load_snapshot cd (run_id r) (snd v)) (\<lambda>old. Inr (run_event_cursor old)))
          (\<lambda>cursor.
            let candidate = saved_run r expected (cursor + int (length evs)) in
            bind_ok (insert_events cd (run_id r) (cursor + 1) evs (db_events db)) (\<lambda>rows.
              Inr (candidate,
                db\<lparr>db_runs := AList.update (run_id r)
                     (run_version candidate, Document (cd_dump cd candidate)) (db_runs db),
                   db_events := rows\<rparr>)))))"

section \<open>The kernel on the store\<close>

text \<open>
  The two operations that can return before they open a transaction: re-recording an integration,
  and an escalation that has been applied.
\<close>

definition returns_early :: "Orchestrator \<Rightarrow> command \<Rightarrow> Run \<Rightarrow> bool" where
  "returns_early core c r =
     (case c of
        Integrate aid commit \<Rightarrow> full_object_id commit \<and> already_integrated aid commit r
      | Apply_Escalation q m \<Rightarrow> (m = None \<or> m = Some (o_manager_id core)) \<and>
          (case map_of (run_capability_requests r) q of None \<Rightarrow> False | Some x \<Rightarrow> cr_status x = CR_ESCALATED)
      | _ \<Rightarrow> False)"

text \<open>\<open>_mutate\<close>: load, gate, operate, save; a run that returns early leaves the store alone.\<close>

definition execute :: "Codec \<Rightarrow> Orchestrator \<Rightarrow> command \<Rightarrow> ident \<Rightarrow> Db \<Rightarrow> py_error + Db" where
  "execute cd core c rid db =
     bind_ok (load cd rid db) (\<lambda>r.
       if returns_early core c r then bind_ok (perform core c r) (\<lambda>_. Inr db)
       else bind_ok (mutate core c r) (\<lambda>(r', evs).
         bind_ok (save cd r' evs (Some (run_version r)) db) (\<lambda>(_, db'). Inr db')))"

definition create_stored :: "Codec \<Rightarrow> ident \<Rightarrow> string \<Rightarrow> string list \<Rightarrow> string list \<Rightarrow> int \<Rightarrow> Db \<Rightarrow>
    py_error + Db" where
  "create_stored cd rid objective criteria constraints max_replans db =
     bind_ok (create_run rid objective criteria constraints max_replans) (\<lambda>(r, evs).
       bind_ok (save cd r evs None db) (\<lambda>(_, db'). Inr db'))"

definition USAGE_RECORD_ATTEMPTS :: nat where
  "USAGE_RECORD_ATTEMPTS = 5"

text \<open>
  \<open>record_usage\<close>: load, append, save, again after a lost race. \<open>others\<close> is what other processes
  commit between this process's load and its save, one store transformer per attempt.
\<close>

fun usage_attempts :: "Codec \<Rightarrow> ModelUsageRecord \<Rightarrow> ident \<Rightarrow> nat \<Rightarrow> (Db \<Rightarrow> Db) list \<Rightarrow> Db \<Rightarrow>
    (py_error + unit) \<times> Db" where
  "usage_attempts cd u rid 0 others db = (Inr (), db)"
| "usage_attempts cd u rid (Suc n) others db =
     (case bind_ok (load cd rid db) (\<lambda>r. bind_ok (append_usage u r) (\<lambda>(_, r', evs). Inr (r', evs, run_version r))) of
        Inl e \<Rightarrow> (Inl e, db)
      | Inr (r', evs, version) \<Rightarrow>
        (let db1 = (case others of [] \<Rightarrow> db | f # fs \<Rightarrow> f db) in
         case save cd r' evs (Some version) db1 of
           Inr (_, db2) \<Rightarrow> (Inr (), db2)
         | Inl (ConcurrentUpdate m) \<Rightarrow>
             if n = 0 then (Inl (ConcurrentUpdate m), db1)
             else usage_attempts cd u rid n (drop 1 others) db1
         | Inl e \<Rightarrow> (Inl e, db1)))"

definition record_usage :: "Codec \<Rightarrow> ModelUsageRecord \<Rightarrow> ident \<Rightarrow> (Db \<Rightarrow> Db) list \<Rightarrow> Db \<Rightarrow>
    (py_error + unit) \<times> Db" where
  "record_usage cd u rid others db = usage_attempts cd u rid USAGE_RECORD_ATTEMPTS others db"

end
