(* ===== verification/Store_Laws.thy ===== *)
theory Store_Laws
  imports Store
begin

text \<open>
  What a store promises its clients, as an interface, and the proof that the SQLite store keeps it:
  a saved run loads as it was saved, its events follow the earlier ones without a gap, other runs are
  untouched, and a save on a version that has moved raises.
\<close>

section \<open>The interface\<close>

text \<open>The events a save appends: numbered from the length of the log.\<close>

definition numbered :: "nat \<Rightarrow> Event list \<Rightarrow> Event list" where
  "numbered n evs = map (\<lambda>(i, e). e\<lparr>ev_sequence := int i\<rparr>) (enumerate (Suc n) evs)"

lemma numbered_simps [simp]:
  "numbered n [] = []"
  "numbered n (e # es) = e\<lparr>ev_sequence := int (Suc n)\<rparr> # numbered (Suc n) es"
  "length (numbered n es) = length es"
  by (simp_all add: numbered_def)

type_synonym stored = "ident \<Rightarrow> (Run \<times> Event list) option"

definition version_of :: "stored \<Rightarrow> ident \<Rightarrow> int option" where
  "version_of v rid = map_option (run_version \<circ> fst) (v rid)"

definition log_of :: "stored \<Rightarrow> ident \<Rightarrow> Event list" where
  "log_of v rid = (case v rid of None \<Rightarrow> [] | Some x \<Rightarrow> snd x)"

definition savable :: "Run \<Rightarrow> Event list \<Rightarrow> bool" where
  "savable r evs \<longleftrightarrow> plain_run r \<and> run_schema_version r = SCHEMA_VERSION \<and> evs \<noteq> [] \<and>
     (\<forall>e \<in> set evs. ev_run_id e = run_id r)"

locale run_store =
  fixes view :: "'s \<Rightarrow> stored"
    and save :: "Run \<Rightarrow> Event list \<Rightarrow> int option \<Rightarrow> 's \<Rightarrow> py_error + (Run \<times> 's)"
    and ok :: "'s \<Rightarrow> bool"
    and wire :: "Event \<Rightarrow> Event"
  assumes commits: "ok s \<Longrightarrow> savable r evs \<Longrightarrow> version_of (view s) (run_id r) = expected \<Longrightarrow>
      \<exists>c s'. save r evs expected s = Inr (c, s') \<and> ok s' \<and>
        c = saved_run r expected (int (length (log_of (view s) (run_id r)) + length evs)) \<and>
        view s' = (view s)(run_id r \<mapsto> (c, log_of (view s) (run_id r) @
          map wire (numbered (length (log_of (view s) (run_id r))) evs)))"
    and refuses: "ok s \<Longrightarrow> savable r evs \<Longrightarrow> version_of (view s) (run_id r) \<noteq> expected \<Longrightarrow>
      \<exists>m. save r evs expected s = Inl (ConcurrentUpdate m)"
begin

lemma saved:
  assumes "ok s" "savable r evs" "save r evs expected s = Inr (c, s')"
  shows "version_of (view s) (run_id r) = expected" "ok s'"
    "c = saved_run r expected (int (length (log_of (view s) (run_id r)) + length evs))"
    "view s' = (view s)(run_id r \<mapsto> (c, log_of (view s) (run_id r) @
          map wire (numbered (length (log_of (view s) (run_id r))) evs)))"
proof -
  show v: "version_of (view s) (run_id r) = expected" using refuses[OF assms(1,2)] assms(3) by force
  from commits[OF assms(1,2) v] assms(3) show "ok s'"
    "c = saved_run r expected (int (length (log_of (view s) (run_id r)) + length evs))"
    "view s' = (view s)(run_id r \<mapsto> (c, log_of (view s) (run_id r) @
          map wire (numbered (length (log_of (view s) (run_id r))) evs)))" by auto
qed

text \<open>Of two clients that loaded the same version, only the first to save succeeds.\<close>

lemma no_lost_update:
  assumes "ok s" "savable r1 evs1" "savable r2 evs2" "run_id r1 = run_id r2"
    and "save r1 evs1 (Some v) s = Inr (c, s')"
  shows "\<exists>m. save r2 evs2 (Some v) s' = Inl (ConcurrentUpdate m)"
proof -
  note one = saved[OF assms(1,2,5)]
  have "version_of (view s') (run_id r2) = Some (v + 1)"
    by (simp add: one(3,4) version_of_def saved_run_def assms(4))
  then show ?thesis by (intro refuses[OF one(2) assms(3)]) simp
qed

text \<open>The log only grows, and the version by one.\<close>

lemma log_grows:
  assumes "ok s" "savable r evs" "save r evs expected s = Inr (c, s')"
  shows "log_of (view s') rid = log_of (view s) rid @
      (if rid = run_id r then map wire (numbered (length (log_of (view s) rid)) evs) else [])"
  using saved(4)[OF assms] by (simp add: log_of_def)

end

section \<open>What the rows hold\<close>

definition rows_of :: "ident \<Rightarrow> Db \<Rightarrow> (int \<times> json) list" where
  "rows_of rid db = map snd (filter (\<lambda>row. fst row = rid) (db_events db))"

definition logged :: "Codec \<Rightarrow> ident \<Rightarrow> Event list \<Rightarrow> Db \<Rightarrow> bool" where
  "logged cd rid es db \<longleftrightarrow> rows_of rid db = map (\<lambda>e. (ev_sequence e, cd_dump_event cd e)) es \<and>
     map ev_sequence es = map int [1..<Suc (length es)] \<and> (\<forall>e \<in> set es. ev_run_id e = rid)"

definition holds :: "Codec \<Rightarrow> ident \<Rightarrow> Run \<Rightarrow> Event list \<Rightarrow> Db \<Rightarrow> bool" where
  "holds cd rid r es db \<longleftrightarrow> map_of (db_runs db) rid = Some (run_version r, Document (cd_dump cd r)) \<and>
     plain_run r \<and> run_id r = rid \<and> run_schema_version r = SCHEMA_VERSION \<and>
     run_event_cursor r = int (length es) \<and> logged cd rid es db"

definition db_ok :: "Codec \<Rightarrow> Db \<Rightarrow> bool" where
  "db_ok cd db \<longleftrightarrow> (\<forall>rid v. map_of (db_runs db) rid = Some v \<longrightarrow> (\<exists>r es. holds cd rid r es db)) \<and>
     fst ` set (db_events db) \<subseteq> fst ` set (db_runs db)"

lemma empty_db_ok: "db_ok cd empty_db"
  by (simp add: db_ok_def empty_db_def)

lemma load_snapshot_dump:
  assumes "codec_ok cd" "plain_run r" "run_schema_version r = SCHEMA_VERSION"
  shows "load_snapshot cd rid (Document (cd_dump cd r)) = Inr r"
proof -
  from assms obtain kvs where d: "cd_dump cd r = JObj kvs" "map_of kvs ''schema_version'' = Some (JInt SCHEMA_VERSION)"
    and v: "cd_validate cd (cd_dump cd r) = Inr r" by (auto simp: codec_ok_def)
  have "prune cd rid 1000 (JObj kvs) = Inr r"
    using v d by (simp add: eval_nat_numeral)
  with d show ?thesis by (simp add: load_snapshot_def)
qed

lemma event_rows_logged:
  assumes "logged cd rid es db"
  shows "event_rows rid db = map (\<lambda>e. (ev_sequence e, cd_dump_event cd e)) es"
proof -
  have "map fst (rows_of rid db) = map int [1..<Suc (length es)]"
    using assms by (simp add: logged_def comp_def del: upt_Suc)
  moreover have "sorted (map int [1..<Suc (length es)])"
    by (simp add: sorted_map del: upt_Suc)
  ultimately have "sorted (map fst (rows_of rid db))" by simp
  then have "sort_key fst (rows_of rid db) = rows_of rid db" by (rule sort_key_id_if_sorted)
  with assms show ?thesis by (simp add: event_rows_def rows_of_def logged_def)
qed

lemma read_events_logged:
  assumes "codec_ok cd"
  shows "map ev_sequence es = map int [n..<n + length es] \<Longrightarrow> \<forall>e \<in> set es. ev_run_id e = rid \<Longrightarrow>
    read_events cd rid (int n) (map (\<lambda>e. (ev_sequence e, cd_dump_event cd e)) es) = Inr (map (cd_wire cd) es)"
proof (induction es arbitrary: n)
  case Nil
  then show ?case by simp
next
  case (Cons e es)
  have "[n..<n + length (e # es)] = n # [Suc n..<Suc n + length es]"
    by (subst upt_conv_Cons) simp_all
  with Cons.prems(1) have "ev_sequence e # map ev_sequence es = int n # map int [Suc n..<Suc n + length es]"
    by (simp only: list.map)
  then have e: "ev_sequence e = int n" and rest: "map ev_sequence es = map int [Suc n..<Suc n + length es]"
    by (simp_all only: list.inject)
  have "cd_validate_event cd (cd_dump_event cd e) = Inr (cd_wire cd e)" "ev_run_id (cd_wire cd e) = ev_run_id e"
    "ev_sequence (cd_wire cd e) = ev_sequence e" using assms by (simp_all add: codec_ok_def)
  moreover have "read_events cd rid (int (Suc n)) (map (\<lambda>e. (ev_sequence e, cd_dump_event cd e)) es) =
      Inr (map (cd_wire cd) es)"
    using Cons.IH[OF rest] Cons.prems(2) by simp
  ultimately show ?case using e Cons.prems(2) by (simp add: add.commute)
qed

lemma holds_read:
  assumes cd: "codec_ok cd" and h: "holds cd rid r es db"
  shows "load cd rid db = Inr r" "events cd rid db = Inr (map (cd_wire cd) es)" "version_info rid db = Inr (run_version r, int (length es))"
proof -
  from h have row: "map_of (db_runs db) rid = Some (run_version r, Document (cd_dump cd r))"
    and p: "plain_run r" "run_id r = rid" "run_schema_version r = SCHEMA_VERSION" "run_event_cursor r = int (length es)"
    and l: "logged cd rid es db" by (simp_all add: holds_def)
  note rows = event_rows_logged[OF l]
  have seqs: "map ev_sequence es = map int [1..<1 + length es]" using l by (simp add: logged_def)
  have rd: "read_events cd rid 1 (event_rows rid db) = Inr (map (cd_wire cd) es)"
    using read_events_logged[OF cd seqs, of rid] l by (simp add: rows logged_def)
  have last: "(case last_opt (event_rows rid db) of None \<Rightarrow> 0 | Some row \<Rightarrow> fst row) = int (length es)"
  proof (cases es rule: rev_cases)
    case (snoc xs x)
    with seqs have "map ev_sequence xs @ [ev_sequence x] = map int [1..<1 + length xs] @ [int (1 + length xs)]"
      by (simp add: upt_Suc)
    then have "ev_sequence x = int (1 + length xs)" by (simp only: append1_eq_conv)
    with snoc show ?thesis by (simp add: rows)
  qed (simp add: rows)
  show "load cd rid db = Inr r"
    using row p last rd load_snapshot_dump[OF cd p(1,3)] by (simp add: load_def rows)
  show "events cd rid db = Inr (map (cd_wire cd) es)" using row rd by (simp add: events_def)
  have fsts: "map fst (event_rows rid db) = map int [1..<1 + length es]"
    using seqs by (simp add: rows comp_def)
  have "Max (set (map int [1..<1 + length es])) = int (length es)" if "es \<noteq> []"
    using that by (intro Max_eqI) (auto simp: Suc_le_eq simp del: upt_Suc)
  then show "version_info rid db = Inr (run_version r, int (length es))"
    using row by (cases "es = []") (simp_all add: version_info_def Let_def fsts del: set_map upt_Suc)
qed

section \<open>What a save does to the rows\<close>

lemma insert_events_Inr:
  "insert_events cd rid (int (Suc n)) evs rows = Inr rows' \<Longrightarrow>
     rows' = rows @ map (\<lambda>e. (rid, ev_sequence e, cd_dump_event cd e)) (numbered n evs) \<and>
     (\<forall>e \<in> set evs. ev_run_id e = rid)"
proof (induction evs arbitrary: n rows)
  case Nil
  then show ?case by simp
next
  case (Cons e es)
  from Cons.prems have e: "ev_run_id e = rid" and
    rest: "insert_events cd rid (int (Suc (Suc n))) es
      (rows @ [(rid, int (Suc n), cd_dump_event cd (e\<lparr>ev_sequence := int (Suc n)\<rparr>))]) = Inr rows'"
    by (auto simp: add.commute split: if_splits)
  from Cons.IH[OF rest] e show ?case by simp
qed

lemma insert_events_total:
  "\<forall>row \<in> set rows. fst row = rid \<longrightarrow> fst (snd row) \<le> int n \<Longrightarrow> \<forall>e \<in> set evs. ev_run_id e = rid \<Longrightarrow>
     \<exists>rows'. insert_events cd rid (int (Suc n)) evs rows = Inr rows'"
proof (induction evs arbitrary: n rows)
  case Nil
  then show ?case by simp
next
  case (Cons e es)
  let ?rows = "rows @ [(rid, int (Suc n), cd_dump_event cd (e\<lparr>ev_sequence := int (Suc n)\<rparr>))]"
  have "\<forall>row \<in> set ?rows. fst row = rid \<longrightarrow> fst (snd row) \<le> int (Suc n)"
    using Cons.prems(1) by fastforce
  from Cons.IH[OF this] Cons.prems(2) obtain rows' where
    "insert_events cd rid (int (Suc (Suc n))) es ?rows = Inr rows'" by auto
  moreover have "\<not> (\<exists>row \<in> set rows. fst row = rid \<and> fst (snd row) = int (Suc n))"
    using Cons.prems(1) by force
  ultimately show ?case using Cons.prems(2) by (simp add: add.commute)
qed

text \<open>The store as its clients see it.\<close>

definition view :: "Codec \<Rightarrow> Db \<Rightarrow> stored" where
  "view cd db rid = (case load cd rid db of
     Inl e \<Rightarrow> None
   | Inr r \<Rightarrow> (case events cd rid db of Inl e \<Rightarrow> None | Inr es \<Rightarrow> Some (r, es)))"

lemma view_holds: "codec_ok cd \<Longrightarrow> holds cd rid r es db \<Longrightarrow> view cd db rid = Some (r, map (cd_wire cd) es)"
  by (simp add: view_def holds_read)

lemma view_None: "map_of (db_runs db) rid = None \<Longrightarrow> view cd db rid = None"
  by (simp add: view_def load_def)

lemma view_cases:
  assumes "codec_ok cd" "db_ok cd db"
  obtains (absent) "map_of (db_runs db) rid = None" "view cd db rid = None"
  | (present) r es where "holds cd rid r es db" "view cd db rid = Some (r, map (cd_wire cd) es)"
proof (cases "map_of (db_runs db) rid")
  case None
  show thesis by (rule absent[OF None view_None[OF None]])
next
  case (Some v)
  with assms(2) obtain r es where h: "holds cd rid r es db" unfolding db_ok_def by blast
  show thesis by (rule present[OF h view_holds[OF assms(1) h]])
qed

lemma numbered_props:
  "\<forall>e \<in> set evs. ev_run_id e = rid \<Longrightarrow> \<forall>e \<in> set (numbered n evs). ev_run_id e = rid"
  "map ev_sequence (numbered n evs) = map int [Suc n..<Suc n + length evs]"
proof -
  show "\<forall>e \<in> set evs. ev_run_id e = rid \<Longrightarrow> \<forall>e \<in> set (numbered n evs). ev_run_id e = rid"
    by (induction evs arbitrary: n) auto
  show "map ev_sequence (numbered n evs) = map int [Suc n..<Suc n + length evs]"
  proof (induction evs arbitrary: n)
    case (Cons e es)
    have "[Suc n..<Suc n + length (e # es)] = Suc n # [Suc (Suc n)..<Suc (Suc n) + length es]"
      by (subst upt_conv_Cons) simp_all
    with Cons[of "Suc n"] show ?case by simp
  qed simp
qed

lemma logged_append:
  assumes "logged cd rid es db" "\<forall>e \<in> set evs. ev_run_id e = rid"
    and "rows_of rid db' = rows_of rid db @
      map (\<lambda>e. (ev_sequence e, cd_dump_event cd e)) (numbered (length es) evs)"
  shows "logged cd rid (es @ numbered (length es) evs) db'"
proof -
  have "[1..<Suc (length es + length evs)] = [1..<Suc (length es)] @ [Suc (length es)..<Suc (length es) + length evs]"
    by (metis add_Suc le_add1 plus_1_eq_Suc upt_add_eq_append)
  then show ?thesis
    using assms numbered_props(1)[OF assms(2), of "length es"] numbered_props(2)[of "length es" evs]
    unfolding logged_def by (simp del: upt_Suc) blast
qed

lemma events_known: "db_ok cd db \<Longrightarrow> map_of (db_runs db) rid = None \<Longrightarrow> rows_of rid db = []"
  by (auto simp: db_ok_def rows_of_def filter_empty_conv map_of_eq_None_iff)

text \<open>A save that meets the version check adds one row version and the numbered events.\<close>

lemma save_commits:
  assumes cd: "codec_ok cd" and ok: "db_ok cd db" and sv: "savable r evs"
    and v: "version_of (view cd db) (run_id r) = expected"
  obtains old c db' where "log_of (view cd db) (run_id r) = map (cd_wire cd) old" "save cd r evs expected db = Inr (c, db')"
    "c = saved_run r expected (int (length old + length evs))"
    "holds cd (run_id r) c (old @ numbered (length old) evs) db'"
    "\<And>rid. rid \<noteq> run_id r \<Longrightarrow> map_of (db_runs db') rid = map_of (db_runs db) rid"
    "\<And>rid. rid \<noteq> run_id r \<Longrightarrow> rows_of rid db' = rows_of rid db"
    "fst ` set (db_events db') \<subseteq> insert (run_id r) (fst ` set (db_events db))"
    "fst ` set (db_runs db') = insert (run_id r) (fst ` set (db_runs db))"
proof -
  let ?rid = "run_id r"
  let ?row = "map_of (db_runs db) ?rid"
  have "\<exists>old. log_of (view cd db) ?rid = map (cd_wire cd) old \<and> logged cd ?rid old db \<and> (case ?row of None \<Rightarrow> expected = None \<and> old = [] | Some x \<Rightarrow>
      expected = Some (fst x) \<and> (\<exists>q. load_snapshot cd ?rid (snd x) = Inr q \<and> run_event_cursor q = int (length old)))"
    using cd ok
  proof (cases rule: view_cases[where rid = ?rid])
    case absent
    then show ?thesis using v events_known[OF ok absent(1)]
      by (simp add: version_of_def log_of_def logged_def)
  next
    case (present q es)
    then show ?thesis using v load_snapshot_dump[OF cd, of q]
      by (intro exI[of _ es]) (simp add: version_of_def log_of_def holds_def)
  qed
  then obtain old where log: "log_of (view cd db) ?rid = map (cd_wire cd) old"
    and old: "logged cd ?rid old db \<and> (case ?row of None \<Rightarrow> expected = None \<and> old = [] | Some x \<Rightarrow>
      expected = Some (fst x) \<and> (\<exists>q. load_snapshot cd ?rid (snd x) = Inr q \<and> run_event_cursor q = int (length old)))"
    by blast
  let ?cursor = "int (length old)"
  let ?c = "saved_run r expected (int (length old + length evs))"
  have cur: "(case ?row of None \<Rightarrow> Inr 0 | Some v \<Rightarrow>
      bind_ok (load_snapshot cd ?rid (snd v)) (\<lambda>old. Inr (run_event_cursor old))) = Inr ?cursor"
    using old by (auto split: option.splits)
  have gate: "\<not> ((?row = None \<and> expected \<noteq> None) \<or> (\<exists>v. ?row = Some v \<and> expected \<noteq> Some (fst v)))"
    using old by (auto split: option.splits)
  have seqs: "fst (snd row) \<le> int (length old)" if "row \<in> set (db_events db)" "fst row = ?rid" for row
  proof -
    have "snd row \<in> set (rows_of ?rid db)" using that by (auto simp: rows_of_def)
    then obtain e where "e \<in> set old" "fst (snd row) = ev_sequence e" using old by (auto simp: logged_def)
    moreover have "map ev_sequence old = map int [1..<Suc (length old)]"
      using old by (simp only: logged_def)
    ultimately have "fst (snd row) \<in> set (map int [1..<Suc (length old)])"
      by (metis imageI list.set_map)
    then show ?thesis by (auto simp del: upt_Suc)
  qed
  have own: "\<forall>e \<in> set evs. ev_run_id e = ?rid" "evs \<noteq> []" using sv by (auto simp: savable_def)
  obtain rows where ins: "insert_events cd ?rid (int (Suc (length old))) evs (db_events db) = Inr rows"
    using insert_events_total[of "db_events db" ?rid "length old" evs cd] seqs own(1) by blast
  let ?db = "db\<lparr>db_runs := AList.update ?rid (run_version ?c, Document (cd_dump cd ?c)) (db_runs db), db_events := rows\<rparr>"
  have rows: "rows = db_events db @ map (\<lambda>e. (?rid, ev_sequence e, cd_dump_event cd e)) (numbered (length old) evs)"
    using insert_events_Inr[OF ins] by blast
  have suc: "?cursor + 1 = int (Suc (length old))" "?cursor + int (length evs) = int (length old + length evs)" by simp_all
  have save: "save cd r evs expected db = Inr (?c, ?db)"
    unfolding save_def Let_def cur bind_ok_simps suc ins using gate own(2) by (simp only: if_False split_conv simp_thms)
  have "rows_of ?rid ?db = rows_of ?rid db @
      map (\<lambda>e. (ev_sequence e, cd_dump_event cd e)) (numbered (length old) evs)"
    by (simp add: rows_of_def rows comp_def)
  from logged_append[OF conjunct1[OF old] own(1) this] sv
  have holds: "holds cd ?rid ?c (old @ numbered (length old) evs) ?db"
    by (simp add: holds_def saved_run_def savable_def plain_run_def)
  have other: "map_of (db_runs ?db) rid = map_of (db_runs db) rid" "rows_of rid ?db = rows_of rid db"
    if "rid \<noteq> ?rid" for rid using that by (simp_all add: rows_of_def rows)
  have keys: "fst ` set (db_events ?db) \<subseteq> insert ?rid (fst ` set (db_events db))"
    "fst ` set (db_runs ?db) = insert ?rid (fst ` set (db_runs db))" by (auto simp: rows)
  show thesis by (rule that[OF log save refl holds other keys])
qed

lemma holds_other:
  assumes "map_of (db_runs db') rid = map_of (db_runs db) rid" "rows_of rid db' = rows_of rid db"
  shows "holds cd rid r es db' \<longleftrightarrow> holds cd rid r es db"
  using assms by (simp add: holds_def logged_def)

lemma view_other:
  assumes "map_of (db_runs db') rid = map_of (db_runs db) rid" "rows_of rid db' = rows_of rid db"
  shows "view cd db' rid = view cd db rid"
proof -
  have rows: "event_rows rid db' = event_rows rid db" using assms(2) by (simp add: event_rows_def rows_of_def)
  show ?thesis unfolding view_def load_def events_def assms(1) rows ..
qed

lemma save_refuses:
  assumes cd: "codec_ok cd" and ok: "db_ok cd db" and sv: "savable r evs"
    and v: "version_of (view cd db) (run_id r) \<noteq> expected"
  shows "\<exists>m. save cd r evs expected db = Inl (ConcurrentUpdate m)"
  using cd ok
proof (cases rule: view_cases[where rid = "run_id r"])
  case absent
  with v sv show ?thesis by (simp add: save_def Let_def version_of_def savable_def)
next
  case (present q es)
  with v sv show ?thesis by (auto simp: save_def Let_def version_of_def savable_def holds_def)
qed

lemma sqlite_run_store: "codec_ok cd \<Longrightarrow> run_store (view cd) (save cd) (db_ok cd) (cd_wire cd)"
proof unfold_locales
  assume cd: "codec_ok cd"
  fix db r evs and expected :: "int option"
  assume ok: "db_ok cd db" and sv: "savable r evs" and v: "version_of (view cd db) (run_id r) = expected"
  show "\<exists>c s'. save cd r evs expected db = Inr (c, s') \<and> db_ok cd s' \<and>
        c = saved_run r expected (int (length (log_of (view cd db) (run_id r)) + length evs)) \<and>
        view cd s' = (view cd db)(run_id r \<mapsto> (c, log_of (view cd db) (run_id r) @
          map (cd_wire cd) (numbered (length (log_of (view cd db) (run_id r))) evs)))"
    using cd ok sv v
  proof (rule save_commits)
    fix old c db'
    assume log: "log_of (view cd db) (run_id r) = map (cd_wire cd) old"
    and s: "save cd r evs expected db = Inr (c, db')"
    and c: "c = saved_run r expected (int (length old + length evs))"
    and h: "holds cd (run_id r) c (old @ numbered (length old) evs) db'"
    and other: "\<And>rid. rid \<noteq> run_id r \<Longrightarrow> map_of (db_runs db') rid = map_of (db_runs db) rid"
      "\<And>rid. rid \<noteq> run_id r \<Longrightarrow> rows_of rid db' = rows_of rid db"
    and keys: "fst ` set (db_events db') \<subseteq> insert (run_id r) (fst ` set (db_events db))"
      "fst ` set (db_runs db') = insert (run_id r) (fst ` set (db_runs db))"
  have "db_ok cd db'"
    unfolding db_ok_def
  proof (intro conjI allI impI)
    fix rid x
    assume x: "map_of (db_runs db') rid = Some x"
    show "\<exists>r es. holds cd rid r es db'"
    proof (cases "rid = run_id r")
      case True
      with h show ?thesis by blast
    next
      case False
      note same = other[OF False]
      from x have "map_of (db_runs db) rid = Some x" by (simp only: same)
      with ok obtain q es where "holds cd rid q es db" unfolding db_ok_def by blast
      then have "holds cd rid q es db'" by (simp only: holds_other[OF same])
      then show ?thesis by blast
    qed
  next
    from ok have "fst ` set (db_events db) \<subseteq> fst ` set (db_runs db)" by (simp only: db_ok_def)
    from subset_trans[OF keys(1) insert_mono[OF this]]
    show "fst ` set (db_events db') \<subseteq> fst ` set (db_runs db')" by (simp only: keys(2))
  qed
  moreover have "view cd db' = (view cd db)(run_id r \<mapsto> (c, map (cd_wire cd) (old @ numbered (length old) evs)))"
  proof
    fix rid
    show "view cd db' rid = ((view cd db)(run_id r \<mapsto> (c, map (cd_wire cd) (old @ numbered (length old) evs)))) rid"
    proof (cases "rid = run_id r")
      case False
      with view_other[OF other[OF False]] show ?thesis by simp
    qed (simp add: view_holds[OF cd h])
  qed
  ultimately show ?thesis using s c by (simp add: log)
  qed
qed (rule save_refuses)

end
