(* ===== verification/Durable.thy ===== *)
theory Durable
  imports Governance Store_Laws
begin

text \<open>
  The kernel on top of the store. A durable store is one that grew from an empty one by creating runs,
  by operations of the kernel, by usage records and by erasing runs. Every run it holds loads, and is
  a run the kernel can reach, so what holds of reachable runs holds of what is on disk.
\<close>

section \<open>What is saved\<close>

lemma reachable_schema: "reachable core r \<Longrightarrow> run_schema_version r = SCHEMA_VERSION"
proof (induction rule: reachable.induct)
  case (created rid objective criteria constraints n r evs)
  then show ?case by (simp add: create_run_Inr initial_run_def SCHEMA_VERSION_def)
next
  case (changed r r')
  from changed.hyps(2) show ?case
  proof (rule stepE)
    fix c evs
    assume "mutate core c r = Inr (r', evs)" "fresh_ids r c"
    with perform_governed[OF reachable_ok[OF changed.hyps(1)] reachable_governed[OF changed.hyps(1)]] changed.IH
    show ?thesis by (auto simp: mutate_Inr)
  next
    fix u evs
    assume "append_usage u r = Inr ((), r', evs)"
    with changed.IH show ?thesis by (simp add: append_usage_Inr)
  next
    fix v n
    assume "r' = r\<lparr>run_version := v, run_event_cursor := n\<rparr>"
    with changed.IH show ?thesis by simp
  qed
qed

lemma mutate_savable:
  assumes re: "reachable core r" and plain: "plain_run r"
    and mut: "mutate core c r = Inr (r', evs)" and new: "fresh_ids r c" and ne: "evs \<noteq> []"
  shows "reachable core r' \<and> savable r' evs \<and> run_id r' = run_id r"
proof -
  have r': "reachable core r'" by (rule reachable.changed[OF re step.command[OF mut new]])
  from mut have per: "perform core c r = Inr (r', evs)" by (simp add: mutate_Inr)
  have "stamped r r' evs" using perform_ok[OF reachable_ok[OF re] per new] by blast
  moreover have "run_usage_records r' = run_usage_records r"
    using perform_governed[OF reachable_ok[OF re] reachable_governed[OF re] per new] by blast
  ultimately show ?thesis using r' reachable_schema[OF r'] plain ne
    by (simp add: savable_def plain_run_def stamped_def)
qed

lemma append_savable:
  assumes re: "reachable core r" and "plain_run r" "plain_record u" and app: "append_usage u r = Inr (x, r', evs)"
  shows "reachable core r' \<and> savable r' evs \<and> run_id r' = run_id r"
proof -
  from app have "append_usage u r = Inr ((), r', evs)" by simp
  from reachable.changed[OF re step.usage[OF this]] have r': "reachable core r'" .
  with reachable_schema[OF r'] assms show ?thesis
    by (auto simp: savable_def append_usage_Inr plain_run_def plain_record_def)
qed

section \<open>The invariant of the store\<close>

definition store_ok :: "Orchestrator \<Rightarrow> Codec \<Rightarrow> Db \<Rightarrow> bool" where
  "store_ok core cd db \<longleftrightarrow> db_ok cd db \<and> (\<forall>rid r es. holds cd rid r es db \<longrightarrow> reachable core r)"

lemma load_holds:
  assumes "codec_ok cd" "db_ok cd db" "load cd rid db = Inr r"
  obtains es where "holds cd rid r es db"
  using assms(1,2)
proof (cases rule: view_cases[where rid = rid])
  case absent
  with assms(3) show thesis by (simp add: load_def)
next
  case (present q es)
  with holds_read(1)[OF assms(1) present(1)] assms(3) show thesis using that by simp
qed

lemma load_reachable:
  assumes "codec_ok cd" "store_ok core cd db" "load cd rid db = Inr r"
  shows "reachable core r" "plain_run r" "run_id r = rid"
proof -
  have ok: "db_ok cd db" using assms(2) by (simp add: store_ok_def)
  obtain es where h: "holds cd rid r es db" using load_holds[OF assms(1) ok assms(3)] .
  with assms(2) show "reachable core r" unfolding store_ok_def by blast
  from h show "plain_run r" "run_id r = rid" by (simp_all only: holds_def)
qed

lemma save_store_ok:
  assumes cd: "codec_ok cd" and ok: "store_ok core cd db" and sv: "savable r evs" and re: "reachable core r"
    and save: "save cd r evs expected db = Inr (c, db')"
  shows "store_ok core cd db'"
proof -
  have dbok: "db_ok cd db" using ok by (simp add: store_ok_def)
  note S = run_store.saved[OF sqlite_run_store[OF cd] dbok sv save]
  have "reachable core c" unfolding S(3) saved_run_def by (rule reachable.changed[OF re step.saved])
  moreover have "reachable core q" if h: "holds cd rid q es db'" and other: "rid \<noteq> run_id r" for rid q es
  proof -
    have "view cd db' rid = Some (q, map (cd_wire cd) es)" by (rule view_holds[OF cd h])
    with S(4) other have v: "view cd db rid = Some (q, map (cd_wire cd) es)" by simp
    show ?thesis using cd dbok
    proof (cases rule: view_cases[where rid = rid])
      case absent
      with v show ?thesis by simp
    next
      case (present q' es')
      with v ok show ?thesis by (auto simp: store_ok_def)
    qed
  qed
  moreover have "q = c" if "holds cd (run_id r) q es db'" for q es
    using view_holds[OF cd that] S(4) by simp
  ultimately show ?thesis using S(2) unfolding store_ok_def by metis
qed

lemma map_of_filter_key: "map_of (filter (\<lambda>kv. fst kv \<noteq> k) d) j = (if j = k then None else map_of d j)"
  by (induction d) auto

lemma fst_filter_key: "fst ` set (filter (\<lambda>row. fst row \<noteq> k) rows) = fst ` set rows - {k}"
  by (induction rows) auto

lemma delete_store_ok:
  assumes ok: "store_ok core cd db"
  shows "store_ok core cd (snd (delete_run rid db))"
proof -
  let ?db = "snd (delete_run rid db)"
  have runs: "map_of (db_runs ?db) k = (if k = rid then None else map_of (db_runs db) k)" for k
    by (simp add: delete_run_def map_of_filter_key)
  have rows: "k \<noteq> rid \<Longrightarrow> rows_of k ?db = rows_of k db" for k
    by (auto simp: delete_run_def rows_of_def intro!: arg_cong[where f = "map snd"] filter_cong)
  have same: "k \<noteq> rid \<Longrightarrow> holds cd k r es ?db \<longleftrightarrow> holds cd k r es db" for k r es
    by (rule holds_other) (simp_all add: runs rows)
  have gone: "\<not> holds cd rid r es ?db" for r es by (simp add: holds_def runs)
  have "fst ` set (db_events db) \<subseteq> fst ` set (db_runs db)" using ok by (simp only: store_ok_def db_ok_def)
  then have "fst ` set (db_events ?db) \<subseteq> fst ` set (db_runs ?db)"
    unfolding delete_run_def snd_conv Db.simps fst_filter_key by (rule Diff_mono[OF _ subset_refl])
  moreover have "\<exists>r es. holds cd k r es ?db" if x: "map_of (db_runs ?db) k = Some x" for k x
  proof -
    have k: "k \<noteq> rid" using x by (auto simp: runs)
    with x have "map_of (db_runs db) k = Some x" by (simp add: runs)
    with ok show ?thesis unfolding same[OF k] store_ok_def db_ok_def by blast
  qed
  moreover have "reachable core r" if h: "holds cd k r es ?db" for k r es
  proof -
    have k: "k \<noteq> rid" using h gone by auto
    from h ok show ?thesis unfolding same[OF k] store_ok_def by blast
  qed
  ultimately show ?thesis unfolding store_ok_def db_ok_def by blast
qed

lemma create_store_ok:
  assumes cd: "codec_ok cd" and ok: "store_ok core cd db"
    and create: "create_stored cd rid objective criteria constraints n db = Inr db'"
  shows "store_ok core cd db'"
proof -
  from create obtain r evs c where new: "create_run rid objective criteria constraints n = Inr (r, evs)"
    and save: "save cd r evs None db = Inr (c, db')" by (auto simp: create_stored_def bind_ok_Inr_iff)
  have re: "reachable core r" using new by (rule reachable.created)
  have "savable r evs" using new reachable_schema[OF re]
    by (auto simp: savable_def create_run_Inr initial_run_def plain_run_def)
  from save_store_ok[OF cd ok this re save] show ?thesis .
qed

lemma execute_store_ok:
  assumes cd: "codec_ok cd" and ok: "store_ok core cd db" and ex: "execute cd core c rid db = Inr db'"
    and new: "\<And>r. load cd rid db = Inr r \<Longrightarrow> fresh_ids r c"
  shows "store_ok core cd db'"
proof -
  from ex obtain r where ld: "load cd rid db = Inr r" by (auto simp: execute_def bind_ok_Inr_iff)
  note re = load_reachable(1)[OF cd ok ld] and plain = load_reachable(2)[OF cd ok ld]
  show ?thesis
  proof (cases "returns_early core c r")
    case True
    with ex ld ok show ?thesis by (auto simp: execute_def bind_ok_Inr_iff)
  next
    case False
    with ex ld obtain r' evs x where mut: "mutate core c r = Inr (r', evs)"
      and save: "save cd r' evs (Some (run_version r)) db = Inr (x, db')"
      by (auto simp: execute_def bind_ok_Inr_iff)
    have "evs \<noteq> []" using save by (auto simp: save_def)
    from mutate_savable[OF re plain mut new[OF ld] this] save_store_ok[OF cd ok _ _ save]
    show ?thesis by blast
  qed
qed

section \<open>Usage under concurrent writers\<close>

text \<open>One attempt: the row is appended to what was loaded, and saved on what is there by then.\<close>

lemma attempt_store_ok:
  assumes cd: "codec_ok cd" and ok: "store_ok core cd db" and ok1: "store_ok core cd db1" and u: "plain_record u"
    and ld: "load cd rid db = Inr r" and app: "append_usage u r = Inr (y, r', evs)"
    and save: "save cd r' evs (Some (run_version r)) db1 = Inr (x, db2)"
  shows "store_ok core cd db2"
proof -
  from append_savable[OF load_reachable(1,2)[OF cd ok ld] u app] save_store_ok[OF cd ok1 _ _ save] show ?thesis by blast
qed

text \<open>What the other processes commit between the load and the save of an attempt.\<close>

definition meanwhile :: "(Db \<Rightarrow> Db) list \<Rightarrow> Db \<Rightarrow> Db" where
  "meanwhile others db = (case others of [] \<Rightarrow> db | f # fs \<Rightarrow> f db)"

lemma meanwhile_keeps: "P db \<Longrightarrow> (\<And>f d. f \<in> set others \<Longrightarrow> P d \<Longrightarrow> P (f d)) \<Longrightarrow> P (meanwhile others db)"
  by (cases others) (auto simp: meanwhile_def)

lemma usage_attempts_loaded:
  assumes "load cd rid db = Inr r" "append_usage u r = Inr (y, r', evs)"
  shows "usage_attempts cd u rid (Suc n) others db =
     (case save cd r' evs (Some (run_version r)) (meanwhile others db) of
        Inr z \<Rightarrow> (Inr (), snd z)
      | Inl (ConcurrentUpdate m) \<Rightarrow>
          if n = 0 then (Inl (ConcurrentUpdate m), meanwhile others db)
          else usage_attempts cd u rid n (drop 1 others) (meanwhile others db)
      | Inl e \<Rightarrow> (Inl e, meanwhile others db))"
  unfolding usage_attempts.simps(2) assms bind_ok_simps split_conv sum.case Let_def meanwhile_def[symmetric]
  by (rule arg_cong[where f = "\<lambda>g. case_sum _ g _"]) (simp add: fun_eq_iff)

lemma attempt_cases:
  fixes res :: "py_error + 'a"
  obtains (saved) z where "res = Inr z" | (raced) m where "res = Inl (ConcurrentUpdate m)"
  | (refused) e where "res = Inl e" "\<forall>m. e \<noteq> ConcurrentUpdate m"
  by (metis sum.exhaust)

lemma usage_attempts_store_ok:
  assumes cd: "codec_ok cd" and u: "plain_record u"
  shows "store_ok core cd db \<Longrightarrow> (\<And>f d. f \<in> set others \<Longrightarrow> store_ok core cd d \<Longrightarrow> store_ok core cd (f d)) \<Longrightarrow>
     store_ok core cd (snd (usage_attempts cd u rid n others db))"
proof (induction n arbitrary: others db)
  case 0
  then show ?case by simp
next
  case (Suc n)
  let ?db1 = "meanwhile others db"
  have ok1: "store_ok core cd ?db1" by (rule meanwhile_keeps) (use Suc.prems in auto)
  have rest: "store_ok core cd (snd (usage_attempts cd u rid n (drop 1 others) ?db1))"
    by (rule Suc.IH[OF ok1]) (meson Suc.prems(2) in_set_dropD)
  show ?case
  proof (cases "load cd rid db")
    case (Inl e)
    with Suc.prems(1) show ?thesis by simp
  next
    case (Inr r)
    obtain r' evs where app: "append_usage u r = Inr ((), r', evs)" by (simp add: append_usage_def Let_def)
    note eq = usage_attempts_loaded[OF Inr app, where n = n and others = others]
    show ?thesis
    proof (cases "save cd r' evs (Some (run_version r)) ?db1" rule: attempt_cases)
      case (saved z)
      obtain c db2 where z: "z = (c, db2)" by (cases z)
      from attempt_store_ok[OF cd Suc.prems(1) ok1 u Inr app saved[unfolded z]] show ?thesis
        by (simp only: eq saved z sum.case snd_conv)
    next
      case (raced m)
      with ok1 rest show ?thesis by (simp only: eq sum.case py_error.case snd_conv split: if_split) simp
    next
      case (refused e)
      then have "usage_attempts cd u rid (Suc n) others db = (Inl e, ?db1)" by (cases e) (simp_all add: eq del: usage_attempts.simps(2))
      with ok1 show ?thesis by simp
    qed
  qed
qed

text \<open>The store that a caller's next attempt finds, once the other processes were there \<open>k\<close> times.\<close>

definition left_by :: "nat \<Rightarrow> (Db \<Rightarrow> Db) list \<Rightarrow> Db \<Rightarrow> Db" where
  "left_by k others db = foldl (\<lambda>d f. f d) db (take k others)"

lemma left_by_0 [simp]: "left_by 0 others db = db"
  by (simp add: left_by_def)

lemma left_by_Suc: "left_by (Suc k) others db = left_by k (drop 1 others) (meanwhile others db)"
  by (cases others) (simp_all add: left_by_def meanwhile_def)

text \<open>
  A call's record arrived: what was loaded gained exactly the row and a version, and every other run is
  as it was when the save began.
\<close>

definition row_landed :: "Codec \<Rightarrow> ModelUsageRecord \<Rightarrow> ident \<Rightarrow> Db \<Rightarrow> Db \<Rightarrow> Db \<Rightarrow> bool" where
  "row_landed cd u rid loaded found db' = (\<exists>r r'. load cd rid loaded = Inr r \<and> load cd rid db' = Inr r' \<and>
     r' = r\<lparr>run_usage_records := run_usage_records r @ [u\<lparr>mu_run_id := rid\<rparr>],
       run_version := run_version r + 1, run_event_cursor := run_event_cursor r'\<rparr> \<and>
     (\<forall>k. k \<noteq> rid \<longrightarrow> view cd db' k = view cd found k))"

text \<open>
  An attempt on a store that no other process changed in between succeeds, so a call's usage is lost
  only when every attempt was raced.
\<close>

lemma attempt_succeeds:
  assumes cd: "codec_ok cd" and ok: "store_ok core cd db" and ok1: "store_ok core cd db1" and u: "plain_record u"
    and ld: "load cd rid db = Inr r" and same: "version_of (view cd db1) rid = Some (run_version r)"
    and app: "append_usage u r = Inr (y, r', evs)"
  shows "\<exists>x db2. save cd r' evs (Some (run_version r)) db1 = Inr (x, db2) \<and> row_landed cd u rid db db1 db2"
proof -
  have dbok: "db_ok cd db1" using ok1 by (simp add: store_ok_def)
  note rid = load_reachable(3)[OF cd ok ld]
  from append_savable[OF load_reachable(1,2)[OF cd ok ld] u app] rid
  have sv: "savable r' evs" "run_id r' = rid" by auto
  with run_store.commits[OF sqlite_run_store[OF cd] dbok, of r' evs] same obtain x db2
    where save: "save cd r' evs (Some (run_version r)) db1 = Inr (x, db2)" by blast
  note S = run_store.saved(3,4)[OF sqlite_run_store[OF cd] dbok sv(1) save]
  from S(2) sv(2) obtain es where v: "view cd db2 rid = Some (x, es)" by simp
  then have "load cd rid db2 = Inr x" by (auto simp: view_def split: sum.splits)
  moreover have "x = r\<lparr>run_usage_records := run_usage_records r @ [u\<lparr>mu_run_id := rid\<rparr>],
       run_version := run_version r + 1, run_event_cursor := run_event_cursor x\<rparr>"
    using S(1) app rid by (simp add: append_usage_Inr saved_run_def)
  moreover have "\<forall>k. k \<noteq> rid \<longrightarrow> view cd db2 k = view cd db1 k" using S(2) sv(2) by simp
  ultimately show ?thesis using save ld unfolding row_landed_def by blast
qed

lemma usage_attempts_succeeds:
  assumes cd: "codec_ok cd" and u: "plain_record u"
  shows "store_ok core cd db \<Longrightarrow> (\<And>f d. f \<in> set others \<Longrightarrow> store_ok core cd d \<Longrightarrow> store_ok core cd (f d)) \<Longrightarrow>
     (\<And>f d. f \<in> set others \<Longrightarrow> store_ok core cd d \<Longrightarrow> version_of (view cd d) rid \<noteq> None \<Longrightarrow>
        version_of (view cd (f d)) rid \<noteq> None) \<Longrightarrow>
     version_of (view cd db) rid \<noteq> None \<Longrightarrow> i < n \<Longrightarrow>
     (i < length others \<Longrightarrow> \<forall>d. version_of (view cd ((others ! i) d)) rid = version_of (view cd d) rid) \<Longrightarrow>
     fst (usage_attempts cd u rid n others db) = Inr () \<and>
     (\<exists>k \<le> i. row_landed cd u rid (left_by k others db) (left_by (Suc k) others db)
        (snd (usage_attempts cd u rid n others db)))"
proof (induction n arbitrary: others db i)
  case 0
  then show ?case by simp
next
  case (Suc n)
  let ?db1 = "meanwhile others db"
  have ok1: "store_ok core cd ?db1" by (rule meanwhile_keeps) (use Suc.prems(1,2) in auto)
  have here: "version_of (view cd ?db1) rid \<noteq> None" using Suc.prems(1,3,4) by (cases others) (auto simp: meanwhile_def)
  from Suc.prems(4) obtain r es where v: "view cd db rid = Some (r, es)" by (auto simp: version_of_def)
  then have ld: "load cd rid db = Inr r" by (auto simp: view_def split: sum.splits)
  obtain r' evs where app: "append_usage u r = Inr ((), r', evs)" by (simp add: append_usage_def Let_def)
  have sv: "savable r' evs \<and> run_id r' = rid"
    using append_savable[OF load_reachable(1,2)[OF cd Suc.prems(1) ld] u app] load_reachable(3)[OF cd Suc.prems(1) ld] by blast
  show ?case
  proof (cases "version_of (view cd ?db1) rid = Some (run_version r)")
    case True
    from attempt_succeeds[OF cd Suc.prems(1) ok1 u ld True app] obtain x db2
      where "save cd r' evs (Some (run_version r)) ?db1 = Inr (x, db2)" "row_landed cd u rid db ?db1 db2" by blast
    then show ?thesis
      by (intro conjI exI[of _ 0]) (simp_all add: usage_attempts_loaded[OF ld app] left_by_Suc del: usage_attempts.simps(2))
  next
    case False
    have "db_ok cd ?db1" using ok1 by (simp add: store_ok_def)
    from run_store.refuses[OF sqlite_run_store[OF cd] this conjunct1[OF sv]] False sv obtain m
      where lost: "save cd r' evs (Some (run_version r)) ?db1 = Inl (ConcurrentUpdate m)" by metis
    have v0: "version_of (view cd db) rid = Some (run_version r)" by (simp add: v version_of_def)
    have "others \<noteq> []" using False v0 by (auto simp: meanwhile_def)
    have "i \<noteq> 0"
    proof
      assume "i = 0"
      with Suc.prems(6) \<open>others \<noteq> []\<close> have "version_of (view cd ?db1) rid = version_of (view cd db) rid"
        by (cases others) (auto simp: meanwhile_def)
      with False v0 show False by simp
    qed
    then obtain j where j: "i = Suc j" by (cases i) auto
    with Suc.prems(5) have n: "j < n" "n \<noteq> 0" by simp_all
    have "fst (usage_attempts cd u rid n (drop 1 others) ?db1) = Inr () \<and>
      (\<exists>k \<le> j. row_landed cd u rid (left_by k (drop 1 others) ?db1) (left_by (Suc k) (drop 1 others) ?db1)
        (snd (usage_attempts cd u rid n (drop 1 others) ?db1)))"
    proof (rule Suc.IH[OF ok1 _ _ here n(1)])
      show "\<And>f d. f \<in> set (drop 1 others) \<Longrightarrow> store_ok core cd d \<Longrightarrow> store_ok core cd (f d)"
        using Suc.prems(2) by (meson in_set_dropD)
      show "\<And>f d. f \<in> set (drop 1 others) \<Longrightarrow> store_ok core cd d \<Longrightarrow> version_of (view cd d) rid \<noteq> None \<Longrightarrow>
          version_of (view cd (f d)) rid \<noteq> None"
        using Suc.prems(3) by (meson in_set_dropD)
      show "j < length (drop 1 others) \<Longrightarrow>
          \<forall>d. version_of (view cd ((drop 1 others ! j) d)) rid = version_of (view cd d) rid"
        using Suc.prems(6) by (simp add: j)
    qed
    then show ?thesis using lost n(2) unfolding j left_by_Suc[symmetric]
      by (auto simp: usage_attempts_loaded[OF ld app] simp del: usage_attempts.simps(2) intro: exI[of _ "Suc k" for k])
  qed
qed

section \<open>Durable stores\<close>

inductive durable :: "Orchestrator \<Rightarrow> Codec \<Rightarrow> Db \<Rightarrow> bool" for core cd where
  empty: "durable core cd empty_db"
| created: "durable core cd db \<Longrightarrow> create_stored cd rid objective criteria constraints n db = Inr db' \<Longrightarrow>
    durable core cd db'"
| executed: "durable core cd db \<Longrightarrow> execute cd core c rid db = Inr db' \<Longrightarrow>
    (\<And>r. load cd rid db = Inr r \<Longrightarrow> fresh_ids r c) \<Longrightarrow> durable core cd db'"
| recorded: "durable core cd db \<Longrightarrow> durable core cd db1 \<Longrightarrow> plain_record u \<Longrightarrow> load cd rid db = Inr r \<Longrightarrow>
    append_usage u r = Inr (y, r', evs) \<Longrightarrow> save cd r' evs (Some (run_version r)) db1 = Inr (x, db2) \<Longrightarrow>
    durable core cd db2"
| erased: "durable core cd db \<Longrightarrow> durable core cd (snd (delete_run rid db))"

lemma durable_store_ok:
  assumes cd: "codec_ok cd"
  shows "durable core cd db \<Longrightarrow> store_ok core cd db"
proof (induction rule: durable.induct)
  case empty
  show ?case using empty_db_ok by (simp add: store_ok_def empty_db_def holds_def)
next
  case (created db rid objective criteria constraints n db')
  then show ?case using create_store_ok[OF cd] by blast
next
  case (executed db c rid db')
  then show ?case using execute_store_ok[OF cd] by blast
next
  case (recorded db db1 u rid r y r' evs x db2)
  from attempt_store_ok[OF cd recorded.IH recorded.hyps(3-6)] show ?case .
next
  case (erased db rid)
  then show ?case using delete_store_ok by blast
qed

end
