(* ===== verification/Codec.thy ===== *)
theory Codec
  imports Store_Laws "HOL-Library.Countable"
begin

text \<open>
  A concrete conversion between runs and JSON documents that keeps the documented round trip. Every
  record of a run is countable, so a run is written as its number beside the schema version; an event
  is written as its run, place and kind. It shows that the hypothesis on Pydantic's conversions can
  hold, and interprets the store's interface on the SQLite store.
\<close>

section \<open>The records of a run are countable\<close>

instance char :: countable
  by (rule countable_classI[of "\<lambda>c. (of_char c :: nat)"]) simp

definition decision_of :: "'a \<Rightarrow> 'a Decision_scheme" where
  "decision_of x = \<lparr>dc_id = [], dc_action = [], dc_reason = [], dc_actor_id = [], dc_context = [],
     dc_options_considered = [], dc_consequences = [], dc_affected_ids = [], dc_evidence = [], \<dots> = x\<rparr>"

lemma decision_of_inj: "decision_of x = decision_of y \<longleftrightarrow> x = y"
  by (simp add: decision_of_def)

instance ToolPolicy :: countable by countable_datatype

instance CapabilityProfile :: countable by countable_datatype

instance ResultStatus :: countable by countable_datatype

instance TaskStatus :: countable by countable_datatype

instance FailureClass :: countable by countable_datatype

instance ApprovalStatus :: countable by countable_datatype

instance CapabilityRequestStatus :: countable by countable_datatype

instance py_float :: countable by countable_datatype

instance usage_value :: countable by countable_datatype

instance TaskPacket_ext :: (countable) countable
  by (rule countable_classI[of "\<lambda>p. to_nat (tp_task_id p, tp_role p, tp_objective p, tp_deliverable p, tp_context p,
      tp_required_inputs p, tp_constraints p, tp_dependencies p,
      tp_acceptance_criteria p, tp_stop_condition p, tp_tool_policy p, TaskPacket.more p)"]) (simp add: TaskPacket.equality)

instance CriterionCheck_ext :: (countable) countable
  by (rule countable_classI[of "\<lambda>p. to_nat (cc_criterion p, cc_passed p, cc_note p, CriterionCheck.more p)"]) (simp add: CriterionCheck.equality)

instance SourceReference_ext :: (countable) countable
  by (rule countable_classI[of "\<lambda>p. to_nat (sr_title p, sr_url p, sr_note p, SourceReference.more p)"]) (simp add: SourceReference.equality)

instance CapabilityRequestPayload_ext :: (countable) countable
  by (rule countable_classI[of "\<lambda>p. to_nat (cp_requested_capability p, cp_reason p, cp_risk p, CapabilityRequestPayload.more p)"]) (simp add: CapabilityRequestPayload.equality)

instance WorkerResult_ext :: (countable) countable
  by (rule countable_classI[of "\<lambda>p. to_nat (wr_task_id p, wr_status p, wr_summary p, wr_deliverable p, wr_evidence p,
      wr_sources p, wr_assumptions p, wr_uncertainties p, wr_acceptance_check p,
      wr_blocker p, wr_capability_request p, WorkerResult.more p)"]) (simp add: WorkerResult.equality)

instance ApprovalGate_ext :: (countable) countable
  by (rule countable_classI[of "\<lambda>p. to_nat (ag_request_id p, ag_action p, ag_scope_json p, ag_scope_digest p, ApprovalGate.more p)"]) (simp add: ApprovalGate.equality)

instance WorkerAssignment_ext :: (countable) countable
  by (rule countable_classI[of "\<lambda>p. to_nat (wa_id p, wa_worker_id p, wa_task_id p, wa_capability p, wa_workspace_id p, WorkerAssignment.more p)"]) (simp add: WorkerAssignment.equality)

instance TaskNode_ext :: (countable) countable
  by (rule countable_classI[of "\<lambda>p. to_nat (tn_packet p, tn_capability p, tn_workspace_id p, tn_required_checks p,
      tn_review_required p, tn_high_risk p, tn_status p, tn_attempts p, tn_revisions p,
      tn_attempt_baseline p, tn_revision_baseline p, tn_max_attempts p,
      tn_max_revisions p, tn_assignment p, tn_assignment_history p, tn_artifact_ids p,
      tn_result p, tn_blocker p, tn_approval_gates p, tn_approval_ids p, TaskNode.more p)"]) (simp add: TaskNode.equality)

instance ArtifactValidation_ext :: (countable) countable
  by (rule countable_classI[of "\<lambda>p. to_nat (av_id p, av_artifact_id p, av_content_digest p, av_check p, av_passed p,
      av_evidence p, av_validator_id p, ArtifactValidation.more p)"]) (simp add: ArtifactValidation.equality)

instance Review_ext :: (countable) countable
  by (rule countable_classI[of "\<lambda>p. to_nat (rv_id p, rv_artifact_id p, rv_content_digest p, rv_reviewer_id p, rv_passed p,
      rv_evidence p, Review.more p)"]) (simp add: Review.equality)

instance Artifact_ext :: (countable) countable
  by (rule countable_classI[of "\<lambda>p. to_nat (ar_id p, ar_run_id p, ar_task_id p, ar_worker_id p, ar_kind p, ar_content p,
      ar_content_digest p, ar_workspace_fingerprint p, ar_version p,
      ar_predecessor_id p, ar_input_artifact_ids p, ar_status p,
      ar_integrated_commit p, ar_validations p, ar_reviews p, Artifact.more p)"]) (simp add: Artifact.equality)

instance Decision_ext :: (countable) countable
  by (rule countable_classI[of "\<lambda>p. to_nat (dc_id p, dc_action p, dc_reason p, dc_actor_id p, dc_context p,
      dc_options_considered p, dc_consequences p, dc_affected_ids p, dc_evidence p, Decision.more p)"]) (simp add: Decision.equality)

instance AcceptanceDecision_ext :: (countable) countable
proof (rule countable_classI[of "\<lambda>x. to_nat (ad_artifact_id (decision_of x), AcceptanceDecision.more (decision_of x))"])
  fix x y :: "'a AcceptanceDecision_ext"
  assume "to_nat (ad_artifact_id (decision_of x), AcceptanceDecision.more (decision_of x)) =
      to_nat (ad_artifact_id (decision_of y), AcceptanceDecision.more (decision_of y))"
  then have "decision_of x = decision_of y"
    by (intro AcceptanceDecision.equality) (simp_all add: decision_of_def)
  then show "x = y" by (simp only: decision_of_inj)
qed

instance WorkerFailure_ext :: (countable) countable
  by (rule countable_classI[of "\<lambda>p. to_nat (wf_id p, wf_task_id p, wf_classification p, wf_evidence p, WorkerFailure.more p)"]) (simp add: WorkerFailure.equality)

instance CapabilityRequest_ext :: (countable) countable
  by (rule countable_classI[of "\<lambda>p. to_nat (cr_id p, cr_run_id p, cr_task_id p, cr_assignment_id p, cr_worker_id p,
      cr_requested_capability p, cr_reason p, cr_risk p, cr_status p, cr_approval_id p,
      cr_workspace_id p, CapabilityRequest.more p)"]) (simp add: CapabilityRequest.equality)

instance RecoveryDecision_ext :: (countable) countable
proof (rule countable_classI[of "\<lambda>x. to_nat (rd_failure_id (decision_of x), RecoveryDecision.more (decision_of x))"])
  fix x y :: "'a RecoveryDecision_ext"
  assume "to_nat (rd_failure_id (decision_of x), RecoveryDecision.more (decision_of x)) =
      to_nat (rd_failure_id (decision_of y), RecoveryDecision.more (decision_of y))"
  then have "decision_of x = decision_of y"
    by (intro RecoveryDecision.equality) (simp_all add: decision_of_def)
  then show "x = y" by (simp only: decision_of_inj)
qed

instance ApprovalRequest_ext :: (countable) countable
  by (rule countable_classI[of "\<lambda>p. to_nat (aq_id p, aq_run_id p, aq_category p, aq_action p, aq_scope_json p,
      aq_scope_digest p, aq_target p, aq_rationale p, aq_risk p, aq_artifact_refs p,
      aq_requested_capability p, aq_required p, aq_status p, aq_replacement_id p, ApprovalRequest.more p)"]) (simp add: ApprovalRequest.equality)

instance ApprovalDecision_ext :: (countable) countable
  by (rule countable_classI[of "\<lambda>p. to_nat (al_request_id p, al_approved p, al_human_id p, al_reason p, al_status p, ApprovalDecision.more p)"]) (simp add: ApprovalDecision.equality)

instance ModelUsageRecord_ext :: (countable) countable
  by (rule countable_classI[of "\<lambda>p. to_nat (mu_id p, mu_run_id p, mu_task_id p, mu_assignment_id p, mu_worker_id p,
      mu_provider p, mu_model p, mu_role p, mu_input_tokens p, mu_output_tokens p,
      mu_total_tokens p, mu_usage_known p, mu_unknown_reason p, mu_raw_usage p, ModelUsageRecord.more p)"]) (simp add: ModelUsageRecord.equality)

instance ReplanProposal_ext :: (countable) countable
  by (rule countable_classI[of "\<lambda>p. to_nat (rp_id p, rp_base_revision p, rp_trigger p, rp_evidence p, rp_add p, rp_remove p,
      rp_reopen p, rp_dependencies p, rp_risks p, rp_approval_id p,
      rp_requires_approval p, ReplanProposal.more p)"]) (simp add: ReplanProposal.equality)

instance WorkPlan_ext :: (countable) countable
  by (rule countable_classI[of "\<lambda>p. to_nat (wp_objective p, wp_completion_criteria p, wp_task_ids p, wp_assumptions p,
      wp_risks p, wp_status p, wp_revision p, wp_max_replans p, wp_revision_history p, WorkPlan.more p)"]) (simp add: WorkPlan.equality)

instance Run_ext :: (countable) countable
  by (rule countable_classI[of "\<lambda>p. to_nat (run_schema_version p, run_id p, run_version p, run_objective p,
      run_constraints p, run_status p, run_plan p, run_tasks p, run_artifacts p,
      run_accepted_artifacts p, run_available_inputs p, run_decisions p,
      run_usage_records p, run_acceptances p, run_failures p, run_recoveries p,
      run_approvals p, run_approval_decisions p, run_capability_requests p,
      run_replans p, run_unresolved_issues p, run_event_cursor p, run_final_result p, Run.more p)"]) (simp add: Run.equality)

section \<open>The conversion\<close>

definition run_document :: "Run \<Rightarrow> json" where
  "run_document r = JObj [(''schema_version'', JInt (run_schema_version r)), (''run'', JInt (int (to_nat r)))]"

fun document_run :: "json \<Rightarrow> SchemaError list + Run" where
  "document_run (JObj [(k, v), (k', JInt n)]) = Inr (from_nat (nat n))"
| "document_run doc = Inl [\<lparr>se_loc = [], se_type = ''missing'', se_msg = ''Field required''\<rparr>]"

definition bare_event :: "Event \<Rightarrow> Event" where
  "bare_event e = e\<lparr>ev_data := []\<rparr>"

definition event_document :: "Event \<Rightarrow> json" where
  "event_document e = JArr [JStr (ev_run_id e), JInt (ev_sequence e), JStr (ev_kind e)]"

fun document_event :: "json \<Rightarrow> py_error + Event" where
  "document_event (JArr [JStr rid, JInt n, JStr kind]) =
     Inr \<lparr>ev_run_id = rid, ev_sequence = n, ev_kind = kind, ev_data = []\<rparr>"
| "document_event doc = Inl (ValidationError ''Event'')"

definition codec0 :: Codec where
  "codec0 = \<lparr>cd_dump = run_document, cd_validate = document_run, cd_dump_event = event_document,
     cd_validate_event = document_event, cd_wire = bare_event\<rparr>"

lemma codec0_ok: "codec_ok codec0"
  by (simp add: codec_ok_def codec0_def run_document_def event_document_def bare_event_def)

interpretation sqlite: run_store "view codec0" "save codec0" "db_ok codec0" "cd_wire codec0"
  by (rule sqlite_run_store[OF codec0_ok])

end
