(* ===== verification/Scenario.thy ===== *)
theory Scenario
  imports System
begin

text \<open>
  A concrete run, used to show that the properties' hypotheses can hold: one objective, a research
  task and a task that consumes its output, driven through delegation, review and acceptance.
\<close>

section \<open>Sequences of commands\<close>

text \<open>Running commands in order on a snapshot, the terminal gate and freshness included.\<close>

fun trace :: "Orchestrator \<Rightarrow> command list \<Rightarrow> Run \<Rightarrow> py_error + Run" where
  "trace core [] r = Inr r"
| "trace core (c # cs) r =
     (if fresh_ids r c then bind_ok (mutate core c r) (\<lambda>(r', evs). trace core cs r')
      else Inl (ValueError ''identifier is not fresh''))"

lemma trace_reachable: "trace core cs r = Inr r' \<Longrightarrow> reachable core r \<Longrightarrow> reachable core r'"
proof (induction core cs r rule: trace.induct)
  case (1 core r)
  then show ?case by simp
next
  case (2 core c cs r)
  from "2.prems"(1) obtain r1 evs where new: "fresh_ids r c" and one: "mutate core c r = Inr (r1, evs)"
    and rest: "trace core cs r1 = Inr r'" by (auto simp: bind_ok_Inr_iff split: if_splits)
  from reachable.changed[OF "2.prems"(2) step.command[OF one new]]
  show ?case using "2.IH"[OF new one refl rest] by blast
qed

section \<open>The run\<close>

definition core0 :: Orchestrator where
  "core0 = \<lparr>o_manager_id = ''manager'', o_sha256 = (\<lambda>s. s)\<rparr>"

definition packet0 :: "ident \<Rightarrow> ident list \<Rightarrow> TaskPacket" where
  "packet0 k deps = \<lparr>tp_task_id = k, tp_role = ''researcher'', tp_objective = ''find'', tp_deliverable = ''text'',
     tp_context = '''', tp_required_inputs = [], tp_constraints = [], tp_dependencies = deps,
     tp_acceptance_criteria = [''sourced''], tp_stop_condition = ''done'', tp_tool_policy = tool_model_only\<rparr>"

definition task0 :: "ident \<Rightarrow> ident list \<Rightarrow> TaskNode" where
  "task0 k deps = \<lparr>tn_packet = packet0 k deps, tn_capability = MODEL_ONLY, tn_workspace_id = None,
     tn_required_checks = [''facts''], tn_review_required = False, tn_high_risk = False,
     tn_status = PLANNED, tn_attempts = 0, tn_revisions = 0, tn_attempt_baseline = 0,
     tn_revision_baseline = 0, tn_max_attempts = 3, tn_max_revisions = 2, tn_assignment = None,
     tn_assignment_history = [], tn_artifact_ids = [], tn_result = None, tn_blocker = None,
     tn_approval_gates = [], tn_approval_ids = []\<rparr>"

definition result0 :: "ident \<Rightarrow> WorkerResult" where
  "result0 k = \<lparr>wr_task_id = k, wr_status = result_completed, wr_summary = ''ok'', wr_deliverable = ''found'',
     wr_evidence = [], wr_sources = [], wr_assumptions = [], wr_uncertainties = [],
     wr_acceptance_check = [], wr_blocker = None, wr_capability_request = None\<rparr>"

definition run0 :: Run where
  "run0 = initial_run ''run'' ''objective'' [] (initial_plan ''objective'' [''met''] 3)"

definition planning0 :: "command list" where
  "planning0 = [Plan_Tasks [task0 ''t1'' [], task0 ''t2'' [''t1'']]]"

definition produce0 :: "ident \<Rightarrow> ident \<Rightarrow> ident \<Rightarrow> command list" where
  "produce0 k aid w =
     [Delegate (''as-'' @ k) k w, Start k, Submit aid k (''as-'' @ k) w (result0 k) None]"

definition judge0 :: "ident \<Rightarrow> ident \<Rightarrow> command list" where
  "judge0 k aid =
     [Validate (''v-'' @ k) aid ''facts'' True ''checked'' ''checker'' None,
      Accept (''d-'' @ k) k None ''good'' None]"

definition half0 :: "command list" where
  "half0 = planning0 @ produce0 ''t1'' ''a1'' ''w1'' @ judge0 ''t1'' ''a1''"

definition full0 :: "command list" where
  "full0 = half0 @ produce0 ''t2'' ''a2'' ''w1'' @ judge0 ''t2'' ''a2''"

text \<open>The snapshot a sequence of commands leads to (the initial one if it raises).\<close>

definition after0 :: "command list \<Rightarrow> Run" where
  "after0 cs = (case trace core0 cs run0 of Inl e \<Rightarrow> run0 | Inr r \<Rightarrow> r)"

lemma run0_reachable: "reachable core0 run0"
proof -
  have "create_run ''run'' ''objective'' [''met''] [] 3 = Inr (run0, [event run0 ''run.created'' []])"
    unfolding create_run_Inr run0_def by (simp add: substantive_iff) code_simp
  then show ?thesis by (rule reachable.created)
qed

lemma after0_reachable: "reachable core0 (after0 cs)"
  using trace_reachable[OF _ run0_reachable] run0_reachable
  by (auto simp: after0_def split: sum.splits)

text \<open>What the properties read of a snapshot, evaluated once for a whole sequence.\<close>

definition observed :: "Run \<Rightarrow> string \<times> ident list \<times> (ident \<times> TaskStatus \<times> int \<times> int) list" where
  "observed r = (run_status r, run_accepted_artifacts r,
     map (\<lambda>(k, t). (k, tn_status t, tn_attempts t, tn_max_attempts t)) (run_tasks r))"

lemma full0_observed:
  "observed (after0 full0) = (''active'', [''a1'', ''a2''],
     [(''t1'', ACCEPTED, 1, 3), (''t2'', ACCEPTED, 1, 3)])"
  by code_simp

lemma full0_facts:
  "run_status (after0 full0) = ''active''" "run_accepted_artifacts (after0 full0) = [''a1'', ''a2'']"
  "\<exists>t. map_of (run_tasks (after0 full0)) ''t1'' = Some t \<and> tn_status t = ACCEPTED \<and>
     tn_attempts t = 1 \<and> tn_max_attempts t = 3"
  "\<exists>t. map_of (run_tasks (after0 full0)) ''t2'' = Some t \<and> tn_status t = ACCEPTED \<and>
     tn_attempts t = 1 \<and> tn_max_attempts t = 3"
  using full0_observed
  by (auto simp: observed_def map_eq_Cons_conv split: prod.splits)

section \<open>More of its life\<close>

text \<open>An operation on a snapshot succeeds.\<close>

definition succeeds :: "'a op_result \<Rightarrow> bool" where
  "succeeds m = (case m of Inl e \<Rightarrow> False | Inr x \<Rightarrow> True)"

lemma succeedsE: "succeeds m \<Longrightarrow> \<exists>x r' evs. m = Inr (x, r', evs)"
  by (cases m) (auto simp: succeeds_def)

text \<open>The first task is delegated and fails because of the provider.\<close>

definition failing0 :: "command list" where
  "failing0 = planning0 @ [Delegate ''as'' ''t1'' ''w1'', Start ''t1'', Fail ''f1'' ''t1'' PROVIDER_FAILURE ''down'']"

lemma failing0_recovers: "succeeds (recover core0 ''rc'' ''f1'' ''again'' ''manager'' (after0 failing0))"
  by code_simp

text \<open>A candidate with a failed check.\<close>

definition failed0 :: "command list" where
  "failed0 = planning0 @ produce0 ''t1'' ''a1'' ''w1'' @
     [Validate ''v'' ''a1'' ''facts'' False ''wrong'' ''checker'' None]"

definition evidence_of :: "Run \<Rightarrow> (ident \<times> ident list) list \<times> (ident \<times> ident \<times> bool list) list" where
  "evidence_of r = (map (\<lambda>(k, t). (k, tn_artifact_ids t)) (run_tasks r),
     map (\<lambda>(k, a). (k, ar_task_id a, map av_passed (ar_validations a))) (run_artifacts r))"

lemma failed0_evidence:
  "evidence_of (after0 failed0) = ([(''t1'', [''a1'']), (''t2'', [])], [(''a1'', ''t1'', [False])])"
  by code_simp

lemma failed0_facts:
  "\<exists>t a v. map_of (run_tasks (after0 failed0)) ''t1'' = Some t \<and> last_opt (tn_artifact_ids t) = Some ''a1'' \<and>
     map_of (run_artifacts (after0 failed0)) ''a1'' = Some a \<and> ar_task_id a = ''t1'' \<and>
     v \<in> set (ar_validations a) \<and> \<not> av_passed v"
  using failed0_evidence
  by (auto simp: evidence_of_def map_eq_Cons_conv last_opt_def[of "[y]" for y] split: prod.splits)

text \<open>A usage record.\<close>

definition usage0 :: ModelUsageRecord where
  "usage0 = \<lparr>mu_id = ''u'', mu_run_id = ''run'', mu_task_id = None, mu_assignment_id = None,
     mu_worker_id = None, mu_provider = ''openrouter'', mu_model = ''m'', mu_role = ''manager'',
     mu_input_tokens = Some 3, mu_output_tokens = Some 4, mu_total_tokens = Some 7,
     mu_usage_known = True, mu_unknown_reason = None, mu_raw_usage = []\<rparr>"

text \<open>The whole plan is accepted, so the run can be completed.\<close>

lemma full0_completes: "succeeds (complete_run ''report'' [(''met'', [''a2''])] (after0 full0))"
  by code_simp

text \<open>A replan that reopens the first task without asking a human.\<close>

definition proposal0 :: ReplanProposal where
  "proposal0 = \<lparr>rp_id = ''rp'', rp_base_revision = 0, rp_trigger = ''new facts'', rp_evidence = [],
     rp_add = [], rp_remove = [], rp_reopen = [''t1''], rp_dependencies = [], rp_risks = [],
     rp_approval_id = None, rp_requires_approval = False\<rparr>"

definition replanning0 :: "command list" where
  "replanning0 = full0 @ [Propose_Replan proposal0]"

lemma replanning0_applies: "succeeds (apply_replan core0 ''rp'' (after0 replanning0))"
  by code_simp

text \<open>A capability change under an approval of exactly that change.\<close>

definition approving0 :: "command list" where
  "approving0 = planning0 @
     [Request_Approval ''ap'' ''change_capability'' (capability_scope ''t1'' RESEARCHER None) ''needs sources''
        None None ''material action'' [] None True None,
      Decide_Approval ''ap'' True ''operator'' ''fine'']"

lemma approving0_changes: "succeeds (change_capability core0 ''t1'' RESEARCHER ''ap'' None (after0 approving0))"
  by code_simp

definition approval_status :: "Run \<Rightarrow> (ident \<times> ApprovalStatus \<times> ident option) list" where
  "approval_status r = map (\<lambda>(k, q). (k, aq_status q,
     map_option al_human_id (map_of (run_approval_decisions r) k))) (run_approvals r)"

lemma approving0_status: "approval_status (after0 approving0) = [(''ap'', AP_APPROVED, Some ''operator'')]"
  by code_simp

lemma approving0_facts:
  "\<exists>q d. map_of (run_approvals (after0 approving0)) ''ap'' = Some q \<and> aq_status q = AP_APPROVED \<and>
     map_of (run_approval_decisions (after0 approving0)) ''ap'' = Some d \<and> al_human_id d = ''operator''"
  using approving0_status by (auto simp: approval_status_def map_eq_Cons_conv)

text \<open>The run once completed.\<close>

definition closing0 :: "command list" where
  "closing0 = full0 @ [Complete ''report'' [(''met'', [''a2''])]]"

lemma closing0_observed: "fst (observed (after0 closing0)) = ''completed''"
  by code_simp

end
