(* ===== verification/Persistence.thy ===== *)
theory Persistence
  imports Durable Codec Scenario
begin

text \<open>
  What the run store guarantees its callers, over the store interface and the durable invariant:
  saved runs read back, stale writers lose, logs have no gaps, every run on disk is reachable, usage
  survives races, and erasing a run erases all of it. The witnesses run the kernel on an empty store
  with the conversion of \<open>Codec\<close>.
\<close>

lemma view_Some: "view cd db rid = Some (r, es) \<longleftrightarrow> load cd rid db = Inr r \<and> events cd rid db = Inr es"
  by (auto simp: view_def split: sum.splits)

section \<open>A concrete store\<close>

definition record0 :: ModelUsageRecord where
  "record0 = usage0\<lparr>mu_raw_usage := []\<rparr>"

lemma record0_plain: "plain_record record0"
  by (simp add: record0_def plain_record_def)

lemma create0_Inr:
  obtains evs where "create_run ''run'' ''objective'' [''met''] [] 3 = Inr (run0, evs)"
    "savable run0 evs" "reachable core0 run0"
proof -
  have new: "create_run ''run'' ''objective'' [''met''] [] 3 = Inr (run0, [event run0 ''run.created'' []])"
    unfolding create_run_Inr run0_def by (simp add: substantive_iff) code_simp
  note re = run0_reachable
  have "savable run0 [event run0 ''run.created'' []]" using new reachable_schema[OF re]
    by (auto simp: savable_def create_run_Inr plain_run_def run0_def initial_run_def)
  with new re show thesis using that by blast
qed

text \<open>The store after the run has been created, and its only run.\<close>

definition saved0 :: Run where
  "saved0 = saved_run run0 None 1"

lemma view_empty: "view cd empty_db = Map.empty"
  by (rule ext) (simp add: view_None empty_db_def)

lemma created0:
  obtains db where "create_stored codec0 ''run'' ''objective'' [''met''] [] 3 empty_db = Inr db"
    "durable core0 codec0 db" "load codec0 ''run'' db = Inr saved0" "version_of (view codec0 db) ''run'' = Some 1"
proof -
  obtain evs where new: "create_run ''run'' ''objective'' [''met''] [] 3 = Inr (run0, evs)" and sv: "savable run0 evs"
    by (rule create0_Inr)
  have one: "length evs = 1" using new by (auto simp: create_run_Inr)
  have rid: "run_id run0 = ''run''" by (simp add: run0_def initial_run_def)
  have "version_of (view codec0 empty_db) (run_id run0) = None" by (simp add: view_empty version_of_def)
  from save_commits[OF codec0_ok empty_db_ok sv this] obtain old c db where
    old: "log_of (view codec0 empty_db) (run_id run0) = map (cd_wire codec0) old"
    and save: "save codec0 run0 evs None empty_db = Inr (c, db)"
    and c: "c = saved_run run0 None (int (length old + length evs))"
    and h: "holds codec0 (run_id run0) c (old @ numbered (length old) evs) db" by metis
  from old have "old = []" by (simp add: view_empty log_of_def)
  with c one have "c = saved0" by (simp add: saved0_def)
  with h rid have "load codec0 ''run'' db = Inr saved0" using holds_read(1)[OF codec0_ok] by metis
  moreover have create: "create_stored codec0 ''run'' ''objective'' [''met''] [] 3 empty_db = Inr db"
    using new save by (simp add: create_stored_def)
  moreover have "durable core0 codec0 db" by (rule durable.created[OF durable.empty create])
  moreover have "version_of (view codec0 db) ''run'' = Some 1"
    using view_holds[OF codec0_ok h] rid \<open>c = saved0\<close>
    by (simp add: version_of_def saved0_def saved_run_def)
  ultimately show thesis using that by blast
qed

text \<open>Every run the kernel can reach can be on disk.\<close>

lemma stored_run:
  assumes re: "reachable core0 r" and plain: "plain_run r"
  obtains db n where "store_ok core0 codec0 db" "load codec0 (run_id r) db = Inr (saved_run r None n)"
proof -
  have sv: "savable r [event r ''run.created'' []]"
    using plain reachable_schema[OF re] by (simp add: savable_def event_def)
  have "version_of (view codec0 empty_db) (run_id r) = None" by (simp add: view_empty version_of_def)
  from save_commits[OF codec0_ok empty_db_ok sv this] obtain old c db where
    save: "save codec0 r [event r ''run.created'' []] None empty_db = Inr (c, db)"
    and c: "c = saved_run r None (int (length old + length [event r ''run.created'' []]))"
    and h: "holds codec0 (run_id r) c (old @ numbered (length old) [event r ''run.created'' []]) db" by metis
  have "store_ok core0 codec0 empty_db" by (rule durable_store_ok[OF codec0_ok durable.empty])
  from save_store_ok[OF codec0_ok this sv re save] holds_read(1)[OF codec0_ok h, unfolded c] that show thesis by blast
qed

section \<open>Saving\<close>

text \<open>
  C14 (roundtrip). A run saved reads back exactly as the store stamped it, one version up and with the
  cursor at the end of its log; its events follow the ones already there, numbered without a gap, and
  every other run reads as before.
\<close>

theorem saved_runs_read_back:
  assumes "codec_ok cd" and "db_ok cd db" and "savable r evs" and "save cd r evs expected db = Inr (c, db')"
  shows "load cd (run_id r) db' = Inr c \<and>
    (\<exists>old. (old = [] \<or> events cd (run_id r) db = Inr old) \<and>
       c = saved_run r expected (int (length old + length evs)) \<and>
       events cd (run_id r) db' = Inr (old @ map (cd_wire cd) (numbered (length old) evs))) \<and>
    (\<forall>rid. rid \<noteq> run_id r \<longrightarrow> view cd db' rid = view cd db rid)"
proof -
  note S = run_store.saved[OF sqlite_run_store[OF assms(1)] assms(2-4)]
  let ?old = "log_of (view cd db) (run_id r)"
  from S(4) have v: "view cd db' (run_id r) = Some (c, ?old @ map (cd_wire cd) (numbered (length ?old) evs))" by simp
  have old: "?old = [] \<or> events cd (run_id r) db = Inr ?old"
    by (simp add: log_of_def view_def split: sum.splits)
  from v have "load cd (run_id r) db' = Inr c"
    "events cd (run_id r) db' = Inr (?old @ map (cd_wire cd) (numbered (length ?old) evs))"
    by (auto simp only: view_Some)
  with old S(3) have "load cd (run_id r) db' = Inr c \<and> (\<exists>old. (old = [] \<or> events cd (run_id r) db = Inr old) \<and>
       c = saved_run r expected (int (length old + length evs)) \<and>
       events cd (run_id r) db' = Inr (old @ map (cd_wire cd) (numbered (length old) evs)))" by blast
  moreover have "\<forall>rid. rid \<noteq> run_id r \<longrightarrow> view cd db' rid = view cd db rid" by (simp add: S(4))
  ultimately show ?thesis by blast
qed

theorem saved_runs_read_back_witness:
  "\<exists>c db evs. save codec0 run0 evs None empty_db = Inr (c, db) \<and> load codec0 (run_id run0) db = Inr c"
proof -
  obtain evs where sv: "savable run0 evs" by (rule create0_Inr)
  have "version_of (view codec0 empty_db) (run_id run0) = None" by (simp add: view_empty version_of_def)
  from run_store.commits[OF sqlite_run_store[OF codec0_ok] empty_db_ok sv this] obtain c db where
    save: "save codec0 run0 evs None empty_db = Inr (c, db)" by blast
  from saved_runs_read_back[OF codec0_ok empty_db_ok sv save] save show ?thesis by blast
qed

text \<open>
  C16 (error). A save succeeds exactly when the version the caller expects is the stored one; on any
  other it raises \<open>ConcurrentUpdate\<close>.
\<close>

theorem save_checks_the_version:
  assumes "codec_ok cd" and "db_ok cd db" and "savable r evs"
  shows "if version_of (view cd db) (run_id r) = expected then \<exists>c db'. save cd r evs expected db = Inr (c, db')
    else \<exists>m. save cd r evs expected db = Inl (ConcurrentUpdate m)"
  using run_store.commits[OF sqlite_run_store[OF assms(1)] assms(2,3)]
    run_store.refuses[OF sqlite_run_store[OF assms(1)] assms(2,3)] by (auto split: if_split)

theorem save_checks_the_version_witness:
  "\<exists>evs m. save codec0 run0 evs (Some 4) empty_db = Inl (ConcurrentUpdate m)"
proof -
  obtain evs where sv: "savable run0 evs" by (rule create0_Inr)
  from save_checks_the_version[OF codec0_ok empty_db_ok sv, of "Some 4"] show ?thesis
    by (auto simp: view_empty version_of_def)
qed

text \<open>
  C15 (safety). No update is lost: of two writers that loaded the same version of a run, once one has
  saved the other's save raises.
\<close>

theorem no_update_is_lost:
  assumes "codec_ok cd" and "db_ok cd db" and "savable r1 evs1" and "savable r2 evs2"
    and "run_id r1 = run_id r2" and "save cd r1 evs1 (Some v) db = Inr (c, db')"
  shows "\<exists>m. save cd r2 evs2 (Some v) db' = Inl (ConcurrentUpdate m)"
  by (rule run_store.no_lost_update[OF sqlite_run_store[OF assms(1)] assms(2-6)])

theorem no_update_is_lost_witness:
  "\<exists>db r evs c db' m. save codec0 r evs (Some 1) db = Inr (c, db') \<and>
     save codec0 r evs (Some 1) db' = Inl (ConcurrentUpdate m)"
proof (rule created0)
  fix db
  assume db: "durable core0 codec0 db" and ld: "load codec0 ''run'' db = Inr saved0"
    and v: "version_of (view codec0 db) ''run'' = Some 1"
  have ok: "db_ok codec0 db" using durable_store_ok[OF codec0_ok db] by (simp add: store_ok_def)
  obtain y r evs where app: "append_usage record0 saved0 = Inr (y, r, evs)" by (simp add: append_usage_def Let_def)
  note one = load_reachable[OF codec0_ok durable_store_ok[OF codec0_ok db] ld]
  with append_savable[OF _ _ record0_plain app] have sv: "savable r evs" "run_id r = ''run''" by auto
  from run_store.commits[OF sqlite_run_store[OF codec0_ok] ok sv(1), of "Some 1"] v sv(2) obtain c db' where
    save: "save codec0 r evs (Some 1) db = Inr (c, db')" by auto
  from no_update_is_lost[OF codec0_ok ok sv(1) sv(1) refl save] save show ?thesis by blast
qed

section \<open>Durable stores\<close>

text \<open>
  C17 (refinement). Every run a durable store lists loads, and is a run the kernel can reach, so all
  that holds of reachable runs holds of what is on disk; its log is complete, and the cheap version
  query agrees with the snapshot.
\<close>

theorem stored_runs_are_reachable:
  assumes "codec_ok cd" and "durable core cd db" and "rid \<in> set (run_ids db)"
  shows "\<exists>r es. load cd rid db = Inr r \<and> run_id r = rid \<and> reachable core r \<and> events cd rid db = Inr es \<and>
    map ev_sequence es = map int [1..<Suc (length es)] \<and> run_event_cursor r = int (length es) \<and>
    version_info rid db = Inr (run_version r, int (length es))"
proof -
  note ok = durable_store_ok[OF assms(1,2)]
  from assms(3) obtain x where "map_of (db_runs db) rid = Some x"
    by (auto simp: run_ids_def dest: weak_map_of_SomeI)
  with ok obtain r es where h: "holds cd rid r es db" unfolding store_ok_def db_ok_def by blast
  moreover from h ok have "reachable core r" unfolding store_ok_def by blast
  moreover from h have "map ev_sequence (map (cd_wire cd) es) = map int [1..<Suc (length es)]"
    using assms(1) by (simp add: holds_def logged_def codec_ok_def comp_def)
  ultimately show ?thesis using holds_read[OF assms(1) h]
    by (intro exI[of _ r] exI[of _ "map (cd_wire cd) es"]) (simp add: holds_def del: upt_Suc)
qed

theorem stored_runs_are_reachable_witness:
  "\<exists>db r. load codec0 ''run'' db = Inr r \<and> reachable core0 r"
proof (rule created0)
  fix db
  assume db: "durable core0 codec0 db" and ld: "load codec0 ''run'' db = Inr saved0"
  have "map_of (db_runs db) ''run'' \<noteq> None"
  proof
    assume "map_of (db_runs db) ''run'' = None"
    with ld show False by (simp add: load_def)
  qed
  then have "''run'' \<in> fst ` set (db_runs db)" by (simp only: map_of_eq_None_iff not_not)
  then have "''run'' \<in> set (run_ids db)" by (simp add: run_ids_def)
  from stored_runs_are_reachable[OF codec0_ok db this] show ?thesis by blast
qed

text \<open>
  Erasing a run removes its row, its events and its migration backups, reports whether
  it was there, and leaves every other run as it was; the store is as if the run had never been.
\<close>

theorem erasing_is_complete:
  "load cd rid (snd (delete_run rid db)) = Inl (KeyError rid) \<and>
   (fst (delete_run rid db) \<longleftrightarrow> rid \<in> set (run_ids db)) \<and>
   rid \<notin> fst ` set (db_events (snd (delete_run rid db))) \<and>
   rid \<notin> fst ` set (db_backups (snd (delete_run rid db))) \<and>
   run_ids (snd (delete_run rid db)) = filter (\<lambda>k. k \<noteq> rid) (run_ids db) \<and>
   view cd (snd (delete_run rid db)) = (view cd db)(rid := None)"
proof -
  have "filter (\<lambda>k. k \<noteq> rid) (sort (map fst (db_runs db))) =
      sort (map fst (filter (\<lambda>row. fst row \<noteq> rid) (db_runs db)))"
    by (simp add: filter_sort filter_map comp_def)
  moreover have "view cd (snd (delete_run rid db)) = (view cd db)(rid := None)"
  proof
    fix other
    show "view cd (snd (delete_run rid db)) other = ((view cd db)(rid := None)) other"
    proof (cases "other = rid")
      case True
      then show ?thesis by (simp add: view_None delete_run_def map_of_filter_key)
    next
      case False
      have "view cd (snd (delete_run rid db)) other = view cd db other"
        by (rule view_other) (use False in \<open>auto simp: delete_run_def map_of_filter_key rows_of_def
          intro!: arg_cong[where f = "map snd"] filter_cong\<close>)
      with False show ?thesis by simp
    qed
  qed
  ultimately show ?thesis
    unfolding delete_run_def load_def run_ids_def fst_conv snd_conv Db.simps map_of_filter_key fst_filter_key
    by (intro conjI) simp_all
qed

text \<open>
  C18 (liveness). A model call's usage is recorded whatever other writers do, unless each of the five
  attempts is raced: if some attempt finds the run unchanged since its load, recording returns, and
  the store then holds the run as that attempt or an earlier one loaded it, with the call's row
  appended to its usage records and one version up; every other run is as the others left it.
\<close>

theorem usage_survives_races:
  assumes "codec_ok cd" and "plain_record u" and "store_ok core cd db" and "version_of (view cd db) rid \<noteq> None"
    and "\<And>f d. f \<in> set others \<Longrightarrow> store_ok core cd d \<Longrightarrow> store_ok core cd (f d)"
    and "\<And>f d. f \<in> set others \<Longrightarrow> store_ok core cd d \<Longrightarrow> version_of (view cd d) rid \<noteq> None \<Longrightarrow>
        version_of (view cd (f d)) rid \<noteq> None"
    and "i < USAGE_RECORD_ATTEMPTS"
    and "i < length others \<Longrightarrow> \<forall>d. version_of (view cd ((others ! i) d)) rid = version_of (view cd d) rid"
    and "record_usage cd u rid others db = (res, db')"
  shows "res = Inr () \<and> store_ok core cd db' \<and>
    (\<exists>k \<le> i. \<exists>r r'. load cd rid (left_by k others db) = Inr r \<and> load cd rid db' = Inr r' \<and>
       r' = r\<lparr>run_usage_records := run_usage_records r @ [u\<lparr>mu_run_id := rid\<rparr>],
         run_version := run_version r + 1, run_event_cursor := run_event_cursor r'\<rparr> \<and>
       (\<forall>other. other \<noteq> rid \<longrightarrow> view cd db' other = view cd (left_by (Suc k) others db) other))"
proof -
  have "store_ok core cd (snd (record_usage cd u rid others db))"
    unfolding record_usage_def using assms(3,5) by (rule usage_attempts_store_ok[OF assms(1,2)])
  moreover have "fst (record_usage cd u rid others db) = Inr () \<and>
     (\<exists>k \<le> i. row_landed cd u rid (left_by k others db) (left_by (Suc k) others db)
        (snd (record_usage cd u rid others db)))"
    unfolding record_usage_def using assms(3,5,6,4,7,8) by (rule usage_attempts_succeeds[OF assms(1,2)])
  ultimately show ?thesis unfolding assms(9) row_landed_def by simp
qed

theorem usage_survives_races_witness:
  "\<exists>db db' r'. record_usage codec0 record0 ''run'' [\<lambda>d. d] db = (Inr (), db') \<and>
     load codec0 ''run'' db = Inr saved0 \<and> load codec0 ''run'' db' = Inr r' \<and>
     run_usage_records r' = [record0]"
proof (rule created0)
  fix db
  assume db: "durable core0 codec0 db" and v: "version_of (view codec0 db) ''run'' = Some 1"
    and ld: "load codec0 ''run'' db = Inr saved0"
  obtain res db' where eq: "record_usage codec0 record0 ''run'' [\<lambda>d. d] db = (res, db')"
    by (cases "record_usage codec0 record0 ''run'' [\<lambda>d. d] db")
  have "\<exists>k \<le> 0. \<exists>r r'. load codec0 ''run'' (left_by k [\<lambda>d. d] db) = Inr r \<and> load codec0 ''run'' db' = Inr r' \<and>
       r' = r\<lparr>run_usage_records := run_usage_records r @ [record0\<lparr>mu_run_id := ''run''\<rparr>],
         run_version := run_version r + 1, run_event_cursor := run_event_cursor r'\<rparr>"
    and res: "res = Inr ()"
    using usage_survives_races[OF codec0_ok record0_plain durable_store_ok[OF codec0_ok db], of "''run''" _ 0, OF _ _ _ _ _ eq]
    by (auto simp: v USAGE_RECORD_ATTEMPTS_def)
  then obtain r' where ld': "load codec0 ''run'' db' = Inr r'"
    and r': "r' = saved0\<lparr>run_usage_records := run_usage_records saved0 @ [record0\<lparr>mu_run_id := ''run''\<rparr>],
         run_version := run_version saved0 + 1, run_event_cursor := run_event_cursor r'\<rparr>"
    using ld by auto
  have "run_usage_records r' = [record0]"
    unfolding arg_cong[OF r', of run_usage_records]
    by (simp add: saved0_def saved_run_def run0_def initial_run_def record0_def usage0_def)
  with eq res ld ld' show ?thesis by blast
qed

end
