(* ===== verification/Text.thy ===== *)
theory Text
  imports Prelude
begin

text \<open>
  The string methods of Python that the presentation and the planner use: splitting into words and
  lines, searching, partitioning and replacing. As in the prelude a \<open>str\<close> holds code points below
  256; case mapping is that of the ASCII range.
\<close>

section \<open>Searching\<close>

text \<open>
  \<open>cut p s\<close> is what \<open>s.split(p, 1)\<close> splits: the text before and after the first \<open>p\<close>, None when there is
  none; \<open>rcut\<close> cuts at the last one, as \<open>rpartition\<close> does.
\<close>

fun cut :: "string \<Rightarrow> string \<Rightarrow> (string \<times> string) option" where
  "cut p [] = (if p = [] then Some ([], []) else None)"
| "cut p (c # cs) =
     (if starts_with (c # cs) p then Some ([], drop (length p) (c # cs))
      else map_option (\<lambda>(a, b). (c # a, b)) (cut p cs))"

fun rcut :: "string \<Rightarrow> string \<Rightarrow> (string \<times> string) option" where
  "rcut p [] = (if p = [] then Some ([], []) else None)"
| "rcut p (c # cs) =
     (case rcut p cs of
        Some (a, b) \<Rightarrow> Some (c # a, b)
      | None \<Rightarrow> if starts_with (c # cs) p then Some ([], drop (length p) (c # cs)) else None)"

text \<open>\<open>p in s\<close>\<close>

definition contains :: "string \<Rightarrow> string \<Rightarrow> bool" where
  "contains p s = (cut p s \<noteq> None)"

definition ends_with :: "string \<Rightarrow> string \<Rightarrow> bool" where
  "ends_with s p = starts_with (rev s) (rev p)"

lemma starts_with_iff: "starts_with s p \<longleftrightarrow> (\<exists>t. s = p @ t)"
  unfolding starts_with_def by (metis append_eq_conv_conj append_take_drop_id)

lemma cut_Some: "cut p s = Some (a, b) \<Longrightarrow> s = a @ p @ b"
proof (induct s arbitrary: a)
  case Nil
  then show ?case by (simp split: if_splits)
next
  case (Cons c cs)
  show ?case
  proof (cases "starts_with (c # cs) p")
    case True
    then obtain t where t: "c # cs = p @ t" by (auto simp only: starts_with_iff)
    from Cons.prems True have "a = []" and "b = drop (length p) (c # cs)" by auto
    with t show ?thesis by simp
  next
    case False
    with Cons.prems obtain a' where "cut p cs = Some (a', b)" and "a = c # a'" by auto
    with Cons.hyps show ?thesis by simp
  qed
qed

lemma cut_append: "cut p (a @ p @ b) \<noteq> None"
proof (induct a)
  case Nil
  show ?case
  proof (cases "p @ b")
    case (Cons c cs)
    with starts_with_append[of p b] have "starts_with (c # cs) p" by simp
    then show ?thesis by (simp add: Cons)
  qed simp
next
  case (Cons c cs)
  then show ?case by (cases "starts_with (c # cs @ p @ b) p") auto
qed

lemma contains_iff: "contains p s \<longleftrightarrow> (\<exists>a b. s = a @ p @ b)"
  unfolding contains_def
proof
  assume "cut p s \<noteq> None"
  then obtain a b where "cut p s = Some (a, b)" by auto
  from cut_Some[OF this] show "\<exists>a b. s = a @ p @ b" by blast
next
  assume "\<exists>a b. s = a @ p @ b"
  then show "cut p s \<noteq> None" using cut_append by blast
qed

section \<open>Splitting\<close>

text \<open>\<open>s.split()\<close>: the words of \<open>s\<close>.\<close>

function words :: "string \<Rightarrow> string list" where
  "words s = (case dropWhile py_space s of
      [] \<Rightarrow> []
    | c # cs \<Rightarrow> (c # takeWhile (\<lambda>x. \<not> py_space x) cs) # words (dropWhile (\<lambda>x. \<not> py_space x) cs))"
  by auto
termination
proof (relation "measure length", goal_cases)
  case (2 s c cs)
  have "length (dropWhile (\<lambda>x. \<not> py_space x) cs) \<le> length cs" by (rule length_dropWhile_le)
  also have "\<dots> < length (c # cs)" by simp
  also have "\<dots> \<le> length s" using length_dropWhile_le[of py_space s] 2 by simp
  finally show ?case by simp
qed simp

declare words.simps [simp del]

lemma words_spaceless:
  "w \<in> set (words s) \<Longrightarrow> w \<noteq> [] \<and> (\<forall>c \<in> set w. \<not> py_space c \<and> c \<in> set s)"
proof (induct s arbitrary: w rule: words.induct)
  case (1 s)
  show ?case
  proof (cases "dropWhile py_space s")
    case Nil
    with "1.prems" show ?thesis by (simp add: words.simps[of s])
  next
    case (Cons c cs)
    let ?q = "\<lambda>x. \<not> py_space x"
    have c: "\<not> py_space c" using hd_dropWhile[of py_space s] Cons by simp
    have sub: "set (c # cs) \<subseteq> set s" using set_dropWhileD[of _ py_space s] Cons by fastforce
    from "1.prems" have "w = c # takeWhile ?q cs \<or> w \<in> set (words (dropWhile ?q cs))"
      using Cons by (simp add: words.simps[of s])
    then show ?thesis
    proof
      assume "w = c # takeWhile ?q cs"
      then show ?thesis using c sub by (auto dest: set_takeWhileD)
    next
      assume "w \<in> set (words (dropWhile ?q cs))"
      from "1.hyps"[OF Cons this] show ?thesis using sub by (auto dest: set_dropWhileD)
    qed
  qed
qed

text \<open>\<open>" ".join(s.split())\<close>: runs of white space become one blank.\<close>

definition one_line :: "string \<Rightarrow> string" where
  "one_line s = join '' '' (words s)"

text \<open>\<open>s.splitlines()\<close>: a line ends at a line feed, a carriage return with or without one, or another
  of the separators below 256; nothing follows the last end.\<close>

definition line_end :: "char \<Rightarrow> bool" where
  "line_end c = (let n = (of_char c :: nat) in (10 \<le> n \<and> n \<le> 13) \<or> (28 \<le> n \<and> n \<le> 30) \<or> n = 133)"

fun after_line :: "string \<Rightarrow> string" where
  "after_line [] = []"
| "after_line [c] = []"
| "after_line (c # d # cs) =
     (if of_char c = (13 :: nat) \<and> of_char d = (10 :: nat) then cs else d # cs)"

lemma after_line_shorter: "s \<noteq> [] \<Longrightarrow> length (after_line s) < length s"
  by (cases s rule: after_line.cases) auto

function splitlines :: "string \<Rightarrow> string list" where
  "splitlines s =
     (if s = [] then []
      else takeWhile (\<lambda>c. \<not> line_end c) s # splitlines (after_line (dropWhile (\<lambda>c. \<not> line_end c) s)))"
  by auto
termination
proof (relation "measure length", goal_cases)
  case (2 s)
  have le: "length (dropWhile (\<lambda>c. \<not> line_end c) s) \<le> length s" by (rule length_dropWhile_le)
  show ?case
  proof (cases "dropWhile (\<lambda>c. \<not> line_end c) s = []")
    case True
    with 2 show ?thesis by (simp only: True) simp
  next
    case False
    from after_line_shorter[OF this] le show ?thesis by simp
  qed
qed simp

declare splitlines.simps [simp del]

lemma splitlines_Nil [simp]: "splitlines [] = []"
  by (simp add: splitlines.simps)

lemma splitlines_plain:
  "s \<noteq> [] \<Longrightarrow> \<forall>c \<in> set s. \<not> line_end c \<Longrightarrow> splitlines s = [s]"
  by (simp add: splitlines.simps[of s] takeWhile_eq_all_conv[THEN iffD2] dropWhile_eq_Nil_conv[THEN iffD2])

section \<open>Rewriting\<close>

definition replace_char :: "char \<Rightarrow> char \<Rightarrow> string \<Rightarrow> string" where
  "replace_char a b = List.map (\<lambda>c. if c = a then b else c)"

definition upper_char :: "char \<Rightarrow> char" where
  "upper_char c = (let n = (of_char c :: nat) in if 97 \<le> n \<and> n \<le> 122 then char_of (n - 32) else c)"

fun capitalize :: "string \<Rightarrow> string" where
  "capitalize [] = []"
| "capitalize (c # cs) = upper_char c # lower cs"

text \<open>\<open>xs[-n:]\<close> for a positive \<open>n\<close>, and \<open>s or None\<close>.\<close>

definition last_n :: "nat \<Rightarrow> 'a list \<Rightarrow> 'a list" where
  "last_n n xs = drop (length xs - n) xs"

definition or_none :: "string \<Rightarrow> string option" where
  "or_none s = (if s = [] then None else Some s)"

lemma last_n_all: "length xs \<le> n \<Longrightarrow> last_n n xs = xs"
  by (simp add: last_n_def)

lemma length_last_n: "length (last_n n xs) = min n (length xs)"
  by (simp add: last_n_def)

lemma set_last_n: "set (last_n n xs) \<subseteq> set xs"
  by (simp add: last_n_def set_drop_subset)

text \<open>A text shortened to at most \<open>n\<close> characters, the last three of them dots.\<close>

definition shortened :: "nat \<Rightarrow> string \<Rightarrow> string" where
  "shortened n s = (if length s \<le> n then s else take (n - 3) s @ ''...'')"

lemma length_shortened: "3 \<le> n \<Longrightarrow> length (shortened n s) \<le> n"
  unfolding shortened_def by (cases "length s \<le> n") simp_all

text \<open>The placeholder a run has for its criteria until they are defined.\<close>

definition INITIAL_COMPLETION_CRITERION :: string where
  "INITIAL_COMPLETION_CRITERION =
    ''Manager must define measurable completion criteria before planning or delegation''"

end
