(* ===== verification/Outcomes.thy ===== *)
theory Outcomes
  imports Governance
begin

text \<open>
  What an operation that succeeds has established: completion, recovery, resumption, replanning and
  capability changes, as consequences of the operations' own checks.
\<close>

section \<open>Completion\<close>

lemma search_keeps_canonical:
  "validate_accepted r [] checked aid = Inr checked' \<Longrightarrow> \<forall>c \<in> set checked. canonical r c \<Longrightarrow>
     canonical r aid \<and> (\<forall>c \<in> set checked'. canonical r c)"
  using search_sound(1) by fastforce

lemma check_active_Inr:
  "check_active r checked ts = Inr checked' \<Longrightarrow> \<forall>c \<in> set checked. canonical r c \<Longrightarrow>
     (\<forall>c \<in> set checked'. canonical r c) \<and>
     (\<forall>t \<in> set ts. ready r t \<and> (\<exists>aid. last_opt (tn_artifact_ids t) = Some aid \<and> canonical r aid))"
proof (induction r checked ts arbitrary: checked' rule: check_active.induct)
  case (1 r checked)
  then show ?case by simp
next
  case (2 r checked t ts)
  from "2.prems"(1) obtain aid chk where aid: "last_opt (tn_artifact_ids t) = Some aid"
    and rdy: "ready r t" and one: "validate_accepted r [] checked aid = Inr chk"
    and rest: "check_active r chk ts = Inr checked'"
    by (auto split: option.splits if_splits sum.splits)
  from search_keeps_canonical[OF one "2.prems"(2)] have "canonical r aid" "\<forall>c \<in> set chk. canonical r c"
    by blast+
  with "2.IH"[OF aid _ one rest] rdy aid show ?case by auto
qed

lemma validate_all_Inr:
  "validate_all r checked aids = Inr checked' \<Longrightarrow> \<forall>c \<in> set checked. canonical r c \<Longrightarrow>
     \<forall>aid \<in> set aids. canonical r aid"
proof (induction r checked aids arbitrary: checked' rule: validate_all.induct)
  case (1 r checked)
  then show ?case by simp
next
  case (2 r checked aid aids)
  from "2.prems"(1) obtain chk where one: "validate_accepted r [] checked aid = Inr chk"
    and rest: "validate_all r chk aids = Inr checked'" by (auto split: sum.splits)
  from search_keeps_canonical[OF one "2.prems"(2)] "2.IH"[OF one rest] show ?case by auto
qed

lemma complete_Inr:
  assumes "complete_run final ev r = Inr (x, r', evs)"
  shows "active_tasks r \<noteq> []" "\<forall>t \<in> set (active_tasks r). tn_status t = ACCEPTED"
    "run_unresolved_issues r = []" "graph r = Inr ()" "substantive final"
    "\<forall>t \<in> set (active_tasks r). ready r t \<and>
       (\<exists>aid. last_opt (tn_artifact_ids t) = Some aid \<and> canonical r aid)"
    "\<forall>(k, q) \<in> set (run_approvals r). aq_required q \<longrightarrow> aq_status q \<noteq> AP_PENDING"
    "set (map fst ev) = set (wp_completion_criteria (run_plan r))"
    "\<forall>(c, ids) \<in> set ev. ids \<noteq> [] \<and> (\<forall>aid \<in> set ids. aid \<in> set (run_accepted_artifacts r) \<and> canonical r aid)"
    "r' = r\<lparr>run_final_result := Some final, run_status := ''completed'',
            run_plan := (run_plan r)\<lparr>wp_status := ''completed''\<rparr>\<rparr>"
proof -
  from assms obtain checked checked' where act: "active_tasks r \<noteq> []" "\<forall>t \<in> set (active_tasks r). tn_status t = ACCEPTED"
    "run_unresolved_issues r = []" and g: "graph r = Inr ()"
    and one: "check_active r [] (active_tasks r) = Inr checked"
    and pend: "\<forall>(k, q) \<in> set (run_approvals r). aq_required q \<longrightarrow> aq_status q \<noteq> AP_PENDING"
    and crit: "set (map fst ev) = set (wp_completion_criteria (run_plan r))"
    and ids: "\<forall>(c, ids) \<in> set ev. ids \<noteq> [] \<and> set ids \<subseteq> set (run_accepted_artifacts r)"
    and two: "validate_all r checked (concat (map snd ev)) = Inr checked'"
    and fin: "substantive final"
    and r': "r' = r\<lparr>run_final_result := Some final, run_status := ''completed'',
            run_plan := (run_plan r)\<lparr>wp_status := ''completed''\<rparr>\<rparr>"
    unfolding complete_run_def Let_def by (simp add: Inr_simps) blast
  from check_active_Inr[OF one] have chk: "\<forall>c \<in> set checked. canonical r c"
    and rdy: "\<forall>t \<in> set (active_tasks r). ready r t \<and>
       (\<exists>aid. last_opt (tn_artifact_ids t) = Some aid \<and> canonical r aid)" by auto
  from validate_all_Inr[OF two chk] ids
  have "\<forall>(c, ids) \<in> set ev. ids \<noteq> [] \<and> (\<forall>aid \<in> set ids. aid \<in> set (run_accepted_artifacts r) \<and> canonical r aid)"
    by fastforce
  with act g fin rdy pend crit r' show "active_tasks r \<noteq> []" "\<forall>t \<in> set (active_tasks r). tn_status t = ACCEPTED"
    "run_unresolved_issues r = []" "graph r = Inr ()" "substantive final"
    "\<forall>t \<in> set (active_tasks r). ready r t \<and>
       (\<exists>aid. last_opt (tn_artifact_ids t) = Some aid \<and> canonical r aid)"
    "\<forall>(k, q) \<in> set (run_approvals r). aq_required q \<longrightarrow> aq_status q \<noteq> AP_PENDING"
    "set (map fst ev) = set (wp_completion_criteria (run_plan r))"
    "\<forall>(c, ids) \<in> set ev. ids \<noteq> [] \<and> (\<forall>aid \<in> set ids. aid \<in> set (run_accepted_artifacts r) \<and> canonical r aid)"
    "r' = r\<lparr>run_final_result := Some final, run_status := ''completed'',
            run_plan := (run_plan r)\<lparr>wp_status := ''completed''\<rparr>\<rparr>" by blast+
qed

section \<open>Closed runs\<close>

text \<open>The snapshot up to what a closed run still receives: usage rows, and the store's stamps.\<close>

definition closed_view :: "Run \<Rightarrow> Run" where
  "closed_view r = r\<lparr>run_usage_records := [], run_version := 0, run_event_cursor := 0\<rparr>"

lemma closed_step:
  assumes "step core r r'" and "run_status r \<noteq> ''active''"
  shows "closed_view r' = closed_view r \<and> (\<exists>us. run_usage_records r' = run_usage_records r @ us)"
  using assms by (auto elim!: stepE simp: mutate_Inr append_usage_Inr closed_view_def)

lemma closed_steps:
  "(step core)\<^sup>*\<^sup>* r r' \<Longrightarrow> run_status r \<noteq> ''active'' \<Longrightarrow>
     closed_view r' = closed_view r \<and> (\<exists>us. run_usage_records r' = run_usage_records r @ us)"
proof (induction rule: rtranclp_induct)
  case base
  show ?case by simp
next
  case (step r1 r2)
  then have r1: "closed_view r1 = closed_view r" "\<exists>us. run_usage_records r1 = run_usage_records r @ us" by blast+
  have "run_status r1 = run_status (closed_view r1)" by (simp add: closed_view_def)
  also have "\<dots> = run_status r" by (simp add: r1 closed_view_def[of r])
  finally have "run_status r1 \<noteq> ''active''" using step.prems by simp
  from closed_step[OF step.hyps(2) this] r1 show ?case by auto
qed

section \<open>Recovery\<close>

lemma reject_latest_frame:
  "reject_latest t reason fid r = Inr (r', evs) \<Longrightarrow>
     run_tasks r' = run_tasks r \<and> run_recoveries r' = run_recoveries r \<and> run_failures r' = run_failures r"
  by (auto simp: reject_latest_def bind_ok_Inr_iff split: option.splits)

lemma recover_once:
  assumes "recover core i fid reason actor r = Inr (x, r', evs)" and "actor' \<in> {''manager'', o_manager_id core}"
  shows "recover core j fid reason' actor' r' = Inl (GateError ''Failure already recovered or superseded'')"
proof -
  from assms(1) obtain f t t1 evs1 r1 evs2 where f: "find (\<lambda>f. wf_id f = fid) (run_failures r) = Some f"
    and t: "map_of (run_tasks r) (wf_task_id f) = Some t"
    and rej: "reject_latest t1 reason (wf_id f) (set_task (wf_task_id f) t1 r) = Inr (r1, evs2)"
    and x: "x = recovery_decision core i f (task_id t1) (recovery_action t (wf_classification f)) reason"
    and r': "r' = r1\<lparr>run_recoveries := run_recoveries r1 @ [x],
                run_decisions := run_decisions r1 @ [Decision.truncate x]\<rparr>"
    unfolding recover_Inr by blast
  have "wf_id f = fid" using f by (auto simp: find_Some_iff)
  then have "rd_failure_id x = fid" by (simp add: x recovery_decision_def)
  with reject_latest_frame[OF rej] f assms(2) show ?thesis
    by (auto simp: recover_def r' dget_def bind_ok_def)
qed

text \<open>The task after a recovery, by the action the failure is routed to.\<close>

definition recovered_task :: "Run \<Rightarrow> WorkerFailure \<Rightarrow> TaskNode \<Rightarrow> TaskNode \<Rightarrow> bool" where
  "recovered_task r f t t' \<longleftrightarrow>
     (case recovery_action t (wf_classification f) of
        RETRY \<Rightarrow> tn_status t' = READY \<and> ready r t \<and> attempts_used t < tn_max_attempts t \<and>
          tn_revisions t' = tn_revisions t
      | REVISE \<Rightarrow> tn_status t' = REVISION_REQUIRED \<and> attempts_used t < tn_max_attempts t \<and>
          tn_revisions t' = tn_revisions t + 1 \<and>
          tn_revisions t' - tn_revision_baseline t' \<le> tn_max_revisions t'
      | REPLACE \<Rightarrow> tn_status t' = REPLACED \<and> tn_revisions t' = tn_revisions t
      | ESCALATE \<Rightarrow> tn_status t' = BLOCKED \<and> tn_revisions t' = tn_revisions t
      | REPLAN \<Rightarrow> tn_status t' = BLOCKED \<and> tn_revisions t' = tn_revisions t)"

lemma recover_task:
  assumes "recover core i fid reason actor r = Inr (x, r', evs)"
  shows "\<exists>f t t'. f \<in> set (run_failures r) \<and> wf_id f = fid \<and> map_of (run_tasks r) (wf_task_id f) = Some t \<and>
    tn_status t = FAILED \<and> map_of (run_tasks r') (wf_task_id f) = Some t' \<and> recovered_task r f t t' \<and>
    dc_action x = action_value (recovery_action t (wf_classification f))"
proof -
  from assms obtain f t t1 evs1 r1 evs2 where f: "find (\<lambda>f. wf_id f = fid) (run_failures r) = Some f"
    and t: "map_of (run_tasks r) (wf_task_id f) = Some t" "tn_status t = FAILED"
    and act: "apply_action r f reason (recovery_action t (wf_classification f)) t = Inr (t1, evs1)"
    and rej: "reject_latest t1 reason (wf_id f) (set_task (wf_task_id f) t1 r) = Inr (r1, evs2)"
    and x: "x = recovery_decision core i f (task_id t1) (recovery_action t (wf_classification f)) reason"
    and r': "r' = r1\<lparr>run_recoveries := run_recoveries r1 @ [x],
                run_decisions := run_decisions r1 @ [Decision.truncate x]\<rparr>"
    unfolding recover_Inr by blast
  have "recovered_task r f t t1"
    using act by (auto simp: recovered_task_def apply_action_def Inr_simps transition_Inr recovery_action_def
        attempts_used_def Let_def split: RecoveryAction.splits if_splits)
  moreover have "map_of (run_tasks r') (wf_task_id f) = Some t1"
    using reject_latest_frame[OF rej] by (simp add: r')
  moreover have "f \<in> set (run_failures r)" "wf_id f = fid" using f by (auto simp: find_Some_iff)
  ultimately show ?thesis using t
    by (intro exI[of _ f] exI[of _ t] exI[of _ t1]) (simp add: x recovery_decision_def)
qed

section \<open>Interruption\<close>

definition interrupted :: "TaskNode \<Rightarrow> TaskNode" where
  "interrupted t = (if tn_status t \<in> {DELEGATED, RUNNING}
     then t\<lparr>tn_status := FAILED, tn_blocker := Some INTERRUPTED\<rparr> else t)"

lemma interrupted_idem [simp]: "interrupted (interrupted t) = interrupted t"
  by (simp add: interrupted_def)

lemma interrupt_task_total:
  "\<exists>r' evs. interrupt_task ids k t r = Inr (r', evs) \<and>
     (map_of (run_tasks r) k = Some t \<longrightarrow>
        (\<forall>j. map_of (run_tasks r') j = (if j = k then Some (interrupted t) else map_of (run_tasks r) j)))"
proof (cases "tn_status t \<in> {DELEGATED, RUNNING}")
  case True
  then have "FAILED \<in> TRANSITIONS (tn_status t)" by auto
  with True show ?thesis
    by (simp add: interrupt_task_def transition_def Let_def interrupted_def)
qed (simp add: interrupt_task_def interrupted_def)

lemma interrupt_from_total:
  "\<exists>r' evs. interrupt_from ids ks r = Inr (r', evs) \<and>
     (\<forall>j. map_of (run_tasks r') j =
        (if j \<in> set ks then map_option interrupted (map_of (run_tasks r) j) else map_of (run_tasks r) j))"
proof (induction ks arbitrary: r)
  case Nil
  then show ?case by simp
next
  case (Cons k ks)
  show ?case
  proof (cases "map_of (run_tasks r) k")
    case None
    from Cons[of r] obtain r' evs where "interrupt_from ids ks r = Inr (r', evs)"
      "\<And>j. map_of (run_tasks r') j =
        (if j \<in> set ks then map_option interrupted (map_of (run_tasks r) j) else map_of (run_tasks r) j)"
      by blast
    with None show ?thesis by (intro exI[of _ r'] exI[of _ evs]) auto
  next
    case (Some t)
    with interrupt_task_total[of ids k t r] obtain r1 evs1 where one: "interrupt_task ids k t r = Inr (r1, evs1)"
      and r1: "\<And>j. map_of (run_tasks r1) j = (if j = k then Some (interrupted t) else map_of (run_tasks r) j)"
      by blast
    from Cons[of r1] obtain r2 evs2 where "interrupt_from ids ks r1 = Inr (r2, evs2)"
      "\<And>j. map_of (run_tasks r2) j =
        (if j \<in> set ks then map_option interrupted (map_of (run_tasks r1) j) else map_of (run_tasks r1) j)"
      by blast
    with Some one r1 show ?thesis by simp
  qed
qed

lemma resume_total:
  "\<exists>r' evs. resume ids r = Inr ((), r', evs) \<and>
     (\<forall>k. map_of (run_tasks r') k = map_option interrupted (map_of (run_tasks r) k))"
proof -
  obtain r' evs where one: "interrupt_from ids (map fst (run_tasks r)) r = Inr (r', evs)"
    and at: "\<And>j. map_of (run_tasks r') j = (if j \<in> set (map fst (run_tasks r))
        then map_option interrupted (map_of (run_tasks r) j) else map_of (run_tasks r) j)"
    using interrupt_from_total[of ids "map fst (run_tasks r)" r] by blast
  have "map_of (run_tasks r') k = map_option interrupted (map_of (run_tasks r) k)" for k
    using at[of k] by (cases "map_of (run_tasks r) k") (auto dest: map_of_in_keys)
  with one show ?thesis by (simp add: resume_def)
qed

section \<open>Replanning\<close>

lemma insert_tasks_kept:
  assumes nodef: "replan_defects r p = []" and "k \<in> fst ` set (run_tasks r)"
  shows "k \<notin> set (map task_id (rp_add p))"
  using added_fresh[OF replan_defects_Nil(1)[OF nodef]] is_fresh_task_iff[of r] assms(2)
  unfolding set_map by blast

lemma replanned_affected:
  assumes nodef: "replan_defects r p = []" and t: "map_of (run_tasks r) k = Some t"
    and k: "k \<in> set (replan_affected r p)"
  shows "\<exists>t'. map_of (run_tasks (replanned p r)) k = Some t' \<and>
    tn_status t' = (if k \<in> set (rp_remove p) then CANCELLED else PLANNED) \<and> tn_assignment t' = None"
proof -
  have "k \<notin> set (map task_id (rp_add p))" by (rule insert_tasks_kept[OF nodef map_of_in_keys[OF t]])
  then show ?thesis
    unfolding replanned_def using t k
    by (auto simp: insert_tasks_other rewire_def reset_task_def Let_def set_dependencies_def split: option.splits)
qed

lemma replan_outcome:
  assumes ok: "run_ok core r" and app: "apply_replan core pid r = Inr (x, r', evs)"
  obtains p where "map_of (run_replans r) pid = Some p"
    "run_accepted_artifacts r' =
       filter (\<lambda>a. a \<notin> set (artifacts_of r (replan_affected r p))) (run_accepted_artifacts r)"
    "wp_revision (run_plan r') = wp_revision (run_plan r) + 1"
    "rp_requires_approval p \<Longrightarrow> approved core r (rp_approval_id p) ''replan'' (replan_scope p) = Inr ()"
    "\<And>k t. map_of (run_tasks r) k = Some t \<Longrightarrow> k \<in> set (replan_affected r p) \<Longrightarrow>
       \<exists>t'. map_of (run_tasks r') k = Some t' \<and> tn_status t' \<in> {PLANNED, READY, CANCELLED}"
    "\<And>k t. map_of (run_tasks r) k = Some t \<Longrightarrow> k \<notin> set (replan_affected r p) \<Longrightarrow>
       tn_status t \<notin> {PLANNED, READY, BLOCKED} \<Longrightarrow> map_of (run_tasks r') k = Some t"
  using ok app
proof (rule apply_replan_Inr)
  fix p evs1
  let ?r = "revise_plan p (replanned p r)"
  assume p: "map_of (run_replans r) pid = Some p" and nodef: "replan_defects r p = []"
    and appr: "rp_requires_approval p \<Longrightarrow> approved core r (rp_approval_id p) ''replan'' (replan_scope p) = Inr ()"
    and ref: "then_refresh () ?r evs1 = Inr (x, r', evs)"
  have d: "distinct (map fst (run_tasks ?r))"
    using run_okD(1)[OF replanned_ok[OF ok nodef]] by (simp add: revise_plan_def)
  from ref obtain more where "refresh ?r = Inr (r', more)" by (auto simp: then_refresh_Inr)
  from refresh_refreshed[OF this d] have re: "refreshed ?r r'" .
  have tasks: "run_tasks ?r = run_tasks (replanned p r)" by (simp add: revise_plan_def)
  have settle: "\<exists>t'. map_of (run_tasks r') k = Some t' \<and> settle_step ?r t t'"
    if "map_of (run_tasks (replanned p r)) k = Some t" for k t
    using re that by (simp add: refreshed_def tasks)
  show thesis
  proof (rule that[OF p])
    show "run_accepted_artifacts r' =
       filter (\<lambda>a. a \<notin> set (artifacts_of r (replan_affected r p))) (run_accepted_artifacts r)"
      using refreshed_frame(2)[OF re] by (simp add: revise_plan_def replanned_keys)
    show "wp_revision (run_plan r') = wp_revision (run_plan r) + 1"
      using refreshed_frame(7)[OF re] by (simp add: revise_plan_def replanned_frame)
    show "approved core r (rp_approval_id p) ''replan'' (replan_scope p) = Inr ()"
      if "rp_requires_approval p" using appr that .
    show "\<exists>t'. map_of (run_tasks r') k = Some t' \<and> tn_status t' \<in> {PLANNED, READY, CANCELLED}"
      if t: "map_of (run_tasks r) k = Some t" and k: "k \<in> set (replan_affected r p)" for k t
    proof -
      from replanned_affected[OF nodef t k] obtain u where u: "map_of (run_tasks (replanned p r)) k = Some u"
        "tn_status u \<in> {CANCELLED, PLANNED}" by (auto split: if_splits)
      from settle[OF u(1)] u(2) show ?thesis by (auto simp: settle_step_def split: if_splits)
    qed
    show "map_of (run_tasks r') k = Some t"
      if t: "map_of (run_tasks r) k = Some t" and k: "k \<notin> set (replan_affected r p)"
        and st: "tn_status t \<notin> {PLANNED, READY, BLOCKED}" for k t
      using settle[OF replanned_unaffected[OF ok nodef t k]] st by (auto simp: settle_step_def)
  qed
qed

end
