(* ===== verification/Driver.thy ===== *)
theory Driver
  imports Text Outcomes Scenario
begin

text \<open>
  The decisions of the build loop in \<open>src/src/cavman/workflow.py\<close>: which tasks to delegate, how failures
  are routed, when blocked work is reopened, what evidence completes the run, and what is reported.
  Each works on the run's snapshot through the kernel's commands. The identifiers the kernel draws are
  arguments; the saved coverage is the dictionary \<open>_install_plan\<close> saved. The loop around them, with its
  model calls, trusted checks, workspaces and capability requests, is \<open>Build\<close>.
\<close>

section \<open>What to delegate\<close>

definition NEEDS_WORKSPACE :: string where
  "NEEDS_WORKSPACE = ''developer sandbox task has no bound workspace''"

definition delegatable :: "Run \<Rightarrow> TaskNode \<Rightarrow> bool" where
  "delegatable r t =
     (if tn_status t \<in> {READY, REVISION_REQUIRED} then True
      else tn_status t = PLANNED \<and> readiness_blocker r t = Some NEEDS_WORKSPACE)"

definition live_tasks :: "Run \<Rightarrow> (ident \<times> TaskNode) list" where
  "live_tasks r = filter (\<lambda>(k, t). tn_status t \<noteq> CANCELLED) (run_tasks r)"

definition ready_tasks :: "ident list \<Rightarrow> Run \<Rightarrow> ident list" where
  "ready_tasks stuck r = map fst (filter (\<lambda>(k, t). k \<notin> set stuck \<and> delegatable r t) (live_tasks r))"

definition own_criteria :: "(string, ident list) dict \<Rightarrow> ident \<Rightarrow> string list" where
  "own_criteria coverage tid = map fst (filter (\<lambda>(c, ks). set ks = {tid}) coverage)"

section \<open>Recovery\<close>

definition ROUTED :: string where
  "ROUTED = ''Routed by the kernel's recovery table''"

text \<open>
  \<open>_fail\<close>: two transactions; a run whose failure has been recorded keeps it when the recovery raises.
\<close>

definition fail_task_routed :: "Orchestrator \<Rightarrow> ident \<Rightarrow> ident \<Rightarrow> ident \<Rightarrow> FailureClass \<Rightarrow> string \<Rightarrow> Run \<Rightarrow>
    py_error option \<times> Run" where
  "fail_task_routed core fid did tid classification evidence r =
     (case mutate core (Fail fid tid classification (take 4000 evidence)) r of
        Inl e \<Rightarrow> (Some e, r)
      | Inr (r1, evs) \<Rightarrow>
          (case mutate core (Recover did fid ROUTED ''manager'') r1 of
             Inl e \<Rightarrow> (Some e, r1)
           | Inr (r2, evs') \<Rightarrow> (None, r2)))"

text \<open>
  \<open>_recover_failed\<close>: the newest unrecovered failure of each failed task of the snapshot \<open>seen\<close> is
  recovered; a refusal of the kernel is passed over, any other exception ends the loop. \<open>ids\<close> gives the
  new decision of a failure its identifier.
\<close>

fun recover_each :: "Orchestrator \<Rightarrow> (ident \<Rightarrow> ident) \<Rightarrow> Run \<Rightarrow> WorkerFailure list \<Rightarrow> ident list \<Rightarrow> Run \<Rightarrow>
    py_error option \<times> Run" where
  "recover_each core ids seen [] recovered r = (None, r)"
| "recover_each core ids seen (f # fs) recovered r =
     (if (case map_of (run_tasks seen) (wf_task_id f) of None \<Rightarrow> True | Some t \<Rightarrow> tn_status t \<noteq> FAILED) \<or>
         wf_id f \<in> set recovered
      then recover_each core ids seen fs recovered r
      else (case mutate core (Recover (ids (wf_id f)) (wf_id f) ROUTED ''manager'') r of
              Inr (r', evs) \<Rightarrow> recover_each core ids seen fs (wf_id f # recovered) r'
            | Inl (GateError m) \<Rightarrow> recover_each core ids seen fs (wf_id f # recovered) r
            | Inl e \<Rightarrow> (Some e, r)))"

definition recover_failed :: "Orchestrator \<Rightarrow> (ident \<Rightarrow> ident) \<Rightarrow> Run \<Rightarrow> Run \<Rightarrow> py_error option \<times> Run" where
  "recover_failed core ids seen r =
     recover_each core ids seen (rev (run_failures seen)) (map rd_failure_id (run_recoveries seen)) r"

definition replan_blocked :: "Run \<Rightarrow> ident list" where
  "replan_blocked r = sort (map fst (filter (\<lambda>(k, t). tn_status t = BLOCKED \<and>
     tn_blocker t = Some (blocker_text MANAGER_REPLAN_REQUIRED)) (run_tasks r)))"

definition reopening :: "ident \<Rightarrow> Run \<Rightarrow> ReplanProposal" where
  "reopening pid r =
     \<lparr>rp_id = pid, rp_base_revision = wp_revision (run_plan r), rp_trigger = ''Retry blocked work with a fresh budget'',
      rp_evidence = map (\<lambda>k. k @ '': '' @ blocker_text MANAGER_REPLAN_REQUIRED) (replan_blocked r),
      rp_add = [], rp_remove = [], rp_reopen = replan_blocked r, rp_dependencies = [], rp_risks = [],
      rp_approval_id = None, rp_requires_approval = False\<rparr>"

definition reopen_replan_blocked :: "Orchestrator \<Rightarrow> ident \<Rightarrow> Run \<Rightarrow> py_error option \<times> Run" where
  "reopen_replan_blocked core pid r =
     (if replan_blocked r = [] \<or> wp_revision (run_plan r) \<ge> wp_max_replans (run_plan r) then (None, r)
      else if replan_materiality r (reopening pid r) \<noteq> [] then (None, r)
      else (case mutate core (Propose_Replan (reopening pid r)) r of
              Inl e \<Rightarrow> (Some e, r)
            | Inr (r1, evs) \<Rightarrow>
                (case mutate core (Apply_Replan pid) r1 of
                   Inl e \<Rightarrow> (Some e, r1)
                 | Inr (r2, evs') \<Rightarrow> (None, r2))))"

section \<open>Completion\<close>

text \<open>The latest artifacts of the tasks that cover a criterion, those accepted; all accepted ones if none is.\<close>

definition covering_artifacts :: "(string, ident list) dict \<Rightarrow> Run \<Rightarrow> string \<Rightarrow> ident list" where
  "covering_artifacts coverage r c =
     concat (map (\<lambda>k. case map_of (run_tasks r) k of
         None \<Rightarrow> []
       | Some t \<Rightarrow> (case last_opt (tn_artifact_ids t) of None \<Rightarrow> [] | Some aid \<Rightarrow> [aid]))
       (case map_of coverage c of None \<Rightarrow> [] | Some ks \<Rightarrow> ks))"

definition criterion_evidence :: "(string, ident list) dict \<Rightarrow> Run \<Rightarrow> string \<Rightarrow> ident list" where
  "criterion_evidence coverage r c =
     (let ids = filter (\<lambda>i. i \<in> set (run_accepted_artifacts r)) (covering_artifacts coverage r c)
      in if ids = [] then run_accepted_artifacts r else ids)"

definition finish_evidence :: "(string, ident list) dict \<Rightarrow> Run \<Rightarrow> (string, ident list) dict" where
  "finish_evidence coverage r =
     foldl (\<lambda>d c. AList.update c (criterion_evidence coverage r c) d) [] (wp_completion_criteria (run_plan r))"

text \<open>\<open>dash\<close> is the dash between role and objective, beyond code point 255.\<close>

definition finish_summary :: "string \<Rightarrow> Run \<Rightarrow> string" where
  "finish_summary dash r =
     (let accepted = filter (\<lambda>t. tn_status t = ACCEPTED) (map snd (run_tasks r)) in
      ''Delivered '' @ show_nat (length accepted) @ '' accepted task'' @ (if length accepted = 1 then [] else ''s'') @ '': '' @
      join ''; '' (map (\<lambda>t. tp_role (tn_packet t) @ '' '' @ dash @ '' '' @ strip (tp_objective (tn_packet t))) accepted) @ ''.'')"

text \<open>What \<open>_finish\<close> does once every accepted candidate is integrated; \<open>Build\<close> integrates them first.\<close>

definition finish_integrated :: "Orchestrator \<Rightarrow> string \<Rightarrow> (string, ident list) dict \<Rightarrow> Run \<Rightarrow> py_error + (string \<times> Run)" where
  "finish_integrated core dash coverage r =
     bind_ok (mutate core (Complete (finish_summary dash r) (finish_evidence coverage r)) r) (\<lambda>(r', evs).
       Inr (''Build complete. '' @ finish_summary dash r, r'))"

definition blocked_summary :: "ident list \<Rightarrow> Run \<Rightarrow> string" where
  "blocked_summary stuck r =
     (let blocked = map (\<lambda>t. strip (tp_objective (tn_packet t)) @ '' ('' @
            (if present (tn_blocker t) then the (tn_blocker t) else lower (status_value (tn_status t))) @ '')'')
          (filter (\<lambda>t. tn_status t \<in> {BLOCKED, REPLACED, FAILED} \<or> task_id t \<in> set stuck) (map snd (run_tasks r)))
      in if blocked = [] then ''Nothing is ready to run.''
         else ''Cavman is blocked and needs a decision: '' @ join ''; '' blocked)"

section \<open>The driver moves the run only along the kernel\<close>

text \<open>Sequences of the kernel's steps.\<close>

definition moves_to :: "Orchestrator \<Rightarrow> Run \<Rightarrow> Run \<Rightarrow> bool" where
  "moves_to core r r' \<longleftrightarrow> (step core)\<^sup>*\<^sup>* r r'"

lemma reachable_moves: "moves_to core r r' \<Longrightarrow> reachable core r \<Longrightarrow> reachable core r'"
  unfolding moves_to_def by (induct rule: rtranclp_induct) (auto intro: reachable.changed)

lemma mutate_moves_to: "mutate core c r = Inr (r', evs) \<Longrightarrow> fresh_ids r c \<Longrightarrow> moves_to core r r'"
  unfolding moves_to_def by (blast intro: step.command)

lemma moves_to_refl [simp]: "moves_to core r r"
  by (simp add: moves_to_def)

lemma moves_to_trans: "moves_to core r r1 \<Longrightarrow> moves_to core r1 r2 \<Longrightarrow> moves_to core r r2"
  by (simp add: moves_to_def)

lemma recover_each_moves: "moves_to core r (snd (recover_each core ids seen fs recovered r))"
proof (induct core ids seen fs recovered r rule: recover_each.induct)
  case (1 core ids seen recovered r)
  then show ?case by simp
next
  case (2 core ids seen f fs recovered r)
  show ?case
  proof (cases "mutate core (Recover (ids (wf_id f)) (wf_id f) ROUTED ''manager'') r")
    case (Inl e)
    then show ?thesis using 2 by (cases e) auto
  next
    case (Inr x)
    obtain r' evs where x: "x = (r', evs)" by (cases x)
    have "moves_to core r r'" using mutate_moves_to[OF Inr[unfolded x]] by simp
    then show ?thesis using 2 Inr x by (auto intro: moves_to_trans)
  qed
qed

lemma fail_routed_moves: "moves_to core r (snd (fail_task_routed core fid did tid c ev r))"
  unfolding fail_task_routed_def
  by (auto split: sum.splits dest!: mutate_moves_to intro: moves_to_trans)

lemma reopen_moves: "moves_to core r (snd (reopen_replan_blocked core pid r))"
  unfolding reopen_replan_blocked_def
  by (auto split: sum.splits dest!: mutate_moves_to intro: moves_to_trans)

section \<open>Accepted work completes\<close>

lemma canonical_validates: "canonical r aid \<Longrightarrow> \<exists>checked'. validate_accepted r [] checked aid = Inr checked'"
  by (rule search_complete(1)) simp_all

lemma validate_all_total: "\<forall>aid \<in> set aids. canonical r aid \<Longrightarrow> \<exists>checked'. validate_all r checked aids = Inr checked'"
proof (induct aids arbitrary: checked)
  case (Cons aid aids)
  from Cons.prems canonical_validates[of r aid checked] obtain chk where "validate_accepted r [] checked aid = Inr chk" by auto
  with Cons.hyps[of chk] Cons.prems show ?case by simp
qed simp

lemma check_active_total:
  "\<forall>t \<in> set ts. ready r t \<and> (\<exists>aid. last_opt (tn_artifact_ids t) = Some aid \<and> canonical r aid) \<Longrightarrow>
     \<exists>checked'. check_active r checked ts = Inr checked'"
proof (induct ts arbitrary: checked)
  case (Cons t ts)
  from Cons.prems obtain aid where aid: "last_opt (tn_artifact_ids t) = Some aid" "canonical r aid" "ready r t" by auto
  from canonical_validates[OF aid(2)] obtain chk where "validate_accepted r [] checked aid = Inr chk" by blast
  with Cons.hyps[of chk] Cons.prems aid show ?case by simp
qed simp

lemma finish_evidence_keys:
  "set (map fst (finish_evidence coverage r)) = set (wp_completion_criteria (run_plan r))"
  "(c, ids) \<in> set (finish_evidence coverage r) \<Longrightarrow> ids = criterion_evidence coverage r c"
proof -
  have "fst ` set (foldl (\<lambda>d c. AList.update c (f c) d) d0 cs) = fst ` set d0 \<union> set cs \<and>
      (distinct (map fst d0) \<longrightarrow> distinct (map fst (foldl (\<lambda>d c. AList.update c (f c) d) d0 cs))) \<and>
      (\<forall>c v. map_of (foldl (\<lambda>d c. AList.update c (f c) d) d0 cs) c = Some v \<longrightarrow> v = f c \<or> map_of d0 c = Some v)"
    for f :: "string \<Rightarrow> ident list" and d0 cs
  proof (induct cs arbitrary: d0)
    case (Cons c cs)
    show ?case using Cons[of "AList.update c (f c) d0"] by (auto split: if_splits)
  qed simp
  note fold = this[of "criterion_evidence coverage r" "[]" "wp_completion_criteria (run_plan r)"]
  show "set (map fst (finish_evidence coverage r)) = set (wp_completion_criteria (run_plan r))"
    unfolding finish_evidence_def set_map conjunct1[OF fold] by simp
  show "ids = criterion_evidence coverage r c" if mem: "(c, ids) \<in> set (finish_evidence coverage r)"
  proof -
    have "distinct (map fst (finish_evidence coverage r))"
      unfolding finish_evidence_def using conjunct1[OF conjunct2[OF fold]] by simp
    from set_dict_map_of[OF this, of c ids] mem have "map_of (finish_evidence coverage r) c = Some ids" by blast
    with conjunct2[OF conjunct2[OF fold], rule_format, of c ids] show ?thesis
      unfolding finish_evidence_def by (simp only: map_of.simps option.distinct simp_thms)
  qed
qed

lemma criterion_evidence_accepted:
  "set (criterion_evidence coverage r c) \<subseteq> set (run_accepted_artifacts r)"
  "run_accepted_artifacts r \<noteq> [] \<Longrightarrow> criterion_evidence coverage r c \<noteq> []"
  by (auto simp: criterion_evidence_def Let_def)

lemma finish_summary_substantive: "substantive (finish_summary dash r)"
proof -
  have "CHR ''D'' \<in> set (finish_summary dash r)" by (simp add: finish_summary_def Let_def)
  moreover have "\<not> py_space CHR ''D''" by (simp add: py_space_def)
  ultimately show ?thesis unfolding substantive_iff by blast
qed

text \<open>The evidence it selects for each criterion never fails the completion gate, whatever coverage was saved.\<close>

lemma finish_completes:
  assumes "reachable core r" and "run_status r = ''active''" and "active_tasks r \<noteq> []"
    and "\<forall>t \<in> set (active_tasks r). tn_status t = ACCEPTED \<and> ready r t"
    and "run_unresolved_issues r = []" and "graph r = Inr ()"
    and "\<forall>(k, q) \<in> set (run_approvals r). aq_required q \<longrightarrow> aq_status q \<noteq> AP_PENDING"
  shows "\<exists>r'. finish_integrated core dash coverage r = Inr (''Build complete. '' @ finish_summary dash r, r') \<and>
    run_status r' = ''completed'' \<and> run_final_result r' = Some (finish_summary dash r) \<and> reachable core r' \<and>
    run_tasks r' = run_tasks r \<and> run_artifacts r' = run_artifacts r"
proof -
  note ok = reachable_ok[OF assms(1)]
  have canonical: "canonical r aid" if "aid \<in> set (run_accepted_artifacts r)" for aid
    using reachable_lineage[OF assms(1)] that by (simp add: lineage_ok_def)
  have latest: "\<exists>aid. last_opt (tn_artifact_ids t) = Some aid \<and> aid \<in> set (run_accepted_artifacts r)"
    if active: "t \<in> set (active_tasks r)" for t
  proof -
    from active obtain k where "(k, t) \<in> set (run_tasks r)" by (auto simp: active_tasks_def)
    then have t: "map_of (run_tasks r) k = Some t" using set_dict_map_of[OF run_okD(1)[OF ok]] by blast
    have "phase_of (tn_status t) = Done" using assms(4) active by simp
    from task_okD(6)[OF run_okD(5)[OF ok t] this] obtain a where
      l: "latest r t = Some a" and st: "ar_status a = ''accepted''" by blast
    then obtain aid where "last_opt (tn_artifact_ids t) = Some aid" and a: "map_of (run_artifacts r) aid = Some a"
      by (auto simp: latest_def split: option.splits)
    moreover have "aid \<in> set (run_accepted_artifacts r)" using run_okD(6)[OF ok a] st by (simp add: artifact_ok_def)
    ultimately show ?thesis by blast
  qed
  have "\<forall>t \<in> set (active_tasks r). ready r t \<and> (\<exists>aid. last_opt (tn_artifact_ids t) = Some aid \<and> canonical r aid)"
    using latest canonical assms(4) by blast
  from check_active_total[OF this] obtain checked where checked: "check_active r [] (active_tasks r) = Inr checked" by blast
  have nonempty: "run_accepted_artifacts r \<noteq> []" using assms(3) latest by (cases "active_tasks r") fastforce+
  let ?ev = "finish_evidence coverage r"
  have ids: "ids \<noteq> [] \<and> set ids \<subseteq> set (run_accepted_artifacts r)" if "(c, ids) \<in> set ?ev" for c ids
    unfolding finish_evidence_keys(2)[OF that] using criterion_evidence_accepted nonempty by blast
  have "\<forall>aid \<in> set (concat (map snd ?ev)). canonical r aid" using ids canonical by fastforce
  from validate_all_total[OF this] obtain checked' where all: "validate_all r checked (concat (map snd ?ev)) = Inr checked'" by blast
  have unfit: "\<not> (set (map fst ?ev) \<noteq> set (wp_completion_criteria (run_plan r)) \<or>
      (\<exists>(c, ids) \<in> set ?ev. ids = [] \<or> \<not> set ids \<subseteq> set (run_accepted_artifacts r)))"
    using finish_evidence_keys(1) ids by blast
  have pending: "\<not> (\<exists>(k, q) \<in> set (run_approvals r). aq_required q \<and> aq_status q = AP_PENDING)" using assms(7) by blast
  have status: "\<not> (active_tasks r = [] \<or> (\<exists>t \<in> set (active_tasks r). tn_status t \<noteq> ACCEPTED) \<or> run_unresolved_issues r \<noteq> [])"
    using assms(3-5) by blast
  let ?r' = "r\<lparr>run_final_result := Some (finish_summary dash r), run_status := ''completed'',
     run_plan := (run_plan r)\<lparr>wp_status := ''completed''\<rparr>\<rparr>"
  have "\<exists>evs. complete_run (finish_summary dash r) ?ev r = Inr ((), ?r', evs)"
    unfolding complete_run_def Let_def assms(6) checked bind_ok_simps all
    using status pending unfit finish_summary_substantive by (simp only: if_False if_True not_True_eq_False) blast
  then obtain evs where c: "mutate core (Complete (finish_summary dash r) ?ev) r = Inr (?r', evs)"
    using assms(2) by (auto simp: mutate_def effect_Inr)
  then have "finish_integrated core dash coverage r = Inr (''Build complete. '' @ finish_summary dash r, ?r')"
    by (simp add: finish_integrated_def)
  moreover have "reachable core ?r'" using reachable_moves[OF mutate_moves_to[OF c] assms(1)] by simp
  ultimately show ?thesis by auto
qed

end
