(* ===== verification/Engine.thy ===== *)
theory Engine
  imports Durable Driver
begin

text \<open>
  The boundary between the platform and the kernel, \<open>Engine\<close> of \<open>src/src/cavman/engine.py\<close>: reading runs
  and events, recording a human's decision on exactly what was shown, abandoning and recovering. Every
  call opens the store and goes through the kernel. The redaction, git and the creation of
  directories are left out.
\<close>

section \<open>Reading\<close>

definition engine_create_run :: "Codec \<Rightarrow> ident \<Rightarrow> string \<Rightarrow> string list \<Rightarrow> Db \<Rightarrow> py_error + Db" where
  "engine_create_run cd rid objective constraints db =
     create_stored cd rid objective [INITIAL_COMPLETION_CRITERION] constraints 3 db"

definition events_after :: "Codec \<Rightarrow> ident \<Rightarrow> int \<Rightarrow> Db \<Rightarrow> py_error + Event list" where
  "events_after cd rid after db =
     bind_ok (events cd rid db) (\<lambda>es. Inr (filter (\<lambda>e. ev_sequence e > after) es))"

section \<open>Deciding\<close>

text \<open>The request the user was shown is still there, pending, with the digest that was shown.\<close>

definition shown_request :: "ident \<Rightarrow> string \<Rightarrow> Run \<Rightarrow> py_error + ApprovalRequest" where
  "shown_request aid expected r =
     (case map_of (run_approvals r) aid of
        None \<Rightarrow> Inl (KeyError aid)
      | Some q \<Rightarrow>
          if aq_status q \<noteq> AP_PENDING
          then Inl (GateError (''This approval is no longer pending (status: '' @ approval_value (aq_status q) @ '').''))
          else if aq_scope_digest q \<noteq> expected
          then Inl (ApprovalScopeChanged
            ''The approval request changed since it was displayed. Review the current scope.'')
          else Inr q)"

text \<open>
  What other processes commit during one attempt: after the request was read, and between the kernel's
  own load and its save.
\<close>

definition windows :: "((Db \<Rightarrow> Db) \<times> (Db \<Rightarrow> Db)) list \<Rightarrow> (Db \<Rightarrow> Db) \<times> (Db \<Rightarrow> Db)" where
  "windows others = (case others of [] \<Rightarrow> (id, id) | w # ws \<Rightarrow> w)"

fun decide_attempts :: "Codec \<Rightarrow> Orchestrator \<Rightarrow> ident \<Rightarrow> ident \<Rightarrow> bool \<Rightarrow> ident \<Rightarrow> string \<Rightarrow> string \<Rightarrow> nat \<Rightarrow>
    ((Db \<Rightarrow> Db) \<times> (Db \<Rightarrow> Db)) list \<Rightarrow> Db \<Rightarrow> (py_error + Run) \<times> Db" where
  "decide_attempts cd core rid aid granted human reason expected 0 others db =
     (Inl (AssertionError ''unreachable''), db)"
| "decide_attempts cd core rid aid granted human reason expected (Suc n) others db =
     (case bind_ok (load cd rid db) (shown_request aid expected) of
        Inl e \<Rightarrow> (Inl e, db)
      | Inr q \<Rightarrow>
        (let db1 = fst (windows others) db in
         case bind_ok (load cd rid db1) (\<lambda>r. bind_ok (mutate core (Decide_Approval aid granted human reason) r)
                (\<lambda>(r', evs). Inr (r', evs, run_version r))) of
           Inl e \<Rightarrow> (Inl e, db1)
         | Inr (r', evs, version) \<Rightarrow>
           (let db2 = snd (windows others) db1 in
            case save cd r' evs (Some version) db2 of
              Inr (c, db3) \<Rightarrow> (load cd rid db3, db3)
            | Inl (ConcurrentUpdate m) \<Rightarrow>
                if n = 0 then (Inl (ConcurrentUpdate m), db2)
                else decide_attempts cd core rid aid granted human reason expected n (drop 1 others) db2
            | Inl e \<Rightarrow> (Inl e, db2))))"

definition engine_decide :: "Codec \<Rightarrow> Orchestrator \<Rightarrow> ident \<Rightarrow> ident \<Rightarrow> bool \<Rightarrow> ident \<Rightarrow> string \<Rightarrow> string \<Rightarrow>
    ((Db \<Rightarrow> Db) \<times> (Db \<Rightarrow> Db)) list \<Rightarrow> Db \<Rightarrow> (py_error + Run) \<times> Db" where
  "engine_decide cd core rid aid granted human reason expected others db =
     decide_attempts cd core rid aid granted human reason expected 3 others db"

section \<open>Abandoning and recovering\<close>

definition engine_abandon :: "Codec \<Rightarrow> Orchestrator \<Rightarrow> ident \<Rightarrow> string \<Rightarrow> ident \<Rightarrow> Db \<Rightarrow> py_error + (Run \<times> Db)" where
  "engine_abandon cd core rid reason actor db =
     bind_ok (execute cd core (Abandon reason (Some actor)) rid db) (\<lambda>db'.
       bind_ok (load cd rid db') (\<lambda>r. Inr (r, db')))"

definition recover_interrupted :: "Codec \<Rightarrow> Orchestrator \<Rightarrow> (nat \<Rightarrow> ident) \<Rightarrow> ident \<Rightarrow> Db \<Rightarrow> py_error + (bool \<times> Db)" where
  "recover_interrupted cd core ids rid db =
     bind_ok (load cd rid db) (\<lambda>r.
       if run_status r \<noteq> ''active'' then Inr (False, db)
       else if \<not> (\<exists>t \<in> snd ` set (run_tasks r). tn_status t \<in> {DELEGATED, RUNNING}) then Inr (False, db)
       else bind_ok (execute cd core (Resume_Run ids) rid db) (\<lambda>db'. Inr (True, db')))"

section \<open>A request asks the same thing for ever\<close>

definition asks_same :: "Run \<Rightarrow> Run \<Rightarrow> bool" where
  "asks_same r r' \<longleftrightarrow> (\<forall>k q. map_of (run_approvals r) k = Some q \<longrightarrow>
     (\<exists>q'. map_of (run_approvals r') k = Some q' \<and> aq_action q' = aq_action q \<and>
        aq_scope_json q' = aq_scope_json q \<and> aq_scope_digest q' = aq_scope_digest q))"

lemma asks_same_refl: "run_approvals r' = run_approvals r \<Longrightarrow> asks_same r r'"
  by (simp add: asks_same_def)

lemma asks_same_trans: "asks_same r r1 \<Longrightarrow> asks_same r1 r2 \<Longrightarrow> asks_same r r2"
  unfolding asks_same_def by metis

lemma perform_asks_same:
  assumes ok: "run_ok core r" and per: "perform core c r = Inr (r', evs)" and new: "fresh_ids r c"
  shows "asks_same r r'"
proof (cases "governs c")
  case False
  from perform_governance[OF ok per this] show ?thesis by (intro asks_same_refl) (simp add: governance_def)
next
  case True
  then show ?thesis
  proof (cases c)
    case (Request_Approval i act sc reason cat tgt risk refs cap b old)
    with per obtain q where "request_approval core i act sc reason cat tgt risk refs cap b old r = Inr (q, r', evs)"
      by (auto simp: effect_Inr)
    then obtain r1 evs1 where sup: "(case old of None \<Rightarrow> Inr (r, []) | Some o' \<Rightarrow> supersede o' q r) = Inr (r1, evs1)"
      and r': "r' = r1\<lparr>run_approvals := AList.update i q (run_approvals r1)\<rparr>"
      by (auto simp: request_approval_def bind_ok_Inr_iff)
    have i: "map_of (run_approvals r) i = None" using new Request_Approval by (simp add: map_of_eq_None_iff)
    have "asks_same r r1" using sup by (auto dest!: supersede_frame simp: asks_same_def split: option.splits)
    then show ?thesis using i unfolding asks_same_def r' by auto
  next
    case (Decide_Approval a b h reason)
    with per obtain d where dec: "decide_approval a b h reason r = Inr (d, r', evs)" by (auto simp: effect_Inr)
    from ok dec show ?thesis
    proof (rule decide_Inr)
      fix q assume "map_of (run_approvals r) a = Some q" "governance r' = governance (decided a d q r)"
      then show ?thesis by (auto simp: governance_def decided_def asks_same_def)
    qed
  next
    case (Apply_Replan p)
    with per obtain x where app: "apply_replan core p r = Inr (x, r', evs)" by (auto simp: effect_Inr)
    from ok app show ?thesis
    proof (rule apply_replan_Inr)
      fix p' evs1
      assume nodef: "replan_defects r p' = []"
        and ref: "then_refresh () (revise_plan p' (replanned p' r)) evs1 = Inr (x, r', evs)"
      have "distinct (map fst (run_tasks (revise_plan p' (replanned p' r))))"
        using run_okD(1)[OF replanned_ok[OF ok nodef]] by (simp add: revise_plan_def)
      from governance_refresh[OF ref this] replanned_governance[of p' r] show ?thesis
        by (intro asks_same_refl) (simp add: governance_def revise_plan_def)
    qed
  qed simp_all
qed

lemma moves_asks_same:
  assumes "moves_to core r r'" and "reachable core r"
  shows "asks_same r r'"
  using assms(1) unfolding moves_to_def
proof (induct rule: rtranclp_induct)
  case base
  show ?case by (simp add: asks_same_refl)
next
  case (step r1 r2)
  have ok: "run_ok core r1" using reachable_ok[OF reachable_moves[OF _ assms(2)]] step.hyps(1) by (simp add: moves_to_def)
  from step.hyps(2) have "asks_same r1 r2"
  proof (rule stepE)
    fix c evs assume "mutate core c r1 = Inr (r2, evs)" "fresh_ids r1 c"
    with perform_asks_same[OF ok] show ?thesis by (auto simp: mutate_Inr)
  qed (auto intro!: asks_same_refl simp: append_usage_Inr)
  with step.hyps(3) show ?case by (rule asks_same_trans)
qed

section \<open>The decision is on what was shown\<close>

text \<open>
  Other processes move a run only by the kernel's steps, and leave a store in order.
\<close>

definition advances :: "Codec \<Rightarrow> Orchestrator \<Rightarrow> ident \<Rightarrow> (Db \<Rightarrow> Db) \<Rightarrow> bool" where
  "advances cd core rid f \<longleftrightarrow> (\<forall>d. store_ok core cd d \<longrightarrow> store_ok core cd (f d) \<and>
     (\<forall>r r'. load cd rid d = Inr r \<longrightarrow> load cd rid (f d) = Inr r' \<longrightarrow> moves_to core r r'))"

definition all_advance :: "Codec \<Rightarrow> Orchestrator \<Rightarrow> ident \<Rightarrow> ((Db \<Rightarrow> Db) \<times> (Db \<Rightarrow> Db)) list \<Rightarrow> bool" where
  "all_advance cd core rid others \<longleftrightarrow>
     (\<forall>w \<in> set others. advances cd core rid (fst w) \<and> advances cd core rid (snd w))"

lemma windows_advance:
  assumes "all_advance cd core rid others"
  shows "advances cd core rid (fst (windows others))" "advances cd core rid (snd (windows others))"
    "all_advance cd core rid (drop 1 others)"
  using assms by (cases others; simp add: all_advance_def windows_def advances_def)+

lemma shown_request_Inr:
  "shown_request aid expected r = Inr q \<longleftrightarrow>
     map_of (run_approvals r) aid = Some q \<and> aq_status q = AP_PENDING \<and> aq_scope_digest q = expected"
  by (auto simp: shown_request_def Inr_simps)

text \<open>What a recorded decision looks like in the run.\<close>

definition decided_as_shown :: "Run \<Rightarrow> ident \<Rightarrow> bool \<Rightarrow> ident \<Rightarrow> string \<Rightarrow> string \<Rightarrow> bool" where
  "decided_as_shown r aid granted human reason expected \<longleftrightarrow>
     (\<exists>q d. map_of (run_approvals r) aid = Some q \<and> aq_scope_digest q = expected \<and>
        aq_status q = (if granted then AP_APPROVED else AP_REJECTED) \<and>
        map_of (run_approval_decisions r) aid = Some d \<and> al_approved d = granted \<and>
        al_human_id d = human \<and> al_reason d = reason)"

lemma decide_mutates:
  assumes re: "reachable core r" and plain: "plain_run r"
    and mut: "mutate core (Decide_Approval aid granted human reason) r = Inr (r', evs)"
    and q: "map_of (run_approvals r) aid = Some q" "aq_scope_digest q = expected"
  shows "decided_as_shown r' aid granted human reason expected"
proof -
  from mut obtain d where dec: "decide_approval aid granted human reason r = Inr (d, r', evs)"
    by (auto simp: mutate_Inr effect_Inr)
  from reachable_ok[OF re] dec show ?thesis
  proof (rule decide_Inr)
    fix q' assume "map_of (run_approvals r) aid = Some q'" and d: "al_approved d = granted" "al_human_id d = human"
      "al_reason d = reason" "al_status d = (if granted then AP_APPROVED else AP_REJECTED)"
      and same: "governance r' = governance (decided aid d q' r)"
    with q show ?thesis by (auto simp: decided_as_shown_def governance_def decided_def)
  qed
qed

lemma decide_attempts_sound:
  assumes cd: "codec_ok cd"
  shows "store_ok core cd db \<Longrightarrow> all_advance cd core rid others \<Longrightarrow>
     decide_attempts cd core rid aid granted human reason expected n others db = (Inr r, db') \<Longrightarrow>
     store_ok core cd db' \<and> reachable core r \<and> decided_as_shown r aid granted human reason expected"
proof (induct n arbitrary: others db)
  case 0
  then show ?case by simp
next
  case (Suc n)
  let ?db1 = "fst (windows others) db"
  let ?db2 = "snd (windows others) ?db1"
  note adv = windows_advance[OF Suc.prems(2)]
  have ok1: "store_ok core cd ?db1" and ok2: "store_ok core cd ?db2"
    using adv(1,2) Suc.prems(1) unfolding advances_def by blast+
  from Suc.prems(3) obtain q where "bind_ok (load cd rid db) (shown_request aid expected) = Inr q"
    by (auto split: sum.splits)
  then obtain seen where seen: "load cd rid db = Inr seen" "shown_request aid expected seen = Inr q"
    by (auto simp: bind_ok_Inr_iff)
  from Suc.prems(3) obtain r1 r' evs where ld: "load cd rid ?db1 = Inr r1"
    and mut: "mutate core (Decide_Approval aid granted human reason) r1 = Inr (r', evs)"
    by (simp add: seen Let_def bind_ok_def split: sum.splits prod.splits)
  note re = load_reachable[OF cd ok1 ld]
  have "moves_to core seen r1" using adv(1) Suc.prems(1) seen(1) ld unfolding advances_def by blast
  from moves_asks_same[OF this load_reachable(1)[OF cd Suc.prems(1) seen(1)]] seen(2)
  obtain q1 where q1: "map_of (run_approvals r1) aid = Some q1" "aq_scope_digest q1 = expected"
    unfolding asks_same_def shown_request_Inr by fastforce
  note shown = decide_mutates[OF re(1,2) mut q1]
  show ?case
  proof (cases "save cd r' evs (Some (run_version r1)) ?db2" rule: attempt_cases)
    case (saved z)
    obtain c db3 where z: "z = (c, db3)" by (cases z)
    have "load cd rid db3 = Inr r \<and> db3 = db'" using Suc.prems(3) saved by (auto simp: z seen ld mut Let_def)
    note res = conjunct1[OF this] sym[OF conjunct2[OF this]]
    have "evs \<noteq> []" using saved by (auto simp: save_def)
    from mutate_savable[OF re(1,2) mut _ this]
    have sv: "reachable core r'" "savable r' evs" "run_id r' = rid" using re(3) by simp_all
    note ok3 = save_store_ok[OF cd ok2 sv(2,1) saved[unfolded z]]
    have "db_ok cd ?db2" using ok2 by (simp add: store_ok_def)
    note S = run_store.saved[OF sqlite_run_store[OF cd] this sv(2) saved[unfolded z]]
    have "view cd db3 rid = Some (c, log_of (view cd ?db2) rid @
        map (cd_wire cd) (numbered (length (log_of (view cd ?db2) rid)) evs))" using S(4) sv(3) by simp
    then have "load cd rid db3 = Inr c" by (auto simp: view_def split: sum.splits)
    with res have "r = saved_run r' (Some (run_version r1)) (int (length (log_of (view cd ?db2) (run_id r')) + length evs))"
      using S(3) by simp
    then have "decided_as_shown r aid granted human reason expected"
      using shown by (simp add: decided_as_shown_def saved_run_def)
    with ok3 load_reachable(1)[OF cd ok3 res(1)] show ?thesis by (simp add: res(2))
  next
    case (raced m)
    with Suc.prems(3) have "n \<noteq> 0" "decide_attempts cd core rid aid granted human reason expected n (drop 1 others) ?db2 = (Inr r, db')"
      by (simp_all add: seen ld mut Let_def split: if_splits)
    from Suc.hyps[OF ok2 adv(3) this(2)] show ?thesis .
  next
    case (refused e)
    with Suc.prems(3) show ?thesis by (cases e) (simp_all add: seen ld mut Let_def)
  qed
qed

text \<open>An attempt nobody raced records the decision.\<close>

lemma decide_attempt_succeeds:
  assumes cd: "codec_ok cd" and ok: "store_ok core cd db" and ld: "load cd rid db = Inr r"
    and q: "shown_request aid expected r = Inr q" and active: "run_status r = ''active''"
    and human: "human \<noteq> ''''" "reason \<noteq> ''''"
  shows "\<exists>r' db'. decide_attempts cd core rid aid granted human reason expected (Suc n) [] db = (Inr r', db')"
proof -
  note re = load_reachable[OF cd ok ld]
  from q reachable_governed[OF re(1)] have q': "map_of (run_approvals r) aid = Some q" "aq_status q = AP_PENDING"
    "aid \<notin> fst ` set (run_approval_decisions r)"
    by (auto simp: shown_request_Inr governed_def approval_ok_def map_of_eq_None_iff[symmetric])
  let ?d = "\<lparr>al_request_id = aid, al_approved = granted, al_human_id = human, al_reason = reason,
    al_status = (if granted then AP_APPROVED else AP_REJECTED)\<rparr>"
  have "distinct (map fst (run_tasks (decided aid ?d q r)))"
    using run_okD(1)[OF reachable_ok[OF re(1)]] by (simp add: decided_def comp_def case_prod_beta')
  from refresh_total[OF this] obtain r' more where "refresh (decided aid ?d q r) = Inr (r', more)" by blast
  then obtain evs where mut: "mutate core (Decide_Approval aid granted human reason) r = Inr (r', evs)" "evs \<noteq> []"
    using q' human active by (auto simp: mutate_def effect_Inr decide_approval_def Let_def then_refresh_Inr)
  have "fresh_ids r (Decide_Approval aid granted human reason)" by simp
  from mutate_savable[OF re(1,2) mut(1) this mut(2)] re(3) have sv: "savable r' evs" "run_id r' = rid" "reachable core r'"
    by simp_all
  have dbok: "db_ok cd db" using ok by (simp add: store_ok_def)
  obtain es where h: "holds cd rid r es db" using load_holds[OF cd dbok ld] .
  have "version_of (view cd db) (run_id r') = Some (run_version r)" using view_holds[OF cd h] sv(2) by (simp add: version_of_def)
  from run_store.commits[OF sqlite_run_store[OF cd] dbok sv(1) this] obtain c db3
    where save: "save cd r' evs (Some (run_version r)) db = Inr (c, db3)" and v: "view cd db3 rid \<noteq> None"
    using sv(2) by auto
  then obtain r3 where "load cd rid db3 = Inr r3" by (auto simp: view_def split: sum.splits)
  then show ?thesis by (simp add: ld q mut save Let_def windows_def)
qed

end
