(* ===== verification/Engine_Claims.thy ===== *)
theory Engine_Claims
  imports Engine Persistence
begin

text \<open>
  What the boundary guarantees the person who decides: the decision that is recorded is the one given, on
  the scope that was displayed, whatever other processes commit meanwhile. The witness stores a run
  with a pending request and decides on it.
\<close>

definition asking0 :: "command list" where
  "asking0 = planning0 @
     [Request_Approval ''ap'' ''change_capability'' (capability_scope ''t1'' RESEARCHER None) ''needs sources''
        None None ''material action'' [] None True None]"

definition digest0 :: string where
  "digest0 = (case map_of (run_approvals (after0 asking0)) ''ap'' of None \<Rightarrow> '''' | Some q \<Rightarrow> aq_scope_digest q)"

lemma asking0_observed:
  "(run_id (after0 asking0), run_status (after0 asking0), run_usage_records (after0 asking0),
     map (\<lambda>(k, q). (k, aq_status q)) (run_approvals (after0 asking0))) =
   (''run'', ''active'', [], [(''ap'', AP_PENDING)])"
  by code_simp

lemma asking0_facts:
  "run_id (after0 asking0) = ''run''" "run_status (after0 asking0) = ''active''" "plain_run (after0 asking0)"
  "\<exists>q. shown_request ''ap'' digest0 (after0 asking0) = Inr q"
  using asking0_observed by (auto simp: plain_run_def shown_request_Inr digest0_def)

text \<open>That run on disk.\<close>

lemma asking0_stored:
  obtains db r q where "store_ok core0 codec0 db" "load codec0 ''run'' db = Inr r" "run_status r = ''active''"
    "shown_request ''ap'' digest0 r = Inr q"
proof (rule stored_run[OF after0_reachable asking0_facts(3)])
  fix db n
  let ?r = "saved_run (after0 asking0) None n"
  assume db: "store_ok core0 codec0 db" "load codec0 (run_id (after0 asking0)) db = Inr ?r"
  obtain q where "shown_request ''ap'' digest0 ?r = Inr q"
    using asking0_facts(4) by (auto simp: saved_run_def shown_request_Inr)
  moreover have "run_status ?r = ''active''" using asking0_facts(2) by (simp add: saved_run_def)
  ultimately show thesis using that db asking0_facts(1) by simp
qed

text \<open>
  C19 (safety). A decision that \<open>decide_approval\<close> reports is on exactly what was displayed: the stored
  request has the digest the client echoed, and its status and the recorded decision are the ones
  given, by that human and for that reason, although other processes may change the run and win the
  race for the store between any two steps of the three attempts.
\<close>

theorem decisions_are_on_what_was_shown:
  assumes "codec_ok cd" and "store_ok core cd db" and "all_advance cd core rid others"
    and "engine_decide cd core rid aid granted human reason expected others db = (Inr r, db')"
  shows "store_ok core cd db' \<and> reachable core r \<and> decided_as_shown r aid granted human reason expected"
  using decide_attempts_sound[OF assms(1,2,3) assms(4)[unfolded engine_decide_def]] .

theorem decisions_are_on_what_was_shown_witness:
  "\<exists>db r db'. engine_decide codec0 core0 ''run'' ''ap'' True ''operator'' ''fine'' digest0 [] db = (Inr r, db') \<and>
     decided_as_shown r ''ap'' True ''operator'' ''fine'' digest0"
proof (rule asking0_stored)
  fix db r q
  assume ok: "store_ok core0 codec0 db" and ld: "load codec0 ''run'' db = Inr r" and act: "run_status r = ''active''"
    and q: "shown_request ''ap'' digest0 r = Inr q"
  from decide_attempt_succeeds[OF codec0_ok ok ld q act, where human="''operator''" and
      reason="''fine''" and n=2 and granted=True] obtain r' db' where
    dec: "engine_decide codec0 core0 ''run'' ''ap'' True ''operator'' ''fine'' digest0 [] db = (Inr r', db')"
    by (auto simp: engine_decide_def numeral_3_eq_3 numeral_2_eq_2)
  have "all_advance codec0 core0 ''run'' []" by (simp add: all_advance_def)
  from decisions_are_on_what_was_shown[OF codec0_ok ok this dec] dec show ?thesis by blast
qed

end
