(* ===== verification/Platform_Store.thy ===== *)
theory Platform_Store
  imports Json Complex_Main
begin

text \<open>
  The platform's records of \<open>src/src/cavman/platform_store.py\<close>: who owns a project and a run, the
  leased job queue, project leases, periodic maintenance, rate limits, and what was published or
  delivered. A table is the list of its rows in rowid order, an upserted key-value table a
  dictionary. Seconds are rationals (float rounding is not modelled); the texts \<open>_now()\<close> gives and
  the identifiers \<open>new_id()\<close> draws are arguments. A transaction that raises is rolled back, so it has
  no new state. The foreign keys and primary keys of the schema are checked where a statement can
  violate them.
\<close>

section \<open>Rows\<close>

text \<open>A JSON column reads back as the document that was written, its keys sorted.\<close>

fun sorted_json :: "json \<Rightarrow> json" where
  "sorted_json (JArr vs) = JArr (map sorted_json vs)"
| "sorted_json (JObj kvs) = JObj (sort_key fst (map (\<lambda>kv. (fst kv, sorted_json (snd kv))) kvs))"
| "sorted_json JNull = JNull"
| "sorted_json (JBool b) = JBool b"
| "sorted_json (JInt i) = JInt i"
| "sorted_json (JStr s) = JStr s"

record Project =
  pj_id :: ident
  pj_owner_id :: ident
  pj_name :: string
  pj_description :: string
  pj_settings :: json
  pj_created_at :: string
  pj_updated_at :: string

record RunRecord =
  rr_id :: ident
  rr_project_id :: ident
  rr_owner_id :: ident
  rr_prompt :: string
  rr_executor :: string
  rr_budget_usd :: rat
  rr_max_model_calls :: int
  rr_created_at :: string
  rr_model_mode :: string

record Job =
  jb_id :: ident
  jb_run_id :: ident
  jb_kind :: string
  jb_message :: string
  jb_status :: string
  jb_outcome :: "string option"
  jb_detail :: "string option"
  jb_lease_owner :: "ident option"
  jb_lease_expires :: "rat option"
  jb_cancel_requested :: bool
  jb_created_at :: string
  jb_started_at :: "string option"
  jb_finished_at :: "string option"

record Publication =
  pb_run_id :: ident
  pb_owner_id :: ident
  pb_repo_full_name :: string
  pb_html_url :: string
  pb_commit_sha :: string
  pb_private :: bool
  pb_created_at :: string

record Delivery =
  dl_run_id :: ident
  dl_status :: string
  dl_manifest :: json
  dl_archive_name :: "string option"
  dl_created_at :: string

record RateEvent =
  re_owner_id :: ident
  re_action :: string
  re_at :: rat

record Platform =
  pf_projects :: "Project list"
  pf_runs :: "RunRecord list"
  pf_jobs :: "Job list"
  pf_publications :: "Publication list"
  pf_workflow :: "(ident, json \<times> string) dict"
  pf_leases :: "(ident, ident \<times> rat) dict"
  pf_maintenance :: "(string, rat) dict"
  pf_retired :: "(ident, string) dict"
  pf_rates :: "RateEvent list"
  pf_deliveries :: "(ident, Delivery) dict"

definition empty_platform :: Platform where
  "empty_platform = \<lparr>pf_projects = [], pf_runs = [], pf_jobs = [], pf_publications = [], pf_workflow = [],
     pf_leases = [], pf_maintenance = [], pf_retired = [], pf_rates = [], pf_deliveries = []\<rparr>"

section \<open>Shared queries\<close>

definition JOB_ACTIVE :: "string list" where
  "JOB_ACTIVE = [''queued'', ''running'']"

definition job_active :: "Job \<Rightarrow> bool" where
  "job_active j = (jb_status j \<in> set JOB_ACTIVE)"

definition run_by_id :: "ident \<Rightarrow> Platform \<Rightarrow> RunRecord option" where
  "run_by_id rid db = find (\<lambda>r. rr_id r = rid) (pf_runs db)"

definition project_by_id :: "ident \<Rightarrow> Platform \<Rightarrow> Project option" where
  "project_by_id pid db = find (\<lambda>p. pj_id p = pid) (pf_projects db)"

definition job_by_id :: "ident \<Rightarrow> Platform \<Rightarrow> Job option" where
  "job_by_id jid db = find (\<lambda>j. jb_id j = jid) (pf_jobs db)"

text \<open>\<open>jobs JOIN runs ON runs.id = jobs.run_id\<close>: the project and owner of a job's run.\<close>

definition project_of :: "Platform \<Rightarrow> Job \<Rightarrow> ident option" where
  "project_of db j = map_option rr_project_id (run_by_id (jb_run_id j) db)"

definition owner_of :: "Platform \<Rightarrow> Job \<Rightarrow> ident option" where
  "owner_of db j = map_option rr_owner_id (run_by_id (jb_run_id j) db)"

definition project_running :: "ident \<Rightarrow> Platform \<Rightarrow> bool" where
  "project_running pid db = (\<exists>j \<in> set (pf_jobs db). jb_status j = ''running'' \<and> project_of db j = Some pid)"

text \<open>\<open>LIMIT\<close>: a negative number means no limit.\<close>

definition limited :: "int \<Rightarrow> 'a list \<Rightarrow> 'a list" where
  "limited n rows = (if n < 0 then rows else take (nat n) rows)"

definition update_jobs :: "(Job \<Rightarrow> bool) \<Rightarrow> (Job \<Rightarrow> Job) \<Rightarrow> Platform \<Rightarrow> Platform" where
  "update_jobs p f db = db\<lparr>pf_jobs := map (\<lambda>j. if p j then f j else j) (pf_jobs db)\<rparr>"

text \<open>Keyset pages: the rows after the last one shown, newest first, at most \<open>limit\<close> of them.\<close>

definition older :: "('a \<Rightarrow> string) \<Rightarrow> ('a \<Rightarrow> ident) \<Rightarrow> (string \<times> ident) option \<Rightarrow> 'a \<Rightarrow> bool" where
  "older created ident_of before row =
     (case before of None \<Rightarrow> True
      | Some (c, i) \<Rightarrow> created row < c \<or> (created row = c \<and> ident_of row < i))"

definition newest_first :: "('a \<Rightarrow> string) \<Rightarrow> ('a \<Rightarrow> ident) \<Rightarrow> 'a list \<Rightarrow> 'a list" where
  "newest_first created ident_of rows = rev (sort_key created (sort_key ident_of rows))"

definition page_limit :: "int option \<Rightarrow> 'a list \<Rightarrow> 'a list" where
  "page_limit bound rows = (case bound of None \<Rightarrow> rows | Some n \<Rightarrow> if n = 0 then rows else limited n rows)"

section \<open>Project leases and maintenance\<close>

definition acquire_project :: "ident \<Rightarrow> ident \<Rightarrow> rat \<Rightarrow> rat \<Rightarrow> Platform \<Rightarrow> bool \<times> Platform" where
  "acquire_project pid holder seconds now db =
     (if project_running pid db then (False, db)
      else if (case map_of (pf_leases db) pid of
          None \<Rightarrow> False | Some (h, expires) \<Rightarrow> h \<noteq> holder \<and> now \<le> expires) then (False, db)
      else (True, db\<lparr>pf_leases := AList.update pid (holder, now + seconds) (pf_leases db)\<rparr>))"

definition release_project :: "ident \<Rightarrow> ident \<Rightarrow> Platform \<Rightarrow> Platform" where
  "release_project pid holder db =
     db\<lparr>pf_leases := filter (\<lambda>row. \<not> (fst row = pid \<and> fst (snd row) = holder)) (pf_leases db)\<rparr>"

definition due :: "string \<Rightarrow> rat \<Rightarrow> rat \<Rightarrow> Platform \<Rightarrow> bool \<times> Platform" where
  "due name interval now db =
     (if (case map_of (pf_maintenance db) name of None \<Rightarrow> False | Some last_run \<Rightarrow> last_run > now - interval)
      then (False, db)
      else (True, db\<lparr>pf_maintenance := AList.update name now (pf_maintenance db)\<rparr>))"

definition unretired_runs :: "int \<Rightarrow> Platform \<Rightarrow> RunRecord list" where
  "unretired_runs bound db =
     limited bound (sort_key rr_created_at (filter (\<lambda>r. rr_id r \<notin> fst ` set (pf_retired db) \<and>
       \<not> (\<exists>j \<in> set (pf_jobs db). job_active j \<and> jb_run_id j = rr_id r)) (pf_runs db)))"

definition mark_retired :: "ident \<Rightarrow> string \<Rightarrow> Platform \<Rightarrow> Platform" where
  "mark_retired rid t db =
     (if rid \<in> fst ` set (pf_retired db) then db else db\<lparr>pf_retired := pf_retired db @ [(rid, t)]\<rparr>)"

definition prune_rate_events :: "rat \<Rightarrow> Platform \<Rightarrow> nat \<times> Platform" where
  "prune_rate_events older_than db =
     (length (filter (\<lambda>e. re_at e < older_than) (pf_rates db)),
      db\<lparr>pf_rates := filter (\<lambda>e. \<not> re_at e < older_than) (pf_rates db)\<rparr>)"

section \<open>Limits\<close>

definition same_key :: "ident \<Rightarrow> string \<Rightarrow> RateEvent \<Rightarrow> bool" where
  "same_key owner action e = (re_owner_id e = owner \<and> re_action e = action)"

text \<open>
  A limit of zero or less indexes the list of recent uses at or past its end: Python raises
  \<open>IndexError\<close> there, and the transaction is rolled back.
\<close>

definition consume_rate :: "ident \<Rightarrow> string \<Rightarrow> int \<Rightarrow> rat \<Rightarrow> rat \<Rightarrow> Platform \<Rightarrow> py_error + (rat option \<times> Platform)" where
  "consume_rate owner action bound window now db =
     (let kept = filter (\<lambda>e. \<not> (same_key owner action e \<and> re_at e < now - window)) (pf_rates db);
          recent = sort (map re_at (filter (same_key owner action) kept)) in
      if bound \<le> int (length recent)
      then (if bound \<le> 0 then Inl IndexError
            else Inr (Some (max 1 (recent ! (length recent - nat bound) + window - now)), db\<lparr>pf_rates := kept\<rparr>))
      else Inr (None, db\<lparr>pf_rates := kept @ [\<lparr>re_owner_id = owner, re_action = action, re_at = now\<rparr>]\<rparr>))"

definition active_build_count :: "ident \<Rightarrow> Platform \<Rightarrow> nat" where
  "active_build_count owner db =
     card (jb_run_id ` set (filter (\<lambda>j. job_active j \<and> owner_of db j = Some owner) (pf_jobs db)))"

definition project_count :: "ident \<Rightarrow> Platform \<Rightarrow> nat" where
  "project_count owner db = length (filter (\<lambda>p. pj_owner_id p = owner) (pf_projects db))"

section \<open>Account erasure\<close>

definition owned_runs :: "ident \<Rightarrow> Platform \<Rightarrow> ident set" where
  "owned_runs owner db = rr_id ` set (filter (\<lambda>r. rr_owner_id r = owner) (pf_runs db))"

definition owned_projects :: "ident \<Rightarrow> Platform \<Rightarrow> ident set" where
  "owned_projects owner db = pj_id ` set (filter (\<lambda>p. pj_owner_id p = owner) (pf_projects db))"

definition erase_owner :: "ident \<Rightarrow> Platform \<Rightarrow> Platform" where
  "erase_owner owner db =
     (let owned = owned_runs owner db; projects = owned_projects owner db in
      db\<lparr>pf_publications := filter (\<lambda>p. pb_run_id p \<notin> owned \<and> pb_owner_id p \<noteq> owner) (pf_publications db),
         pf_workflow := filter (\<lambda>w. fst w \<notin> owned) (pf_workflow db),
         pf_deliveries := filter (\<lambda>d. fst d \<notin> owned) (pf_deliveries db),
         pf_jobs := filter (\<lambda>j. jb_run_id j \<notin> owned) (pf_jobs db),
         pf_retired := filter (\<lambda>r. fst r \<notin> owned) (pf_retired db),
         pf_rates := filter (\<lambda>e. re_owner_id e \<noteq> owner) (pf_rates db),
         pf_runs := filter (\<lambda>r. rr_owner_id r \<noteq> owner) (pf_runs db),
         pf_leases := filter (\<lambda>l. fst l \<notin> projects) (pf_leases db),
         pf_projects := filter (\<lambda>p. pj_owner_id p \<noteq> owner) (pf_projects db)\<rparr>)"

definition delete_owner :: "ident \<Rightarrow> Platform \<Rightarrow> py_error + ((ident list \<times> ident list) \<times> Platform)" where
  "delete_owner owner db =
     (if \<exists>j \<in> set (pf_jobs db). jb_status j = ''running'' \<and> jb_run_id j \<in> owned_runs owner db
      then Inl (ActiveWork ''A build is running. Stop it, or wait for it to finish, before deleting your account.'')
      else if \<exists>r \<in> set (pf_runs (erase_owner owner db)). rr_project_id r \<in> owned_projects owner db
      then Inl (IntegrityError ''FOREIGN KEY constraint failed'')
      else Inr ((map rr_id (sort_key rr_created_at (filter (\<lambda>r. rr_owner_id r = owner) (pf_runs db))),
                 map pj_id (filter (\<lambda>p. pj_owner_id p = owner) (pf_projects db))),
                erase_owner owner db))"

definition known_ids :: "Platform \<Rightarrow> ident set \<times> ident set" where
  "known_ids db = (rr_id ` set (pf_runs db), pj_id ` set (pf_projects db))"

section \<open>Projects\<close>

definition get_project :: "ident \<Rightarrow> ident \<Rightarrow> Platform \<Rightarrow> Project option" where
  "get_project owner pid db = find (\<lambda>p. pj_id p = pid \<and> pj_owner_id p = owner) (pf_projects db)"

definition new_project :: "ident \<Rightarrow> ident \<Rightarrow> string \<Rightarrow> string \<Rightarrow> json_object \<Rightarrow> string \<Rightarrow> Project" where
  "new_project pid owner name description settings t =
     \<lparr>pj_id = pid, pj_owner_id = owner, pj_name = name, pj_description = description,
      pj_settings = sorted_json (JObj settings), pj_created_at = t, pj_updated_at = t\<rparr>"

text \<open>\<open>settings or {}\<close> and \<open>project_id or new_id()\<close>: an empty value is replaced.\<close>

definition create_project :: "ident \<Rightarrow> string \<Rightarrow> string \<Rightarrow> json_object \<Rightarrow> ident option \<Rightarrow> ident \<Rightarrow> string \<Rightarrow> Platform \<Rightarrow>
    py_error + (Project option \<times> Platform)" where
  "create_project owner name description settings given fresh t db =
     (if \<not> substantive owner then Inl (ValueError ''A project needs an owner'')
      else (let pid = (case given of None \<Rightarrow> fresh | Some g \<Rightarrow> if g = [] then fresh else g) in
        if \<exists>p \<in> set (pf_projects db). pj_id p = pid
        then Inl (IntegrityError ''UNIQUE constraint failed: projects.id'')
        else (let db' = db\<lparr>pf_projects := pf_projects db @ [new_project pid owner name description settings t]\<rparr> in
          Inr (get_project owner pid db', db'))))"

definition list_projects :: "ident \<Rightarrow> int option \<Rightarrow> (string \<times> ident) option \<Rightarrow> Platform \<Rightarrow> Project list" where
  "list_projects owner bound before db =
     page_limit bound (newest_first pj_created_at pj_id
       (filter (\<lambda>p. pj_owner_id p = owner \<and> older pj_created_at pj_id before p) (pf_projects db)))"

definition touch_project :: "ident \<Rightarrow> string \<Rightarrow> Platform \<Rightarrow> Platform" where
  "touch_project pid t db =
     db\<lparr>pf_projects := map (\<lambda>p. if pj_id p = pid then p\<lparr>pj_updated_at := t\<rparr> else p) (pf_projects db)\<rparr>"

section \<open>Runs\<close>

definition register_run :: "RunRecord \<Rightarrow> string \<Rightarrow> Platform \<Rightarrow> py_error + (RunRecord option \<times> Platform)" where
  "register_run row t db =
     (case project_by_id (rr_project_id row) db of
        None \<Rightarrow> Inl (PermissionError ''Project does not belong to this user'')
      | Some p \<Rightarrow>
        if pj_owner_id p \<noteq> rr_owner_id row
        then Inl (PermissionError ''Project does not belong to this user'')
        else if \<exists>r \<in> set (pf_runs db). rr_id r = rr_id row
        then Inl (IntegrityError ''UNIQUE constraint failed: runs.id'')
        else (let db' = touch_project (rr_project_id row) t (db\<lparr>pf_runs := pf_runs db @ [row]\<rparr>) in
          Inr (run_by_id (rr_id row) db', db')))"

definition get_run :: "ident \<Rightarrow> ident \<Rightarrow> Platform \<Rightarrow> RunRecord option" where
  "get_run owner rid db = find (\<lambda>r. rr_id r = rid \<and> rr_owner_id r = owner) (pf_runs db)"

definition list_owned_runs :: "ident \<Rightarrow> ident option \<Rightarrow> int option \<Rightarrow> (string \<times> ident) option \<Rightarrow> Platform \<Rightarrow>
    RunRecord list" where
  "list_owned_runs owner project bound before db =
     page_limit bound (newest_first rr_created_at rr_id
       (filter (\<lambda>r. rr_owner_id r = owner \<and> (case project of None \<Rightarrow> True | Some pid \<Rightarrow> rr_project_id r = pid) \<and>
          older rr_created_at rr_id before r) (pf_runs db)))"

definition count_runs :: "ident \<Rightarrow> ident \<Rightarrow> Platform \<Rightarrow> nat" where
  "count_runs owner pid db = length (filter (\<lambda>r. rr_owner_id r = owner \<and> rr_project_id r = pid) (pf_runs db))"

definition set_budget :: "ident \<Rightarrow> rat \<Rightarrow> Platform \<Rightarrow> Platform" where
  "set_budget rid budget db =
     db\<lparr>pf_runs := map (\<lambda>r. if rr_id r = rid then r\<lparr>rr_budget_usd := budget\<rparr> else r) (pf_runs db)\<rparr>"

section \<open>Jobs\<close>

definition queued_job :: "ident \<Rightarrow> ident \<Rightarrow> string \<Rightarrow> string \<Rightarrow> string \<Rightarrow> Job" where
  "queued_job jid rid kind message t =
     \<lparr>jb_id = jid, jb_run_id = rid, jb_kind = kind, jb_message = message, jb_status = ''queued'',
      jb_outcome = None, jb_detail = None, jb_lease_owner = None, jb_lease_expires = None,
      jb_cancel_requested = False, jb_created_at = t, jb_started_at = None, jb_finished_at = None\<rparr>"

text \<open>\<open>INSERT INTO jobs\<close>, under the primary key and the reference to the run.\<close>

definition insert_job :: "Job \<Rightarrow> Platform \<Rightarrow> py_error + Platform" where
  "insert_job j db =
     (if \<exists>k \<in> set (pf_jobs db). jb_id k = jb_id j then Inl (IntegrityError ''UNIQUE constraint failed: jobs.id'')
      else if run_by_id (jb_run_id j) db = None then Inl (IntegrityError ''FOREIGN KEY constraint failed'')
      else Inr (db\<lparr>pf_jobs := pf_jobs db @ [j]\<rparr>))"

definition active_job :: "ident \<Rightarrow> Platform \<Rightarrow> Job option" where
  "active_job rid db =
     (case sort_key jb_created_at (filter (\<lambda>j. jb_run_id j = rid \<and> job_active j) (pf_jobs db)) of
        [] \<Rightarrow> None | j # js \<Rightarrow> Some j)"

definition enqueue :: "ident \<Rightarrow> string \<Rightarrow> string \<Rightarrow> ident \<Rightarrow> string \<Rightarrow> Platform \<Rightarrow> py_error + ((Job \<times> bool) \<times> Platform)" where
  "enqueue rid kind message jid t db =
     (if kind \<notin> {''start'', ''continue'', ''recover''} then Inl (ValueError (''Unknown job kind '' @ kind))
      else (case active_job rid db of
          Some j \<Rightarrow> Inr ((j, False), db)
        | None \<Rightarrow> (let j = queued_job jid rid kind message t in
            bind_ok (insert_job j db) (\<lambda>db'. Inr ((j, True), db')))))"

definition jobs_of :: "ident \<Rightarrow> Platform \<Rightarrow> Job list" where
  "jobs_of rid db = sort_key jb_created_at (filter (\<lambda>j. jb_run_id j = rid) (pf_jobs db))"

definition latest_job :: "ident \<Rightarrow> Platform \<Rightarrow> Job option" where
  "latest_job rid db = last_opt (jobs_of rid db)"

definition lease_expired :: "rat \<Rightarrow> Job \<Rightarrow> bool" where
  "lease_expired now j = (jb_status j = ''running'' \<and>
     (case jb_lease_expires j of None \<Rightarrow> False | Some e \<Rightarrow> e < now))"

definition interrupted_job :: "string \<Rightarrow> Job \<Rightarrow> Job" where
  "interrupted_job t j = j\<lparr>jb_status := ''failed'', jb_outcome := Some ''interrupted'',
     jb_detail := Some ''The worker executing this job stopped responding.'',
     jb_finished_at := Some t, jb_lease_owner := None\<rparr>"

definition claimed_job :: "ident \<Rightarrow> rat \<Rightarrow> string \<Rightarrow> Job \<Rightarrow> Job" where
  "claimed_job worker expires t j = j\<lparr>jb_status := ''running'', jb_lease_owner := Some worker,
     jb_lease_expires := Some expires, jb_started_at := Some t\<rparr>"

definition renewed_job :: "rat \<Rightarrow> Job \<Rightarrow> Job" where
  "renewed_job expires j = j\<lparr>jb_lease_expires := Some expires\<rparr>"

definition finished_job :: "string \<Rightarrow> string \<Rightarrow> string \<Rightarrow> string \<Rightarrow> Job \<Rightarrow> Job" where
  "finished_job status outcome detail t j = j\<lparr>jb_status := status, jb_outcome := Some outcome,
     jb_detail := Some detail, jb_finished_at := Some t, jb_lease_owner := None\<rparr>"

definition cancelled_job :: "string \<Rightarrow> Job \<Rightarrow> Job" where
  "cancelled_job t j = j\<lparr>jb_status := ''cancelled'', jb_outcome := Some ''cancelled'',
     jb_detail := Some ''Stopped before a worker picked it up.'', jb_finished_at := Some t\<rparr>"

definition recoveries :: "ident \<Rightarrow> Platform \<Rightarrow> nat" where
  "recoveries rid db = length (filter (\<lambda>j. jb_run_id j = rid \<and> jb_kind j = ''recover'') (pf_jobs db))"

text \<open>
  The rows are fetched before the loop changes anything. \<open>fresh n\<close> gives the two times and the new
  identifier the \<open>n\<close>-th row draws.
\<close>

fun reap_rows :: "int \<Rightarrow> (nat \<Rightarrow> string \<times> ident \<times> string) \<Rightarrow> nat \<Rightarrow> Job list \<Rightarrow> Platform \<Rightarrow>
    py_error + (Job list \<times> Platform)" where
  "reap_rows max_recoveries fresh n [] db = Inr ([], db)"
| "reap_rows max_recoveries fresh n (row # rows) db =
     (let (finished, jid, created) = fresh n;
          db1 = update_jobs (\<lambda>j. jb_id j = jb_id row) (interrupted_job finished) db in
      if int (recoveries (jb_run_id row) db1) < max_recoveries \<and> \<not> jb_cancel_requested row
      then (let j = queued_job jid (jb_run_id row) ''recover'' [] created in
        bind_ok (insert_job j db1) (\<lambda>db2.
          bind_ok (reap_rows max_recoveries fresh (Suc n) rows db2) (\<lambda>(js, db'). Inr (j # js, db'))))
      else reap_rows max_recoveries fresh (Suc n) rows db1)"

definition reap_expired :: "int \<Rightarrow> (nat \<Rightarrow> string \<times> ident \<times> string) \<Rightarrow> rat \<Rightarrow> Platform \<Rightarrow>
    py_error + (Job list \<times> Platform)" where
  "reap_expired max_recoveries fresh now db =
     reap_rows max_recoveries fresh 0 (filter (lease_expired now) (pf_jobs db)) db"

definition claimable :: "rat \<Rightarrow> Platform \<Rightarrow> Job \<Rightarrow> bool" where
  "claimable now db j =
     (jb_status j = ''queued'' \<and>
      (case project_of db j of
         None \<Rightarrow> False
       | Some pid \<Rightarrow> \<not> project_running pid db \<and>
           \<not> (\<exists>l \<in> set (pf_leases db). fst l = pid \<and> now \<le> snd (snd l))))"

definition claim :: "ident \<Rightarrow> rat \<Rightarrow> string \<Rightarrow> rat \<Rightarrow> Platform \<Rightarrow> Job option \<times> Platform" where
  "claim worker seconds started now db =
     (case sort_key jb_created_at (filter (claimable now db) (pf_jobs db)) of
        [] \<Rightarrow> (None, db)
      | row # rows \<Rightarrow>
        (let db' = update_jobs (\<lambda>j. jb_id j = jb_id row \<and> jb_status j = ''queued'')
               (claimed_job worker (now + seconds) started) db in
         (job_by_id (jb_id row) db', db')))"

definition heartbeat :: "ident \<Rightarrow> ident \<Rightarrow> rat \<Rightarrow> rat \<Rightarrow> Platform \<Rightarrow> bool \<times> Platform" where
  "heartbeat jid worker seconds now db =
     (case job_by_id jid db of
        None \<Rightarrow> (True, db)
      | Some row \<Rightarrow>
        if jb_lease_owner row \<noteq> Some worker \<or> jb_status row \<noteq> ''running'' then (True, db)
        else (jb_cancel_requested row,
          update_jobs (\<lambda>j. jb_id j = jid) (renewed_job (now + seconds)) db))"

definition finish :: "ident \<Rightarrow> ident \<Rightarrow> string \<Rightarrow> string \<Rightarrow> string \<Rightarrow> string \<Rightarrow> Platform \<Rightarrow> py_error + Platform" where
  "finish jid worker status outcome detail t db =
     (if status \<notin> {''succeeded'', ''failed'', ''cancelled''}
      then Inl (ValueError (''Unknown terminal job status '' @ status))
      else Inr (update_jobs (\<lambda>j. jb_id j = jid \<and> jb_lease_owner j = Some worker \<and> jb_status j = ''running'')
        (finished_job status outcome detail t) db))"

definition request_cancel :: "ident \<Rightarrow> string \<Rightarrow> Platform \<Rightarrow> Job option \<times> Platform" where
  "request_cancel rid t db =
     (case active_job rid db of
        None \<Rightarrow> (None, db)
      | Some row \<Rightarrow>
        (let db' = (if jb_status row = ''queued''
             then update_jobs (\<lambda>j. jb_id j = jb_id row) (cancelled_job t) db
             else update_jobs (\<lambda>j. jb_id j = jb_id row) (\<lambda>j. j\<lparr>jb_cancel_requested := True\<rparr>) db) in
         (job_by_id (jb_id row) db', db')))"

section \<open>Operator queries\<close>

text \<open>\<open>timestamp\<close> is \<open>datetime.fromisoformat(text).timestamp()\<close>.\<close>

definition queue_stats :: "(string \<Rightarrow> rat) \<Rightarrow> rat \<Rightarrow> Platform \<Rightarrow> rat \<times> nat" where
  "queue_stats timestamp now db =
     ((case sort (map jb_created_at (filter (\<lambda>j. jb_status j = ''queued'') (pf_jobs db))) of
         [] \<Rightarrow> 0 | c # cs \<Rightarrow> max 0 (now - timestamp c)),
      length (filter (lease_expired now) (pf_jobs db)))"

text \<open>\<open>ORDER BY created_at DESC\<close>: rows of the same time stay in rowid order.\<close>

definition all_runs :: "Platform \<Rightarrow> RunRecord list" where
  "all_runs db = rev (sort_key rr_created_at (rev (pf_runs db)))"

definition runs_created_since :: "string \<Rightarrow> Platform \<Rightarrow> RunRecord list" where
  "runs_created_since since db = filter (\<lambda>r. since \<le> rr_created_at r) (all_runs db)"

definition runs_with_work_since :: "string \<Rightarrow> Platform \<Rightarrow> RunRecord list" where
  "runs_with_work_since since db =
     filter (\<lambda>r. (let js = filter (\<lambda>j. jb_run_id j = rr_id r) (pf_jobs db) in
       js = [] \<or> (\<exists>j \<in> set js. case jb_finished_at j of None \<Rightarrow> True | Some t \<Rightarrow> since \<le> t))) (all_runs db)"

definition delivery_counts :: "Platform \<Rightarrow> string \<Rightarrow> nat option" where
  "delivery_counts db status =
     (let n = length (filter (\<lambda>d. dl_status (snd d) = status) (pf_deliveries db)) in
      if n = 0 then None else Some n)"

section \<open>Publications, workflow state, deliveries\<close>

definition publication :: "ident \<Rightarrow> Platform \<Rightarrow> Publication option" where
  "publication rid db = find (\<lambda>p. pb_run_id p = rid) (pf_publications db)"

definition save_publication :: "Publication \<Rightarrow> Platform \<Rightarrow> py_error + (Publication option \<times> Platform)" where
  "save_publication row db =
     (if \<exists>p \<in> set (pf_publications db). pb_run_id p = pb_run_id row
      then Inl (IntegrityError ''UNIQUE constraint failed: publications.run_id'')
      else if run_by_id (pb_run_id row) db = None then Inl (IntegrityError ''FOREIGN KEY constraint failed'')
      else (let db' = db\<lparr>pf_publications := pf_publications db @ [row]\<rparr> in
        Inr (publication (pb_run_id row) db', db')))"

definition workflow_state :: "ident \<Rightarrow> Platform \<Rightarrow> json option" where
  "workflow_state rid db = map_option fst (map_of (pf_workflow db) rid)"

definition save_workflow_state :: "ident \<Rightarrow> json_object \<Rightarrow> string \<Rightarrow> Platform \<Rightarrow> py_error + Platform" where
  "save_workflow_state rid state t db =
     (if run_by_id rid db = None then Inl (IntegrityError ''FOREIGN KEY constraint failed'')
      else Inr (db\<lparr>pf_workflow := AList.update rid (sorted_json (JObj state), t) (pf_workflow db)\<rparr>))"

definition delivery :: "ident \<Rightarrow> Platform \<Rightarrow> Delivery option" where
  "delivery rid db = map_of (pf_deliveries db) rid"

definition save_delivery :: "ident \<Rightarrow> string \<Rightarrow> json_object \<Rightarrow> string option \<Rightarrow> string \<Rightarrow> Platform \<Rightarrow>
    py_error + (Delivery option \<times> Platform)" where
  "save_delivery rid status manifest archive t db =
     (if run_by_id rid db = None then Inl (IntegrityError ''FOREIGN KEY constraint failed'')
      else (let db' = db\<lparr>pf_deliveries := AList.update rid \<lparr>dl_run_id = rid, dl_status = status,
              dl_manifest = sorted_json (JObj manifest), dl_archive_name = archive, dl_created_at = t\<rparr>
              (pf_deliveries db)\<rparr> in
        Inr (delivery rid db', db')))"

end
