(* ===== verification/Views.thy ===== *)
theory Views
  imports Text Usage Platform_Store
begin

text \<open>
  The projections of \<open>src/src/cavman/views.py\<close>, first part: the labels, and what a user is shown of a
  task, its artifacts, their validations and reviews, the approvals, the failures and the replans.
  A dictionary the code builds is a record with its keys in the source's order; time stamps are left
  out as they are from the run's records, except where they decide an order.

  The constructor's arguments and what the views use of the machine are the fields of a \<open>Projector\<close>:
  the redaction, the settings, \<open>json.loads\<close> (None where it raises \<open>ValueError\<close>; a document holds no
  fractional number), the operations on floats, the time stamps, and the three characters of the texts
  beyond code point 255 (quotation marks and a dash).
\<close>

section \<open>The projector\<close>

record Projector =
  pr_redact :: "string option \<Rightarrow> nat option \<Rightarrow> string"
  pr_orchestration :: string
  pr_budget_warning_ratio :: py_float
  pr_loads :: "string \<Rightarrow> json option"
  pr_float_of :: "string \<Rightarrow> py_float option"
  pr_float_of_int :: "int \<Rightarrow> py_float"
  pr_float_of_rat :: "rat \<Rightarrow> py_float"
  pr_add :: "py_float \<Rightarrow> py_float \<Rightarrow> py_float"
  pr_sub :: "py_float \<Rightarrow> py_float \<Rightarrow> py_float"
  pr_div :: "py_float \<Rightarrow> py_float \<Rightarrow> py_float"
  pr_round :: "py_float \<Rightarrow> py_float"
  pr_created_at :: "ident \<Rightarrow> string"
  pr_open_quote :: string
  pr_close_quote :: string
  pr_dash :: string

definition redact :: "Projector \<Rightarrow> nat \<Rightarrow> string \<Rightarrow> string" where
  "redact P limit s = pr_redact P (Some s) (Some limit)"

definition redact_option :: "Projector \<Rightarrow> nat \<Rightarrow> string option \<Rightarrow> string option" where
  "redact_option P limit x = or_none (pr_redact P x (Some limit))"

section \<open>Labels\<close>

definition CHECK_LABELS :: "(string, string) dict" where
  "CHECK_LABELS =
    [(''result_schema'', ''Output structure''),
     (''compile'', ''Python compile''),
     (''pytest'', ''Candidate tests''),
     (''pytest_candidate'', ''Candidate tests''),
     (''pytest_regression'', ''Regression tests''),
     (''node_test'', ''Node tests''),
     (''tsc'', ''TypeScript typecheck''),
     (''npm_build'', ''Project build'')]"

fun FAILURE_EXPLANATIONS :: "FailureClass \<Rightarrow> string" where
  "FAILURE_EXPLANATIONS BAD_OUTPUT = ''The specialist's output did not meet the task's acceptance criteria.''"
| "FAILURE_EXPLANATIONS MISSING_EVIDENCE = ''The specialist could not show evidence that the work is correct.''"
| "FAILURE_EXPLANATIONS CONSTRAINT_VIOLATION = ''The work broke one of the task's constraints.''"
| "FAILURE_EXPLANATIONS TASK_AMBIGUITY = ''The task was too ambiguous to complete as written.''"
| "FAILURE_EXPLANATIONS DEPENDENCY_FAILURE = ''Work this task depends on is not available.''"
| "FAILURE_EXPLANATIONS TOOL_FAILURE = ''A tool or the execution environment failed.''"
| "FAILURE_EXPLANATIONS PROVIDER_FAILURE = ''The model provider failed to respond.''"
| "FAILURE_EXPLANATIONS TIMEOUT = ''The work was interrupted before it finished.''"
| "FAILURE_EXPLANATIONS CAPABILITY_UNAVAILABLE = ''The task needs a capability it was not granted.''"
| "FAILURE_EXPLANATIONS UNSUPPORTED_CAPABILITY = ''The task needs a capability Cavman does not support yet.''"
| "FAILURE_EXPLANATIONS REPEATED_BAD_OUTPUT = ''The specialist repeatedly produced unacceptable output.''"
| "FAILURE_EXPLANATIONS STALE_BASE =
     ''Other accepted work was merged into the project after this candidate was '' @
     ''built, so it is rebuilt on the latest code before it can be accepted.''"

definition RECOVERY_LABELS :: "(string, string) dict" where
  "RECOVERY_LABELS =
    [(''RETRY'', ''Retry with a fresh attempt''),
     (''REVISE'', ''Revision requested''),
     (''REPLACE'', ''Specialist replaced''),
     (''ESCALATE'', ''Escalated for a decision''),
     (''REPLAN'', ''Replan required'')]"

definition CAPABILITY_LABELS :: "(string, string) dict" where
  "CAPABILITY_LABELS =
    [(''model_only'', ''Reasoning only''),
     (''researcher'', ''Research''),
     (''repo_reader'', ''Read-only repository access''),
     (''developer_sandbox'', ''Sandboxed development''),
     (''reviewer'', ''Review'')]"

definition JOB_OUTCOME_TEXT :: "(string, string) dict" where
  "JOB_OUTCOME_TEXT =
    [(''succeeded'', ''The Manager finished its turn.''),
     (''terminal'', ''The run had already finished.''),
     (''budget_exceeded'', ''The run reached its spending or usage limit, or your account's monthly limit, '' @
        ''and was paused safely.''),
     (''turn_limit'', ''The Manager reached its per-session turn limit and paused.''),
     (''cancelled'', ''Execution was stopped by you.''),
     (''config_error'', ''Cavman's model provider is not configured, so the run could not start.''),
     (''interrupted'', ''The worker running this build stopped unexpectedly.''),
     (''error'', ''Execution stopped because of an unexpected error.'')]"

text \<open>\<open>labels.get(key, key)\<close>\<close>

definition label :: "(string, string) dict \<Rightarrow> string \<Rightarrow> string" where
  "label labels k = (case map_of labels k of None \<Rightarrow> k | Some text \<Rightarrow> text)"

section \<open>A task's state, title and specialist\<close>

definition latest_artifact :: "Run \<Rightarrow> TaskNode \<Rightarrow> Artifact option" where
  "latest_artifact r t =
     (case last_opt (tn_artifact_ids t) of None \<Rightarrow> None | Some aid \<Rightarrow> map_of (run_artifacts r) aid)"

definition task_display_state :: "Run \<Rightarrow> TaskNode \<Rightarrow> string" where
  "task_display_state r t =
     (case tn_status t of
        PLANNED \<Rightarrow> ''Waiting''
      | READY \<Rightarrow> ''Ready''
      | DELEGATED \<Rightarrow> ''Running''
      | RUNNING \<Rightarrow> ''Running''
      | SUBMITTED \<Rightarrow> ''Validating''
      | REVIEWING \<Rightarrow>
          (let recorded = (case latest_artifact r t of None \<Rightarrow> {} | Some a \<Rightarrow> av_check ` set (ar_validations a))
           in if set (tn_required_checks t) - recorded \<noteq> {} then ''Validating'' else ''Reviewing'')
      | REVISION_REQUIRED \<Rightarrow> ''Revision Needed''
      | BLOCKED \<Rightarrow>
          (case tn_blocker t of
             None \<Rightarrow> ''Blocked''
           | Some b \<Rightarrow>
               if b \<noteq> [] \<and> contains ''approval'' (lower b) \<and> contains ''pending'' (lower b) then ''Needs Approval''
               else ''Blocked'')
      | ACCEPTED \<Rightarrow> ''Accepted''
      | FAILED \<Rightarrow> ''Failed''
      | REPLACED \<Rightarrow> ''Replaced''
      | CANCELLED \<Rightarrow> ''Cancelled'')"

definition task_title :: "TaskNode \<Rightarrow> string" where
  "task_title t = shortened 120 (one_line (tp_objective (tn_packet t)))"

definition specialist :: "TaskNode \<Rightarrow> string" where
  "specialist t =
     (let role = take 80 (one_line (tp_role (tn_packet t)))
      in if role = [] then ''Specialist'' else role)"

definition parse_evidence :: "Projector \<Rightarrow> string \<Rightarrow> json_object option" where
  "parse_evidence P evidence = (case pr_loads P evidence of Some (JObj d) \<Rightarrow> Some d | _ \<Rightarrow> None)"

definition MARKER :: string where
  "MARKER = [CHR 0x0A, CHR 0x0A] @ ''WORKSPACE_MANIFEST=''"

definition manifest :: "Projector \<Rightarrow> string \<Rightarrow> string \<times> json_object option" where
  "manifest P content =
     (case rcut MARKER content of
        None \<Rightarrow> (content, None)
      | Some (body, raw) \<Rightarrow>
          (case pr_loads P raw of
             None \<Rightarrow> (content, None)
           | Some (JObj d) \<Rightarrow> (body, Some d)
           | Some _ \<Rightarrow> (body, None)))"

text \<open>The name after the first \<open>b/\<close> of a line that starts a file of the diff.\<close>

definition diff_name :: "string \<Rightarrow> string" where
  "diff_name line = (case cut '' b/'' line of None \<Rightarrow> line | Some (a, name) \<Rightarrow> name)"

definition changed_files_from_diff :: "string \<Rightarrow> string list" where
  "changed_files_from_diff diff =
     foldl (\<lambda>files line. if starts_with line ''diff --git a/'' then add_once (diff_name line) files else files)
       [] (splitlines diff)"

section \<open>Validations and reviews\<close>

text \<open>\<open>d.get(k, default)\<close> and \<open>str(d.get(k) or "")\<close> of a parsed document.\<close>

definition json_get_or :: "json \<Rightarrow> json_object \<Rightarrow> string \<Rightarrow> json" where
  "json_get_or v0 d k = (case map_of d k of None \<Rightarrow> v0 | Some v \<Rightarrow> v)"

definition text_or_empty :: "json_object \<Rightarrow> string \<Rightarrow> string" where
  "text_or_empty d k = (let v = json_get d k in if truthy v then py_str v else [])"

record ValidationView =
  vv_id :: ident
  vv_check :: string
  vv_label :: string
  vv_status :: string
  vv_trusted :: bool
  vv_executor :: string
  vv_command :: "string option"
  vv_returncode :: json
  vv_output :: string
  vv_content_digest :: string

definition command_text :: "json_object \<Rightarrow> string option" where
  "command_text d = (case json_get d ''argv'' of
     JArr parts \<Rightarrow> Some (shortened 160 (join '' '' (map py_str parts))) | _ \<Rightarrow> None)"

definition output_text :: "json_object \<Rightarrow> string" where
  "output_text d = join [CHR 0x0A]
     (filter (\<lambda>part. part \<noteq> []) [strip (text_or_empty d ''stdout''), strip (text_or_empty d ''stderr'')])"

definition validation_view :: "Projector \<Rightarrow> ArtifactValidation \<Rightarrow> ValidationView" where
  "validation_view P v =
     (let detail = parse_evidence P (av_evidence v);
          command = (case detail of None \<Rightarrow> None | Some d \<Rightarrow> command_text d);
          output = (case detail of None \<Rightarrow> av_evidence v | Some d \<Rightarrow> output_text d)
      in \<lparr>vv_id = av_id v,
          vv_check = av_check v,
          vv_label = label CHECK_LABELS (av_check v),
          vv_status = (if av_passed v then ''passed'' else ''failed''),
          vv_trusted = True,
          vv_executor = takeWhile (\<lambda>c. c \<noteq> CHR ''-'') (av_validator_id v),
          vv_command = (if present command then Some (pr_redact P command None) else None),
          vv_returncode = (case detail of None \<Rightarrow> JNull | Some d \<Rightarrow> json_get d ''returncode''),
          vv_output = redact P 6000 output,
          vv_content_digest = av_content_digest v\<rparr>)"

record ReviewView =
  rw_id :: ident
  rw_status :: string
  rw_reviewer :: string
  rw_reason :: string
  rw_evidence :: "string list"
  rw_content_digest :: string

definition review_view :: "Projector \<Rightarrow> Review \<Rightarrow> ReviewView" where
  "review_view P v =
     (let detail = (case parse_evidence P (rv_evidence v) of None \<Rightarrow> [] | Some d \<Rightarrow> d);
          evidence = (case json_get detail ''evidence'' of JArr items \<Rightarrow> items | _ \<Rightarrow> [])
      in \<lparr>rw_id = rv_id v,
          rw_status = (if rv_passed v then ''passed'' else ''changes_requested''),
          rw_reviewer = ''Independent reviewer'',
          rw_reason = redact P 2000 (text_or_empty detail ''reason''),
          rw_evidence = map (\<lambda>item. redact P 600 (py_str item)) (take 20 evidence),
          rw_content_digest = rv_content_digest v\<rparr>)"

record CheckView =
  ck_check :: string
  ck_label :: string
  ck_status :: string

text \<open>\<open>latest[record.check] = record\<close> over the records of the artifact's current content: the last wins.\<close>

definition latest_records :: "Artifact \<Rightarrow> (string, ArtifactValidation) dict" where
  "latest_records a = foldl (\<lambda>latest v. AList.update (av_check v) v latest) []
     (filter (\<lambda>v. av_content_digest v = ar_content_digest a) (ar_validations a))"

definition required_checks :: "TaskNode \<Rightarrow> Artifact option \<Rightarrow> CheckView list" where
  "required_checks t artifact =
     (let latest = (case artifact of None \<Rightarrow> [] | Some a \<Rightarrow> latest_records a)
      in map (\<lambda>check. \<lparr>ck_check = check,
           ck_label = label CHECK_LABELS check,
           ck_status = (case map_of latest check of
              None \<Rightarrow> ''not_run'' | Some v \<Rightarrow> if av_passed v then ''passed'' else ''failed'')\<rparr>)
         (tn_required_checks t))"

section \<open>Artifacts\<close>

record ArtifactView =
  aw_id :: ident
  aw_task_id :: ident
  aw_task_title :: string
  aw_specialist :: "string option"
  aw_kind :: string
  aw_status :: string
  aw_version :: int
  aw_predecessor_id :: "ident option"
  aw_input_artifact_ids :: "ident list"
  aw_content_digest :: string
  aw_workspace_fingerprint :: "string option"
  aw_workspace_id :: json
  aw_integrated_commit :: "string option"
  aw_changed_files :: "string list"
  aw_validation_state :: string
  aw_review_state :: string
  aw_validations :: "ValidationView list"
  aw_reviews :: "ReviewView list"
  aw_summary :: string
  aw_content_chars :: nat
  aw_content :: "(string \<times> string option) option"

definition validation_state :: "TaskNode option \<Rightarrow> Artifact \<Rightarrow> ValidationView list \<Rightarrow> string" where
  "validation_state task a validations =
     (if \<exists>v \<in> set validations. vv_status v = ''failed'' then ''failed''
      else if (case task of None \<Rightarrow> False | Some t \<Rightarrow> tn_required_checks t \<noteq> [] \<and>
                 (\<forall>c \<in> set (required_checks t (Some a)). ck_status c = ''passed'')) then ''passed''
      else if validations = [] then ''not_run'' else ''partial'')"

text \<open>\<open>body.strip().splitlines()[0] if body.strip() else ""\<close>: there is a first line then.\<close>

definition first_line :: "string \<Rightarrow> string" where
  "first_line body = (case splitlines (strip body) of [] \<Rightarrow> [] | line # lines \<Rightarrow> line)"

definition artifact_view :: "Projector \<Rightarrow> Run \<Rightarrow> Artifact \<Rightarrow> bool \<Rightarrow> ArtifactView" where
  "artifact_view P r a content =
     (let task = map_of (run_tasks r) (ar_task_id a);
          (body, found) = manifest P (ar_content a);
          used = (case found of Some (kv # kvs) \<Rightarrow> Some (kv # kvs) | _ \<Rightarrow> None);
          diff = map_option (\<lambda>d. py_str (json_get_or (JStr []) d ''diff'')) used;
          reviews = map (review_view P) (ar_reviews a);
          validations = map (validation_view P) (ar_validations a)
      in \<lparr>aw_id = ar_id a,
          aw_task_id = ar_task_id a,
          aw_task_title = (case task of None \<Rightarrow> ar_task_id a | Some t \<Rightarrow> task_title t),
          aw_specialist = map_option specialist task,
          aw_kind = (if used = None then ''document'' else ''code_change''),
          aw_status = ar_status a,
          aw_version = ar_version a,
          aw_predecessor_id = ar_predecessor_id a,
          aw_input_artifact_ids = ar_input_artifact_ids a,
          aw_content_digest = ar_content_digest a,
          aw_workspace_fingerprint = ar_workspace_fingerprint a,
          aw_workspace_id = (case used of None \<Rightarrow> JNull | Some d \<Rightarrow> json_get d ''workspace_id''),
          aw_integrated_commit = ar_integrated_commit a,
          aw_changed_files = (case diff of None \<Rightarrow> [] | Some text \<Rightarrow> changed_files_from_diff text),
          aw_validation_state = validation_state task a validations,
          aw_review_state = (case last_opt reviews of None \<Rightarrow> ''not_reviewed'' | Some w \<Rightarrow> rw_status w),
          aw_validations = validations,
          aw_reviews = reviews,
          aw_summary = redact P 300 (first_line body),
          aw_content_chars = length body,
          aw_content = (if content then Some (redact P 200000 body, map_option (redact P 400000) diff) else None)\<rparr>)"

section \<open>Tasks\<close>

text \<open>What one task spent, as \<open>run_detail\<close> sums it up, and the latest event shown of it.\<close>

record TaskUsage =
  tu_calls :: int
  tu_models :: "string list"
  tu_cost_usd :: py_float

record LatestEvent =
  le_title :: string
  le_created_at :: string

record TaskView =
  tv_id :: ident
  tv_title :: string
  tv_specialist :: string
  tv_deliverable :: string
  tv_acceptance_criteria :: "string list"
  tv_status :: string
  tv_state :: string
  tv_capability :: string
  tv_capability_label :: string
  tv_dependencies :: "ident list"
  tv_attempt :: int
  tv_max_attempts :: int
  tv_revisions :: int
  tv_blocker :: "string option"
  tv_required_checks :: "CheckView list"
  tv_review_required :: bool
  tv_artifact_ids :: "ident list"
  tv_latest_artifact_id :: "ident option"
  tv_failure_count :: nat
  tv_latest_event :: "LatestEvent option"
  tv_usage :: "TaskUsage option"

definition task_view ::
    "Projector \<Rightarrow> Run \<Rightarrow> TaskNode \<Rightarrow> (ident, LatestEvent) dict \<Rightarrow> (ident, TaskUsage) dict \<Rightarrow> TaskView" where
  "task_view P r t events_by_task usage_by_task =
     (let artifact = latest_artifact r t;
          failures = filter (\<lambda>f. wf_task_id f = task_id t) (run_failures r)
      in \<lparr>tv_id = task_id t,
          tv_title = task_title t,
          tv_specialist = specialist t,
          tv_deliverable = redact P 600 (tp_deliverable (tn_packet t)),
          tv_acceptance_criteria = map (redact P 400) (tp_acceptance_criteria (tn_packet t)),
          tv_status = status_value (tn_status t),
          tv_state = task_display_state r t,
          tv_capability = capability_value (tn_capability t),
          tv_capability_label = label CAPABILITY_LABELS (capability_value (tn_capability t)),
          tv_dependencies = tp_dependencies (tn_packet t),
          tv_attempt = tn_attempts t,
          tv_max_attempts = tn_max_attempts t + tn_attempt_baseline t,
          tv_revisions = tn_revisions t,
          tv_blocker = redact_option P 600 (tn_blocker t),
          tv_required_checks = required_checks t artifact,
          tv_review_required = (tn_review_required t \<or> tn_high_risk t \<or>
             capability_value (tn_capability t) = ''developer_sandbox''),
          tv_artifact_ids = tn_artifact_ids t,
          tv_latest_artifact_id = map_option ar_id artifact,
          tv_failure_count = length failures,
          tv_latest_event = map_of events_by_task (task_id t),
          tv_usage = map_of usage_by_task (task_id t)\<rparr>)"

end
