(* ===== verification/Views_Decisions.thy ===== *)
theory Views_Decisions
  imports Views
begin

text \<open>
  The projections of \<open>src/src/cavman/views.py\<close>, second part: what a user is asked to approve, how
  failures were recovered, the replans, and what the run has used and spent. A view the code cannot
  build (an attribute of a value that is no dictionary) is an exception.
\<close>

section \<open>Approvals\<close>

text \<open>\<open>scope.get(k)\<close> and \<open>scope.items()\<close>: only a dictionary has them.\<close>

fun as_object :: "json \<Rightarrow> py_error + json_object" where
  "as_object (JObj d) = Inr d"
| "as_object _ = Inl (AttributeError ''get'')"

definition approval_title :: "string \<Rightarrow> string" where
  "approval_title action = (case map_of [(''replan'', ''Change the plan''), (''change_capability'', ''Grant a capability'')] action of
     Some title \<Rightarrow> title | None \<Rightarrow> ''Approve: '' @ replace_char CHR ''_'' CHR '' '' action)"

definition known_title :: "Run \<Rightarrow> ident \<Rightarrow> string" where
  "known_title r k = (case map_of (run_tasks r) k of Some t \<Rightarrow> task_title t | None \<Rightarrow> k)"

definition replan_changes :: "Projector \<Rightarrow> Run \<Rightarrow> json_object \<Rightarrow> string \<times> string list" where
  "replan_changes P r scope =
     (case map_of (run_replans r) (py_str (json_get scope ''proposal_id'')) of
        None \<Rightarrow> (''Apply a revised plan.'', [])
      | Some proposal \<Rightarrow>
          (''Apply plan revision '' @ show_int (rp_base_revision proposal + 1) @ '': '' @ redact P 300 (rp_trigger proposal),
           map (\<lambda>t. ''Add task: '' @ task_title t) (rp_add proposal) @
           map (\<lambda>k. ''Remove task: '' @ known_title r k) (rp_remove proposal) @
           map (\<lambda>k. ''Redo task: '' @ known_title r k) (rp_reopen proposal) @
           map (\<lambda>kd. ''Change dependencies of '' @ fst kd) (rp_dependencies proposal)))"

definition capability_changes :: "Projector \<Rightarrow> Run \<Rightarrow> json_object \<Rightarrow> string \<times> string list" where
  "capability_changes P r scope =
     (let name = known_title r (py_str (json_get scope ''task_id''));
          capability = label CAPABILITY_LABELS (py_str (json_get scope ''capability''));
          workspace = json_get scope ''workspace_id''
      in (''Give the task '' @ pr_open_quote P @ name @ pr_close_quote P @ '' the capability: '' @ capability @ ''.'',
          [''Capability: '' @ capability, ''Task: '' @ name] @
          (if truthy workspace then [''Isolated workspace: '' @ py_str workspace] else [])))"

definition scope_changes :: "Projector \<Rightarrow> string \<Rightarrow> json_object \<Rightarrow> string \<times> string list" where
  "scope_changes P action scope =
     (''Authorize the action '' @ pr_open_quote P @ replace_char CHR ''_'' CHR '' '' action @ pr_close_quote P @
        '' with exactly this scope.'',
      map (\<lambda>kv. replace_char CHR ''_'' CHR '' '' (fst kv) @ '': '' @ redact P 200 (py_str (snd kv))) (sort_key fst scope))"

definition approval_changes :: "Projector \<Rightarrow> Run \<Rightarrow> string \<Rightarrow> json_object \<Rightarrow> string \<times> string list" where
  "approval_changes P r action scope =
     (if action = ''replan'' then replan_changes P r scope
      else if action = ''change_capability'' then capability_changes P r scope
      else scope_changes P action scope)"

record DecisionView =
  dv_approved :: bool
  dv_reason :: string
  dv_decided_by :: ident

record ApprovalView =
  pv_id :: ident
  pv_action :: string
  pv_category :: string
  pv_title :: string
  pv_what :: string
  pv_why :: string
  pv_changes :: "string list"
  pv_risk :: string
  pv_target :: string
  pv_scope :: json
  pv_scope_digest :: string
  pv_artifact_refs :: "ident list"
  pv_required :: bool
  pv_status :: string
  pv_decision :: "DecisionView option"

definition approval_view :: "Projector \<Rightarrow> Run \<Rightarrow> ApprovalRequest \<Rightarrow> py_error + ApprovalView" where
  "approval_view P r q =
     (let scope = (case pr_loads P (aq_scope_json q) of None \<Rightarrow> JObj [] | Some v \<Rightarrow> v) in
      bind_ok (as_object scope) (\<lambda>fields.
        let (what, items) = approval_changes P r (aq_action q) fields in
        Inr \<lparr>pv_id = aq_id q,
             pv_action = aq_action q,
             pv_category = aq_category q,
             pv_title = approval_title (aq_action q),
             pv_what = what,
             pv_why = redact P 2000 (aq_rationale q),
             pv_changes = items,
             pv_risk = redact P 1000 (aq_risk q),
             pv_target = redact P 300 (aq_target q),
             pv_scope = scope,
             pv_scope_digest = aq_scope_digest q,
             pv_artifact_refs = aq_artifact_refs q,
             pv_required = aq_required q,
             pv_status = approval_value (aq_status q),
             pv_decision = map_option (\<lambda>d. \<lparr>dv_approved = al_approved d, dv_reason = redact P 1000 (al_reason d),
               dv_decided_by = al_human_id d\<rparr>) (map_of (run_approval_decisions r) (aq_id q))\<rparr>))"

section \<open>Failures and replans\<close>

record RecoveryView =
  ry_action :: string
  ry_label :: string
  ry_reason :: string

record FailureView =
  fv_id :: ident
  fv_task_id :: ident
  fv_task_title :: string
  fv_classification :: string
  fv_explanation :: string
  fv_evidence :: string
  fv_recovery :: "RecoveryView option"

text \<open>\<open>{r.failure_id: r for r in run.recoveries}\<close>\<close>

definition recoveries_by_failure :: "Run \<Rightarrow> (ident, RecoveryDecision) dict" where
  "recoveries_by_failure r = foldl (\<lambda>d x. AList.update (rd_failure_id x) x d) [] (run_recoveries r)"

definition failures_view :: "Projector \<Rightarrow> Run \<Rightarrow> FailureView list" where
  "failures_view P r =
     (let recoveries = recoveries_by_failure r
      in map (\<lambda>f. \<lparr>fv_id = wf_id f,
           fv_task_id = wf_task_id f,
           fv_task_title = known_title r (wf_task_id f),
           fv_classification = failure_value (wf_classification f),
           fv_explanation = FAILURE_EXPLANATIONS (wf_classification f),
           fv_evidence = redact P 3000 (wf_evidence f),
           fv_recovery = map_option (\<lambda>x. \<lparr>ry_action = dc_action x, ry_label = label RECOVERY_LABELS (dc_action x),
             ry_reason = redact P 1000 (dc_reason x)\<rparr>) (map_of recoveries (wf_id f))\<rparr>)
         (run_failures r))"

record ProposalView =
  xv_id :: ident
  xv_trigger :: string
  xv_base_revision :: int
  xv_adds :: nat
  xv_removes :: nat
  xv_reopens :: nat
  xv_requires_approval :: bool
  xv_status :: string

record ReplansView =
  yv_revision :: int
  yv_replans_remaining :: int
  yv_proposals :: "ProposalView list"

definition proposal_status :: "Run \<Rightarrow> ReplanProposal \<Rightarrow> string" where
  "proposal_status r p =
     (let approval = (if present (rp_approval_id p) then map_of (run_approvals r) (the (rp_approval_id p)) else None)
      in if rp_id p \<in> rp_id ` set (wp_revision_history (run_plan r)) then ''applied''
         else case approval of
             None \<Rightarrow> ''proposed''
           | Some q \<Rightarrow> (if aq_status q = AP_PENDING then ''awaiting_approval''
               else if aq_status q = AP_REJECTED then ''rejected'' else ''proposed''))"

definition replans_view :: "Projector \<Rightarrow> Run \<Rightarrow> ReplansView" where
  "replans_view P r =
     \<lparr>yv_revision = wp_revision (run_plan r),
      yv_replans_remaining = max 0 (wp_max_replans (run_plan r) - wp_revision (run_plan r)),
      yv_proposals = map (\<lambda>(k, p). \<lparr>xv_id = rp_id p,
         xv_trigger = redact P 600 (rp_trigger p),
         xv_base_revision = rp_base_revision p,
         xv_adds = length (rp_add p),
         xv_removes = length (rp_remove p),
         xv_reopens = length (rp_reopen p),
         xv_requires_approval = rp_requires_approval p,
         xv_status = proposal_status r p\<rparr>) (run_replans r)\<rparr>"

section \<open>Usage and cost\<close>

record UsageBucket =
  bk_calls :: int
  bk_total_tokens :: int
  bk_cost_usd :: py_float
  bk_calls_without_cost :: int

record Tokens =
  tk_input_tokens :: int
  tk_output_tokens :: int
  tk_cached_tokens :: int
  tk_total_tokens :: int

record UsageEntry =
  ue_id :: ident
  ue_provider :: string
  ue_model :: string
  ue_role :: string
  ue_task_id :: "ident option"
  ue_input_tokens :: "int option"
  ue_output_tokens :: "int option"
  ue_cached_tokens :: "int option"
  ue_total_tokens :: "int option"
  ue_cost_usd :: "py_float option"
  ue_usage_known :: bool

record BudgetView =
  bv_limit_usd :: py_float
  bv_spent_usd :: py_float
  bv_remaining_usd :: py_float
  bv_max_model_calls :: int
  bv_model_calls :: int
  bv_warning :: bool
  bv_exceeded :: bool

record UsageView =
  uv_calls :: int
  uv_cost_usd :: py_float
  uv_cost_complete :: bool
  uv_calls_without_cost :: int
  uv_tokens :: Tokens
  uv_by_model :: "(string, UsageBucket) dict"
  uv_by_role :: "(string, UsageBucket) dict"
  uv_budget :: "BudgetView option"
  uv_records :: "UsageEntry list"

text \<open>The local variables of the loop over the run's usage records.\<close>

record UsageSums =
  us_records :: "UsageEntry list"
  us_total_cost :: py_float
  us_unknown_cost :: int
  us_by_model :: "(string, UsageBucket) dict"
  us_by_role :: "(string, UsageBucket) dict"
  us_totals :: Tokens

definition no_usage :: UsageSums where
  "no_usage = \<lparr>us_records = [], us_total_cost = Finite 0 0, us_unknown_cost = 0, us_by_model = [],
     us_by_role = [], us_totals = \<lparr>tk_input_tokens = 0, tk_output_tokens = 0, tk_cached_tokens = 0,
     tk_total_tokens = 0\<rparr>\<rparr>"

text \<open>\<open>entry = bucket.setdefault(key, {...})\<close> and what is added to the entry.\<close>

definition add_to_bucket :: "Projector \<Rightarrow> string \<Rightarrow> int option \<Rightarrow> py_float option \<Rightarrow>
    (string, UsageBucket) dict \<Rightarrow> (string, UsageBucket) dict" where
  "add_to_bucket P key tokens cost buckets =
     (let entry = (case map_of buckets key of Some e \<Rightarrow> e | None \<Rightarrow>
            \<lparr>bk_calls = 0, bk_total_tokens = 0, bk_cost_usd = Finite 0 0, bk_calls_without_cost = 0\<rparr>);
          entry' = entry\<lparr>bk_calls := bk_calls entry + 1, bk_total_tokens := bk_total_tokens entry + known tokens\<rparr>
      in AList.update key
           (case cost of
              None \<Rightarrow> entry'\<lparr>bk_calls_without_cost := bk_calls_without_cost entry' + 1\<rparr>
            | Some c \<Rightarrow> entry'\<lparr>bk_cost_usd := pr_add P (bk_cost_usd entry') c\<rparr>) buckets)"

definition usage_entry :: "ModelUsageRecord \<Rightarrow> int option \<Rightarrow> py_float option \<Rightarrow> UsageEntry" where
  "usage_entry u cached cost =
     \<lparr>ue_id = mu_id u, ue_provider = mu_provider u, ue_model = mu_model u, ue_role = mu_role u,
      ue_task_id = mu_task_id u, ue_input_tokens = mu_input_tokens u, ue_output_tokens = mu_output_tokens u,
      ue_cached_tokens = cached, ue_total_tokens = mu_total_tokens u, ue_cost_usd = cost,
      ue_usage_known = mu_usage_known u\<rparr>"

definition add_tokens :: "ModelUsageRecord \<Rightarrow> int option \<Rightarrow> Tokens \<Rightarrow> Tokens" where
  "add_tokens u cached k =
     \<lparr>tk_input_tokens = tk_input_tokens k + known (mu_input_tokens u),
      tk_output_tokens = tk_output_tokens k + known (mu_output_tokens u),
      tk_cached_tokens = tk_cached_tokens k + known cached,
      tk_total_tokens = tk_total_tokens k + known (mu_total_tokens u)\<rparr>"

definition model_key :: "string \<Rightarrow> string \<Rightarrow> string" where
  "model_key provider model = provider @ ''/'' @ model"

definition sum_usage :: "Projector \<Rightarrow> ModelUsageRecord \<Rightarrow> UsageSums \<Rightarrow> py_error + UsageSums" where
  "sum_usage P u s =
     (let cost = usage_cost (pr_float_of P) (pr_float_of_int P) (Mapping (mu_raw_usage u)) in
      bind_ok (cached_tokens (pr_float_of P) (Mapping (mu_raw_usage u))) (\<lambda>cached.
        Inr \<lparr>us_records = us_records s @ [usage_entry u cached cost],
             us_total_cost = (case cost of None \<Rightarrow> us_total_cost s | Some c \<Rightarrow> pr_add P (us_total_cost s) c),
             us_unknown_cost = (if cost = None then us_unknown_cost s + 1 else us_unknown_cost s),
             us_by_model = add_to_bucket P (model_key (mu_provider u) (mu_model u)) (mu_total_tokens u) cost (us_by_model s),
             us_by_role = add_to_bucket P (mu_role u) (mu_total_tokens u) cost (us_by_role s),
             us_totals = add_tokens u cached (us_totals s)\<rparr>))"

fun sum_usages :: "Projector \<Rightarrow> ModelUsageRecord list \<Rightarrow> UsageSums \<Rightarrow> py_error + UsageSums" where
  "sum_usages P [] s = Inr s"
| "sum_usages P (u # us) s = bind_ok (sum_usage P u s) (sum_usages P us)"

text \<open>\<open>x if x else 0.0\<close> and \<open>max\<close> of two floats: the first unless the second is greater.\<close>

definition float_less :: "py_float \<Rightarrow> py_float \<Rightarrow> bool" where
  "float_less a b = (float_le a b \<and> \<not> float_le b a)"

definition float_max :: "py_float \<Rightarrow> py_float \<Rightarrow> py_float" where
  "float_max a b = (if float_less a b then b else a)"

definition budget_view :: "Projector \<Rightarrow> RunRecord \<Rightarrow> py_float \<Rightarrow> int \<Rightarrow> BudgetView" where
  "budget_view P record total_cost call_count =
     (let limit = pr_float_of_rat P (rr_budget_usd record);
          ratio = (if rr_budget_usd record \<noteq> 0 then pr_div P total_cost limit else Finite 0 0);
          calls_ratio = (if rr_max_model_calls record \<noteq> 0
            then pr_div P (pr_float_of_int P call_count) (pr_float_of_int P (rr_max_model_calls record)) else Finite 0 0)
      in \<lparr>bv_limit_usd = limit,
          bv_spent_usd = pr_round P total_cost,
          bv_remaining_usd = float_max (Finite 0 0) (pr_round P (pr_sub P limit total_cost)),
          bv_max_model_calls = rr_max_model_calls record,
          bv_model_calls = call_count,
          bv_warning = float_le (pr_budget_warning_ratio P) (float_max ratio calls_ratio),
          bv_exceeded = (float_le (Finite 1 0) ratio \<or> float_le (Finite 1 0) calls_ratio)\<rparr>)"

definition usage_view :: "Projector \<Rightarrow> Run \<Rightarrow> RunRecord option \<Rightarrow> py_error + UsageView" where
  "usage_view P r record =
     bind_ok (sum_usages P (run_usage_records r) no_usage) (\<lambda>s.
       let call_count = int (length (us_records s)) in
       Inr \<lparr>uv_calls = call_count,
            uv_cost_usd = pr_round P (us_total_cost s),
            uv_cost_complete = (us_unknown_cost s = 0),
            uv_calls_without_cost = us_unknown_cost s,
            uv_tokens = us_totals s,
            uv_by_model = us_by_model s,
            uv_by_role = us_by_role s,
            uv_budget = map_option (\<lambda>row. budget_view P row (us_total_cost s) call_count) record,
            uv_records = last_n 200 (us_records s)\<rparr>)"

end
