(* ===== verification/Assembly.thy ===== *)
theory Assembly
  imports Views_Decisions
begin

text \<open>
  The assembly of a completed run's deliverable, \<open>src/src/cavman/delivery.py\<close>: which files of the
  repository may leave it, the documents and the report made of the accepted work, and the archive.
  Bytes are strings of characters below 256, and \<open>utf8\<close> is \<open>str.encode\<close>.

  The repository does not change during an assembly; git and the workspaces on disk are the fields of
  an \<open>Assembly\<close>: what a git command prints (\<open>git\<close>, which raises), whether one succeeds, the bytes
  \<open>git show\<close> prints (None when it fails), and the read operations of \<open>WorkspaceManager\<close> on the
  workspace identifier a manifest holds. SHA-256, the format \<open>.4f\<close> of a float, the error of a disk that
  refuses the archive and the directories are fields as well.
\<close>

record Assembly =
  as_git :: "string list \<Rightarrow> py_error + string"
  as_git_status :: "string list \<Rightarrow> py_error + bool"
  as_git_bytes :: "string list \<Rightarrow> py_error + string option"
  as_fingerprint :: "json \<Rightarrow> py_error + string"
  as_grant :: "json \<Rightarrow> py_error + (string \<times> string)"
  as_list_files :: "json \<Rightarrow> py_error + string list"
  as_changed_paths :: "json \<Rightarrow> py_error + string list"
  as_read_file :: "json \<Rightarrow> string \<Rightarrow> py_error + string"
  as_sha256 :: "string \<Rightarrow> string"
  as_fixed4 :: "py_float \<Rightarrow> string"
  as_disk_error :: "py_error option"
  as_projects_dir :: string

section \<open>Bytes and text\<close>

definition utf8_char :: "char \<Rightarrow> string" where
  "utf8_char c = (let n = (of_char c :: nat) in
     if n < 128 then [c] else [char_of (192 + n div 64), char_of (128 + n mod 64)])"

definition utf8 :: "string \<Rightarrow> string" where
  "utf8 s = concat (map utf8_char s)"

text \<open>The dash of the report, encoded.\<close>

definition DASH :: string where
  "DASH = [CHR 0xE2, CHR 0x80, CHR 0x94]"

definition newline :: string where
  "newline = [CHR 0x0A]"

fun split_on :: "char \<Rightarrow> string \<Rightarrow> string list" where
  "split_on d [] = [[]]"
| "split_on d (c # cs) =
     (if c = d then [] # split_on d cs
      else case split_on d cs of [] \<Rightarrow> [[c]] | w # ws \<Rightarrow> (c # w) # ws)"

text \<open>\<open>re.sub("[^...]+", "-", s)\<close>: every run of characters outside the class becomes one hyphen.\<close>

fun squeeze :: "(char \<Rightarrow> bool) \<Rightarrow> string \<Rightarrow> string" where
  "squeeze ok [] = []"
| "squeeze ok (c # cs) =
     (if ok c then c # squeeze ok cs
      else if cs \<noteq> [] \<and> \<not> ok (hd cs) then squeeze ok cs else CHR ''-'' # squeeze ok cs)"

definition in_range :: "char \<Rightarrow> char \<Rightarrow> char \<Rightarrow> bool" where
  "in_range lo hi c = ((of_char lo :: nat) \<le> of_char c \<and> (of_char c :: nat) \<le> of_char hi)"

definition slug_char :: "char \<Rightarrow> bool" where
  "slug_char c = (in_range CHR ''a'' CHR ''z'' c \<or> in_range CHR ''0'' CHR ''9'' c)"

definition name_char :: "char \<Rightarrow> bool" where
  "name_char c = (in_range CHR ''A'' CHR ''Z'' c \<or> slug_char c \<or> c = CHR ''_'' \<or> c = CHR ''-'')"

definition strip_hyphens :: "string \<Rightarrow> string" where
  "strip_hyphens s = rev (dropWhile (\<lambda>c. c = CHR ''-'') (rev (dropWhile (\<lambda>c. c = CHR ''-'') s)))"

definition slug :: "string \<Rightarrow> string" where
  "slug name = (let s = take 60 (strip_hyphens (squeeze slug_char (lower name)))
     in if s = [] then ''cavman-project'' else s)"

section \<open>Files that may leave the repository\<close>

definition STATE_PARTS :: "string list" where
  "STATE_PARTS = [''.git'', ''.local'', ''.venv'', ''node_modules'', ''__pycache__'', ''.pytest_cache'']"

definition SECRET_DIRS :: "string list" where
  "SECRET_DIRS = [''.ssh'', ''.aws'', ''.gnupg'', ''.azure'', ''.kube'']"

definition SECRET_NAMES :: "string list" where
  "SECRET_NAMES =
    [''.env'', ''.npmrc'', ''.pypirc'', ''credentials'', ''credentials.json'', ''credentials.yaml'',
     ''credentials.yml'', ''secrets.json'', ''secrets.yaml'', ''secrets.yml'', ''token'', ''token.txt'',
     ''token.json'', ''token.yaml'', ''token.yml'', ''access_token'', ''auth_token'', ''github_token'',
     ''id_rsa'', ''id_dsa'', ''id_ecdsa'', ''id_ed25519'', ''netrc'', ''.netrc'']"

definition SAFE_ENV_SUFFIXES :: "string list" where
  "SAFE_ENV_SUFFIXES = [''.example'', ''.sample'', ''.template'']"

definition SECRET_SUFFIXES :: "string list" where
  "SECRET_SUFFIXES = [''.pem'', ''.p12'', ''.pfx'']"

text \<open>\<open>PurePosixPath(path).parts\<close>\<close>

definition path_parts :: "string \<Rightarrow> string list" where
  "path_parts p =
     (if starts_with p ''//'' \<and> \<not> starts_with p ''///'' then [''//''] else if starts_with p ''/'' then [''/''] else [])
     @ filter (\<lambda>w. w \<noteq> [] \<and> w \<noteq> ''.'') (split_on CHR ''/'' p)"

definition excluded :: "string \<Rightarrow> bool" where
  "excluded path =
     (let parts = path_parts path in
      if parts = [] then True
      else
        let lowered = map lower parts; name = last lowered in
        if list_ex (\<lambda>w. w \<in> set STATE_PARTS \<or> w \<in> set SECRET_DIRS) lowered then True
        else if name \<in> set SECRET_NAMES \<or> list_ex (ends_with name) SECRET_SUFFIXES \<or> ends_with name ''.key'' then True
        else if starts_with name ''.env.'' \<and> \<not> list_ex (ends_with name) SAFE_ENV_SUFFIXES then True
        else 2 \<le> length lowered \<and>
          last_n 2 lowered \<in> {[''.docker'', ''config.json''], [''gcloud'', ''application_default_credentials.json'']})"

section \<open>Documents and the report\<close>

record FileMeta =
  fm_task_id :: "ident option"
  fm_artifact_id :: "ident option"
  fm_sha256 :: string
  fm_bytes :: int

record Document =
  do_path :: string
  do_task_id :: ident
  do_artifact_id :: ident
  do_sha256 :: string

type_synonym tree = "(string, string) dict"

definition two_digits :: "nat \<Rightarrow> string" where
  "two_digits n = (if n < 10 then ''0'' @ show_nat n else show_nat n)"

definition document_path :: "nat \<Rightarrow> ident \<Rightarrow> string" where
  "document_path index k = ''docs/cavman/'' @ two_digits index @ ''-'' @ squeeze name_char k @ ''.md''"

definition document_bytes :: "Projector \<Rightarrow> Artifact \<Rightarrow> string" where
  "document_bytes P a = utf8 (strip (fst (manifest P (ar_content a)))) @ newline"

definition document_row :: "Assembly \<Rightarrow> Projector \<Rightarrow> nat \<Rightarrow> ident \<Rightarrow> Artifact \<Rightarrow> Document" where
  "document_row A P index aid a = \<lparr>do_path = document_path index (ar_task_id a), do_task_id = ar_task_id a,
     do_artifact_id = aid, do_sha256 = as_sha256 A (document_bytes P a)\<rparr>"

fun documents_from :: "Assembly \<Rightarrow> Projector \<Rightarrow> Run \<Rightarrow> nat \<Rightarrow> ident list \<Rightarrow> tree \<Rightarrow> Document list \<Rightarrow>
    py_error + (tree \<times> Document list)" where
  "documents_from A P r index [] contents documents = Inr (contents, documents)"
| "documents_from A P r index (aid # aids) contents documents =
     bind_ok (dget (run_artifacts r) aid) (\<lambda>a.
       if present (ar_workspace_fingerprint a) then documents_from A P r (Suc index) aids contents documents
       else documents_from A P r (Suc index) aids
         (AList.update (document_path index (ar_task_id a)) (document_bytes P a) contents)
         (documents @ [document_row A P index aid a]))"

definition documents_of :: "Assembly \<Rightarrow> Projector \<Rightarrow> Run \<Rightarrow> py_error + (tree \<times> Document list)" where
  "documents_of A P r = documents_from A P r 1 (run_accepted_artifacts r) [] []"

definition checks_text :: "Artifact \<Rightarrow> string" where
  "checks_text a =
     (let s = join '', '' (map (\<lambda>v. av_check v @ '': '' @ (if av_passed v then ''passed'' else ''failed''))
                (ar_validations a))
      in if s = [] then ''no executable checks'' else s)"

definition review_text :: "Artifact \<Rightarrow> string" where
  "review_text a = (case last_opt (ar_reviews a) of
     Some v \<Rightarrow> if rv_passed v then ''independent review passed'' else ''no review recorded''
   | None \<Rightarrow> ''no review recorded'')"

definition task_line :: "TaskNode \<Rightarrow> Artifact \<Rightarrow> string" where
  "task_line t a =
     utf8 (''- **'' @ tp_role (tn_packet t) @ ''** '') @ DASH @
     utf8 ('' '' @ strip (tp_objective (tn_packet t)) @ '' (v'' @ show_int (ar_version a) @ ''; '' @
       checks_text a @ ''; '' @ review_text a @ '')'')"

fun task_lines :: "Run \<Rightarrow> ident list \<Rightarrow> py_error + string list" where
  "task_lines r [] = Inr []"
| "task_lines r (aid # aids) =
     bind_ok (dget (run_artifacts r) aid) (\<lambda>a.
     bind_ok (dget (run_tasks r) (ar_task_id a)) (\<lambda>t.
     bind_ok (task_lines r aids) (\<lambda>ls. Inr (task_line t a # ls))))"

definition file_line :: "string \<times> FileMeta \<Rightarrow> string" where
  "file_line pm = utf8 (''- `'' @ fst pm @ ''` '') @ DASH @
     utf8 ('' from task `'' @ (case fm_task_id (snd pm) of None \<Rightarrow> ''None'' | Some k \<Rightarrow> k) @ ''`'')"

definition report :: "Assembly \<Rightarrow> Run \<Rightarrow> string \<Rightarrow> (string, FileMeta) dict \<Rightarrow> Document list \<Rightarrow> py_float \<Rightarrow> bool \<Rightarrow>
    py_error + string" where
  "report A r project_name files documents cost_usd cost_complete =
     bind_ok (task_lines r (run_accepted_artifacts r)) (\<lambda>accepted.
       Inr (join newline (
         [utf8 (''# Build report: '' @ project_name), [], ''Assembled by Cavman from accepted work only.'', [],
          ''## Request'', [], utf8 (strip (run_objective r)), [], ''## Success criteria'', []]
         @ map (\<lambda>c. utf8 (''- '' @ c)) (wp_completion_criteria (run_plan r))
         @ [[], ''## Accepted tasks'', []] @ accepted
         @ [[], ''## Files delivered'', []] @ map file_line (sort_key fst files)
         @ (if documents = [] then [] else [[], ''## Documents'', []] @ map (\<lambda>d. utf8 (''- `'' @ do_path d @ ''`'')) documents)
         @ [[], ''## Cost'', [],
            utf8 (''Provider-reported model cost: $'' @ as_fixed4 A cost_usd @
              (if cost_complete then [] else '' (some calls reported no cost)'')), []])))"

section \<open>Reading a tree\<close>

fun put_all :: "('k \<times> 'v) list \<Rightarrow> ('k, 'v) dict \<Rightarrow> ('k, 'v) dict" where
  "put_all [] d = d"
| "put_all ((k, v) # kvs) d = put_all kvs (AList.update k v d)"

definition git_show :: "Assembly \<Rightarrow> string \<Rightarrow> string \<Rightarrow> string \<Rightarrow> py_error + string" where
  "git_show A repo path revision =
     bind_ok (as_git_bytes A [''-C'', repo, ''show'', revision @ '':'' @ path]) (\<lambda>out.
       case out of None \<Rightarrow> Inl (DeliveryError (''Could not read base file '' @ path)) | Some data \<Rightarrow> Inr data)"

fun show_all :: "Assembly \<Rightarrow> string \<Rightarrow> string \<Rightarrow> string list \<Rightarrow> tree \<Rightarrow> py_error + tree" where
  "show_all A repo revision [] t = Inr t"
| "show_all A repo revision (n # ns) t =
     bind_ok (git_show A repo n revision) (\<lambda>data. show_all A repo revision ns (AList.update n data t))"

definition tree_at :: "Assembly \<Rightarrow> string \<Rightarrow> string \<Rightarrow> py_error + tree" where
  "tree_at A repo revision =
     bind_ok (as_git A [''-C'', repo, ''ls-tree'', ''-r'', ''-z'', ''--name-only'', revision]) (\<lambda>out.
       show_all A repo revision (filter (\<lambda>n. n \<noteq> [] \<and> \<not> excluded n) (split_on CHR 0x00 out)) [])"

section \<open>Archives and manifests\<close>

type_synonym archives = "(string, (string \<times> string) list) dict"

text \<open>The members of the archive, in order. The file replaces an older one of its name at once.\<close>

definition members :: "string \<Rightarrow> tree \<Rightarrow> (string \<times> string) list" where
  "members folder t = map (\<lambda>(p, data). (folder @ ''/'' @ p, data)) (sort_key fst t)"

definition write_archive :: "Assembly \<Rightarrow> tree \<Rightarrow> archives \<Rightarrow> ident \<Rightarrow> string \<Rightarrow> py_error + (string \<times> archives)" where
  "write_archive A t out rid folder =
     (case as_disk_error A of
        Some e \<Rightarrow> Inl e
      | None \<Rightarrow> Inr (rid @ ''.tar.gz'', AList.update (rid @ ''.tar.gz'') (members folder t) out))"

definition opt_str :: "string option \<Rightarrow> json" where
  "opt_str x = (case x of None \<Rightarrow> JNull | Some s \<Rightarrow> JStr s)"

definition file_json :: "FileMeta \<Rightarrow> json" where
  "file_json m = JObj [(''task_id'', opt_str (fm_task_id m)), (''artifact_id'', opt_str (fm_artifact_id m)),
     (''sha256'', JStr (fm_sha256 m)), (''bytes'', JInt (fm_bytes m))]"

definition document_json :: "Document \<Rightarrow> json" where
  "document_json d = JObj [(''path'', JStr (do_path d)), (''task_id'', JStr (do_task_id d)),
     (''artifact_id'', JStr (do_artifact_id d)), (''sha256'', JStr (do_sha256 d))]"

definition delivery_manifest :: "string \<Rightarrow> string \<Rightarrow> string option \<Rightarrow> (string, FileMeta) dict \<Rightarrow> Document list \<Rightarrow>
    string list \<Rightarrow> nat \<Rightarrow> json_object" where
  "delivery_manifest archive folder commit files documents deleted n =
     [(''archive'', JStr archive), (''root'', JStr folder)]
     @ (case commit of None \<Rightarrow> [] | Some c \<Rightarrow> [(''commit'', JStr c)])
     @ [(''files'', JObj (map (\<lambda>(p, m). (p, file_json m)) files)), (''documents'', JArr (map document_json documents)),
        (''deleted'', JArr (map JStr deleted)), (''total_files'', JInt (int n)),
        (''report'', JStr ''CAVMAN_BUILD_REPORT.md'')]"

definition REPORT_NAME :: string where
  "REPORT_NAME = ''CAVMAN_BUILD_REPORT.md''"

section \<open>Runs whose code is integrated\<close>

definition INTEGRATION_REF :: string where
  "INTEGRATION_REF = ''refs/heads/walter-integration''"

fun check_ancestors :: "Assembly \<Rightarrow> string \<Rightarrow> string \<Rightarrow> string list \<Rightarrow> py_error + unit" where
  "check_ancestors A repo head [] = Inr ()"
| "check_ancestors A repo head (commit # commits) =
     bind_ok (as_git_status A [''-C'', repo, ''merge-base'', ''--is-ancestor'', commit, head]) (\<lambda>ok.
       if \<not> ok then Inl (DeliveryError ''An accepted change is missing from the integration branch.'')
       else check_ancestors A repo head commits)"

definition integrated_meta :: "Assembly \<Rightarrow> Artifact option \<Rightarrow> string \<Rightarrow> FileMeta" where
  "integrated_meta A owner data = \<lparr>fm_task_id = map_option ar_task_id owner, fm_artifact_id = map_option ar_id owner,
     fm_sha256 = as_sha256 A data, fm_bytes = int (length data)\<rparr>"

fun changed_files :: "Assembly \<Rightarrow> string \<Rightarrow> string \<Rightarrow> (string, Artifact) dict \<Rightarrow> tree \<Rightarrow> string list \<Rightarrow>
    (string, FileMeta) dict \<Rightarrow> py_error + (string, FileMeta) dict" where
  "changed_files A repo head commits t [] files = Inr files"
| "changed_files A repo head commits t (path # paths) files =
     (case map_of t path of
        None \<Rightarrow> changed_files A repo head commits t paths files
      | Some data \<Rightarrow>
          bind_ok (as_git A [''-C'', repo, ''log'', ''-1'', ''--format=%H'', head, ''--'', path]) (\<lambda>out.
            changed_files A repo head commits t paths
              (AList.update path (integrated_meta A (map_of commits (strip out)) data) files)))"

definition assemble_integrated :: "Assembly \<Rightarrow> Projector \<Rightarrow> Run \<Rightarrow> string \<Rightarrow> archives \<Rightarrow> string \<Rightarrow> Artifact list \<Rightarrow>
    py_float \<Rightarrow> bool \<Rightarrow> py_error + (json_object \<times> string \<times> archives)" where
  "assemble_integrated A P r repo out project_name code cost_usd cost_complete =
     (let commits = put_all (map (\<lambda>a. (the (ar_integrated_commit a), a)) code) [] in
      bind_ok (as_git A [''-C'', repo, ''rev-parse'', ''--verify'', INTEGRATION_REF @ ''^{commit}'']) (\<lambda>out1.
      let head = strip out1 in
      if head \<notin> fst ` set commits
      then Inl (DeliveryError ''The integration branch moved outside Cavman; refusing to deliver it.'')
      else
      bind_ok (check_ancestors A repo head (map fst commits)) (\<lambda>_.
      bind_ok (tree_at A repo head) (\<lambda>t.
      bind_ok (as_git A [''-C'', repo, ''rev-parse'', ''HEAD'']) (\<lambda>out2.
      let base = strip out2 in
      bind_ok (as_git A [''-C'', repo, ''diff'', ''-z'', ''--name-only'', base, head]) (\<lambda>out3.
      let changed = filter (\<lambda>n. n \<noteq> [] \<and> \<not> excluded n) (split_on CHR 0x00 out3) in
      bind_ok (changed_files A repo head commits t changed []) (\<lambda>files.
      bind_ok (tree_at A repo base) (\<lambda>old.
      let deleted = sorted_set (filter (\<lambda>n. n \<notin> fst ` set t) (map fst old)) in
      bind_ok (documents_of A P r) (\<lambda>(doc_contents, documents).
      let t1 = put_all doc_contents t in
      bind_ok (report A r project_name files documents cost_usd cost_complete) (\<lambda>text.
      let t2 = AList.update REPORT_NAME text t1; folder = slug project_name in
      bind_ok (write_archive A t2 out (run_id r) folder) (\<lambda>(archive, out').
      Inr (delivery_manifest archive folder (Some head) files documents deleted (length t2), archive, out'))))))))))))"

section \<open>Runs whose code stayed in workspaces\<close>

record Gathered =
  ga_files :: "(string, FileMeta) dict"
  ga_contents :: tree
  ga_deletions :: "(string, ident) dict"
  ga_documents :: "Document list"
  ga_conflicts :: "string list"

definition nothing_gathered :: Gathered where
  "nothing_gathered = \<lparr>ga_files = [], ga_contents = [], ga_deletions = [], ga_documents = [], ga_conflicts = []\<rparr>"

definition workspace_of :: "json_object option \<Rightarrow> json" where
  "workspace_of found = json_get (case found of None \<Rightarrow> [] | Some d \<Rightarrow> d) ''workspace_id''"

text \<open>The accepted workspace still exists and still has the accepted fingerprint.\<close>

definition unchanged_workspace :: "Assembly \<Rightarrow> ident \<Rightarrow> Artifact \<Rightarrow> json \<Rightarrow> py_error + unit" where
  "unchanged_workspace A aid a w =
     (if \<not> truthy w then Inl (DeliveryError (''Accepted artifact '' @ aid @ '' has no workspace manifest.''))
      else case as_fingerprint A w of
        Inl e \<Rightarrow> Inl (DeliveryError (''The accepted workspace for task '' @ ar_task_id a @ '' is no longer available.''))
      | Inr current \<Rightarrow>
          raise_if (Some current \<noteq> ar_workspace_fingerprint a)
            (DeliveryError (''The workspace for task '' @ ar_task_id a @ '' changed after acceptance; refusing to deliver it.'')))"

fun take_changed :: "Assembly \<Rightarrow> json \<Rightarrow> ident \<Rightarrow> Artifact \<Rightarrow> string list \<Rightarrow> Gathered \<Rightarrow> py_error + Gathered" where
  "take_changed A w aid a [] g = Inr g"
| "take_changed A w aid a (path # paths) g =
     bind_ok (as_read_file A w path) (\<lambda>text.
       let data = utf8 text in
       if map_of (ga_contents g) path \<noteq> None \<and> map_of (ga_contents g) path \<noteq> Some data
       then take_changed A w aid a paths (g\<lparr>ga_conflicts := ga_conflicts g @ [path]\<rparr>)
       else take_changed A w aid a paths
         (g\<lparr>ga_contents := AList.update path data (ga_contents g),
            ga_files := AList.update path \<lparr>fm_task_id = Some (ar_task_id a), fm_artifact_id = Some aid,
              fm_sha256 = as_sha256 A data, fm_bytes = int (length data)\<rparr> (ga_files g)\<rparr>))"

definition take_workspace :: "Assembly \<Rightarrow> Projector \<Rightarrow> ident \<Rightarrow> Artifact \<Rightarrow> Gathered \<Rightarrow> py_error + Gathered" where
  "take_workspace A P aid a g =
     (let w = workspace_of (snd (manifest P (ar_content a))) in
      bind_ok (unchanged_workspace A aid a w) (\<lambda>_.
      bind_ok (as_grant A w) (\<lambda>(folder, base).
      bind_ok (as_git A [''-C'', folder, ''ls-tree'', ''-r'', ''--name-only'', base]) (\<lambda>out.
      bind_ok (as_list_files A w) (\<lambda>listed.
      bind_ok (as_changed_paths A w) (\<lambda>paths.
      bind_ok (take_changed A w aid a paths g) (\<lambda>g1.
      let baseline = filter (\<lambda>p. \<not> excluded p) (splitlines out) in
      Inr (g1\<lparr>ga_deletions := put_all (map (\<lambda>p. (p, ar_task_id a))
        (sorted_set (filter (\<lambda>p. p \<notin> set listed) baseline))) (ga_deletions g1)\<rparr>))))))))"

definition take_document :: "Assembly \<Rightarrow> Projector \<Rightarrow> nat \<Rightarrow> ident \<Rightarrow> Artifact \<Rightarrow> Gathered \<Rightarrow> Gathered" where
  "take_document A P index aid a g =
     g\<lparr>ga_contents := AList.update (document_path index (ar_task_id a)) (document_bytes P a) (ga_contents g),
       ga_documents := ga_documents g @ [document_row A P index aid a]\<rparr>"

fun gather :: "Assembly \<Rightarrow> Projector \<Rightarrow> Run \<Rightarrow> nat \<Rightarrow> ident list \<Rightarrow> Gathered \<Rightarrow> py_error + Gathered" where
  "gather A P r index [] g = Inr g"
| "gather A P r index (aid # aids) g =
     bind_ok (dget (run_artifacts r) aid) (\<lambda>a.
       if present (ar_workspace_fingerprint a)
       then bind_ok (take_workspace A P aid a g) (gather A P r (Suc index) aids)
       else gather A P r (Suc index) aids (take_document A P index aid a g))"

definition assemble_workspaces :: "Assembly \<Rightarrow> Projector \<Rightarrow> Run \<Rightarrow> string \<Rightarrow> archives \<Rightarrow> string \<Rightarrow>
    py_float \<Rightarrow> bool \<Rightarrow> py_error + (json_object \<times> string \<times> archives)" where
  "assemble_workspaces A P r repo out project_name cost_usd cost_complete =
     bind_ok (gather A P r 1 (run_accepted_artifacts r) nothing_gathered) (\<lambda>g.
     if ga_conflicts g \<noteq> []
     then Inl (DeliveryError (''Accepted tasks changed the same files differently: '' @
       join '', '' (sorted_set (ga_conflicts g))))
     else
     bind_ok (report A r project_name (ga_files g) (ga_documents g) cost_usd cost_complete) (\<lambda>text.
     let contents = AList.update REPORT_NAME text (ga_contents g); folder = slug project_name in
     bind_ok (as_git A [''-C'', repo, ''ls-tree'', ''-r'', ''--name-only'', ''HEAD'']) (\<lambda>names.
     bind_ok (show_all A repo ''HEAD''
       (filter (\<lambda>p. \<not> excluded p \<and> p \<notin> fst ` set (ga_deletions g)) (splitlines names)) []) (\<lambda>t.
     let t1 = put_all contents t in
     bind_ok (write_archive A t1 out (run_id r) folder) (\<lambda>(archive, out').
     Inr (delivery_manifest archive folder None (ga_files g) (ga_documents g) (sort (map fst (ga_deletions g))) (length t1),
       archive, out'))))))"

section \<open>Assembling\<close>

fun accepted_code :: "Run \<Rightarrow> ident list \<Rightarrow> py_error + Artifact list" where
  "accepted_code r [] = Inr []"
| "accepted_code r (aid # aids) =
     bind_ok (dget (run_artifacts r) aid) (\<lambda>a.
     bind_ok (accepted_code r aids) (\<lambda>code.
       Inr (if present (ar_workspace_fingerprint a) then a # code else code)))"

definition assemble :: "Assembly \<Rightarrow> Projector \<Rightarrow> Run \<Rightarrow> string \<Rightarrow> archives \<Rightarrow> string \<Rightarrow> py_float \<Rightarrow> bool \<Rightarrow>
    py_error + (json_object \<times> string \<times> archives)" where
  "assemble A P r repo out project_name cost_usd cost_complete =
     (if run_status r \<noteq> ''completed'' then Inl (DeliveryError ''Only a completed run can be delivered.'')
      else bind_ok (accepted_code r (run_accepted_artifacts r)) (\<lambda>code.
        if code \<noteq> [] \<and> list_all (\<lambda>a. present (ar_integrated_commit a)) code
        then assemble_integrated A P r repo out project_name code cost_usd cost_complete
        else assemble_workspaces A P r repo out project_name cost_usd cost_complete))"

end
