(* ===== verification/Delivery.thy ===== *)
theory Delivery
  imports Assembly Store
begin

text \<open>
  Delivering a completed run once, \<open>deliver_run\<close> of \<open>src/src/cavman/delivery.py\<close>: the outcome of the
  assembly, an archive or the reason there is none, becomes a row of the platform. An exception that is
  not a refusal is recorded with its type and text.
\<close>

section \<open>Exceptions as text\<close>

fun error_name :: "py_error \<Rightarrow> string" where
  "error_name (GateError m) = ''GateError''"
| "error_name (KeyError m) = ''KeyError''"
| "error_name (AttributeError m) = ''AttributeError''"
| "error_name (ValidationError m) = ''ValidationError''"
| "error_name (ValueError m) = ''ValueError''"
| "error_name IndexError = ''IndexError''"
| "error_name (ConcurrentUpdate m) = ''ConcurrentUpdate''"
| "error_name (SnapshotIncompatible m) = ''SnapshotIncompatible''"
| "error_name (PermissionError m) = ''PermissionError''"
| "error_name OverflowError = ''OverflowError''"
| "error_name (TypeError m) = ''TypeError''"
| "error_name (IntegrityError m) = ''IntegrityError''"
| "error_name (ActiveWork m) = ''ActiveWork''"
| "error_name (UsageBudgetExceeded m) = ''UsageBudgetExceeded''"
| "error_name (ApprovalScopeChanged m) = ''ApprovalScopeChanged''"
| "error_name (AssertionError m) = ''AssertionError''"
| "error_name (RuntimeError m) = ''RuntimeError''"
| "error_name (DeliveryError m) = ''DeliveryError''"
| "error_name (RuntimeConfigurationError m) = ''RuntimeConfigurationError''"
| "error_name (MaxTurnsExceeded m) = ''MaxTurnsExceeded''"
| "error_name CancelledError = ''CancelledError''"
| "error_name (SandboxViolation m) = ''SandboxViolation''"
| "error_name (SandboxUnavailable m) = ''SandboxUnavailable''"
| "error_name (ProviderError c m) = c"
| "error_name (OtherError c m) = c"

text \<open>\<open>str\<close> of a \<open>KeyError\<close> is the representation of its key.\<close>

fun error_text :: "py_error \<Rightarrow> string" where
  "error_text (GateError m) = m"
| "error_text (KeyError k) = repr_str k"
| "error_text (AttributeError m) = m"
| "error_text (ValidationError m) = m"
| "error_text (ValueError m) = m"
| "error_text IndexError = ''list index out of range''"
| "error_text (ConcurrentUpdate m) = m"
| "error_text (SnapshotIncompatible m) = m"
| "error_text (PermissionError m) = m"
| "error_text OverflowError = ''cannot convert float infinity to integer''"
| "error_text (TypeError m) = m"
| "error_text (IntegrityError m) = m"
| "error_text (ActiveWork m) = m"
| "error_text (UsageBudgetExceeded m) = m"
| "error_text (ApprovalScopeChanged m) = m"
| "error_text (AssertionError m) = m"
| "error_text (RuntimeError m) = m"
| "error_text (DeliveryError m) = m"
| "error_text (RuntimeConfigurationError m) = m"
| "error_text (MaxTurnsExceeded m) = m"
| "error_text CancelledError = []"
| "error_text (SandboxViolation m) = m"
| "error_text (SandboxUnavailable m) = m"
| "error_text (ProviderError c m) = m"
| "error_text (OtherError c m) = m"

definition typed_text :: "py_error \<Rightarrow> string" where
  "typed_text e = error_name e @ '': '' @ error_text e"

section \<open>Delivering\<close>

definition no_attribute :: "string \<Rightarrow> py_error" where
  "no_attribute x = AttributeError (repr_str ''NoneType'' @ '' object has no attribute '' @ repr_str x)"

definition project_repo :: "Assembly \<Rightarrow> ident \<Rightarrow> py_error + string" where
  "project_repo A pid =
     (if length pid = 32 \<and> list_all (\<lambda>c. in_range CHR ''0'' CHR ''9'' c \<or> in_range CHR ''a'' CHR ''f'' c) pid
      then Inr (as_projects_dir A @ ''/'' @ pid @ ''/repo'')
      else Inl (ValueError ''Invalid project identifier''))"

definition assemble_project :: "Assembly \<Rightarrow> Projector \<Rightarrow> Run \<Rightarrow> ident \<Rightarrow> Project option \<Rightarrow> UsageView \<Rightarrow> archives \<Rightarrow>
    py_error + (json_object \<times> string \<times> archives)" where
  "assemble_project A P r pid project usage out =
     bind_ok (project_repo A pid) (\<lambda>repo.
       case project of
         None \<Rightarrow> Inl (no_attribute ''name'')
       | Some p \<Rightarrow> assemble A P r repo out (pj_name p) (uv_cost_usd usage) (uv_cost_complete usage))"

definition save_failure :: "Projector \<Rightarrow> ident \<Rightarrow> string \<Rightarrow> py_error \<Rightarrow> Platform \<Rightarrow> py_error + Platform" where
  "save_failure P rid t e pf =
     (let text = (case e of DeliveryError m \<Rightarrow> m | _ \<Rightarrow> typed_text e)
      in bind_ok (save_delivery rid ''failed'' [(''error'', JStr (redact P 2000 text))] None t pf) (\<lambda>(_, pf'). Inr pf'))"

definition deliver_run :: "Codec \<Rightarrow> Assembly \<Rightarrow> Projector \<Rightarrow> string \<Rightarrow> ident \<Rightarrow> bool \<Rightarrow> Db \<Rightarrow> Platform \<Rightarrow> archives \<Rightarrow>
    (py_error + Platform) \<times> archives" where
  "deliver_run cd A P t rid retry db pf out =
     (let existing = delivery rid pf in
      if existing \<noteq> None \<and> (dl_status (the existing) = ''ready'' \<or> \<not> retry) then (Inr pf, out)
      else case load cd rid db of
        Inl e \<Rightarrow> (Inl e, out)
      | Inr r \<Rightarrow>
        if run_status r \<noteq> ''completed'' then (Inr pf, out)
        else case run_by_id rid pf of
          None \<Rightarrow> (Inl (no_attribute ''project_id''), out)
        | Some record \<Rightarrow>
          (case usage_view P r (Some record) of
             Inl e \<Rightarrow> (Inl e, out)
           | Inr usage \<Rightarrow>
             (case assemble_project A P r (rr_project_id record) (project_by_id (rr_project_id record) pf) usage out of
                Inl e \<Rightarrow> (save_failure P rid t e pf, out)
              | Inr (m, archive, out') \<Rightarrow>
                (case save_delivery rid ''ready'' m (Some archive) t pf of
                   Inr (_, pf') \<Rightarrow> (Inr pf', out')
                 | Inl e \<Rightarrow> (save_failure P rid t e pf, out')))))"

end
