(* ===== verification/Delivery_Laws.thy ===== *)
theory Delivery_Laws
  imports Delivery
begin

text \<open>
  What the assembly puts into an archive: the documents have distinct names and are all there, a tree
  holds what git shows of its revision, and a workspace contributes only after its fingerprint matched.
\<close>

declare map_of_eq_Some_iff [simp del] Some_eq_map_of_iff [simp del]

section \<open>Names of documents\<close>

definition number_of :: "string \<Rightarrow> nat" where
  "number_of = foldl (\<lambda>n c. 10 * n + (of_char c - 48)) 0"

lemma of_digit [simp]: "d < 10 \<Longrightarrow> of_char (digit_char d) = 48 + d"
  by (simp add: digit_char_def)

lemma number_of_snoc: "d < 10 \<Longrightarrow> number_of (s @ [digit_char d]) = 10 * number_of s + d"
  by (simp add: number_of_def)

lemma number_of_show: "number_of (show_nat n) = n"
proof (induct n rule: show_nat.induct)
  case (1 n)
  show ?case
  proof (cases "n < 10")
    case True
    then have "show_nat n = [] @ [digit_char n]" by (subst show_nat.simps) simp
    then show ?thesis using True by (simp only: number_of_snoc) (simp add: number_of_def)
  next
    case False
    then have "show_nat n = show_nat (n div 10) @ [digit_char (n mod 10)]" by (subst show_nat.simps) simp
    then show ?thesis using 1[OF False] by (simp add: number_of_snoc)
  qed
qed

lemma digit_neq: "d < 10 \<Longrightarrow> digit_char d \<noteq> CHR ''-''"
proof
  assume "d < 10" "digit_char d = CHR ''-''"
  from arg_cong[OF this(2), of "of_char :: char \<Rightarrow> nat"] this(1) show False by simp
qed

lemma show_nat_digits: "CHR ''-'' \<notin> set (show_nat n)"
proof (induct n rule: show_nat.induct)
  case (1 n)
  then show ?case by (subst show_nat.simps) (auto simp: digit_neq[symmetric])
qed

lemma two_digits_number: "number_of (two_digits n) = n"
  using number_of_show[of n] by (simp add: two_digits_def number_of_def)

lemma two_digits_plain: "CHR ''-'' \<notin> set (two_digits n)"
  using show_nat_digits by (simp add: two_digits_def)

lemma before_hyphen: "CHR ''-'' \<notin> set x \<Longrightarrow> takeWhile (\<lambda>c. c \<noteq> CHR ''-'') (x @ CHR ''-'' # y) = x"
  by (induct x) auto

lemma document_path_inj: "document_path i k = document_path j l \<Longrightarrow> i = j"
proof -
  assume "document_path i k = document_path j l"
  then have "two_digits i @ CHR ''-'' # (squeeze name_char k @ ''.md'') = two_digits j @ CHR ''-'' # (squeeze name_char l @ ''.md'')"
    by (simp add: document_path_def)
  from arg_cong[OF this, of "takeWhile (\<lambda>c. c \<noteq> CHR ''-'')"] have "two_digits i = two_digits j"
    by (simp only: before_hyphen[OF two_digits_plain])
  from arg_cong[OF this, of number_of] show ?thesis by (simp add: two_digits_number)
qed

lemma report_is_no_document: "document_path i k \<noteq> REPORT_NAME"
  by (simp add: document_path_def REPORT_NAME_def)

section \<open>Trees\<close>

lemma map_of_put_all: "map_of (put_all kvs d) = map_of d ++ map_of (rev kvs)"
  by (induct kvs d rule: put_all.induct) (auto simp: map_add_def fun_eq_iff split: option.splits)

lemma distinct_put_all: "distinct (map fst d) \<Longrightarrow> distinct (map fst (put_all kvs d))"
  by (induct kvs d rule: put_all.induct) auto

lemma map_of_rev: "distinct (map fst kvs) \<Longrightarrow> map_of (rev kvs) = map_of kvs"
  by (metis map_of_inject_set set_rev distinct_rev rev_map)

lemma map_of_put_dict: "distinct (map fst kvs) \<Longrightarrow> map_of (put_all kvs d) = map_of d ++ map_of kvs"
  by (simp add: map_of_put_all map_of_rev)

lemma show_all_tree:
  assumes "show_all A repo revision ns t = Inr t'"
  shows "(n \<in> set ns \<longrightarrow> (\<exists>data. git_show A repo n revision = Inr data \<and> map_of t' n = Some data)) \<and>
     (n \<notin> set ns \<longrightarrow> map_of t' n = map_of t n)"
  using assms
proof (induct ns arbitrary: t)
  case Nil
  then show ?case by simp
next
  case (Cons m ns)
  then obtain data where m: "git_show A repo m revision = Inr data"
    and rest: "show_all A repo revision ns (AList.update m data t) = Inr t'" by (auto simp: bind_ok_Inr_iff)
  from Cons.hyps[OF rest] m show ?case by (cases "n \<in> set ns"; cases "n = m") simp_all
qed

lemma show_all_distinct: "show_all A repo revision ns t = Inr t' \<Longrightarrow> distinct (map fst t) \<Longrightarrow> distinct (map fst t')"
  by (induct ns arbitrary: t) (auto simp: bind_ok_Inr_iff)

lemma tree_at_Inr:
  assumes "tree_at A repo revision = Inr t"
  shows "distinct (map fst t)" "map_of t n = Some data \<Longrightarrow> \<not> excluded n \<and> git_show A repo n revision = Inr data"
proof -
  from assms obtain ns where "show_all A repo revision (filter (\<lambda>n. n \<noteq> [] \<and> \<not> excluded n) ns) [] = Inr t"
    by (auto simp: tree_at_def bind_ok_Inr_iff)
  from show_all_distinct[OF this] show_all_tree[OF this, of n]
  show "distinct (map fst t)" "map_of t n = Some data \<Longrightarrow> \<not> excluded n \<and> git_show A repo n revision = Inr data"
    by (auto split: if_splits)
qed

section \<open>Documents\<close>

text \<open>The document an accepted artifact becomes: its place in the list names it.\<close>

definition accepted_document :: "Projector \<Rightarrow> Run \<Rightarrow> string \<Rightarrow> string \<Rightarrow> bool" where
  "accepted_document P r p data \<longleftrightarrow> (\<exists>i a. i < length (run_accepted_artifacts r) \<and>
     map_of (run_artifacts r) (run_accepted_artifacts r ! i) = Some a \<and> \<not> present (ar_workspace_fingerprint a) \<and>
     p = document_path (Suc i) (ar_task_id a) \<and> data = document_bytes P a)"

lemma accepted_document_unique: "accepted_document P r p data \<Longrightarrow> accepted_document P r p data' \<Longrightarrow> data' = data"
  by (auto simp: accepted_document_def dest: document_path_inj)

definition documents_among :: "Projector \<Rightarrow> Run \<Rightarrow> nat \<Rightarrow> ident list \<Rightarrow> (string \<times> string) set" where
  "documents_among P r index aids = {(p, data). \<exists>i a. i < length aids \<and> map_of (run_artifacts r) (aids ! i) = Some a \<and>
     \<not> present (ar_workspace_fingerprint a) \<and> p = document_path (index + i) (ar_task_id a) \<and> data = document_bytes P a}"

lemma documents_among_all: "(p, data) \<in> documents_among P r 1 (run_accepted_artifacts r) \<longleftrightarrow> accepted_document P r p data"
  by (simp add: documents_among_def accepted_document_def)

lemma documents_among_Nil [simp]: "documents_among P r index [] = {}"
  by (simp add: documents_among_def)

lemma documents_among_Cons:
  assumes "map_of (run_artifacts r) aid = Some a"
  shows "documents_among P r index (aid # aids) =
    (if present (ar_workspace_fingerprint a) then {} else {(document_path index (ar_task_id a), document_bytes P a)})
    \<union> documents_among P r (Suc index) aids" (is "?l = ?r")
proof (rule set_eqI)
  fix x
  have "x \<in> ?l \<longleftrightarrow> (\<exists>i. i < Suc (length aids) \<and> (\<exists>b. map_of (run_artifacts r) ((aid # aids) ! i) = Some b \<and>
      \<not> present (ar_workspace_fingerprint b) \<and> x = (document_path (index + i) (ar_task_id b), document_bytes P b)))"
    by (cases x) (auto simp: documents_among_def)
  also have "\<dots> \<longleftrightarrow> x \<in> ?r"
    using assms by (cases x) (simp add: Ex_less_Suc2 documents_among_def; blast)
  finally show "x \<in> ?l \<longleftrightarrow> x \<in> ?r" .
qed

text \<open>A path that some document of the rest has.\<close>

abbreviation documented :: "Projector \<Rightarrow> Run \<Rightarrow> nat \<Rightarrow> ident list \<Rightarrow> string \<Rightarrow> bool" where
  "documented P r index aids p \<equiv> p \<in> fst ` documents_among P r index aids"

lemma documented_later: "documented P r index aids (document_path j k) \<Longrightarrow> index \<le> j"
  by (auto simp: documents_among_def) (metis document_path_inj le_add1)

lemma documents_from_tree:
  assumes "documents_from A P r index aids c ds = Inr (c', ds')"
  shows "((p, data) \<in> documents_among P r index aids \<longrightarrow> map_of c' p = Some data) \<and>
    (\<not> documented P r index aids p \<longrightarrow> map_of c' p = map_of c p) \<and> (distinct (map fst c) \<longrightarrow> distinct (map fst c'))"
  using assms
proof (induct aids arbitrary: index c ds)
  case Nil
  then show ?case by simp
next
  case (Cons aid aids)
  then obtain a where g: "dget (run_artifacts r) aid = Inr a" by (auto simp: bind_ok_Inr_iff)
  then have a: "map_of (run_artifacts r) aid = Some a" by simp
  note prems = Cons.prems[simplified, unfolded g bind_ok_simps]
  show ?case
  proof (cases "present (ar_workspace_fingerprint a)")
    case True
    with prems have "documents_from A P r (Suc index) aids c ds = Inr (c', ds')" by (simp only: if_True)
    from Cons.hyps[OF this] True show ?thesis by (simp add: documents_among_Cons[OF a])
  next
    case False
    let ?p = "document_path index (ar_task_id a)"
    from False prems have rest: "documents_from A P r (Suc index) aids (AList.update ?p (document_bytes P a) c)
      (ds @ [document_row A P index aid a]) = Inr (c', ds')" by (simp only: if_False)
    have new: "\<not> documented P r (Suc index) aids ?p" using documented_later by fastforce
    then have no: "(?p, d) \<notin> documents_among P r (Suc index) aids" for d by force
    from False have "documents_among P r index (aid # aids) = insert (?p, document_bytes P a) (documents_among P r (Suc index) aids)"
      by (simp add: documents_among_Cons[OF a])
    moreover note Cons.hyps[OF rest]
    ultimately show ?thesis using new no by (cases "p = ?p") simp_all
  qed
qed

section \<open>Archives\<close>

lemma members_mem:
  assumes "distinct (map fst t)"
  shows "(folder @ ''/'' @ p, data) \<in> set (members folder t) \<longleftrightarrow> map_of t p = Some data"
proof -
  have "(folder @ ''/'' @ p, data) \<in> set (members folder t) \<longleftrightarrow> (\<exists>x \<in> set t. p = fst x \<and> data = snd x)"
    by (auto simp only: members_def set_map set_sort image_iff split_beta fst_conv snd_conv
        prod.inject same_append_eq prod.collapse)
  also have "\<dots> \<longleftrightarrow> (p, data) \<in> set t" by (metis fst_conv prod.collapse snd_conv)
  finally show ?thesis using set_dict_map_of[OF assms] by simp
qed

section \<open>Workspaces\<close>

text \<open>What the workspace of an accepted artifact contributes: it has the accepted fingerprint still.\<close>

definition workspace :: "Projector \<Rightarrow> Artifact \<Rightarrow> json" where
  "workspace P a = workspace_of (snd (manifest P (ar_content a)))"

definition accepted_file :: "Assembly \<Rightarrow> Projector \<Rightarrow> Run \<Rightarrow> ident set \<Rightarrow> string \<Rightarrow> string \<Rightarrow> bool" where
  "accepted_file A P r aids p data \<longleftrightarrow> (\<exists>aid \<in> aids. \<exists>a paths text. map_of (run_artifacts r) aid = Some a \<and>
     present (ar_workspace_fingerprint a) \<and>
     as_changed_paths A (workspace P a) = Inr paths \<and> p \<in> set paths \<and>
     as_read_file A (workspace P a) p = Inr text \<and> data = utf8 text)"

definition unchanged :: "Assembly \<Rightarrow> Projector \<Rightarrow> Run \<Rightarrow> ident \<Rightarrow> bool" where
  "unchanged A P r aid \<longleftrightarrow> (\<forall>a. map_of (run_artifacts r) aid = Some a \<longrightarrow> present (ar_workspace_fingerprint a) \<longrightarrow>
     (\<exists>current. as_fingerprint A (workspace P a) = Inr current \<and> ar_workspace_fingerprint a = Some current))"

lemma take_changed_keeps:
  assumes "take_changed A w aid a paths g = Inr g'" and "ga_conflicts g' = []"
  shows "ga_conflicts g = [] \<and> (\<forall>p data. map_of (ga_contents g) p = Some data \<longrightarrow> map_of (ga_contents g') p = Some data) \<and>
    (\<forall>p \<in> set paths. \<exists>text. as_read_file A w p = Inr text \<and> map_of (ga_contents g') p = Some (utf8 text)) \<and>
    (\<forall>p data. map_of (ga_contents g') p = Some data \<longrightarrow> map_of (ga_contents g) p = Some data \<or>
       (p \<in> set paths \<and> (\<exists>text. as_read_file A w p = Inr text \<and> data = utf8 text))) \<and>
    ga_deletions g' = ga_deletions g \<and> (distinct (map fst (ga_contents g)) \<longrightarrow> distinct (map fst (ga_contents g')))"
  using assms
proof (induct paths arbitrary: g)
  case Nil
  then show ?case by simp
next
  case (Cons path paths)
  then obtain str where str: "as_read_file A w path = Inr str" by (auto simp: bind_ok_Inr_iff)
  let ?d = "utf8 str"
  show ?case
  proof (cases "map_of (ga_contents g) path \<noteq> None \<and> map_of (ga_contents g) path \<noteq> Some ?d")
    case True
    with Cons.prems(1) str have "take_changed A w aid a paths (g\<lparr>ga_conflicts := ga_conflicts g @ [path]\<rparr>) = Inr g'" by simp
    from Cons.hyps[OF this Cons.prems(2)] show ?thesis by simp
  next
    case False
    with Cons.prems(1) str obtain meta where "take_changed A w aid a paths
      (g\<lparr>ga_contents := AList.update path ?d (ga_contents g), ga_files := AList.update path meta (ga_files g)\<rparr>) = Inr g'"
      by (auto simp: Let_def)
    note IH = Cons.hyps[OF this Cons.prems(2), simplified]
    from IH False have keep: "\<forall>p data. map_of (ga_contents g) p = Some data \<longrightarrow> map_of (ga_contents g') p = Some data"
      by (metis option.distinct(1))
    from IH have here: "map_of (ga_contents g') path = Some ?d" by presburger
    have from_here: "map_of (ga_contents g) p = Some data \<or>
        p \<in> set (path # paths) \<and> (\<exists>s. as_read_file A w p = Inr s \<and> data = utf8 s)"
      if "map_of (ga_contents g') p = Some data" for p data
    proof (cases "p = path")
      case True
      with that here str show ?thesis by simp
    next
      case False
      from IH that have "(if p = path then Some ?d else map_of (ga_contents g) p) = Some data \<or>
          p \<in> set paths \<and> (\<exists>s. as_read_file A w p = Inr s \<and> data = utf8 s)" by blast
      with False show ?thesis by auto
    qed
    show ?thesis using IH keep here from_here str by simp
  qed
qed

end
