(* ===== verification/Views_Run.thy ===== *)
theory Views_Run
  imports Views_Decisions
begin

text \<open>
  The projections of \<open>src/src/cavman/views.py\<close>, third part: the time line of events, the state and the
  stage of a run, its jobs, and the summary and the detail of a run.
\<close>

section \<open>Events\<close>

text \<open>A row of the event log, its \<open>data\<close> the JSON document the store reads back.\<close>

record EventRow =
  er_sequence :: int
  er_kind :: string
  er_data :: json_object
  er_created_at :: string

record Described =
  ds_title :: string
  ds_detail :: "string option"
  ds_level :: string
  ds_debug :: bool

record EventView =
  ew_sequence :: int
  ew_kind :: string
  ew_title :: string
  ew_detail :: "string option"
  ew_level :: string
  ew_task_id :: "string option"
  ew_debug :: bool
  ew_created_at :: string

text \<open>\<open>d.get(v)\<close> of a dictionary with string keys: a list or a dictionary cannot be a key.\<close>

fun lookup_json :: "(string, 'a) dict \<Rightarrow> json \<Rightarrow> py_error + 'a option" where
  "lookup_json d (JStr k) = Inr (map_of d k)"
| "lookup_json d (JArr vs) = Inl (TypeError ''unhashable type'')"
| "lookup_json d (JObj kvs) = Inl (TypeError ''unhashable type'')"
| "lookup_json d v = Inr None"

text \<open>\<open>len(v)\<close>\<close>

fun json_length :: "json \<Rightarrow> py_error + nat" where
  "json_length (JStr s) = Inr (length s)"
| "json_length (JArr vs) = Inr (length vs)"
| "json_length (JObj kvs) = Inr (length kvs)"
| "json_length v = Inl (TypeError ''object has no len()'')"

text \<open>\<open>{name}\<close> of an optional title in an f-string.\<close>

definition shown :: "string option \<Rightarrow> string" where
  "shown x = (case x of None \<Rightarrow> ''None'' | Some s \<Rightarrow> s)"

definition described :: "string \<Rightarrow> string option \<Rightarrow> string \<Rightarrow> py_error + Described" where
  "described title detail level = Inr \<lparr>ds_title = title, ds_detail = detail, ds_level = level, ds_debug = False\<rparr>"

text \<open>\<open>_title\<close> of the task that owns the artifact a record names, None when either is unknown.\<close>

definition owner_title :: "Run \<Rightarrow> json_object \<Rightarrow> py_error + string option" where
  "owner_title r d =
     bind_ok (lookup_json (run_artifacts r) (json_get_or (JStr []) d ''artifact_id'')) (\<lambda>artifact.
       Inr (case artifact of None \<Rightarrow> None
          | Some a \<Rightarrow> map_option task_title (map_of (run_tasks r) (ar_task_id a))))"

text \<open>\<open>str(d.get(k, "")).replace("_", " ")\<close>\<close>

definition spaced :: "json_object \<Rightarrow> string \<Rightarrow> string" where
  "spaced d k = replace_char CHR ''_'' CHR '' '' (py_str (json_get_or (JStr []) d k))"

definition describe_plan :: "json_object \<Rightarrow> string option \<Rightarrow> string \<Rightarrow> (py_error + Described) option" where
  "describe_plan data name kind =
     (if kind = ''run.created'' then Some (described ''Build requested'' None ''info'')
      else if kind = ''plan.criteria_defined'' then
        Some (bind_ok (json_length (json_get_or (JArr []) data ''criteria'')) (\<lambda>n.
          described ''Success criteria defined'' (Some (show_nat n @ '' criteria'')) ''info''))
      else if kind = ''task.created'' then
        Some (described (''Planned: '' @ (if present name then shown name else py_str (json_get data ''task_id''))) None ''info'')
      else if kind = ''task.ready'' then Some (described (''Ready: '' @ shown name) None ''info'')
      else None)"

definition describe_work ::
    "Projector \<Rightarrow> json_object \<Rightarrow> TaskNode option \<Rightarrow> string option \<Rightarrow> string \<Rightarrow> (py_error + Described) option" where
  "describe_work P data task name kind =
     (if kind = ''assignment.created'' then
        Some (described (''Delegated to '' @ (case task of None \<Rightarrow> ''specialist'' | Some t \<Rightarrow> specialist t))
          (Some (shown name @ '' '' @ pr_dash P @ '' attempt '' @ py_str (json_get data ''attempt''))) ''info'')
      else if kind = ''assignment.started'' then Some (described ''Specialist started'' name ''info'')
      else if kind = ''artifact.submitted'' then
        Some (described (''Candidate submitted (v'' @ py_str (json_get data ''version'') @ '')'') name ''info'')
      else None)"

definition describe_evidence :: "Run \<Rightarrow> json_object \<Rightarrow> string \<Rightarrow> (py_error + Described) option" where
  "describe_evidence r data kind =
     (if kind = ''artifact.validation_completed'' then
        Some (bind_ok (as_object (json_get_or (JObj []) data ''validation'')) (\<lambda>record.
          let passed = truthy (json_get record ''passed'');
              check = json_get record ''check'' in
          bind_ok (lookup_json CHECK_LABELS check) (\<lambda>known_label.
          bind_ok (owner_title r record) (\<lambda>owner.
            described (''Validation '' @ (if passed then ''passed'' else ''failed'') @ '': '' @
                (case known_label of None \<Rightarrow> py_str check | Some text \<Rightarrow> text))
              owner (if passed then ''success'' else ''error'')))))
      else if kind = ''artifact.reviewed'' then
        Some (bind_ok (as_object (json_get_or (JObj []) data ''review'')) (\<lambda>record.
          let passed = truthy (json_get record ''passed'') in
          bind_ok (owner_title r record) (\<lambda>owner.
            described (if passed then ''Review passed'' else ''Reviewer requested changes'')
              owner (if passed then ''success'' else ''warning''))))
      else if kind = ''artifact.accepted'' then
        Some (bind_ok (owner_title r data) (\<lambda>owner. described ''Accepted'' owner ''success''))
      else if kind = ''artifact.integrated'' then
        Some (bind_ok (owner_title r data) (\<lambda>owner.
          described (''Merged into the project ('' @ take 7 (py_str (json_get_or (JStr []) data ''commit'')) @ '')'')
            owner ''success''))
      else if kind = ''artifact.rejected'' then Some (described ''Candidate rejected'' None ''warning'')
      else None)"

definition describe_recovery :: "Run \<Rightarrow> json_object \<Rightarrow> string option \<Rightarrow> string \<Rightarrow> (py_error + Described) option" where
  "describe_recovery r data name kind =
     (if kind = ''failure.classified'' then
        Some (bind_ok (as_object (json_get_or (JObj []) data ''failure'')) (\<lambda>failure.
          bind_ok (lookup_json (run_tasks r) (json_get_or (JStr []) failure ''task_id'')) (\<lambda>owner.
            described (''Task failed: '' @ lower (spaced failure ''classification''))
              (map_option task_title owner) ''error'')))
      else if kind = ''recovery.decided'' then
        Some (bind_ok (as_object (json_get_or (JObj []) data ''decision'')) (\<lambda>decision.
          let action = json_get decision ''action'' in
          bind_ok (lookup_json RECOVERY_LABELS action) (\<lambda>known_label.
            described (''Recovery: '' @ (case known_label of None \<Rightarrow> py_str action | Some text \<Rightarrow> text)) None ''warning'')))
      else if kind = ''retry.scheduled'' then Some (described ''Retry started'' name ''warning'')
      else if kind = ''worker.replaced'' then Some (described ''Specialist replaced'' name ''warning'')
      else if kind = ''plan.replan_proposed'' then Some (described ''Replan proposed'' None ''warning'')
      else if kind = ''plan.replan_applied'' then
        Some (described (''Replan applied (revision '' @ py_str (json_get data ''revision'') @ '')'') None ''warning'')
      else None)"

definition describe_decision :: "json_object \<Rightarrow> string option \<Rightarrow> string \<Rightarrow> (py_error + Described) option" where
  "describe_decision data name kind =
     (if kind = ''approval.required'' then
        Some (bind_ok (as_object (json_get_or (JObj []) data ''request'')) (\<lambda>request.
          described (''Approval needed: '' @ spaced request ''action'') None ''attention''))
      else if kind = ''approval.granted'' then Some (described ''Approval granted'' None ''success'')
      else if kind = ''approval.rejected'' then Some (described ''Approval rejected'' None ''warning'')
      else if kind = ''approval.superseded'' then Some (described ''Approval request replaced'' None ''info'')
      else if kind = ''capability.requested'' then
        Some (described ''Specialist requested more capability'' None ''attention'')
      else if kind = ''run.completed'' then Some (described ''Build complete'' None ''success'')
      else if kind = ''run.abandoned'' then Some (described ''Run closed'' None ''warning'')
      else if kind = ''run.resumed'' then Some (described ''Recovered after interruption'' None ''warning'')
      else if kind = ''workspace.bound'' then Some (described ''Isolated workspace created'' name ''info'')
      else None)"

definition default_title :: "string \<Rightarrow> string" where
  "default_title kind = capitalize (replace_char CHR ''_'' CHR '' '' (replace_char CHR ''.'' CHR '' '' kind))"

definition describe_other :: "json_object \<Rightarrow> string option \<Rightarrow> string \<Rightarrow> py_error + Described" where
  "describe_other data name kind =
     (if kind = ''model.usage.recorded'' then
        bind_ok (as_object (json_get_or (JObj []) data ''usage'')) (\<lambda>usage.
          Inr \<lparr>ds_title = ''Model call: '' @ py_str (json_get usage ''role''),
               ds_detail = Some (model_key (py_str (json_get usage ''provider'')) (py_str (json_get usage ''model''))),
               ds_level = ''info'', ds_debug = True\<rparr>)
      else if starts_with kind ''task.'' then
        Inr \<lparr>ds_title = capitalize (replace_char CHR ''_'' CHR '' '' (drop (length ''task.'') kind)) @ '': '' @ shown name,
             ds_detail = None,
             ds_level = (if kind = ''task.blocked'' then ''warning'' else ''info''),
             ds_debug = (kind \<notin> {''task.failed'', ''task.blocked'', ''task.revision_required''})\<rparr>
      else
        Inr \<lparr>ds_title = default_title kind, ds_detail = None, ds_level = ''info'',
             ds_debug = (starts_with kind ''assignment.'' \<or> starts_with kind ''artifact.'' \<or>
               kind = ''input.registered'')\<rparr>)"

text \<open>The chain of branches: the first that knows the kind describes the event.\<close>

fun first_of :: "'a option list \<Rightarrow> 'a \<Rightarrow> 'a" where
  "first_of [] y = y"
| "first_of (None # xs) y = first_of xs y"
| "first_of (Some x # xs) y = x"

definition event_task_id :: "json_object \<Rightarrow> json" where
  "event_task_id data =
     (let nested = (\<lambda>k task_id. if truthy task_id then task_id
        else (case json_get data k of JObj d \<Rightarrow> json_get d ''task_id'' | _ \<Rightarrow> task_id))
      in nested ''failure'' (nested ''assignment'' (json_get data ''task_id'')))"

definition event_view :: "Projector \<Rightarrow> Run \<Rightarrow> EventRow \<Rightarrow> py_error + EventView" where
  "event_view P r e =
     (let data = er_data e; kind = er_kind e;
          tid = event_task_id data;
          task = (if truthy tid then map_of (run_tasks r) (py_str tid) else None);
          name = map_option task_title task
      in bind_ok (first_of [describe_plan data name kind, describe_work P data task name kind,
            describe_evidence r data kind, describe_recovery r data name kind, describe_decision data name kind]
            (describe_other data name kind)) (\<lambda>d.
          Inr \<lparr>ew_sequence = er_sequence e,
               ew_kind = kind,
               ew_title = ds_title d,
               ew_detail = redact_option P 300 (ds_detail d),
               ew_level = ds_level d,
               ew_task_id = (case tid of JStr s \<Rightarrow> Some s | _ \<Rightarrow> None),
               ew_debug = ds_debug d,
               ew_created_at = er_created_at e\<rparr>))"

section \<open>The state of a run\<close>

record StateView =
  sv_state :: string
  sv_label :: string
  sv_explanation :: string

definition show_state :: "string \<Rightarrow> string \<Rightarrow> string \<Rightarrow> StateView" where
  "show_state state name explanation = \<lparr>sv_state = state, sv_label = name, sv_explanation = explanation\<rparr>"

definition running_state :: "TaskNode list \<Rightarrow> Job \<Rightarrow> StateView" where
  "running_state tasks active =
     (if jb_kind active = ''recover'' then
        show_state ''recovering'' ''Recovering'' ''Cavman is recovering interrupted work before continuing.''
      else if jb_status active = ''queued'' then
        show_state ''starting'' ''Starting'' ''Waiting for a Cavman worker to pick up this build.''
      else if jb_cancel_requested active then
        show_state ''stopping'' ''Stopping'' ''Stopping after the current step.''
      else if tasks = [] then
        show_state ''planning'' ''Planning'' ''Cavman is working out what needs to be built.''
      else if \<exists>t \<in> set tasks. tn_status t = REVISION_REQUIRED then
        show_state ''revision_required'' ''Revising'' ''A reviewer or check asked for changes; Cavman is revising.''
      else show_state ''running'' ''Building'' ''Specialists are working through the plan.'')"

definition ended_state :: "Job \<Rightarrow> StateView" where
  "ended_state j =
     (let outcome = (case jb_outcome j of None \<Rightarrow> [] | Some x \<Rightarrow> x);
          state = (case map_of [(''budget_exceeded'', ''budget_reached''), (''cancelled'', ''paused''),
              (''interrupted'', ''failed''), (''config_error'', ''failed''), (''error'', ''failed''),
              (''turn_limit'', ''paused'')] outcome of None \<Rightarrow> ''failed'' | Some s \<Rightarrow> s);
          name = (if state = ''budget_reached'' then ''Budget reached'' else if state = ''paused'' then ''Paused''
            else ''Needs attention'')
      in show_state state name
           (case map_of JOB_OUTCOME_TEXT outcome of None \<Rightarrow> ''Execution stopped.'' | Some text \<Rightarrow> text))"

definition run_state :: "Run \<Rightarrow> Job list \<Rightarrow> StateView" where
  "run_state r jobs =
     (let active = find job_active jobs;
          last_job = last_opt jobs;
          pending = (\<exists>q \<in> snd ` set (run_approvals r). aq_status q = AP_PENDING);
          pending_caps = (\<exists>c \<in> snd ` set (run_capability_requests r). cr_status c = CR_PENDING);
          tasks = map snd (run_tasks r) in
      if run_status r = ''completed'' then
        show_state ''complete'' ''Complete''
          (''Every task was accepted and '' @ ''the completion gate confirmed each success criterion.'')
      else if run_status r = ''abandoned'' then
        show_state ''cancelled'' ''Closed'' (''This run was closed. Its '' @ ''history is preserved.'')
      else case active of
        Some j \<Rightarrow> running_state tasks j
      | None \<Rightarrow>
          (if pending \<or> pending_caps then
             show_state ''approval_needed'' ''Approval needed'' ''Cavman is waiting for your decision before continuing.''
           else if \<exists>j. last_job = Some j \<and> jb_status j \<in> {''failed'', ''cancelled''} then ended_state (the last_job)
           else if \<exists>t \<in> set tasks. tn_status t = BLOCKED then
             show_state ''blocked'' ''Blocked''
               ''Some work is blocked. Continue the run to let Cavman decide how to recover.''
           else if last_job = None then show_state ''starting'' ''Starting'' ''Queued.''
           else show_state ''waiting'' ''Waiting for you''
             (''Cavman paused and is waiting for your direction. Read its latest message, '' @ ''then continue the run.'')))"

definition shown_tasks :: "Run \<Rightarrow> TaskNode list" where
  "shown_tasks r = filter (\<lambda>t. tn_status t \<notin> {CANCELLED, REPLACED}) (map snd (run_tasks r))"

definition stage :: "Run \<Rightarrow> string" where
  "stage r =
     (let tasks = shown_tasks r in
      if run_status r = ''completed'' then ''deliver''
      else if wp_completion_criteria (run_plan r) = [INITIAL_COMPLETION_CRITERION] then ''understand''
      else if tasks = [] then ''plan''
      else if \<forall>t \<in> set tasks. tn_status t = ACCEPTED then ''deliver''
      else if \<exists>t \<in> set tasks. tn_status t \<in> {SUBMITTED, REVIEWING} then ''review''
      else ''build'')"

section \<open>Jobs, the summary and the detail\<close>

record JobView =
  jw_id :: ident
  jw_kind :: string
  jw_status :: string
  jw_outcome :: "string option"
  jw_outcome_text :: "string option"
  jw_message :: "string option"
  jw_cancel_requested :: bool
  jw_created_at :: string
  jw_started_at :: "string option"
  jw_finished_at :: "string option"

definition job_view :: "Projector \<Rightarrow> Job \<Rightarrow> JobView" where
  "job_view P j =
     \<lparr>jw_id = jb_id j,
      jw_kind = jb_kind j,
      jw_status = jb_status j,
      jw_outcome = jb_outcome j,
      jw_outcome_text = (if present (jb_outcome j) then map_of JOB_OUTCOME_TEXT (the (jb_outcome j)) else None),
      jw_message = (if present (jb_detail j) then Some (pr_redact P (jb_detail j) (Some 4000)) else None),
      jw_cancel_requested = jb_cancel_requested j,
      jw_created_at = jb_created_at j,
      jw_started_at = jb_started_at j,
      jw_finished_at = jb_finished_at j\<rparr>"

record SummaryView =
  mv_id :: ident
  mv_project_id :: ident
  mv_project_name :: string
  mv_prompt :: string
  mv_executor :: string
  mv_orchestration :: string
  mv_model_mode :: string
  mv_status :: string
  mv_state :: StateView
  mv_stage :: string
  mv_task_counts :: "(string, int) dict"
  mv_tasks_total :: nat
  mv_tasks_accepted :: nat
  mv_pending_approvals :: nat
  mv_failures :: nat
  mv_cost_usd :: py_float
  mv_cost_complete :: bool
  mv_model_calls :: int

text \<open>\<open>counts[state] = counts.get(state, 0) + 1\<close>\<close>

definition count_once :: "string \<Rightarrow> (string, int) dict \<Rightarrow> (string, int) dict" where
  "count_once k counts = AList.update k ((case map_of counts k of None \<Rightarrow> 0 | Some n \<Rightarrow> n) + 1) counts"

definition task_counts :: "Run \<Rightarrow> (string, int) dict" where
  "task_counts r = foldl (\<lambda>counts t. count_once (task_display_state r t) counts) [] (shown_tasks r)"

definition run_summary :: "Projector \<Rightarrow> Run \<Rightarrow> RunRecord \<Rightarrow> Job list \<Rightarrow> string \<Rightarrow> py_error + SummaryView" where
  "run_summary P r record jobs project_name =
     bind_ok (usage_view P r (Some record)) (\<lambda>usage.
       Inr \<lparr>mv_id = run_id r,
            mv_project_id = rr_project_id record,
            mv_project_name = project_name,
            mv_prompt = redact P 4000 (rr_prompt record),
            mv_executor = rr_executor record,
            mv_orchestration = pr_orchestration P,
            mv_model_mode = rr_model_mode record,
            mv_status = run_status r,
            mv_state = run_state r jobs,
            mv_stage = stage r,
            mv_task_counts = task_counts r,
            mv_tasks_total = length (shown_tasks r),
            mv_tasks_accepted = length (filter (\<lambda>t. tn_status t = ACCEPTED) (shown_tasks r)),
            mv_pending_approvals = length (filter (\<lambda>kq. aq_status (snd kq) = AP_PENDING) (run_approvals r)),
            mv_failures = length (run_failures r),
            mv_cost_usd = uv_cost_usd usage,
            mv_cost_complete = uv_cost_complete usage,
            mv_model_calls = uv_calls usage\<rparr>)"

text \<open>The events of a run described in turn; the first that cannot be is the result.\<close>

fun event_views :: "Projector \<Rightarrow> Run \<Rightarrow> EventRow list \<Rightarrow> py_error + EventView list" where
  "event_views P r [] = Inr []"
| "event_views P r (e # es) =
     bind_ok (event_view P r e) (\<lambda>w. bind_ok (event_views P r es) (\<lambda>ws. Inr (w # ws)))"

definition latest_by_task :: "EventView list \<Rightarrow> (ident, LatestEvent) dict" where
  "latest_by_task ws = foldl (\<lambda>d w. if present (ew_task_id w) \<and> \<not> ew_debug w
     then AList.update (the (ew_task_id w)) \<lparr>le_title = ew_title w, le_created_at = ew_created_at w\<rparr> d else d) [] ws"

definition add_task_usage :: "Projector \<Rightarrow> UsageEntry \<Rightarrow> (ident, TaskUsage) dict \<Rightarrow> (ident, TaskUsage) dict" where
  "add_task_usage P e d =
     (if \<not> present (ue_task_id e) then d
      else let k = the (ue_task_id e);
               bucket = (case map_of d k of Some b \<Rightarrow> b | None \<Rightarrow> \<lparr>tu_calls = 0, tu_models = [], tu_cost_usd = Finite 0 0\<rparr>)
           in AList.update k
                \<lparr>tu_calls = tu_calls bucket + 1,
                 tu_models = add_once (model_key (ue_provider e) (ue_model e)) (tu_models bucket),
                 tu_cost_usd = pr_add P (tu_cost_usd bucket)
                   (case ue_cost_usd e of None \<Rightarrow> Finite 0 0 | Some c \<Rightarrow> c)\<rparr> d)"

definition usage_by_task :: "Projector \<Rightarrow> UsageView \<Rightarrow> (ident, TaskUsage) dict" where
  "usage_by_task P usage = foldl (\<lambda>d e. add_task_usage P e d) [] (uv_records usage)"

fun task_views :: "Projector \<Rightarrow> Run \<Rightarrow> (ident, LatestEvent) dict \<Rightarrow> (ident, TaskUsage) dict \<Rightarrow> ident list \<Rightarrow>
    py_error + TaskView list" where
  "task_views P r latest spent [] = Inr []"
| "task_views P r latest spent (k # ks) =
     bind_ok (dget (run_tasks r) k) (\<lambda>t. bind_ok (task_views P r latest spent ks) (\<lambda>ws.
       Inr (task_view P r t latest spent # ws)))"

fun approval_views :: "Projector \<Rightarrow> Run \<Rightarrow> ApprovalRequest list \<Rightarrow> py_error + ApprovalView list" where
  "approval_views P r [] = Inr []"
| "approval_views P r (q # qs) =
     bind_ok (approval_view P r q) (\<lambda>w. bind_ok (approval_views P r qs) (\<lambda>ws. Inr (w # ws)))"

record CapabilityRequestView =
  qv_id :: ident
  qv_task_id :: ident
  qv_requested_capability :: string
  qv_reason :: string
  qv_risk :: string
  qv_status :: string

fun request_value :: "CapabilityRequestStatus \<Rightarrow> string" where
  "request_value CR_PENDING = ''pending''"
| "request_value CR_APPROVED = ''approved''"
| "request_value CR_DENIED = ''denied''"
| "request_value CR_ESCALATED = ''escalated''"

definition capability_request_view :: "Projector \<Rightarrow> CapabilityRequest \<Rightarrow> CapabilityRequestView" where
  "capability_request_view P c =
     \<lparr>qv_id = cr_id c,
      qv_task_id = cr_task_id c,
      qv_requested_capability = capability_value (cr_requested_capability c),
      qv_reason = redact P 1000 (cr_reason c),
      qv_risk = redact P 1000 (cr_risk c),
      qv_status = request_value (cr_status c)\<rparr>"

record DetailView =
  dt_summary :: SummaryView
  dt_objective :: string
  dt_constraints :: "string list"
  dt_criteria :: "string list"
  dt_tasks :: "TaskView list"
  dt_artifacts :: "ArtifactView list"
  dt_accepted_artifact_ids :: "ident list"
  dt_approvals :: "ApprovalView list"
  dt_capability_requests :: "CapabilityRequestView list"
  dt_failure_details :: "FailureView list"
  dt_recovery :: ReplansView
  dt_unresolved_issues :: "string list"
  dt_usage :: UsageView
  dt_jobs :: "JobView list"
  dt_event_cursor :: int
  dt_timeline :: "EventView list"
  dt_final_result :: "string option"
  dt_delivery :: "json option"

definition task_order :: "Run \<Rightarrow> ident list" where
  "task_order r = wp_task_ids (run_plan r) @
     filter (\<lambda>k. k \<notin> set (wp_task_ids (run_plan r))) (map fst (run_tasks r))"

definition run_detail :: "Projector \<Rightarrow> Run \<Rightarrow> RunRecord \<Rightarrow> Job list \<Rightarrow> EventRow list \<Rightarrow> string \<Rightarrow>
    json option \<Rightarrow> py_error + DetailView" where
  "run_detail P r record jobs rows project_name delivered =
     bind_ok (event_views P r rows) (\<lambda>shown_events.
     bind_ok (usage_view P r (Some record)) (\<lambda>usage.
     bind_ok (run_summary P r record jobs project_name) (\<lambda>summary.
     bind_ok (task_views P r (latest_by_task shown_events) (usage_by_task P usage) (task_order r)) (\<lambda>tasks.
     bind_ok (approval_views P r (sort_key (\<lambda>q. pr_created_at P (aq_id q)) (map snd (run_approvals r)))) (\<lambda>approvals.
       Inr \<lparr>dt_summary = summary,
            dt_objective = redact P 4000 (run_objective r),
            dt_constraints = map (redact P 500) (run_constraints r),
            dt_criteria = (if wp_completion_criteria (run_plan r) = [INITIAL_COMPLETION_CRITERION] then []
              else map (redact P 500) (wp_completion_criteria (run_plan r))),
            dt_tasks = tasks,
            dt_artifacts = map (\<lambda>a. artifact_view P r a False)
              (sort_key (\<lambda>a. pr_created_at P (ar_id a)) (map snd (run_artifacts r))),
            dt_accepted_artifact_ids = run_accepted_artifacts r,
            dt_approvals = approvals,
            dt_capability_requests = map (\<lambda>(k, c). capability_request_view P c) (run_capability_requests r),
            dt_failure_details = failures_view P r,
            dt_recovery = replans_view P r,
            dt_unresolved_issues = map (redact P 500) (run_unresolved_issues r),
            dt_usage = usage,
            dt_jobs = map (job_view P) jobs,
            dt_event_cursor = run_event_cursor r,
            dt_timeline = last_n 200 (filter (\<lambda>w. \<not> ew_debug w) shown_events),
            dt_final_result = (if present (run_final_result r)
              then Some (pr_redact P (run_final_result r) (Some 20000)) else None),
            dt_delivery = delivered\<rparr>)))))"

end
