(* ===== verification/Views_Claims.thy ===== *)
theory Views_Claims
  imports Views_Run Scenario
begin

text \<open>
  What the projections promise: a check is shown as passed only when its last record on the very
  content passed, accepted work of a reachable run is shown with its evidence, and the usage table
  accounts for every recorded call.
\<close>

section \<open>Checks are shown as recorded\<close>

lemma last_update:
  "map_of (foldl (\<lambda>d v. AList.update (f v) v d) d0 vs) k =
     (case last_opt (filter (\<lambda>v. f v = k) vs) of None \<Rightarrow> map_of d0 k | Some v \<Rightarrow> Some v)"
  by (induct vs arbitrary: d0) (auto simp: last_opt_def)

text \<open>The last record of a check on the artifact's current content.\<close>

definition last_record :: "Artifact \<Rightarrow> string \<Rightarrow> ArtifactValidation option" where
  "last_record a c = last_opt (filter (\<lambda>v. av_content_digest v = ar_content_digest a \<and> av_check v = c) (ar_validations a))"

lemma latest_records_last: "map_of (latest_records a) c = last_record a c"
  unfolding latest_records_def last_record_def last_update
  by (simp add: conj_commute split: option.splits)

lemma last_record_mem:
  "last_record a c = Some v \<Longrightarrow> v \<in> set (ar_validations a) \<and> av_content_digest v = ar_content_digest a \<and> av_check v = c"
  unfolding last_record_def by (drule last_opt_mem) simp

lemma last_record_known:
  assumes "v \<in> set (ar_validations a)" and "av_content_digest v = ar_content_digest a" and "av_check v = c"
  shows "\<exists>v'. last_record a c = Some v'"
  using assms unfolding last_record_def last_opt_def by (auto simp: filter_empty_conv)

lemma required_checks_passed:
  "(\<forall>w \<in> set (required_checks t (Some a)). ck_status w = ''passed'') \<longleftrightarrow>
     (\<forall>c \<in> set (tn_required_checks t). \<exists>v. last_record a c = Some v \<and> av_passed v)"
  by (auto simp: required_checks_def latest_records_last split: option.splits if_splits)

lemma latest_artifact_latest: "latest_artifact r t = latest r t"
  by (simp add: latest_artifact_def latest_def)

lemma display_accepted: "task_display_state r t = ''Accepted'' \<longleftrightarrow> tn_status t = ACCEPTED"
  by (cases "tn_status t") (auto simp: task_display_state_def Let_def split: option.splits)

lemma artifact_view_states:
  "aw_status (artifact_view P r a content) = ar_status a"
  "aw_validation_state (artifact_view P r a content) =
     validation_state (map_of (run_tasks r) (ar_task_id a)) a (map (validation_view P) (ar_validations a))"
  "aw_review_state (artifact_view P r a content) =
     (case last_opt (ar_reviews a) of None \<Rightarrow> ''not_reviewed'' | Some v \<Rightarrow> rw_status (review_view P v))"
  by (simp_all add: artifact_view_def Let_def last_opt_def last_map split: prod.splits)

lemma validation_view_status: "vv_status (validation_view P v) = (if av_passed v then ''passed'' else ''failed'')"
  by (simp add: validation_view_def Let_def)

lemma review_view_status: "rw_status (review_view P v) = (if rv_passed v then ''passed'' else ''changes_requested'')"
  by (simp add: review_view_def Let_def)

lemma evidenced_passed:
  assumes "evidenced core t a"
  shows "\<forall>v \<in> set (ar_validations a). av_passed v"
    and "\<forall>c \<in> set (tn_required_checks t). \<exists>v. last_record a c = Some v \<and> av_passed v"
    and "needs_review t \<Longrightarrow> \<exists>v. last_opt (ar_reviews a) = Some v \<and> rv_passed v"
proof -
  from assms have gate: "evidence_gate core t a = Inr ()" by (simp add: evidenced_def)
  show all: "\<forall>v \<in> set (ar_validations a). av_passed v"
    using gate unfolding evidence_gate_Inr by blast
  show "\<forall>c \<in> set (tn_required_checks t). \<exists>v. last_record a c = Some v \<and> av_passed v"
  proof
    fix c assume "c \<in> set (tn_required_checks t)"
    then obtain v where v: "v \<in> set (ar_validations a)" "av_check v = c"
      using gate unfolding evidence_gate_Inr by blast
    then have "av_content_digest v = ar_content_digest a" using gate unfolding evidence_gate_Inr by blast
    from last_record_known[OF v(1) this v(2)] obtain w where w: "last_record a c = Some w" by blast
    with all last_record_mem[OF w] show "\<exists>v. last_record a c = Some v \<and> av_passed v" by blast
  qed
  show "\<exists>v. last_opt (ar_reviews a) = Some v \<and> rv_passed v" if "needs_review t"
    using gate that unfolding evidence_gate_Inr by (simp add: last_opt_def)
qed

text \<open>
  C36 (safety). A task a reachable run shows as Accepted is shown with its evidence: each of its
  required checks as passed, because the last record on the very content passed; its artifact as
  accepted, never with a failed validation and, with checks required, as validated; and as reviewed
  where it needs a review. Whatever the redaction and the parser do.
\<close>

theorem accepted_work_is_shown_with_its_evidence:
  assumes "reachable core r" and "map_of (run_tasks r) k = Some t" and "task_display_state r t = ''Accepted''"
  shows "\<exists>a. latest_artifact r t = Some a \<and>
    (\<forall>c \<in> set (required_checks t (Some a)). ck_status c = ''passed'') \<and>
    (\<forall>c \<in> set (tn_required_checks t). \<exists>v \<in> set (ar_validations a). av_check v = c \<and> av_passed v \<and>
       av_content_digest v = ar_content_digest a) \<and>
    aw_status (artifact_view P r a content) = ''accepted'' \<and>
    aw_validation_state (artifact_view P r a content) \<noteq> ''failed'' \<and>
    (tn_required_checks t \<noteq> [] \<longrightarrow> aw_validation_state (artifact_view P r a content) = ''passed'') \<and>
    (needs_review t \<longrightarrow> aw_review_state (artifact_view P r a content) = ''passed'')"
proof -
  note ok = reachable_ok[OF assms(1)]
  note task = run_okD(5)[OF ok assms(2)]
  have "phase_of (tn_status t) = Done" using assms(3) by (simp add: display_accepted)
  from task_okD(6)[OF task this] obtain a where
    l: "latest r t = Some a" and st: "ar_status a = ''accepted''" and ev: "evidenced core t a" by blast
  from l obtain aid where aid: "last_opt (tn_artifact_ids t) = Some aid" and a: "map_of (run_artifacts r) aid = Some a"
    by (auto simp: latest_def split: option.splits)
  have own: "map_of (run_tasks r) (ar_task_id a) = Some t"
    using task_okD(4)[OF task last_opt_mem[OF aid]] a assms(2) by (auto simp: artifact_of_def)
  note passed = evidenced_passed[OF ev]
  have checks: "\<forall>c \<in> set (required_checks t (Some a)). ck_status c = ''passed''"
    using passed(2) by (simp only: required_checks_passed)
  moreover have "\<exists>v \<in> set (ar_validations a). av_check v = c \<and> av_passed v \<and> av_content_digest v = ar_content_digest a"
    if "c \<in> set (tn_required_checks t)" for c
    using passed(2) that last_record_mem by blast
  moreover have "aw_validation_state (artifact_view P r a content) \<noteq> ''failed''"
    "tn_required_checks t \<noteq> [] \<Longrightarrow> aw_validation_state (artifact_view P r a content) = ''passed''"
    using passed(1) checks unfolding artifact_view_states own
    by (auto simp: validation_state_def validation_view_status)
  moreover have "needs_review t \<Longrightarrow> aw_review_state (artifact_view P r a content) = ''passed''"
    using passed(3) unfolding artifact_view_states by (auto simp: review_view_status)
  ultimately show ?thesis using l st by (auto simp: latest_artifact_latest artifact_view_states)
qed

theorem accepted_work_is_shown_with_its_evidence_witness:
  "\<exists>t a. map_of (run_tasks (after0 full0)) ''t2'' = Some t \<and> latest_artifact (after0 full0) t = Some a \<and>
     list_all (\<lambda>c. ck_status c = ''passed'') (required_checks t (Some a))"
proof -
  from full0_facts(4) obtain t where t: "map_of (run_tasks (after0 full0)) ''t2'' = Some t" "tn_status t = ACCEPTED"
    by blast
  from t(2) have "task_display_state (after0 full0) t = ''Accepted''" by (simp add: display_accepted)
  from accepted_work_is_shown_with_its_evidence[OF after0_reachable t(1) this] t(1)
  show ?thesis unfolding list_all_iff by blast
qed

section \<open>The usage table accounts for every call\<close>

text \<open>What a record reports of its cost and of its cached tokens, and the costs of records added up in order.\<close>

definition cost_reported :: "Projector \<Rightarrow> ModelUsageRecord \<Rightarrow> py_float option" where
  "cost_reported P u = usage_cost (pr_float_of P) (pr_float_of_int P) (Mapping (mu_raw_usage u))"

definition costless :: "Projector \<Rightarrow> ModelUsageRecord \<Rightarrow> bool" where
  "costless P u = (cost_reported P u = None)"

definition cached_reported :: "Projector \<Rightarrow> ModelUsageRecord \<Rightarrow> int option" where
  "cached_reported P u = (case cached_tokens (pr_float_of P) (Mapping (mu_raw_usage u)) of Inl e \<Rightarrow> None | Inr c \<Rightarrow> c)"

definition cost_sum :: "Projector \<Rightarrow> ModelUsageRecord list \<Rightarrow> py_float" where
  "cost_sum P us = foldl (pr_add P) (Finite 0 0) (List.map_filter (cost_reported P) us)"

lemma cost_sum_add:
  "cost_sum P (us @ [u]) = (case cost_reported P u of None \<Rightarrow> cost_sum P us | Some c \<Rightarrow> pr_add P (cost_sum P us) c)"
  by (simp add: cost_sum_def List.map_filter_def split: option.splits)

text \<open>
  A table of buckets accounts for records: each bucket holds those of its key, counted, their tokens
  and costs added up, and those without a cost counted; there is no other bucket.
\<close>

definition accounts_for :: "Projector \<Rightarrow> (ModelUsageRecord \<Rightarrow> string) \<Rightarrow> ModelUsageRecord list \<Rightarrow>
    (string, UsageBucket) dict \<Rightarrow> bool" where
  "accounts_for P key us d \<longleftrightarrow> distinct (map fst d) \<and>
     (\<forall>k. let own = filter (\<lambda>u. key u = k) us in
        case map_of d k of
          None \<Rightarrow> own = []
        | Some e \<Rightarrow> own \<noteq> [] \<and> bk_calls e = int (length own) \<and>
            bk_total_tokens e = (\<Sum>u\<leftarrow>own. known (mu_total_tokens u)) \<and>
            bk_cost_usd e = cost_sum P own \<and>
            bk_calls_without_cost e = int (length (filter (costless P) own)))"

lemma accounts_for_Nil [simp]: "accounts_for P key [] []"
  by (simp add: accounts_for_def)

lemma accounts_forD:
  assumes "accounts_for P key us d"
  shows "distinct (map fst d)" and "map_of d k = None \<Longrightarrow> filter (\<lambda>u. key u = k) us = []"
    and "map_of d k = Some e \<Longrightarrow> filter (\<lambda>u. key u = k) us \<noteq> [] \<and> bk_calls e = int (length (filter (\<lambda>u. key u = k) us)) \<and>
       bk_total_tokens e = (\<Sum>u\<leftarrow>filter (\<lambda>u. key u = k) us. known (mu_total_tokens u)) \<and>
       bk_cost_usd e = cost_sum P (filter (\<lambda>u. key u = k) us) \<and>
       bk_calls_without_cost e = int (length (filter (costless P) (filter (\<lambda>u. key u = k) us)))"
proof -
  from assms show "distinct (map fst d)" by (simp add: accounts_for_def)
  have own: "case map_of d k of None \<Rightarrow> filter (\<lambda>u. key u = k) us = []
    | Some e \<Rightarrow> filter (\<lambda>u. key u = k) us \<noteq> [] \<and> bk_calls e = int (length (filter (\<lambda>u. key u = k) us)) \<and>
       bk_total_tokens e = (\<Sum>u\<leftarrow>filter (\<lambda>u. key u = k) us. known (mu_total_tokens u)) \<and>
       bk_cost_usd e = cost_sum P (filter (\<lambda>u. key u = k) us) \<and>
       bk_calls_without_cost e = int (length (filter (costless P) (filter (\<lambda>u. key u = k) us)))"
    using assms unfolding accounts_for_def Let_def by blast
  show "filter (\<lambda>u. key u = k) us = []" if "map_of d k = None" using own unfolding that by simp
  show "filter (\<lambda>u. key u = k) us \<noteq> [] \<and> bk_calls e = int (length (filter (\<lambda>u. key u = k) us)) \<and>
       bk_total_tokens e = (\<Sum>u\<leftarrow>filter (\<lambda>u. key u = k) us. known (mu_total_tokens u)) \<and>
       bk_cost_usd e = cost_sum P (filter (\<lambda>u. key u = k) us) \<and>
       bk_calls_without_cost e = int (length (filter (costless P) (filter (\<lambda>u. key u = k) us)))"
    if "map_of d k = Some e" using own unfolding that by simp
qed

lemma add_to_bucket_fields:
  "map_of (add_to_bucket P k tokens cost d) = (map_of d)(k \<mapsto> the (map_of (add_to_bucket P k tokens cost d) k))"
  "distinct (map fst d) \<Longrightarrow> distinct (map fst (add_to_bucket P k tokens cost d))"
  by (simp_all add: add_to_bucket_def Let_def)

definition empty_bucket :: UsageBucket where
  "empty_bucket = \<lparr>bk_calls = 0, bk_total_tokens = 0, bk_cost_usd = Finite 0 0, bk_calls_without_cost = 0\<rparr>"

lemma add_to_bucket_entry:
  fixes d k defines "e0 \<equiv> (case map_of d k of Some e \<Rightarrow> e | None \<Rightarrow> empty_bucket)"
  obtains e where "map_of (add_to_bucket P k tokens cost d) k = Some e"
    and "bk_calls e = bk_calls e0 + 1" and "bk_total_tokens e = bk_total_tokens e0 + known tokens"
    and "bk_cost_usd e = (case cost of None \<Rightarrow> bk_cost_usd e0 | Some c \<Rightarrow> pr_add P (bk_cost_usd e0) c)"
    and "bk_calls_without_cost e = bk_calls_without_cost e0 + (if cost = None then 1 else 0)"
proof -
  let ?e = "the (map_of (add_to_bucket P k tokens cost d) k)"
  have "map_of (add_to_bucket P k tokens cost d) k = Some ?e"
    by (simp add: add_to_bucket_def Let_def)
  moreover have "bk_calls ?e = bk_calls e0 + 1" "bk_total_tokens ?e = bk_total_tokens e0 + known tokens"
    "bk_cost_usd ?e = (case cost of None \<Rightarrow> bk_cost_usd e0 | Some c \<Rightarrow> pr_add P (bk_cost_usd e0) c)"
    "bk_calls_without_cost ?e = bk_calls_without_cost e0 + (if cost = None then 1 else 0)"
    by (simp_all add: add_to_bucket_def Let_def e0_def empty_bucket_def split: option.splits)
  ultimately show ?thesis by (rule that)
qed

lemma accounts_for_add:
  assumes "accounts_for P key us d"
  shows "accounts_for P key (us @ [u]) (add_to_bucket P (key u) (mu_total_tokens u) (cost_reported P u) d)"
proof -
  let ?d = "add_to_bucket P (key u) (mu_total_tokens u) (cost_reported P u) d"
  obtain e where e: "map_of ?d (key u) = Some e"
    and f: "bk_calls e = bk_calls (case map_of d (key u) of Some e \<Rightarrow> e | None \<Rightarrow> empty_bucket) + 1"
      "bk_total_tokens e = bk_total_tokens (case map_of d (key u) of Some e \<Rightarrow> e | None \<Rightarrow> empty_bucket) + known (mu_total_tokens u)"
      "bk_cost_usd e = (case cost_reported P u of None \<Rightarrow> bk_cost_usd (case map_of d (key u) of Some e \<Rightarrow> e | None \<Rightarrow> empty_bucket)
         | Some c \<Rightarrow> pr_add P (bk_cost_usd (case map_of d (key u) of Some e \<Rightarrow> e | None \<Rightarrow> empty_bucket)) c)"
      "bk_calls_without_cost e = bk_calls_without_cost (case map_of d (key u) of Some e \<Rightarrow> e | None \<Rightarrow> empty_bucket) +
         (if cost_reported P u = None then 1 else 0)"
    by (rule add_to_bucket_entry)
  have other: "map_of ?d k = map_of d k" if "k \<noteq> key u" for k
    using that fun_cong[OF add_to_bucket_fields(1), of P "key u" "mu_total_tokens u" "cost_reported P u" d k] by simp
  have dist: "distinct (map fst ?d)" using accounts_forD(1)[OF assms] by (rule add_to_bucket_fields(2))
  have nil: "cost_sum P [] = Finite 0 0" by (simp add: cost_sum_def List.map_filter_def)
  have "let own = filter (\<lambda>v. key v = k) (us @ [u]) in
      case map_of ?d k of None \<Rightarrow> own = []
      | Some e \<Rightarrow> own \<noteq> [] \<and> bk_calls e = int (length own) \<and>
          bk_total_tokens e = (\<Sum>u\<leftarrow>own. known (mu_total_tokens u)) \<and>
          bk_cost_usd e = cost_sum P own \<and>
          bk_calls_without_cost e = int (length (filter (costless P) own))" for k
  proof (cases "k = key u")
    case True
    note D = accounts_forD(2,3)[OF assms, of "key u"]
    show ?thesis
    proof (cases "map_of d (key u)")
      case None
      with D(1) f nil True show ?thesis unfolding e True
        by (simp add: e cost_sum_add[of P "[]", simplified] costless_def empty_bucket_def split: option.splits)
    next
      case (Some old)
      with D(2) f True show ?thesis by (simp add: e cost_sum_add costless_def split: option.splits)
    qed
  next
    case False
    with assms show ?thesis by (simp add: accounts_for_def other)
  qed
  with dist show ?thesis unfolding accounts_for_def by blast
qed

text \<open>What the loop's variables hold after the records \<open>us\<close>.\<close>

definition summed :: "Projector \<Rightarrow> ModelUsageRecord list \<Rightarrow> UsageSums \<Rightarrow> bool" where
  "summed P us s \<longleftrightarrow>
     us_records s = map (\<lambda>u. usage_entry u (cached_reported P u) (cost_reported P u)) us \<and>
     us_total_cost s = cost_sum P us \<and>
     us_unknown_cost s = int (length (filter (costless P) us)) \<and>
     us_totals s = \<lparr>tk_input_tokens = (\<Sum>u\<leftarrow>us. known (mu_input_tokens u)),
       tk_output_tokens = (\<Sum>u\<leftarrow>us. known (mu_output_tokens u)),
       tk_cached_tokens = (\<Sum>u\<leftarrow>us. known (cached_reported P u)),
       tk_total_tokens = (\<Sum>u\<leftarrow>us. known (mu_total_tokens u))\<rparr> \<and>
     accounts_for P (\<lambda>u. model_key (mu_provider u) (mu_model u)) us (us_by_model s) \<and>
     accounts_for P mu_role us (us_by_role s)"

lemma sum_usage_summed:
  assumes "sum_usage P u s = Inr s'" and "summed P us s"
  shows "summed P (us @ [u]) s'"
proof -
  let ?cost = "cost_reported P u"
  from assms(1) obtain cached where c: "cached_tokens (pr_float_of P) (Mapping (mu_raw_usage u)) = Inr cached" and s': "s' =
      \<lparr>us_records = us_records s @ [usage_entry u cached ?cost],
       us_total_cost = (case ?cost of None \<Rightarrow> us_total_cost s | Some c \<Rightarrow> pr_add P (us_total_cost s) c),
       us_unknown_cost = (if ?cost = None then us_unknown_cost s + 1 else us_unknown_cost s),
       us_by_model = add_to_bucket P (model_key (mu_provider u) (mu_model u)) (mu_total_tokens u) ?cost (us_by_model s),
       us_by_role = add_to_bucket P (mu_role u) (mu_total_tokens u) ?cost (us_by_role s),
       us_totals = add_tokens u cached (us_totals s)\<rparr>"
    by (auto simp: sum_usage_def Let_def bind_ok_Inr_iff cost_reported_def)
  have "cached_reported P u = cached" by (simp add: cached_reported_def c)
  moreover have "accounts_for P mu_role (us @ [u]) (us_by_role s')"
    and "accounts_for P (\<lambda>u. model_key (mu_provider u) (mu_model u)) (us @ [u]) (us_by_model s')"
    using assms(2) accounts_for_add[where u = u and key = mu_role] accounts_for_add[where u = u and key = "\<lambda>u. model_key (mu_provider u) (mu_model u)"]
    unfolding s' summed_def by simp_all
  ultimately show ?thesis using assms(2) unfolding summed_def
    by (simp add: s' add_tokens_def cost_sum_add costless_def split: option.splits)
qed

lemma sum_usages_summed:
  "sum_usages P us s = Inr s' \<Longrightarrow> summed P us0 s \<Longrightarrow> summed P (us0 @ us) s'"
proof (induct us arbitrary: s us0)
  case Nil
  then show ?case by simp
next
  case (Cons u us)
  from Cons.prems(1) obtain s1 where s1: "sum_usage P u s = Inr s1" "sum_usages P us s1 = Inr s'"
    by (auto simp: bind_ok_Inr_iff)
  from Cons.hyps[OF s1(2) sum_usage_summed[OF s1(1) Cons.prems(2)]] show ?case by simp
qed

text \<open>The buckets of a table that accounts for the records hold them all.\<close>

lemma accounted_total:
  assumes "distinct ks" and "\<forall>u \<in> set us. key u \<in> set ks"
  shows "(\<Sum>k\<leftarrow>ks. int (length (filter (\<lambda>u. key u = k) us))) = int (length us)"
  using assms
proof (induct us)
  case Nil
  then show ?case by (simp add: sum_list_triv)
next
  case (Cons u us)
  have "(\<Sum>k\<leftarrow>ks. int (length (filter (\<lambda>v. key v = k) (u # us)))) =
      (\<Sum>k\<leftarrow>ks. (if k = key u then 1 else 0) + int (length (filter (\<lambda>v. key v = k) us)))"
    by (rule arg_cong[where f = sum_list]) (auto intro: map_cong)
  also have "\<dots> = (\<Sum>k\<leftarrow>ks. if k = key u then 1 else 0) + (\<Sum>k\<leftarrow>ks. int (length (filter (\<lambda>v. key v = k) us)))"
    by (rule sum_list_addf)
  also have "(\<Sum>k\<leftarrow>ks. if k = key u then 1 else 0 :: int) = 1"
    using Cons.prems by (simp add: sum_list_distinct_conv_sum_set)
  finally show ?case using Cons by simp
qed

lemma accounts_for_calls:
  assumes "accounts_for P key us d"
  shows "(\<Sum>kv\<leftarrow>d. bk_calls (snd kv)) = int (length us)"
proof -
  note D = accounts_forD[OF assms]
  have calls: "bk_calls e = int (length (filter (\<lambda>u. key u = k) us))" if "(k, e) \<in> set d" for k e
    using D(3)[of k e] that D(1) by simp
  have cover: "key u \<in> set (map fst d)" if "u \<in> set us" for u
  proof (rule ccontr)
    assume "key u \<notin> set (map fst d)"
    then have "map_of d (key u) = None" by (simp add: map_of_eq_None_iff)
    from D(2)[OF this] that show False by (auto simp: filter_empty_conv)
  qed
  have "(\<Sum>kv\<leftarrow>d. bk_calls (snd kv)) = (\<Sum>k\<leftarrow>map fst d. int (length (filter (\<lambda>u. key u = k) us)))"
    unfolding map_map comp_def by (rule arg_cong[where f = sum_list], rule map_cong) (auto simp: calls)
  also have "\<dots> = int (length us)" by (rule accounted_total[OF D(1)]) (use cover in blast)
  finally show ?thesis .
qed

text \<open>
  C37 (functional). The usage table accounts for every model call of the run: it counts every
  record; its sums of input, output, cached and total tokens are those of the records; its cost is what
  the records report, added up in their order, it counts the records that report none, and is complete
  exactly when there is none; both breakdowns, by model and by role, hold each record in exactly one
  bucket with its tokens, its cost or its missing cost; and the last 200 records are shown as they are.
\<close>

theorem usage_table_adds_up:
  assumes "usage_view P r record = Inr w"
  shows "uv_calls w = int (length (run_usage_records r)) \<and>
    (\<Sum>kb\<leftarrow>uv_by_model w. bk_calls (snd kb)) = uv_calls w \<and>
    (\<Sum>kb\<leftarrow>uv_by_role w. bk_calls (snd kb)) = uv_calls w \<and>
    accounts_for P (\<lambda>u. model_key (mu_provider u) (mu_model u)) (run_usage_records r) (uv_by_model w) \<and>
    accounts_for P mu_role (run_usage_records r) (uv_by_role w) \<and>
    tk_input_tokens (uv_tokens w) = (\<Sum>u\<leftarrow>run_usage_records r. known (mu_input_tokens u)) \<and>
    tk_output_tokens (uv_tokens w) = (\<Sum>u\<leftarrow>run_usage_records r. known (mu_output_tokens u)) \<and>
    tk_cached_tokens (uv_tokens w) = (\<Sum>u\<leftarrow>run_usage_records r. known (cached_reported P u)) \<and>
    tk_total_tokens (uv_tokens w) = (\<Sum>u\<leftarrow>run_usage_records r. known (mu_total_tokens u)) \<and>
    uv_cost_usd w = pr_round P (cost_sum P (run_usage_records r)) \<and>
    uv_calls_without_cost w = int (length (filter (costless P) (run_usage_records r))) \<and>
    (uv_cost_complete w \<longleftrightarrow> \<not> (\<exists>u \<in> set (run_usage_records r). costless P u)) \<and>
    uv_records w = last_n 200 (map (\<lambda>u. usage_entry u (cached_reported P u) (cost_reported P u)) (run_usage_records r))"
proof -
  from assms obtain s where s: "sum_usages P (run_usage_records r) no_usage = Inr s"
    and w: "uv_calls w = int (length (us_records s))" "uv_by_model w = us_by_model s" "uv_by_role w = us_by_role s"
      "uv_tokens w = us_totals s" "uv_cost_complete w \<longleftrightarrow> us_unknown_cost s = 0" "uv_calls_without_cost w = us_unknown_cost s"
      "uv_cost_usd w = pr_round P (us_total_cost s)" "uv_records w = last_n 200 (us_records s)"
    by (auto simp: usage_view_def Let_def bind_ok_Inr_iff)
  have "summed P [] no_usage" by (simp add: summed_def no_usage_def cost_sum_def List.map_filter_def)
  from sum_usages_summed[OF s this] have sums: "summed P (run_usage_records r) s" by simp
  then have buckets: "accounts_for P (\<lambda>u. model_key (mu_provider u) (mu_model u)) (run_usage_records r) (uv_by_model w)"
    "accounts_for P mu_role (run_usage_records r) (uv_by_role w)" by (simp_all add: summed_def w)
  have "uv_cost_complete w \<longleftrightarrow> \<not> (\<exists>u \<in> set (run_usage_records r). costless P u)"
    using sums unfolding w by (auto simp: summed_def filter_empty_conv)
  with sums buckets accounts_for_calls[OF buckets(1)] accounts_for_calls[OF buckets(2)] show ?thesis
    by (simp add: summed_def w)
qed

text \<open>A run with two recorded calls, one of which reports its cost.\<close>

definition projector0 :: Projector where
  "projector0 = \<lparr>pr_redact = (\<lambda>x n. case x of None \<Rightarrow> [] | Some s \<Rightarrow> s), pr_orchestration = ''workflow'',
     pr_budget_warning_ratio = Finite 1 (-1), pr_loads = (\<lambda>s. None), pr_float_of = (\<lambda>s. None),
     pr_float_of_int = (\<lambda>i. Finite i 0), pr_float_of_rat = (\<lambda>q. Finite 0 0), pr_add = (\<lambda>a b. a),
     pr_sub = (\<lambda>a b. a), pr_div = (\<lambda>a b. a), pr_round = (\<lambda>a. a), pr_created_at = (\<lambda>k. k),
     pr_open_quote = [], pr_close_quote = [], pr_dash = ''-''\<rparr>"

definition call0 :: "ident \<Rightarrow> string \<Rightarrow> usage_dict \<Rightarrow> ModelUsageRecord" where
  "call0 uid role raw = \<lparr>mu_id = uid, mu_run_id = ''run'', mu_task_id = Some ''t1'', mu_assignment_id = None,
     mu_worker_id = None, mu_provider = ''p'', mu_model = ''m'', mu_role = role, mu_input_tokens = Some 2,
     mu_output_tokens = None, mu_total_tokens = Some 3, mu_usage_known = True, mu_unknown_reason = None,
     mu_raw_usage = raw\<rparr>"

definition metered0 :: Run where
  "metered0 = run0\<lparr>run_usage_records := [call0 ''u1'' ''planner'' [(''cost'', UInt 1), (''cached_tokens'', UInt 5)], call0 ''u2'' ''worker'' []]\<rparr>"

theorem usage_table_adds_up_witness:
  "\<exists>w. usage_view projector0 metered0 None = Inr w \<and> uv_calls w = 2 \<and> \<not> uv_cost_complete w \<and>
     uv_tokens w = \<lparr>tk_input_tokens = 4, tk_output_tokens = 0, tk_cached_tokens = 5, tk_total_tokens = 6\<rparr>"
proof -
  have "\<exists>w. usage_view projector0 metered0 None = Inr w"
    by (simp add: usage_view_def metered0_def call0_def projector0_def sum_usage_def cached_tokens_def
        usage_get_def Let_def bind_ok_def)
  then obtain w where w: "usage_view projector0 metered0 None = Inr w" by blast
  have "costless projector0 (call0 ''u2'' ''worker'' [])"
    by (simp add: costless_def cost_reported_def call0_def projector0_def usage_cost_def cost_at_def usage_get_def)
  moreover have "cached_reported projector0 (call0 ''u1'' ''planner'' [(''cost'', UInt 1), (''cached_tokens'', UInt 5)]) = Some 5"
    "cached_reported projector0 (call0 ''u2'' ''worker'' []) = None" by code_simp+
  ultimately have "uv_tokens w = \<lparr>tk_input_tokens = 4, tk_output_tokens = 0, tk_cached_tokens = 5, tk_total_tokens = 6\<rparr>"
    "uv_calls w = 2" "\<not> uv_cost_complete w"
    using usage_table_adds_up[OF w] by (cases "uv_tokens w", simp_all add: metered0_def call0_def known_def)
  with w show ?thesis by blast
qed

end
