(* ===== verification/Delivery_Claims.thy ===== *)
theory Delivery_Claims
  imports Delivery_Laws Views_Claims Persistence
begin

text \<open>
  What a delivered archive holds: for a run whose code is integrated, the files of the verified head of
  the integration branch; for one whose code stayed in workspaces, their files at the accepted
  fingerprint over the base; in both the accepted documents and the report, and nothing else.
\<close>

declare map_of_eq_Some_iff [simp del] Some_eq_map_of_iff [simp del]

section \<open>Gathering from workspaces\<close>

text \<open>A file an accepted workspace has deleted.\<close>

definition deleted_file :: "Assembly \<Rightarrow> Projector \<Rightarrow> Run \<Rightarrow> ident set \<Rightarrow> string \<Rightarrow> bool" where
  "deleted_file A P r aids p \<longleftrightarrow> (\<exists>aid \<in> aids. \<exists>a folder base out listed. map_of (run_artifacts r) aid = Some a \<and>
     present (ar_workspace_fingerprint a) \<and> as_grant A (workspace P a) = Inr (folder, base) \<and>
     as_git A [''-C'', folder, ''ls-tree'', ''-r'', ''--name-only'', base] = Inr out \<and>
     as_list_files A (workspace P a) = Inr listed \<and> p \<in> set (splitlines out) \<and> \<not> excluded p \<and> p \<notin> set listed)"

definition gathers :: "Assembly \<Rightarrow> Projector \<Rightarrow> Run \<Rightarrow> nat \<Rightarrow> ident list \<Rightarrow> Gathered \<Rightarrow> Gathered \<Rightarrow> bool" where
  "gathers A P r index aids g g' \<longleftrightarrow> (ga_conflicts g' = [] \<longrightarrow>
     ga_conflicts g = [] \<and> (\<forall>aid \<in> set aids. unchanged A P r aid) \<and>
     (distinct (map fst (ga_contents g)) \<longrightarrow> distinct (map fst (ga_contents g'))) \<and>
     (\<forall>p data. map_of (ga_contents g) p = Some data \<longrightarrow> \<not> documented P r index aids p \<longrightarrow> map_of (ga_contents g') p = Some data) \<and>
     (\<forall>p data. (p, data) \<in> documents_among P r index aids \<longrightarrow> map_of (ga_contents g') p = Some data) \<and>
     (\<forall>p data. accepted_file A P r (set aids) p data \<longrightarrow> \<not> documented P r index aids p \<longrightarrow> map_of (ga_contents g') p = Some data) \<and>
     (\<forall>p data. map_of (ga_contents g') p = Some data \<longrightarrow> map_of (ga_contents g) p = Some data \<or>
        (p, data) \<in> documents_among P r index aids \<or> accepted_file A P r (set aids) p data) \<and>
     (\<forall>p. p \<in> fst ` set (ga_deletions g') \<longleftrightarrow> p \<in> fst ` set (ga_deletions g) \<or> deleted_file A P r (set aids) p))"

lemma gathersD:
  assumes "gathers A P r index aids g g'" and "ga_conflicts g' = []"
  shows "ga_conflicts g = []" "\<forall>aid \<in> set aids. unchanged A P r aid"
    "distinct (map fst (ga_contents g)) \<longrightarrow> distinct (map fst (ga_contents g'))"
    "\<forall>p data. map_of (ga_contents g) p = Some data \<longrightarrow> \<not> documented P r index aids p \<longrightarrow> map_of (ga_contents g') p = Some data"
    "\<forall>p data. (p, data) \<in> documents_among P r index aids \<longrightarrow> map_of (ga_contents g') p = Some data"
    "\<forall>p data. accepted_file A P r (set aids) p data \<longrightarrow> \<not> documented P r index aids p \<longrightarrow> map_of (ga_contents g') p = Some data"
    "\<forall>p data. map_of (ga_contents g') p = Some data \<longrightarrow> map_of (ga_contents g) p = Some data \<or>
        (p, data) \<in> documents_among P r index aids \<or> accepted_file A P r (set aids) p data"
    "\<forall>p. p \<in> fst ` set (ga_deletions g') \<longleftrightarrow> p \<in> fst ` set (ga_deletions g) \<or> deleted_file A P r (set aids) p"
  using assms(1)[unfolded gathers_def, rule_format (no_asm), OF assms(2)] by - (elim conjE, assumption)+

lemma accepted_file_insert:
  "accepted_file A P r (insert aid S) p data \<longleftrightarrow> accepted_file A P r {aid} p data \<or> accepted_file A P r S p data"
  by (auto simp: accepted_file_def)

lemma deleted_file_insert:
  "deleted_file A P r (insert aid S) p \<longleftrightarrow> deleted_file A P r {aid} p \<or> deleted_file A P r S p"
  by (auto simp: deleted_file_def)

lemma gathers_Nil: "gathers A P r index [] g g"
  by (simp add: gathers_def accepted_file_def deleted_file_def)

lemma gathers_Cons:
  assumes a: "map_of (run_artifacts r) aid = Some a"
    and one: "gathers A P r index [aid] g g1" and rest: "gathers A P r (Suc index) aids g1 g'"
  shows "gathers A P r index (aid # aids) g g'"
proof -
  have docs: "documents_among P r index (aid # aids) = documents_among P r index [aid] \<union> documents_among P r (Suc index) aids"
    by (simp add: documents_among_Cons[OF a])
  have new: "\<not> documented P r (Suc index) aids p" if "(p, data) \<in> documents_among P r index [aid]" for p data
  proof
    assume "documented P r (Suc index) aids p"
    moreover have "p = document_path index (ar_task_id a)" using that
      by (simp add: documents_among_Cons[OF a] split: if_splits)
    ultimately show False using documented_later[where index = "Suc index" and j = index] by fastforce
  qed
  show ?thesis unfolding gathers_def
  proof (intro impI)
    assume no: "ga_conflicts g' = []"
    note R = gathersD[OF rest no, rule_format]
    note S = gathersD[OF one R(1), unfolded list.set, rule_format]
    show "ga_conflicts g = [] \<and> (\<forall>aid \<in> set (aid # aids). unchanged A P r aid) \<and>
     (distinct (map fst (ga_contents g)) \<longrightarrow> distinct (map fst (ga_contents g'))) \<and>
     (\<forall>p data. map_of (ga_contents g) p = Some data \<longrightarrow> \<not> documented P r index (aid # aids) p \<longrightarrow> map_of (ga_contents g') p = Some data) \<and>
     (\<forall>p data. (p, data) \<in> documents_among P r index (aid # aids) \<longrightarrow> map_of (ga_contents g') p = Some data) \<and>
     (\<forall>p data. accepted_file A P r (set (aid # aids)) p data \<longrightarrow> \<not> documented P r index (aid # aids) p \<longrightarrow> map_of (ga_contents g') p = Some data) \<and>
     (\<forall>p data. map_of (ga_contents g') p = Some data \<longrightarrow> map_of (ga_contents g) p = Some data \<or>
        (p, data) \<in> documents_among P r index (aid # aids) \<or> accepted_file A P r (set (aid # aids)) p data) \<and>
     (\<forall>p. p \<in> fst ` set (ga_deletions g') \<longleftrightarrow> p \<in> fst ` set (ga_deletions g) \<or> deleted_file A P r (set (aid # aids)) p)"
      unfolding docs image_Un Un_iff list.set accepted_file_insert[of A P r aid "set aids"] deleted_file_insert[of A P r aid "set aids"]
    proof (intro conjI allI impI)
      show "ga_conflicts g = []" by (rule S(1))
      show "\<forall>x \<in> insert aid (set aids). unchanged A P r x" using R(2) S(2) by simp
      show "distinct (map fst (ga_contents g'))" if "distinct (map fst (ga_contents g))" using that R(3) S(3) by simp
      fix p
      show "p \<in> fst ` set (ga_deletions g') \<longleftrightarrow> p \<in> fst ` set (ga_deletions g) \<or> deleted_file A P r {aid} p \<or>
        deleted_file A P r (set aids) p" by (simp only: R(8) S(8) disj_assoc)
      fix data
      show "map_of (ga_contents g') p = Some data" if "map_of (ga_contents g) p = Some data"
        "\<not> (p \<in> fst ` documents_among P r index [aid] \<or> p \<in> fst ` documents_among P r (Suc index) aids)"
        using that by (blast intro: R(4) S(4))
      show "map_of (ga_contents g') p = Some data"
        if "(p, data) \<in> documents_among P r index [aid] \<or> (p, data) \<in> documents_among P r (Suc index) aids"
        using that by (blast intro: R(4) S(5) R(5) dest: new)
      show "map_of (ga_contents g') p = Some data" if "accepted_file A P r {aid} p data \<or> accepted_file A P r (set aids) p data"
        "\<not> (p \<in> fst ` documents_among P r index [aid] \<or> p \<in> fst ` documents_among P r (Suc index) aids)"
        using that by (blast intro: R(4) S(6) R(6))
      show "map_of (ga_contents g) p = Some data \<or>
        ((p, data) \<in> documents_among P r index [aid] \<or> (p, data) \<in> documents_among P r (Suc index) aids) \<or>
        accepted_file A P r {aid} p data \<or> accepted_file A P r (set aids) p data"
        if "map_of (ga_contents g') p = Some data" using R(7)[OF that] S(7)[of p data] by blast
    qed
  qed
qed

lemma gathers_document:
  assumes a: "map_of (run_artifacts r) aid = Some a" and doc: "\<not> present (ar_workspace_fingerprint a)"
  shows "gathers A P r index [aid] g (take_document A P index aid a g)"
  using assms by (simp add: gathers_def take_document_def documents_among_Cons[OF a] accepted_file_def deleted_file_def
      unchanged_def)

lemma keys_put_all: "fst ` set (put_all kvs d) = fst ` set kvs \<union> fst ` set d"
  by (induct kvs d rule: put_all.induct) auto

lemma gathers_workspace:
  assumes a: "map_of (run_artifacts r) aid = Some a" and ws: "present (ar_workspace_fingerprint a)"
    and tw: "take_workspace A P aid a g = Inr g1"
  shows "gathers A P r index [aid] g g1"
  unfolding gathers_def
proof (intro impI)
  assume no: "ga_conflicts g1 = []"
  from tw obtain folder base out listed paths g0 where
    same: "unchanged_workspace A aid a (workspace P a) = Inr ()" and gr: "as_grant A (workspace P a) = Inr (folder, base)"
    and out: "as_git A [''-C'', folder, ''ls-tree'', ''-r'', ''--name-only'', base] = Inr out"
    and ls: "as_list_files A (workspace P a) = Inr listed" and ch: "as_changed_paths A (workspace P a) = Inr paths"
    and tc: "take_changed A (workspace P a) aid a paths g = Inr g0"
    and g1: "g1 = g0\<lparr>ga_deletions := put_all (map (\<lambda>p. (p, ar_task_id a))
        (sorted_set (filter (\<lambda>p. p \<notin> set listed) (filter (\<lambda>p. \<not> excluded p) (splitlines out))))) (ga_deletions g0)\<rparr>"
    by (auto simp: take_workspace_def workspace_def[symmetric] Let_def bind_ok_Inr_iff)
  from same have un: "unchanged A P r aid" using a
    by (auto simp: unchanged_workspace_def unchanged_def split: if_splits sum.splits)
  have T: "accepted_file A P r {aid} p data \<longleftrightarrow> p \<in> set paths \<and> (\<exists>str. as_read_file A (workspace P a) p = Inr str \<and> data = utf8 str)"
    for p data using a ws ch by (auto simp: accepted_file_def)
  have D: "deleted_file A P r {aid} p \<longleftrightarrow> p \<in> set (splitlines out) \<and> \<not> excluded p \<and> p \<notin> set listed" for p
    using a ws gr out ls by (auto simp: deleted_file_def)
  have "ga_conflicts g0 = []" using no g1 by simp
  note K = take_changed_keeps[OF tc this]
  have dels: "fst ` set (ga_deletions g1) = {p. deleted_file A P r {aid} p} \<union> fst ` set (ga_deletions g)"
  proof -
    let ?ps = "sorted_set (filter (\<lambda>p. p \<notin> set listed) (filter (\<lambda>p. \<not> excluded p) (splitlines out)))"
    have keys: "fst ` set (map (\<lambda>p. (p, ar_task_id a)) ps) = set ps" for ps :: "string list" by (induct ps) auto
    have "ga_deletions g0 = ga_deletions g" using K by blast
    then have "ga_deletions g1 = put_all (map (\<lambda>p. (p, ar_task_id a)) ?ps) (ga_deletions g)" by (simp add: g1)
    then have "fst ` set (ga_deletions g1) = set ?ps \<union> fst ` set (ga_deletions g)" by (simp only: keys_put_all keys)
    moreover have "set ?ps = {p. deleted_file A P r {aid} p}" by (auto simp: D)
    ultimately show ?thesis by simp
  qed
  have c: "ga_contents g1 = ga_contents g0" by (simp add: g1)
  have no_docs: "documents_among P r index [aid] = {}" using ws by (simp add: documents_among_Cons[OF a])
  from K have K: "ga_conflicts g = []" "distinct (map fst (ga_contents g)) \<longrightarrow> distinct (map fst (ga_contents g0))"
    and keep: "\<And>p data. map_of (ga_contents g) p = Some data \<Longrightarrow> map_of (ga_contents g0) p = Some data"
    and all: "\<And>p. p \<in> set paths \<Longrightarrow> \<exists>s. as_read_file A (workspace P a) p = Inr s \<and> map_of (ga_contents g0) p = Some (utf8 s)"
    and orig: "\<And>p data. map_of (ga_contents g0) p = Some data \<Longrightarrow> map_of (ga_contents g) p = Some data \<or> accepted_file A P r {aid} p data"
    by (simp_all only: T simp_thms) blast+
  have filed: "map_of (ga_contents g0) p = Some data" if "accepted_file A P r {aid} p data" for p data
    using that all[of p] by (auto simp: T)
  show "ga_conflicts g = [] \<and> (\<forall>aid \<in> set [aid]. unchanged A P r aid) \<and>
     (distinct (map fst (ga_contents g)) \<longrightarrow> distinct (map fst (ga_contents g1))) \<and>
     (\<forall>p data. map_of (ga_contents g) p = Some data \<longrightarrow> \<not> documented P r index [aid] p \<longrightarrow> map_of (ga_contents g1) p = Some data) \<and>
     (\<forall>p data. (p, data) \<in> documents_among P r index [aid] \<longrightarrow> map_of (ga_contents g1) p = Some data) \<and>
     (\<forall>p data. accepted_file A P r (set [aid]) p data \<longrightarrow> \<not> documented P r index [aid] p \<longrightarrow> map_of (ga_contents g1) p = Some data) \<and>
     (\<forall>p data. map_of (ga_contents g1) p = Some data \<longrightarrow> map_of (ga_contents g) p = Some data \<or>
        (p, data) \<in> documents_among P r index [aid] \<or> accepted_file A P r (set [aid]) p data) \<and>
     (\<forall>p. p \<in> fst ` set (ga_deletions g1) \<longleftrightarrow> p \<in> fst ` set (ga_deletions g) \<or> deleted_file A P r (set [aid]) p)"
    unfolding dels c no_docs using K keep orig filed un by (intro conjI allI impI) (simp_all, blast+)
qed

lemma gather_gathers: "gather A P r index aids g = Inr g' \<Longrightarrow> gathers A P r index aids g g'"
proof (induct aids arbitrary: index g)
  case Nil
  then show ?case by (simp add: gathers_Nil)
next
  case (Cons aid aids)
  then obtain a where got: "dget (run_artifacts r) aid = Inr a" by (auto simp: bind_ok_Inr_iff)
  then have a: "map_of (run_artifacts r) aid = Some a" by simp
  note step = Cons.prems[simplified, unfolded got bind_ok_simps]
  show ?case
  proof (cases "present (ar_workspace_fingerprint a)")
    case True
    with step obtain g1 where tw: "take_workspace A P aid a g = Inr g1" and "gather A P r (Suc index) aids g1 = Inr g'"
      by (auto simp: bind_ok_Inr_iff)
    from gathers_Cons[OF a gathers_workspace[OF a True tw] Cons.hyps[OF this(2)]] show ?thesis .
  next
    case False
    with step have "gather A P r (Suc index) aids (take_document A P index aid a g) = Inr g'" by simp
    from gathers_Cons[OF a gathers_document[OF a False] Cons.hyps[OF this]] show ?thesis .
  qed
qed

section \<open>A concrete delivery\<close>

text \<open>
  A run of two tasks, one accepted in a workspace and, if a commit is given, integrated, the other a
  document; and a repository with one source file and one file that may not leave it.
\<close>

definition coded0 :: WorkerResult where
  "coded0 = (result0 ''t1'')\<lparr>wr_deliverable := ''code'' @ MARKER @ ''manifest''\<rparr>"

definition shipping0 :: "string option \<Rightarrow> command list" where
  "shipping0 commit = planning0 @
     [Delegate ''as-t1'' ''t1'' ''w1'', Start ''t1'', Submit ''a1'' ''t1'' ''as-t1'' ''w1'' coded0 (Some ''fp''),
      Validate ''v-t1'' ''a1'' ''facts'' True ''checked'' ''checker'' (Some ''fp''),
      Accept ''d-t1'' ''t1'' None ''good'' (Some ''fp'')]
     @ (case commit of None \<Rightarrow> [] | Some c \<Rightarrow> [Integrate ''a1'' c])
     @ produce0 ''t2'' ''a2'' ''w1'' @ judge0 ''t2'' ''a2'' @ [Complete ''report'' [(''met'', [''a2''])]]"

definition commit0 :: string where
  "commit0 = replicate 40 CHR ''c''"

definition assembly0 :: Assembly where
  "assembly0 = \<lparr>as_git = (\<lambda>args.
       if ''--verify'' \<in> set args \<or> ''log'' \<in> set args then Inr (commit0 @ newline)
       else if ''rev-parse'' \<in> set args then Inr (replicate 40 CHR ''b'' @ newline)
       else if ''-z'' \<in> set args then Inr (''app.py'' @ [CHR 0x00] @ ''.env'' @ [CHR 0x00])
       else Inr (''app.py'' @ newline @ ''.env'' @ newline)),
     as_git_status = (\<lambda>args. Inr True), as_git_bytes = (\<lambda>args. Inr (Some ''print()'')),
     as_fingerprint = (\<lambda>w. Inr ''fp''), as_grant = (\<lambda>w. Inr (''candidate'', ''base'')),
     as_list_files = (\<lambda>w. Inr [''app.py'', ''new.py'']), as_changed_paths = (\<lambda>w. Inr [''new.py'']),
     as_read_file = (\<lambda>w p. Inr ''pass''), as_sha256 = (\<lambda>s. s), as_fixed4 = (\<lambda>x. ''0.0000''),
     as_disk_error = None, as_projects_dir = ''projects''\<rparr>"

definition projector1 :: Projector where
  "projector1 = projector0\<lparr>pr_loads := (\<lambda>s. if s = ''manifest'' then Some (JObj [(''workspace_id'', JStr ''w'')]) else None)\<rparr>"

text \<open>The names and contents in the archive, the report's aside.\<close>

definition shipped :: "string option \<Rightarrow> (string \<times> string) list option" where
  "shipped commit =
     (case assemble assembly0 projector1 (after0 (shipping0 commit)) ''repo'' [] ''Demo'' (Finite 0 0) True of
        Inl e \<Rightarrow> None
      | Inr (m, n, out) \<Rightarrow> map_option (filter (\<lambda>(p, data). p \<noteq> ''demo/CAVMAN_BUILD_REPORT.md'')) (map_of out ''run.tar.gz''))"

lemma shipped0:
  "shipped (Some commit0) = Some [(''demo/app.py'', ''print()''), (''demo/docs/cavman/02-t2.md'', ''found'' @ newline)]"
  by code_simp

lemma shipped1:
  "shipped None = Some [(''demo/app.py'', ''print()''), (''demo/docs/cavman/02-t2.md'', ''found'' @ newline),
     (''demo/new.py'', ''pass'')]"
  by code_simp

lemma shippedE:
  assumes "shipped commit = Some ms"
  obtains m n out where "assemble assembly0 projector1 (after0 (shipping0 commit)) ''repo'' [] ''Demo'' (Finite 0 0) True = Inr (m, n, out)"
    "\<exists>all. map_of out ''run.tar.gz'' = Some all \<and> set ms \<subseteq> set all"
  using assms by (auto simp: shipped_def split: sum.splits prod.splits)

definition code_of :: "string option \<Rightarrow> (nat \<times> bool \<times> ident) option" where
  "code_of commit = (let r = after0 (shipping0 commit) in
     case accepted_code r (run_accepted_artifacts r) of
       Inl e \<Rightarrow> None
     | Inr code \<Rightarrow> Some (length code, list_all (\<lambda>a. present (ar_integrated_commit a)) code, run_id r))"

lemma code0: "code_of (Some commit0) = Some (1, True, ''run'')" "code_of None = Some (1, False, ''run'')"
  by code_simp+

lemma code_ofE:
  assumes "code_of commit = Some (n, b, rid)"
  obtains code where "accepted_code (after0 (shipping0 commit)) (run_accepted_artifacts (after0 (shipping0 commit))) = Inr code"
    "length code = n" "list_all (\<lambda>a. present (ar_integrated_commit a)) code = b" "run_id (after0 (shipping0 commit)) = rid"
  using assms by (auto simp: code_of_def Let_def split: sum.splits)

section \<open>What is delivered\<close>

lemma put_all_commits: "fst ` set (put_all (map (\<lambda>a. (f a, a)) code) []) = f ` set code"
  by (simp only: keys_put_all) force

lemma documents_of_tree:
  assumes "documents_of A P r = Inr (c, ds)"
  shows "accepted_document P r p data \<Longrightarrow> map_of c p = Some data"
    "\<not> (\<exists>d. accepted_document P r p d) \<Longrightarrow> map_of c p = None" "distinct (map fst c)"
proof -
  note D = documents_from_tree[OF assms[unfolded documents_of_def], unfolded documents_among_all, where p = p]
  show "accepted_document P r p data \<Longrightarrow> map_of c p = Some data" using D by blast
  show "distinct (map fst c)" using D by simp
  show "map_of c p = None" if no: "\<not> (\<exists>d. accepted_document P r p d)"
  proof -
    have "\<not> documented P r 1 (run_accepted_artifacts r) p"
      using no documents_among_all[of p _ P r] by (metis imageE prod.collapse)
    with D show ?thesis by simp
  qed
qed

lemma report_not_accepted: "\<not> accepted_document P r REPORT_NAME data"
  using report_is_no_document by (metis accepted_document_def)

lemma write_archive_Inr:
  "write_archive A t out rid folder = Inr (n, out') \<Longrightarrow>
     map_of out' (rid @ ''.tar.gz'') = Some (members folder t)"
  by (auto simp: write_archive_def split: option.splits)

lemma check_ancestors_Inr:
  "check_ancestors A repo head cs = Inr u \<Longrightarrow> c \<in> set cs \<Longrightarrow>
     as_git_status A [''-C'', repo, ''merge-base'', ''--is-ancestor'', c, head] = Inr True"
  by (induct cs) (auto simp: bind_ok_Inr_iff split: if_splits)

text \<open>
  C28 (safety). The archive of a run whose code is integrated holds exactly the tracked files of the
  integration head that may leave the repository, with the accepted documents and the report over them.
  The head is a commit the kernel recorded for an accepted artifact, and every other recorded commit is
  its ancestor: a head that moved, or one that misses accepted work, is refused.
\<close>

theorem integrated_delivery_is_the_verified_head:
  assumes "assemble A P r repo out name cost whole = Inr (m, archive, out')"
    and "accepted_code r (run_accepted_artifacts r) = Inr code" and "code \<noteq> []"
    and "list_all (\<lambda>a. present (ar_integrated_commit a)) code"
  shows "\<exists>head t0 t. run_status r = ''completed'' \<and> (\<exists>a \<in> set code. ar_integrated_commit a = Some head) \<and>
    (\<forall>a \<in> set code. as_git_status A
       [''-C'', repo, ''merge-base'', ''--is-ancestor'', the (ar_integrated_commit a), head] = Inr True) \<and>
    tree_at A repo head = Inr t0 \<and>
    (\<forall>p data. map_of t0 p = Some data \<longrightarrow> \<not> excluded p \<and> git_show A repo p head = Inr data) \<and>
    map_of out' (run_id r @ ''.tar.gz'') = Some (members (slug name) t) \<and> distinct (map fst t) \<and>
    (\<forall>p data. accepted_document P r p data \<longrightarrow> map_of t p = Some data) \<and>
    (\<forall>p. p \<noteq> REPORT_NAME \<longrightarrow> \<not> (\<exists>d. accepted_document P r p d) \<longrightarrow> map_of t p = map_of t0 p)"
proof -
  let ?commits = "put_all (map (\<lambda>a. (the (ar_integrated_commit a), a)) code) []"
  from assms obtain head anc a t0 docs ds rep n where status: "run_status r = ''completed''"
    and a: "a \<in> set code" "head = the (ar_integrated_commit a)" and anc: "check_ancestors A repo head (map fst ?commits) = Inr anc"
    and t0: "tree_at A repo head = Inr t0" and docs: "documents_of A P r = Inr (docs, ds)"
    and wr: "write_archive A (AList.update REPORT_NAME rep (put_all docs t0)) out (run_id r) (slug name) = Inr (n, out')"
    by (auto simp: assemble_def assemble_integrated_def Let_def bind_ok_Inr_iff put_all_commits split: if_splits)
  note D = documents_of_tree[OF docs]
  note T = tree_at_Inr[OF t0]
  note t = map_of_put_dict[OF D(3)]
  from a assms(4) have ah: "ar_integrated_commit a = Some head" by (auto simp: list_all_iff present_def)
  have anc': "as_git_status A [''-C'', repo, ''merge-base'', ''--is-ancestor'', the (ar_integrated_commit b), head] = Inr True"
    if "b \<in> set code" for b
    using check_ancestors_Inr[OF anc] that put_all_commits[of "\<lambda>a. the (ar_integrated_commit a)" code] by (auto simp: image_iff)
  show ?thesis
  proof (intro exI conjI)
    show "map_of out' (run_id r @ ''.tar.gz'') = Some (members (slug name) (AList.update REPORT_NAME rep (put_all docs t0)))"
      by (rule write_archive_Inr[OF wr])
    show "\<forall>p data. accepted_document P r p data \<longrightarrow> map_of (AList.update REPORT_NAME rep (put_all docs t0)) p = Some data"
      using D(1) report_not_accepted by (auto simp: t map_add_def)
    show "\<forall>p. p \<noteq> REPORT_NAME \<longrightarrow> \<not> (\<exists>d. accepted_document P r p d) \<longrightarrow>
        map_of (AList.update REPORT_NAME rep (put_all docs t0)) p = map_of t0 p"
      using D(2) by (simp add: t map_add_def)
    show "distinct (map fst (AList.update REPORT_NAME rep (put_all docs t0)))"
      using T(1) by (simp add: distinct_put_all)
    show "\<exists>a \<in> set code. ar_integrated_commit a = Some head" using a(1) ah by blast
  qed (use status t0 T(2) anc' in blast)+
qed

theorem integrated_delivery_is_the_verified_head_witness:
  "\<exists>head t0 t out'. tree_at assembly0 ''repo'' head = Inr t0 \<and> map_of out' ''run.tar.gz'' = Some (members (slug ''Demo'') t) \<and>
     (''demo/docs/cavman/02-t2.md'', ''found'' @ newline) \<in> set (members (slug ''Demo'') t)"
proof (rule shippedE[OF shipped0])
  fix m n out'
  assume asm: "assemble assembly0 projector1 (after0 (shipping0 (Some commit0))) ''repo'' [] ''Demo'' (Finite 0 0) True = Inr (m, n, out')"
    and all: "\<exists>all. map_of out' ''run.tar.gz'' = Some all \<and>
      set [(''demo/app.py'', ''print()''), (''demo/docs/cavman/02-t2.md'', ''found'' @ newline)] \<subseteq> set all"
  obtain code where code: "accepted_code (after0 (shipping0 (Some commit0))) (run_accepted_artifacts (after0 (shipping0 (Some commit0)))) = Inr code"
    and len: "length code = 1" and int: "list_all (\<lambda>a. present (ar_integrated_commit a)) code"
    and rid: "run_id (after0 (shipping0 (Some commit0))) = ''run''"
    by (rule code_ofE[OF code0(1)]) simp
  from len have "code \<noteq> []" by auto
  from integrated_delivery_is_the_verified_head[OF asm code this int] obtain head t0 t where
    "tree_at assembly0 ''repo'' head = Inr t0" "map_of out' (''run'' @ ''.tar.gz'') = Some (members (slug ''Demo'') t)"
    unfolding rid by blast
  with all show ?thesis by auto
qed

text \<open>
  C29 (safety). The archive of any other run holds the accepted documents, every file an accepted
  workspace changed, at a workspace whose fingerprint is still the accepted one, and the report; all
  else in it is as the base has it, may leave the repository and was deleted by no accepted task. Two
  accepted tasks that changed a file differently are refused.
\<close>

theorem workspace_delivery_is_what_was_accepted:
  assumes "assemble A P r repo out name cost whole = Inr (m, archive, out')"
    and "accepted_code r (run_accepted_artifacts r) = Inr code"
    and "code = [] \<or> \<not> list_all (\<lambda>a. present (ar_integrated_commit a)) code"
  shows "\<exists>t. run_status r = ''completed'' \<and>
    map_of out' (run_id r @ ''.tar.gz'') = Some (members (slug name) t) \<and> distinct (map fst t) \<and>
    (\<forall>aid \<in> set (run_accepted_artifacts r). unchanged A P r aid) \<and>
    (\<forall>p data. accepted_document P r p data \<longrightarrow> map_of t p = Some data) \<and>
    (\<forall>p data. accepted_file A P r (set (run_accepted_artifacts r)) p data \<longrightarrow> p \<noteq> REPORT_NAME \<longrightarrow>
       \<not> (\<exists>d. accepted_document P r p d) \<longrightarrow> map_of t p = Some data) \<and>
    (\<forall>p data. map_of t p = Some data \<longrightarrow> p = REPORT_NAME \<or> accepted_document P r p data \<or>
       accepted_file A P r (set (run_accepted_artifacts r)) p data \<or>
       (\<not> excluded p \<and> \<not> deleted_file A P r (set (run_accepted_artifacts r)) p \<and> git_show A repo p ''HEAD'' = Inr data))"
proof -
  let ?aids = "run_accepted_artifacts r"
  from assms obtain g rep names t0 n where status: "run_status r = ''completed''"
    and ga: "gather A P r 1 ?aids nothing_gathered = Inr g" and no: "ga_conflicts g = []"
    and t0: "show_all A repo ''HEAD'' (filter (\<lambda>p. \<not> excluded p \<and> p \<notin> fst ` set (ga_deletions g)) (splitlines names)) [] = Inr t0"
    and wr: "write_archive A (put_all (AList.update REPORT_NAME rep (ga_contents g)) t0) out (run_id r) (slug name) = Inr (n, out')"
    by (auto simp: assemble_def assemble_workspaces_def Let_def bind_ok_Inr_iff split: if_splits)
  note G = gathersD[OF gather_gathers[OF ga] no, unfolded documents_among_all nothing_gathered_def Gathered.simps, simplified]
  let ?t = "put_all (AList.update REPORT_NAME rep (ga_contents g)) t0"
  have doc: "documented P r 1 ?aids p \<longleftrightarrow> (\<exists>d. accepted_document P r p d)" for p
    unfolding documents_among_all[symmetric] by force
  have t: "map_of ?t = map_of t0 ++ (map_of (ga_contents g))(REPORT_NAME \<mapsto> rep)"
    using G(3) by (simp add: map_of_put_dict)
  have base: "\<not> excluded p \<and> \<not> deleted_file A P r (set ?aids) p \<and> git_show A repo p ''HEAD'' = Inr data"
    if "map_of t0 p = Some data" for p data
    using show_all_tree[OF t0, of p] that G(8) by (auto split: if_splits)
  show ?thesis
  proof (intro exI conjI)
    show "map_of out' (run_id r @ ''.tar.gz'') = Some (members (slug name) ?t)" by (rule write_archive_Inr[OF wr])
    show "distinct (map fst ?t)" using show_all_distinct[OF t0] by (simp add: distinct_put_all)
    show "\<forall>p data. accepted_document P r p data \<longrightarrow> map_of ?t p = Some data"
      using G(5) report_not_accepted by (auto simp: t map_add_def)
    show "\<forall>p data. accepted_file A P r (set ?aids) p data \<longrightarrow> p \<noteq> REPORT_NAME \<longrightarrow>
       \<not> (\<exists>d. accepted_document P r p d) \<longrightarrow> map_of ?t p = Some data"
      using G(6) doc by (simp add: t map_add_def)
    show "\<forall>p data. map_of ?t p = Some data \<longrightarrow> p = REPORT_NAME \<or> accepted_document P r p data \<or>
       accepted_file A P r (set ?aids) p data \<or>
       (\<not> excluded p \<and> \<not> deleted_file A P r (set ?aids) p \<and> git_show A repo p ''HEAD'' = Inr data)"
      using G(7) base by (auto simp: t map_add_def split: if_splits option.splits)
  qed (use status G(2) in blast)+
qed

theorem workspace_delivery_is_what_was_accepted_witness:
  "\<exists>t out'. map_of out' ''run.tar.gz'' = Some (members (slug ''Demo'') t) \<and>
     (''demo/new.py'', ''pass'') \<in> set (members (slug ''Demo'') t) \<and>
     unchanged assembly0 projector1 (after0 (shipping0 None)) ''a1''"
proof (rule shippedE[OF shipped1])
  fix m n out'
  assume asm: "assemble assembly0 projector1 (after0 (shipping0 None)) ''repo'' [] ''Demo'' (Finite 0 0) True = Inr (m, n, out')"
    and all: "\<exists>all. map_of out' ''run.tar.gz'' = Some all \<and> set [(''demo/app.py'', ''print()''),
      (''demo/docs/cavman/02-t2.md'', ''found'' @ newline), (''demo/new.py'', ''pass'')] \<subseteq> set all"
  obtain code where code: "accepted_code (after0 (shipping0 None)) (run_accepted_artifacts (after0 (shipping0 None))) = Inr code"
    and int: "\<not> list_all (\<lambda>a. present (ar_integrated_commit a)) code"
    and rid: "run_id (after0 (shipping0 None)) = ''run''"
    by (rule code_ofE[OF code0(2)]) simp
  have "run_accepted_artifacts (after0 (shipping0 None)) = [''a1'', ''a2'']" by code_simp
  with workspace_delivery_is_what_was_accepted[OF asm code disjI2[OF int]] obtain t where
    "map_of out' (''run'' @ ''.tar.gz'') = Some (members (slug ''Demo'') t)"
    "unchanged assembly0 projector1 (after0 (shipping0 None)) ''a1''"
    unfolding rid by auto
  with all show ?thesis by auto
qed

section \<open>The outcome\<close>

text \<open>
  C30 (liveness). Delivering a completed run whose usage can be read settles it: whatever git, the disk or
  the workspaces do, afterwards there is a delivery, and no other run's delivery changed. One that was
  ready, or failed without a retry being asked for, stays as it was; otherwise the new one is ready
  with its archive written, or failed and no archive was touched.
\<close>

theorem delivering_settles_a_completed_run:
  assumes "load cd rid db = Inr r" and "run_status r = ''completed''" and "run_by_id rid pf = Some record"
    and "usage_view P r (Some record) = Inr usage"
  shows "\<exists>pf' d out'. deliver_run cd A P t rid retry db pf out = (Inr pf', out') \<and> delivery rid pf' = Some d \<and>
    (\<forall>k. k \<noteq> rid \<longrightarrow> delivery k pf' = delivery k pf) \<and>
    (if delivery rid pf \<noteq> None \<and> (dl_status (the (delivery rid pf)) = ''ready'' \<or> \<not> retry) then pf' = pf \<and> out' = out
     else (dl_status d = ''failed'' \<and> dl_archive_name d = None \<and> out' = out) \<or>
     (dl_status d = ''ready'' \<and> (\<exists>m archive. dl_archive_name d = Some archive \<and>
        assemble_project A P r (rr_project_id record) (project_by_id (rr_project_id record) pf) usage out = Inr (m, archive, out'))))"
proof (cases "delivery rid pf \<noteq> None \<and> (dl_status (the (delivery rid pf)) = ''ready'' \<or> \<not> retry)")
  case True
  then show ?thesis unfolding if_P[OF True] by (auto simp: deliver_run_def)
next
  case False
  have saves: "\<exists>d pf'. save_delivery rid st m arch t pf = Inr (Some d, pf') \<and> delivery rid pf' = Some d \<and>
      dl_status d = st \<and> dl_archive_name d = arch \<and> (\<forall>k. k \<noteq> rid \<longrightarrow> delivery k pf' = delivery k pf)" for st m arch
    using assms(3) by (simp add: save_delivery_def delivery_def Let_def)
  show ?thesis
  proof (cases "assemble_project A P r (rr_project_id record) (project_by_id (rr_project_id record) pf) usage out")
    case (Inl e)
    obtain d pf' where "save_delivery rid ''failed'' [(''error'', JStr (redact P 2000
        (case e of DeliveryError m \<Rightarrow> m | _ \<Rightarrow> typed_text e)))] None t pf = Inr (Some d, pf')"
      "delivery rid pf' = Some d" "dl_status d = ''failed''" "dl_archive_name d = None"
      "\<forall>k. k \<noteq> rid \<longrightarrow> delivery k pf' = delivery k pf" using saves by metis
    then have "deliver_run cd A P t rid retry db pf out = (Inr pf', out)" "delivery rid pf' = Some d"
      "\<forall>k. k \<noteq> rid \<longrightarrow> delivery k pf' = delivery k pf" "dl_status d = ''failed'' \<and> dl_archive_name d = None"
      using assms False Inl by (auto simp: deliver_run_def save_failure_def Let_def)
    then show ?thesis unfolding if_not_P[OF False] by blast
  next
    case (Inr z)
    obtain m archive out' where z: "z = (m, archive, out')" by (cases z)
    obtain d pf' where "save_delivery rid ''ready'' m (Some archive) t pf = Inr (Some d, pf')"
      "delivery rid pf' = Some d" "dl_status d = ''ready''" "dl_archive_name d = Some archive"
      "\<forall>k. k \<noteq> rid \<longrightarrow> delivery k pf' = delivery k pf" using saves by metis
    then have "deliver_run cd A P t rid retry db pf out = (Inr pf', out')" "delivery rid pf' = Some d"
      "\<forall>k. k \<noteq> rid \<longrightarrow> delivery k pf' = delivery k pf" "dl_status d = ''ready'' \<and> dl_archive_name d = Some archive"
      using assms False Inr z by (auto simp: deliver_run_def Let_def)
    with Inr z show ?thesis unfolding if_not_P[OF False] by blast
  qed
qed

definition row0 :: RunRecord where
  "row0 = \<lparr>rr_id = ''run'', rr_project_id = ''p'', rr_owner_id = ''o'', rr_prompt = ''build'', rr_executor = ''live'',
     rr_budget_usd = 5, rr_max_model_calls = 40, rr_created_at = ''2026'', rr_model_mode = ''standard''\<rparr>"

definition brief :: "Run \<Rightarrow> ident \<times> string \<times> nat" where
  "brief r = (run_id r, run_status r, length (run_usage_records r))"

lemma closed0_brief: "brief (after0 closing0) = (''run'', ''completed'', 0)"
  by code_simp

lemmas closed0_facts = closed0_brief[unfolded brief_def]

theorem delivering_settles_a_completed_run_witness:
  "\<exists>db pf' d out'. deliver_run codec0 assembly0 projector1 ''now'' ''run'' False db (empty_platform\<lparr>pf_runs := [row0]\<rparr>) [] =
     (Inr pf', out') \<and> delivery ''run'' pf' = Some d"
proof -
  have "plain_run (after0 closing0)" using closed0_facts by (simp add: plain_run_def)
  from stored_run[OF after0_reachable this] obtain db n where
    db: "load codec0 (run_id (after0 closing0)) db = Inr (saved_run (after0 closing0) None n)" by blast
  let ?r = "saved_run (after0 closing0) None n" and ?pf = "empty_platform\<lparr>pf_runs := [row0]\<rparr>"
  have "load codec0 ''run'' db = Inr ?r" "run_status ?r = ''completed''" using db closed0_facts by (simp_all add: saved_run_def)
  moreover have "run_by_id ''run'' ?pf = Some row0" by (simp add: run_by_id_def row0_def)
  moreover obtain u where "usage_view projector1 ?r (Some row0) = Inr u"
    using closed0_facts by (auto simp: usage_view_def saved_run_def Let_def)
  ultimately show ?thesis
    using delivering_settles_a_completed_run[of codec0 "''run''" db ?r ?pf row0 projector1 u assembly0 "''now''" False "[]"] by metis
qed

end
