(* ===== verification/Accounts.thy ===== *)
theory Accounts
  imports Views_Decisions Store
begin

text \<open>
  Account-level spending, \<open>src/src/cavman/accounts.py\<close>, and the budget a session gets from it,
  \<open>_merge_budget\<close> and \<open>_limits\<close> of \<open>src/src/cavman/worker.py\<close>. The start of the month is an argument, as is
  what the projections do not need of floating point: a product, \<open>round(q * n)\<close>, \<open>round(x, 4)\<close> and \<open>sum\<close>. When a
  call was made is the time stamp of its record, as the projections read it.
\<close>

record Limits =
  li_monthly_budget_usd :: py_float
  li_monthly_max_calls :: int
  li_mul :: "py_float \<Rightarrow> py_float \<Rightarrow> py_float"
  li_round_product :: "py_float \<Rightarrow> int \<Rightarrow> int"
  li_round4 :: "py_float \<Rightarrow> py_float"
  li_sum :: "py_float list \<Rightarrow> py_float"

section \<open>Spending\<close>

record Spending =
  sp_cost :: py_float
  sp_calls :: int
  sp_unknown :: int

definition cost_of :: "Projector \<Rightarrow> ModelUsageRecord \<Rightarrow> py_float option" where
  "cost_of P u = usage_cost (pr_float_of P) (pr_float_of_int P) (Mapping (mu_raw_usage u))"

fun count_calls :: "Projector \<Rightarrow> string \<Rightarrow> ModelUsageRecord list \<Rightarrow> Spending \<Rightarrow> Spending" where
  "count_calls P since [] s = s"
| "count_calls P since (u # us) s =
     (if pr_created_at P (mu_id u) < since then count_calls P since us s
      else count_calls P since us
        (case cost_of P u of
           None \<Rightarrow> s\<lparr>sp_calls := sp_calls s + 1, sp_unknown := sp_unknown s + 1\<rparr>
         | Some c \<Rightarrow> s\<lparr>sp_calls := sp_calls s + 1, sp_cost := pr_add P (sp_cost s) c\<rparr>))"

text \<open>A run that cannot be loaded is passed over.\<close>

fun usage_of_runs :: "Codec \<Rightarrow> Projector \<Rightarrow> Db \<Rightarrow> string \<Rightarrow> RunRecord list \<Rightarrow> Spending \<Rightarrow> Spending" where
  "usage_of_runs cd P db since [] s = s"
| "usage_of_runs cd P db since (row # rows) s =
     usage_of_runs cd P db since rows
       (case load cd (rr_id row) db of Inl e \<Rightarrow> s | Inr r \<Rightarrow> count_calls P since (run_usage_records r) s)"

definition usage_since :: "Codec \<Rightarrow> Projector \<Rightarrow> Db \<Rightarrow> RunRecord list \<Rightarrow> string \<Rightarrow> Spending" where
  "usage_since cd P db rows since =
     usage_of_runs cd P db since rows \<lparr>sp_cost = Finite 0 0, sp_calls = 0, sp_unknown = 0\<rparr>"

definition server_usage :: "Codec \<Rightarrow> Projector \<Rightarrow> string \<Rightarrow> Db \<Rightarrow> Platform \<Rightarrow> py_float \<times> int \<times> int" where
  "server_usage cd P since db pf =
     (let s = usage_since cd P db (runs_with_work_since since pf) since
      in (pr_round P (sp_cost s), sp_calls s, sp_unknown s))"

record AccountUsage =
  ac_period_start :: string
  ac_spent_usd :: py_float
  ac_limit_usd :: py_float
  ac_remaining_usd :: py_float
  ac_model_calls :: int
  ac_max_model_calls :: int
  ac_remaining_calls :: int
  ac_calls_without_cost :: int
  ac_cost_complete :: bool
  ac_exhausted :: bool
  ac_warning :: bool

definition account_usage :: "Codec \<Rightarrow> Projector \<Rightarrow> Limits \<Rightarrow> string \<Rightarrow> ident \<Rightarrow> Db \<Rightarrow> Platform \<Rightarrow> AccountUsage" where
  "account_usage cd P L since owner db pf =
     (let s = usage_since cd P db (list_owned_runs owner None None None pf) since;
          limit_usd = li_monthly_budget_usd L; limit_calls = li_monthly_max_calls L;
          ratio = pr_budget_warning_ratio P
      in \<lparr>ac_period_start = since,
          ac_spent_usd = pr_round P (sp_cost s),
          ac_limit_usd = limit_usd,
          ac_remaining_usd = float_max (Finite 0 0) (pr_round P (pr_sub P limit_usd (sp_cost s))),
          ac_model_calls = sp_calls s,
          ac_max_model_calls = limit_calls,
          ac_remaining_calls = max 0 (limit_calls - sp_calls s),
          ac_calls_without_cost = sp_unknown s,
          ac_cost_complete = (sp_unknown s = 0),
          ac_exhausted = (float_le limit_usd (sp_cost s) \<or> limit_calls \<le> sp_calls s),
          ac_warning = (float_le (li_mul L limit_usd ratio) (sp_cost s) \<or>
            float_le (li_mul L (pr_float_of_int P limit_calls) ratio) (Finite (sp_calls s) 0))\<rparr>)"

section \<open>What builds cost\<close>

text \<open>\<open>list.sort\<close> on floats that are numbers; equal ones keep their order.\<close>

fun insert_float :: "py_float \<Rightarrow> py_float list \<Rightarrow> py_float list" where
  "insert_float x [] = [x]"
| "insert_float x (y # ys) = (if float_less x y then x # y # ys else y # insert_float x ys)"

definition sort_floats :: "py_float list \<Rightarrow> py_float list" where
  "sort_floats xs = fold insert_float xs []"

record ModeCosts =
  mo_builds :: int
  mo_median_usd :: "py_float option"
  mo_low_usd :: "py_float option"
  mo_high_usd :: "py_float option"

text \<open>0.1 and 0.9 as the floats they are.\<close>

definition TENTH :: py_float where
  "TENTH = Finite 3602879701896397 (-55)"

definition NINE_TENTHS :: py_float where
  "NINE_TENTHS = Finite 8106479329266893 (-53)"

definition rank_index :: "Limits \<Rightarrow> nat \<Rightarrow> py_float \<Rightarrow> nat" where
  "rank_index L n q = nat (min (int n - 1) (max 0 (li_round_product L q (int n - 1))))"

text \<open>The cost of a completed run whose every call reports one.\<close>

definition build_cost :: "Projector \<Rightarrow> Limits \<Rightarrow> Run \<Rightarrow> py_float option" where
  "build_cost P L r =
     (if run_status r \<noteq> ''completed'' \<or> run_usage_records r = [] then None
      else let reported = map (cost_of P) (run_usage_records r) in
        if None \<in> set reported then None else Some (li_sum L (map the reported)))"

fun costs_by_mode :: "Codec \<Rightarrow> Projector \<Rightarrow> Limits \<Rightarrow> Db \<Rightarrow> RunRecord list \<Rightarrow> (string, py_float list) dict \<Rightarrow>
    (string, py_float list) dict" where
  "costs_by_mode cd P L db [] costs = costs"
| "costs_by_mode cd P L db (row # rows) costs =
     costs_by_mode cd P L db rows
       (case load cd (rr_id row) db of
          Inl e \<Rightarrow> costs
        | Inr r \<Rightarrow>
          (case build_cost P L r of
             None \<Rightarrow> costs
           | Some c \<Rightarrow> AList.update (rr_model_mode row)
               ((case map_of costs (rr_model_mode row) of None \<Rightarrow> [] | Some cs \<Rightarrow> cs) @ [c]) costs))"

definition mode_costs :: "Projector \<Rightarrow> Limits \<Rightarrow> int \<Rightarrow> py_float list \<Rightarrow> ModeCosts" where
  "mode_costs P L min_builds costs =
     (let vs = sort_floats costs; n = length vs in
      if int n < min_builds
      then \<lparr>mo_builds = int n, mo_median_usd = None, mo_low_usd = None, mo_high_usd = None\<rparr>
      else
        let middle = n div 2;
            median = (if odd n then vs ! middle
              else pr_div P (pr_add P (vs ! (middle - 1)) (vs ! middle)) (Finite 2 0))
        in \<lparr>mo_builds = int n, mo_median_usd = Some (li_round4 L median),
            mo_low_usd = Some (li_round4 L (vs ! rank_index L n TENTH)),
            mo_high_usd = Some (li_round4 L (vs ! rank_index L n NINE_TENTHS))\<rparr>)"

definition cost_history :: "Codec \<Rightarrow> Projector \<Rightarrow> Limits \<Rightarrow> string \<Rightarrow> int \<Rightarrow> Db \<Rightarrow> Platform \<Rightarrow> (string, ModeCosts) dict" where
  "cost_history cd P L since min_builds db pf =
     map (\<lambda>(mode, costs). (mode, mode_costs P L min_builds costs))
       (costs_by_mode cd P L db (runs_created_since since pf) [])"

section \<open>The budget of a session\<close>

definition float_min :: "py_float \<Rightarrow> py_float \<Rightarrow> py_float" where
  "float_min a b = (if float_less b a then b else a)"

text \<open>The stricter of two ceilings, None being no ceiling.\<close>

definition stricter :: "('a \<Rightarrow> 'a \<Rightarrow> 'a) \<Rightarrow> 'a option \<Rightarrow> 'a option \<Rightarrow> 'a option" where
  "stricter least a b = (case a of None \<Rightarrow> b | Some x \<Rightarrow> (case b of None \<Rightarrow> a | Some y \<Rightarrow> Some (least x y)))"

definition no_budget :: UsageBudget where
  "no_budget = \<lparr>ub_max_calls = None, ub_max_input_tokens = None, ub_max_output_tokens = None,
     ub_max_total_tokens = None, ub_max_cost_usd = None\<rparr>"

definition merge_budget :: "UsageBudget option \<Rightarrow> py_float \<Rightarrow> int \<Rightarrow> UsageBudget" where
  "merge_budget env budget_usd max_calls =
     (let b = (case env of None \<Rightarrow> no_budget | Some b \<Rightarrow> b) in
      b\<lparr>ub_max_calls := stricter min (ub_max_calls b) (Some max_calls),
        ub_max_cost_usd := stricter float_min (ub_max_cost_usd b) (Some budget_usd)\<rparr>)"

definition limits :: "Codec \<Rightarrow> Projector \<Rightarrow> Limits \<Rightarrow> string \<Rightarrow> RunRecord \<Rightarrow> Db \<Rightarrow> Platform \<Rightarrow> py_error + (py_float \<times> int)" where
  "limits cd P L since record db pf =
     (let account = account_usage cd P L since (rr_owner_id record) db pf in
      bind_ok (load cd (rr_id record) db) (\<lambda>r.
        let run_cost = li_sum L (map (\<lambda>u. case cost_of P u of None \<Rightarrow> Finite 0 0 | Some c \<Rightarrow> c) (run_usage_records r));
            run_calls = int (length (run_usage_records r))
        in Inr (float_min (pr_float_of_rat P (rr_budget_usd record)) (pr_add P run_cost (ac_remaining_usd account)),
                min (rr_max_model_calls record) (run_calls + ac_remaining_calls account))))"

section \<open>What the budget holds a session to\<close>

text \<open>Calls made this month, over the runs of an account that load.\<close>

definition made_since :: "Projector \<Rightarrow> string \<Rightarrow> Run \<Rightarrow> nat" where
  "made_since P since r = length (filter (\<lambda>u. \<not> pr_created_at P (mu_id u) < since) (run_usage_records r))"

lemma count_calls_count:
  "sp_calls (count_calls P since us s) = sp_calls s + int (length (filter (\<lambda>u. \<not> pr_created_at P (mu_id u) < since) us))"
  by (induct us arbitrary: s) (auto split: option.splits)

lemma usage_of_runs_count:
  "sp_calls (usage_of_runs cd P db since rows s) = sp_calls s +
     sum_list (map (\<lambda>row. case load cd (rr_id row) db of Inl e \<Rightarrow> 0 | Inr r \<Rightarrow> int (made_since P since r)) rows)"
  by (induct rows arbitrary: s) (auto simp: count_calls_count made_since_def split: sum.splits)

lemma account_calls:
  "ac_model_calls (account_usage cd P L since owner db pf) =
     sum_list (map (\<lambda>row. case load cd (rr_id row) db of Inl e \<Rightarrow> 0 | Inr r \<Rightarrow> int (made_since P since r))
       (list_owned_runs owner None None None pf))"
  by (simp add: account_usage_def usage_since_def usage_of_runs_count Let_def)

lemma limits_Inr:
  assumes "limits cd P L since record db pf = Inr (usd, n)"
  obtains r where "load cd (rr_id record) db = Inr r"
    "n = min (rr_max_model_calls record) (int (length (run_usage_records r)) +
      max 0 (li_monthly_max_calls L - ac_model_calls (account_usage cd P L since (rr_owner_id record) db pf)))"
  using assms by (auto simp: limits_def account_usage_def Let_def bind_ok_Inr_iff)

lemma merged_calls: "\<exists>m. ub_max_calls (merge_budget env usd n) = Some m \<and> m \<le> n"
  by (auto simp: merge_budget_def stricter_def Let_def split: option.splits)

lemma merged_tokens:
  "ub_max_input_tokens (merge_budget env usd n) = (case env of None \<Rightarrow> None | Some b \<Rightarrow> ub_max_input_tokens b)"
  "ub_max_output_tokens (merge_budget env usd n) = (case env of None \<Rightarrow> None | Some b \<Rightarrow> ub_max_output_tokens b)"
  "ub_max_total_tokens (merge_budget env usd n) = (case env of None \<Rightarrow> None | Some b \<Rightarrow> ub_max_total_tokens b)"
  by (simp_all add: merge_budget_def no_budget_def Let_def split: option.splits)

end
