(* ===== verification/Worker.thy ===== *)
theory Worker
  imports Delivery Engine Accounts
begin

text \<open>
  A worker's job, \<open>src/src/cavman/worker.py\<close>: what a session is started with, how the way it ends becomes
  the job's outcome, and the recovery, the final row and the delivery around it. The session itself, the
  build loop and its model calls, is an argument that may change the kernel's store; the worker's
  heartbeats happen at the times its event loop wakes up while the session runs.
\<close>

section \<open>Messages\<close>

definition PLATFORM_NOTES :: string where
  "PLATFORM_NOTES = ''Executable sandbox checks support Python (compile, pytest, pytest_regression) and '' @
     ''Node/TypeScript (node_test with node:test test files; tsc with a tsconfig.json and '' @
     ''typescript dependency; npm_build runs the project'' @ [CHR 0x27] @ ''s own npm run build). Deliver other stacks as reviewed documents or source files, '' @
     ''and say so honestly in the final result.''"

definition MESSAGES :: "(string, string) dict" where
  "MESSAGES =
    [(''continue'', ''Continue this durable run from its persisted state. Inspect it first. Human decisions '' @
       ''on approvals may have changed since your last turn.''),
     (''recover'', ''Continue this durable run after an interruption. Inspect it first; interrupted '' @
       ''assignments were recorded as failed with TIMEOUT evidence and need an explicit '' @
       ''recovery decision.'')]"

definition MAX_DETAIL_CHARS :: nat where
  "MAX_DETAIL_CHARS = 4000"

definition build_objective_message :: "string \<Rightarrow> string list \<Rightarrow> string" where
  "build_objective_message prompt constraints =
     join newline ([strip prompt]
       @ (if constraints = [] then [] else [[], ''Constraints from the user:''] @ map (\<lambda>c. ''- '' @ c) constraints)
       @ [[], ''Cavman platform notes: '' @ PLATFORM_NOTES])"

definition job_message :: "Job \<Rightarrow> RunRecord \<Rightarrow> Run \<Rightarrow> py_error + string" where
  "job_message j record r =
     (if jb_message j \<noteq> [] then Inr (jb_message j)
      else if jb_kind j = ''start'' then Inr (build_objective_message (rr_prompt record) (run_constraints r))
      else dget MESSAGES (jb_kind j))"

section \<open>The worker\<close>

record RuntimeConfig =
  rc_manager_model :: string
  rc_worker_model :: string
  rc_budget :: "UsageBudget option"
  rc_worker_max_turns :: int

text \<open>How a session ends: with an output, cancelled, or with an exception.\<close>

datatype session_end = Output "string option" | Cancelled_Task | Raising py_error

record Worker =
  wk_id :: ident
  wk_scripted :: "(UsageBudget \<Rightarrow> RuntimeConfig) option"
  wk_from_env :: "py_error + RuntimeConfig"
  wk_model_profiles :: "(string \<times> string \<times> string) list"
  wk_specialist_max_turns :: int
  wk_lease_seconds :: rat
  wk_max_recoveries :: int
  wk_maintenance_interval :: rat
  wk_month_start :: string
  wk_limits :: Limits
  wk_session :: "Job \<Rightarrow> RuntimeConfig \<Rightarrow> string \<Rightarrow> bool \<Rightarrow> Db \<Rightarrow> session_end \<times> Db"

definition worker_config :: "Codec \<Rightarrow> Projector \<Rightarrow> Worker \<Rightarrow> RunRecord \<Rightarrow> Db \<Rightarrow> Platform \<Rightarrow> py_error + RuntimeConfig" where
  "worker_config cd P W record db pf =
     bind_ok (limits cd P (wk_limits W) (wk_month_start W) record db pf) (\<lambda>(budget_usd, max_calls).
       case wk_scripted W of
         Some config \<Rightarrow> Inr (config (merge_budget None budget_usd max_calls))
       | None \<Rightarrow>
         bind_ok (wk_from_env W) (\<lambda>c.
           let c1 = (case map_of (rev (wk_model_profiles W)) (rr_model_mode record) of
                 None \<Rightarrow> c
               | Some (manager, worker) \<Rightarrow> c\<lparr>rc_manager_model := manager, rc_worker_model := worker\<rparr>)
           in Inr (c1\<lparr>rc_budget := Some (merge_budget (rc_budget c1) budget_usd max_calls),
                      rc_worker_max_turns := wk_specialist_max_turns W\<rparr>)))"

section \<open>Driving a session\<close>

text \<open>The heartbeats while the session runs: True once one of them asked to stop it.\<close>

fun beat :: "Worker \<Rightarrow> ident \<Rightarrow> rat list \<Rightarrow> Platform \<Rightarrow> bool \<times> Platform" where
  "beat W jid [] pf = (False, pf)"
| "beat W jid (now # beats) pf =
     (let (stop, pf1) = heartbeat jid (wk_id W) (wk_lease_seconds W) now pf;
          (stop', pf2) = beat W jid beats pf1
      in (stop \<or> stop', pf2))"

fun outcome_of :: "Projector \<Rightarrow> bool \<Rightarrow> session_end \<Rightarrow> (string \<times> string \<times> string) option" where
  "outcome_of P cancelled (Output out) =
     Some (''succeeded'', ''succeeded'', redact P MAX_DETAIL_CHARS (case out of None \<Rightarrow> [] | Some s \<Rightarrow> s))"
| "outcome_of P cancelled Cancelled_Task =
     (if cancelled then Some (''cancelled'', ''cancelled'', ''Stopped at your request. Continue the run to resume.'')
      else None)"
| "outcome_of P cancelled (Raising e) = Some (''failed'',
     (case e of
        UsageBudgetExceeded m \<Rightarrow> (''budget_exceeded'', redact P MAX_DETAIL_CHARS m)
      | MaxTurnsExceeded m \<Rightarrow> (''turn_limit'', ''The Manager used its turn allowance for this session.'')
      | RuntimeConfigurationError m \<Rightarrow> (''config_error'', redact P MAX_DETAIL_CHARS m)
      | _ \<Rightarrow> (''error'', redact P MAX_DETAIL_CHARS (typed_text e))))"

definition drive :: "Projector \<Rightarrow> Worker \<Rightarrow> Job \<Rightarrow> RuntimeConfig \<Rightarrow> string \<Rightarrow> rat list \<Rightarrow> Db \<Rightarrow> Platform \<Rightarrow>
    (py_error + (string \<times> string \<times> string)) \<times> Db \<times> Platform" where
  "drive P W j config message beats db pf =
     (let (cancelled, pf1) = beat W (jb_id j) beats pf;
          (how, db1) = wk_session W j config message cancelled db
      in (case outcome_of P cancelled how of None \<Rightarrow> Inl CancelledError | Some res \<Rightarrow> Inr res, db1, pf1))"

section \<open>Executing a job\<close>

type_synonym executed = "(py_error + unit) \<times> Db \<times> Platform \<times> archives"

definition finished :: "Worker \<Rightarrow> Job \<Rightarrow> string \<Rightarrow> string \<Rightarrow> string \<Rightarrow> string \<Rightarrow> Db \<Rightarrow> Platform \<Rightarrow> archives \<Rightarrow> executed" where
  "finished W j status outcome detail t db pf out =
     (case finish (jb_id j) (wk_id W) status outcome detail t pf of
        Inl e \<Rightarrow> (Inl e, db, pf, out)
      | Inr pf' \<Rightarrow> (Inr (), db, pf', out))"

text \<open>What follows the session: recovery of what it left in flight, the job's row, the delivery.\<close>

definition after_session :: "Codec \<Rightarrow> Orchestrator \<Rightarrow> Assembly \<Rightarrow> Projector \<Rightarrow> Worker \<Rightarrow> (nat \<Rightarrow> ident) \<Rightarrow> string \<Rightarrow> Job \<Rightarrow>
    string \<times> string \<times> string \<Rightarrow> Db \<Rightarrow> Platform \<Rightarrow> archives \<Rightarrow> executed" where
  "after_session cd core A P W ids t j result db pf out =
     (let (status, outcome, detail) = result;
          db1 = (if outcome = ''cancelled'' \<or> outcome = ''interrupted''
            then (case recover_interrupted cd core ids (jb_run_id j) db of Inl e \<Rightarrow> db | Inr (_, db') \<Rightarrow> db')
            else db)
      in case finish (jb_id j) (wk_id W) status outcome detail t pf of
           Inl e \<Rightarrow> (Inl e, db1, pf, out)
         | Inr pf1 \<Rightarrow>
           (case deliver_run cd A P t (jb_run_id j) False db1 pf1 out of
              (Inl e, out') \<Rightarrow> (Inl e, db1, pf1, out')
            | (Inr pf2, out') \<Rightarrow> (Inr (), db1, pf2, out')))"

definition run_session :: "Codec \<Rightarrow> Orchestrator \<Rightarrow> Assembly \<Rightarrow> Projector \<Rightarrow> Worker \<Rightarrow> (nat \<Rightarrow> ident) \<Rightarrow> string \<Rightarrow>
    rat list \<Rightarrow> Job \<Rightarrow> RunRecord \<Rightarrow> Run \<Rightarrow> Db \<Rightarrow> Platform \<Rightarrow> archives \<Rightarrow> executed" where
  "run_session cd core A P W ids t beats j record r db pf out =
     (case worker_config cd P W record db pf of
        Inl (RuntimeConfigurationError m) \<Rightarrow>
          finished W j ''failed'' ''config_error'' (redact P MAX_DETAIL_CHARS m) t db pf out
      | Inl e \<Rightarrow> (Inl e, db, pf, out)
      | Inr config \<Rightarrow>
        (case job_message j record r of
           Inl e \<Rightarrow> (Inl e, db, pf, out)
         | Inr message \<Rightarrow>
           (case drive P W j config message beats db pf of
              (Inl e, db1, pf1) \<Rightarrow> (Inl e, db1, pf1, out)
            | (Inr result, db1, pf1) \<Rightarrow> after_session cd core A P W ids t j result db1 pf1 out)))"

definition execute_job :: "Codec \<Rightarrow> Orchestrator \<Rightarrow> Assembly \<Rightarrow> Projector \<Rightarrow> Worker \<Rightarrow> (nat \<Rightarrow> ident) \<Rightarrow> string \<Rightarrow>
    rat list \<Rightarrow> Job \<Rightarrow> Db \<Rightarrow> Platform \<Rightarrow> archives \<Rightarrow> executed" where
  "execute_job cd core A P W ids t beats j db pf out =
     (case run_by_id (jb_run_id j) pf of
        None \<Rightarrow> finished W j ''failed'' ''error'' ''Run record is missing.'' t db pf out
      | Some record \<Rightarrow>
        (case load cd (jb_run_id j) db of
           Inl e \<Rightarrow> finished W j ''failed'' ''error''
             (redact P MAX_DETAIL_CHARS (''Run state could not be loaded: '' @ error_text e)) t db pf out
         | Inr r \<Rightarrow>
           if run_status r \<noteq> ''active'' then finished W j ''succeeded'' ''terminal'' [] t db pf out
           else (case (if jb_kind j = ''recover'' then recover_interrupted cd core ids (jb_run_id j) db
                       else Inr (False, db)) of
               Inl e \<Rightarrow> (Inl e, db, pf, out)
             | Inr (_, db1) \<Rightarrow> run_session cd core A P W ids t beats j record r db1 pf out)))"

text \<open>
  \<open>run_once\<close>: reap, a maintenance pass when it is due (an argument; what it raises is logged), claim,
  execute. The result tells whether a job was claimed.
\<close>

definition run_once :: "Codec \<Rightarrow> Orchestrator \<Rightarrow> Assembly \<Rightarrow> Projector \<Rightarrow> Worker \<Rightarrow> (nat \<Rightarrow> ident) \<Rightarrow> string \<Rightarrow> rat list \<Rightarrow>
    (nat \<Rightarrow> string \<times> ident \<times> string) \<Rightarrow> (Platform \<Rightarrow> Platform) \<Rightarrow> rat \<Rightarrow> Db \<Rightarrow> Platform \<Rightarrow> archives \<Rightarrow>
    (py_error + bool) \<times> Db \<times> Platform \<times> archives" where
  "run_once cd core A P W ids t beats fresh maintain now db pf out =
     (case reap_expired (wk_max_recoveries W) fresh now pf of
        Inl e \<Rightarrow> (Inl e, db, pf, out)
      | Inr (_, pf1) \<Rightarrow>
        (let (is_due, pf2) = due ''cleanup'' (wk_maintenance_interval W) now pf1;
             pf3 = (if is_due then maintain pf2 else pf2)
         in case claim (wk_id W) (wk_lease_seconds W) t now pf3 of
              (None, pf4) \<Rightarrow> (Inr False, db, pf4, out)
            | (Some j, pf4) \<Rightarrow>
              (case execute_job cd core A P W ids t beats j db pf4 out of
                 (Inl e, db', pf', out') \<Rightarrow> (Inl e, db', pf', out')
               | (Inr _, db', pf', out') \<Rightarrow> (Inr True, db', pf', out'))))"

end
