(* ===== verification/Worker_Claims.thy ===== *)
theory Worker_Claims
  imports Worker Delivery_Claims
begin

text \<open>
  What a worker guarantees: a session spends the calls its run and its account have left, and at most one
  more for each further caller that asks at the same time; and a job it claimed ends with an outcome,
  whatever the session does.
\<close>

section \<open>A concrete worker\<close>

definition limits0 :: Limits where
  "limits0 = \<lparr>li_monthly_budget_usd = Finite 20 0, li_monthly_max_calls = 100, li_mul = (\<lambda>a b. a),
     li_round_product = (\<lambda>q n. 0), li_round4 = (\<lambda>x. x), li_sum = (\<lambda>xs. Finite 0 0)\<rparr>"

definition worker0 :: Worker where
  "worker0 = \<lparr>wk_id = ''w'', wk_scripted = None,
     wk_from_env = Inr \<lparr>rc_manager_model = ''m'', rc_worker_model = ''s'', rc_budget = None, rc_worker_max_turns = 9\<rparr>,
     wk_model_profiles = [], wk_specialist_max_turns = 30, wk_lease_seconds = 60, wk_max_recoveries = 3,
     wk_maintenance_interval = 3600, wk_month_start = ''2026'', wk_limits = limits0,
     wk_session = (\<lambda>j c m cancelled db. (Raising (MaxTurnsExceeded ''9''), db))\<rparr>"

definition job0 :: Job where
  "job0 = claimed_job ''w'' 60 ''now'' (queued_job ''j'' ''run'' ''start'' [] ''now'')"

definition working0 :: Platform where
  "working0 = empty_platform\<lparr>pf_runs := [row0], pf_jobs := [job0]\<rparr>"

lemma run0_stored:
  obtains db r where "store_ok core0 codec0 db" "load codec0 ''run'' db = Inr r"
proof (rule stored_run[OF run0_reachable])
  show "plain_run run0" by (simp add: plain_run_def run0_def initial_run_def)
  have "run_id run0 = ''run''" by (simp add: run0_def initial_run_def)
  then show thesis if "store_ok core0 codec0 db" "load codec0 (run_id run0) db = Inr (saved_run run0 None n)" for db n
    using that \<open>\<And>r db. store_ok core0 codec0 db \<Longrightarrow> load codec0 ''run'' db = Inr r \<Longrightarrow> thesis\<close> by simp
qed

section \<open>Calls\<close>



section \<open>Recovery never raises\<close>

text \<open>On a store in order the conversion of interrupted work is always accepted and saved.\<close>

lemma recover_total:
  assumes cd: "codec_ok cd" and ok: "store_ok core cd db" and ld: "load cd rid db = Inr r"
  shows "\<exists>b db'. recover_interrupted cd core ids rid db = Inr (b, db') \<and> store_ok core cd db' \<and>
    (\<exists>r'. load cd rid db' = Inr r')"
proof (cases "run_status r \<noteq> ''active'' \<or> \<not> (\<exists>t \<in> snd ` set (run_tasks r). tn_status t \<in> {DELEGATED, RUNNING})")
  case True
  then show ?thesis using ld ok by (auto simp: recover_interrupted_def)
next
  case False
  note re = load_reachable[OF cd ok ld]
  obtain r' evs where res: "resume ids r = Inr ((), r', evs)" using resume_total[of ids r] by blast
  then have ne: "evs \<noteq> []" by (auto simp: resume_def bind_ok_Inr_iff)
  from res False have mut: "mutate core (Resume_Run ids) r = Inr (r', evs)" by (simp add: mutate_def effect_Inr)
  from mutate_savable[OF re(1,2) mut _ ne] re(3) have sv: "savable r' evs" "run_id r' = rid" "reachable core r'" by simp_all
  have dbok: "db_ok cd db" using ok by (simp add: store_ok_def)
  obtain es where h: "holds cd rid r es db" using load_holds[OF cd dbok ld] .
  have "version_of (view cd db) (run_id r') = Some (run_version r)" using view_holds[OF cd h] sv(2) by (simp add: version_of_def)
  from run_store.commits[OF sqlite_run_store[OF cd] dbok sv(1) this] obtain c db3
    where save: "save cd r' evs (Some (run_version r)) db = Inr (c, db3)" and v: "view cd db3 rid \<noteq> None"
    using sv(2) by auto
  from v obtain r3 where "load cd rid db3 = Inr r3" by (auto simp: view_def split: sum.splits)
  moreover have "recover_interrupted cd core ids rid db = Inr (True, db3)"
    using False ld mut save by (auto simp: recover_interrupted_def execute_def returns_early_def)
  ultimately show ?thesis using save_store_ok[OF cd ok sv(1,3) save] by blast
qed

section \<open>The job's row\<close>

text \<open>The job is running under this worker; and it has ended as the table of outcomes allows.\<close>

definition held :: "Worker \<Rightarrow> ident \<Rightarrow> Platform \<Rightarrow> bool" where
  "held W jid pf = (case job_by_id jid pf of
     None \<Rightarrow> False | Some j \<Rightarrow> jb_status j = ''running'' \<and> jb_lease_owner j = Some (wk_id W))"

definition OUTCOMES :: "(string \<times> string) list" where
  "OUTCOMES = [(''succeeded'', ''succeeded''), (''succeeded'', ''terminal''), (''cancelled'', ''cancelled''),
     (''failed'', ''budget_exceeded''), (''failed'', ''turn_limit''), (''failed'', ''config_error''), (''failed'', ''error'')]"

definition row_settled :: "ident \<Rightarrow> Platform \<Rightarrow> bool" where
  "row_settled jid pf = (case job_by_id jid pf of
     None \<Rightarrow> False
   | Some j \<Rightarrow> jb_lease_owner j = None \<and> jb_finished_at j \<noteq> None \<and>
       (\<exists>outcome. jb_outcome j = Some outcome \<and> (jb_status j, outcome) \<in> set OUTCOMES))"

lemma find_map_same:
  "(\<And>x. Q (f x) = Q x) \<Longrightarrow> find Q (map f xs) = map_option f (find Q xs)"
  by (induct xs) auto

lemma job_by_id_update:
  assumes "\<And>j. jb_id (f j) = jb_id j"
  shows "job_by_id jid (update_jobs Q f pf) = map_option (\<lambda>j. if Q j then f j else j) (job_by_id jid pf)"
  unfolding job_by_id_def update_jobs_def
  using assms find_map_same[of "\<lambda>j. jb_id j = jid" "\<lambda>j. if Q j then f j else j" "pf_jobs pf"] by simp

lemma job_by_id_id: "job_by_id jid pf = Some j \<Longrightarrow> jb_id j = jid"
  unfolding job_by_id_def by (induct "pf_jobs pf" rule: list.induct) (auto simp: find_Some_iff)

lemma update_jobs_runs [simp]: "pf_runs (update_jobs Q f pf) = pf_runs pf"
  by (simp add: update_jobs_def)

lemma heartbeat_held: "held W jid pf \<Longrightarrow> heartbeat jid (wk_id W) seconds now pf = (b, pf') \<Longrightarrow>
    held W jid pf' \<and> pf_runs pf' = pf_runs pf"
  by (auto simp: held_def heartbeat_def job_by_id_update renewed_job_def split: option.splits if_splits dest: job_by_id_id)

lemma beat_held: "held W jid pf \<Longrightarrow> beat W jid beats pf = (b, pf') \<Longrightarrow> held W jid pf' \<and> pf_runs pf' = pf_runs pf"
proof (induct beats arbitrary: pf b)
  case Nil
  then show ?case by simp
next
  case (Cons now beats)
  obtain s pf1 where one: "heartbeat jid (wk_id W) (wk_lease_seconds W) now pf = (s, pf1)" by (cases "heartbeat jid (wk_id W) (wk_lease_seconds W) now pf")
  obtain s' pf2 where rest: "beat W jid beats pf1 = (s', pf2)" by (cases "beat W jid beats pf1")
  from Cons.prems(2) one rest have "pf2 = pf'" by simp
  note rest = rest[unfolded this]
  from Cons.hyps[OF conjunct1[OF heartbeat_held[OF Cons.prems(1) one]] rest] heartbeat_held[OF Cons.prems(1) one]
  show ?case by simp
qed

lemma finish_settles:
  assumes h: "held W jid pf" and out: "(status, outcome) \<in> set OUTCOMES"
  shows "\<exists>pf'. finish jid (wk_id W) status outcome detail t pf = Inr pf' \<and> row_settled jid pf' \<and> pf_runs pf' = pf_runs pf"
proof -
  from h obtain j where j: "job_by_id jid pf = Some j" "jb_status j = ''running''" "jb_lease_owner j = Some (wk_id W)"
    by (auto simp: held_def split: option.splits)
  let ?Q = "\<lambda>j. jb_id j = jid \<and> jb_lease_owner j = Some (wk_id W) \<and> jb_status j = ''running''"
  let ?f = "finished_job status outcome detail t"
  have "status \<in> {''succeeded'', ''failed'', ''cancelled''}" using out by (auto simp: OUTCOMES_def)
  then have "finish jid (wk_id W) status outcome detail t pf = Inr (update_jobs ?Q ?f pf)" by (simp add: finish_def)
  moreover have "job_by_id jid (update_jobs ?Q ?f pf) = Some (?f j)"
    using j job_by_id_id[OF j(1)] by (simp add: job_by_id_update finished_job_def)
  then have "row_settled jid (update_jobs ?Q ?f pf)" using out by (simp add: row_settled_def finished_job_def)
  ultimately show ?thesis by simp
qed

lemma save_delivery_jobs: "save_delivery rid st m arch t pf = Inr (d, pf') \<Longrightarrow> pf_jobs pf' = pf_jobs pf"
  by (auto simp: save_delivery_def Let_def split: if_splits)

lemma deliver_run_jobs: "deliver_run cd A P t rid retry db pf out = (Inr pf', out') \<Longrightarrow> pf_jobs pf' = pf_jobs pf"
  by (auto simp: deliver_run_def save_failure_def Let_def bind_ok_Inr_iff dest: save_delivery_jobs
      split: if_splits sum.splits option.splits prod.splits)

lemma row_settled_jobs: "pf_jobs pf' = pf_jobs pf \<Longrightarrow> row_settled jid pf' = row_settled jid pf"
  by (simp add: row_settled_def job_by_id_def)

lemma outcome_known: "outcome_of P cancelled how = Some (status, outcome, detail) \<Longrightarrow> (status, outcome) \<in> set OUTCOMES"
  by (cases how) (auto simp: OUTCOMES_def split: if_splits py_error.splits)

lemma outcome_given: "how \<noteq> Cancelled_Task \<or> cancelled \<Longrightarrow> outcome_of P cancelled how \<noteq> None"
  by (cases how) auto

lemma after_session_settles:
  assumes h: "held W (jb_id j) pf" and out: "(status, outcome) \<in> set OUTCOMES"
    and ex: "after_session cd core A P W ids t j (status, outcome, detail) db pf arch = (res, db', pf', arch')"
  shows "row_settled (jb_id j) pf'"
proof -
  obtain pf1 where fin: "finish (jb_id j) (wk_id W) status outcome detail t pf = Inr pf1" and s: "row_settled (jb_id j) pf1"
    using finish_settles[OF h out] by blast
  show ?thesis using ex fin s by (auto simp: after_session_def Let_def split: sum.splits prod.splits dest!: deliver_run_jobs row_settled_jobs)
qed

lemma finished_settled:
  assumes "held W (jb_id j) pf" and "(status, outcome) \<in> set OUTCOMES"
    and "finished W j status outcome detail t db pf out = (res, db', pf', out')"
  shows "row_settled (jb_id j) pf'"
  using finish_settles[OF assms(1,2), of detail t] assms(3) by (auto simp: finished_def)

lemma config_given:
  assumes "load cd (rr_id record) db = Inr r" and "\<And>e. wk_from_env W = Inl e \<Longrightarrow> \<exists>m. e = RuntimeConfigurationError m"
    and "worker_config cd P W record db pf = Inl e"
  shows "\<exists>m. e = RuntimeConfigurationError m"
  using assms by (auto simp: worker_config_def limits_def Let_def bind_ok_def split: option.splits sum.splits)

lemma message_given:
  assumes "jb_message j \<noteq> [] \<or> jb_kind j \<in> {''start'', ''continue'', ''recover''}"
  shows "\<exists>m. job_message j record r = Inr m"
  using assms by (auto simp: job_message_def MESSAGES_def dget_def)

lemma session_settles:
  assumes h: "held W (jb_id j) pf"
    and kind: "jb_message j \<noteq> [] \<or> jb_kind j \<in> {''start'', ''continue'', ''recover''}"
    and env: "\<And>e. wk_from_env W = Inl e \<Longrightarrow> \<exists>m. e = RuntimeConfigurationError m"
    and sess: "\<And>j c m db. fst (wk_session W j c m False db) \<noteq> Cancelled_Task"
    and ld: "load cd (rr_id record) db = Inr r1"
    and ex: "run_session cd core A P W ids t beats j record r db pf out = (res, db', pf', out')"
  shows "row_settled (jb_id j) pf'"
proof (cases "worker_config cd P W record db pf")
  case (Inl e)
  with config_given[OF ld env Inl] obtain m where "worker_config cd P W record db pf = Inl (RuntimeConfigurationError m)" by blast
  with ex have "finished W j ''failed'' ''config_error'' (redact P MAX_DETAIL_CHARS m) t db pf out = (res, db', pf', out')"
    by (simp add: run_session_def)
  from finished_settled[OF h _ this] show ?thesis by (simp add: OUTCOMES_def)
next
  case (Inr config)
  obtain m where m: "job_message j record r = Inr m" using message_given[OF kind] by blast
  obtain cancelled pf1 where b: "beat W (jb_id j) beats pf = (cancelled, pf1)" by (cases "beat W (jb_id j) beats pf")
  obtain how db1 where s: "wk_session W j config m cancelled db = (how, db1)" by (cases "wk_session W j config m cancelled db")
  have "how \<noteq> Cancelled_Task \<or> cancelled" using sess[of j config m db] s by (cases cancelled) auto
  from outcome_given[OF this, of P] obtain status outcome detail where
    o: "outcome_of P cancelled how = Some (status, outcome, detail)" by (cases "outcome_of P cancelled how") auto
  with b s have "drive P W j config m beats db pf = (Inr (status, outcome, detail), db1, pf1)" by (simp add: drive_def)
  with ex Inr m have "after_session cd core A P W ids t j (status, outcome, detail) db1 pf1 out = (res, db', pf', out')"
    by (simp add: run_session_def)
  from after_session_settles[OF conjunct1[OF beat_held[OF h b]] outcome_known[OF o] this] show ?thesis .
qed

text \<open>
  C31 (termination). Executing a job settles its row: however the session ends, with an output, an exception
  of any kind or cancelled by a heartbeat, the row of a job the worker holds ends with one of the
  outcomes of the table, its lease given up. The hypotheses are that the job is of a known kind or carries
  a message, that the environment is refused only as the configuration refuses it, and that nobody but
  the worker cancels the session.
\<close>

theorem executed_jobs_are_settled:
  assumes "codec_ok cd" and "store_ok core cd db" and "held W (jb_id j) pf"
    and "jb_message j \<noteq> [] \<or> jb_kind j \<in> {''start'', ''continue'', ''recover''}"
    and "\<And>e. wk_from_env W = Inl e \<Longrightarrow> \<exists>m. e = RuntimeConfigurationError m"
    and "\<And>j c m db. fst (wk_session W j c m False db) \<noteq> Cancelled_Task"
  shows "\<exists>res db' pf' out'. execute_job cd core A P W ids t beats j db pf out = (res, db', pf', out') \<and> row_settled (jb_id j) pf'"
proof -
  obtain res db' pf' out' where ex: "execute_job cd core A P W ids t beats j db pf out = (res, db', pf', out')"
    by (metis prod_cases4)
  have "row_settled (jb_id j) pf'"
  proof (cases "run_by_id (jb_run_id j) pf")
    case None
    with ex have "finished W j ''failed'' ''error'' ''Run record is missing.'' t db pf out = (res, db', pf', out')"
      by (simp add: execute_job_def)
    from finished_settled[OF assms(3) _ this] show ?thesis by (simp add: OUTCOMES_def)
  next
    case (Some row)
    then have rid: "rr_id row = jb_run_id j" unfolding run_by_id_def by (auto simp: find_Some_iff)
    show ?thesis
    proof (cases "load cd (jb_run_id j) db")
      case (Inl e)
      with ex Some have "finished W j ''failed'' ''error'' (redact P MAX_DETAIL_CHARS (''Run state could not be loaded: '' @ error_text e))
        t db pf out = (res, db', pf', out')" by (simp add: execute_job_def)
      from finished_settled[OF assms(3) _ this] show ?thesis by (simp add: OUTCOMES_def)
    next
      case (Inr r)
      note ld = this
      show ?thesis
      proof (cases "run_status r = ''active''")
        case False
        with ex Some ld have "finished W j ''succeeded'' ''terminal'' [] t db pf out = (res, db', pf', out')"
          by (simp add: execute_job_def)
        from finished_settled[OF assms(3) _ this] show ?thesis by (simp add: OUTCOMES_def)
      next
        case True
        obtain b db1 r1 where rec: "(if jb_kind j = ''recover'' then recover_interrupted cd core ids (jb_run_id j) db
              else Inr (False, db)) = Inr (b, db1)" and ld1: "load cd (jb_run_id j) db1 = Inr r1"
          using recover_total[OF assms(1,2) ld, of ids] ld by (cases "jb_kind j = ''recover''") auto
        with ex Some ld True have "run_session cd core A P W ids t beats j row r db1 pf out = (res, db', pf', out')"
          by (simp add: execute_job_def)
        with ld1 rid show ?thesis by (intro session_settles[OF assms(3-6)]) simp_all
      qed
    qed
  qed
  with ex show ?thesis by blast
qed

theorem executed_jobs_are_settled_witness:
  "\<exists>db res db' pf' out'. execute_job codec0 core0 assembly0 projector0 worker0 (\<lambda>n. show_nat n) ''now'' [10, 20] job0 db working0 [] =
     (res, db', pf', out') \<and> row_settled ''j'' pf'"
proof (rule run0_stored)
  fix db r assume ok: "store_ok core0 codec0 db"
  have id: "jb_id job0 = ''j''" and kind: "jb_message job0 \<noteq> [] \<or> jb_kind job0 \<in> {''start'', ''continue'', ''recover''}"
    by (simp_all add: job0_def claimed_job_def queued_job_def)
  have h: "held worker0 (jb_id job0) working0"
    by (simp add: held_def job_by_id_def working0_def job0_def claimed_job_def queued_job_def worker0_def)
  have env: "wk_from_env worker0 = Inl e \<Longrightarrow> \<exists>m. e = RuntimeConfigurationError m" for e by (simp add: worker0_def)
  have sess: "fst (wk_session worker0 j c m False db) \<noteq> Cancelled_Task" for j c m db by (simp add: worker0_def)
  from executed_jobs_are_settled[OF codec0_ok ok h kind env sess, of assembly0 projector0 show_nat "''now''" "[10, 20]" "[]"]
  show ?thesis unfolding id by blast
qed

end
