(* ===== verification/Platform_Jobs.thy ===== *)
theory Platform_Jobs
  imports Platform_Store
begin

text \<open>
  The invariant of the job table and that every queue operation keeps it: the states a job can be in,
  at most one active job per run, at most one running job per project. The lemmas are about lists of
  rows and a lookup \<open>proj\<close> from runs to projects, so that the operations on other tables do not meet
  them.
\<close>

section \<open>The invariant\<close>

definition job_ok :: "Job \<Rightarrow> bool" where
  "job_ok j \<longleftrightarrow> jb_status j \<in> {''queued'', ''running'', ''succeeded'', ''failed'', ''cancelled''} \<and>
     (jb_status j = ''running'' \<longleftrightarrow> jb_lease_owner j \<noteq> None) \<and>
     (jb_status j = ''running'' \<longrightarrow> jb_lease_expires j \<noteq> None) \<and>
     (job_active j \<longleftrightarrow> jb_finished_at j = None) \<and> (job_active j \<longleftrightarrow> jb_outcome j = None)"

definition jobs_ok :: "(ident \<Rightarrow> ident option) \<Rightarrow> Job list \<Rightarrow> bool" where
  "jobs_ok proj js \<longleftrightarrow> distinct (map jb_id js) \<and> (\<forall>j \<in> set js. proj (jb_run_id j) \<noteq> None \<and> job_ok j) \<and>
     (\<forall>j \<in> set js. \<forall>k \<in> set js. job_active j \<longrightarrow> job_active k \<longrightarrow> jb_run_id j = jb_run_id k \<longrightarrow> j = k) \<and>
     (\<forall>j \<in> set js. \<forall>k \<in> set js. jb_status j = ''running'' \<longrightarrow> jb_status k = ''running'' \<longrightarrow>
        proj (jb_run_id j) = proj (jb_run_id k) \<longrightarrow> j = k)"

lemma jobs_okD:
  assumes "jobs_ok proj js"
  shows "distinct (map jb_id js)" "j \<in> set js \<Longrightarrow> proj (jb_run_id j) \<noteq> None" "j \<in> set js \<Longrightarrow> job_ok j"
    "j \<in> set js \<Longrightarrow> k \<in> set js \<Longrightarrow> job_active j \<Longrightarrow> job_active k \<Longrightarrow> jb_run_id j = jb_run_id k \<Longrightarrow> j = k"
    "j \<in> set js \<Longrightarrow> k \<in> set js \<Longrightarrow> jb_status j = ''running'' \<Longrightarrow> jb_status k = ''running'' \<Longrightarrow>
       proj (jb_run_id j) = proj (jb_run_id k) \<Longrightarrow> j = k"
    "j \<in> set js \<Longrightarrow> k \<in> set js \<Longrightarrow> jb_id j = jb_id k \<Longrightarrow> j = k"
proof -
  from assms show d: "distinct (map jb_id js)" by (simp add: jobs_ok_def)
  show "j \<in> set js \<Longrightarrow> k \<in> set js \<Longrightarrow> jb_id j = jb_id k \<Longrightarrow> j = k"
    using d by (simp add: distinct_map inj_on_def)
qed (use assms in \<open>unfold jobs_ok_def, blast+\<close>)

lemma active_simps [simp]:
  "jb_status j = ''queued'' \<Longrightarrow> job_active j"
  "jb_status j = ''running'' \<Longrightarrow> job_active j"
  by (simp_all add: job_active_def JOB_ACTIVE_def)

lemma job_active_cases: "job_active j \<Longrightarrow> jb_status j = ''queued'' \<or> jb_status j = ''running''"
  by (simp add: job_active_def JOB_ACTIVE_def)

lemma queued_job_ok [simp]: "job_ok (queued_job jid rid kind message t)"
  by (simp add: job_ok_def queued_job_def job_active_def JOB_ACTIVE_def)

lemma queued_job_fields [simp]:
  "jb_id (queued_job jid rid kind message t) = jid" "jb_run_id (queued_job jid rid kind message t) = rid"
  "jb_status (queued_job jid rid kind message t) = ''queued''" "jb_kind (queued_job jid rid kind message t) = kind"
  by (simp_all add: queued_job_def)

text \<open>Finding the row of an identifier.\<close>

lemma find_key:
  assumes "distinct (map f xs)" and "x \<in> set xs"
  shows "find (\<lambda>y. f y = f x) xs = Some x"
proof (cases "find (\<lambda>y. f y = f x) xs")
  case None
  with assms(2) show ?thesis by (auto simp: find_None_iff)
next
  case (Some y)
  then have "y \<in> set xs" "f y = f x" by (auto simp: find_Some_iff)
  with assms have "y = x" by (auto simp: distinct_map inj_on_def)
  with Some show ?thesis by simp
qed

lemma find_SomeD: "find P xs = Some x \<Longrightarrow> x \<in> set xs \<and> P x"
  by (auto simp: find_Some_iff)

text \<open>The entries after an upsert.\<close>

lemma update_entries: "w \<in> set (AList.update k v d) \<Longrightarrow> w = (k, v) \<or> w \<in> set d"
  by (induction d) (auto split: if_splits)

text \<open>The first row of a sorted selection.\<close>

lemma sort_key_Cons: "sort_key f xs = y # ys \<Longrightarrow> y \<in> set xs"
  by (metis list.set_intros(1) set_sort)

lemma sort_key_Nil [simp]: "sort_key f xs = [] \<longleftrightarrow> xs = []"
  by (metis length_0_conv length_sort)

section \<open>Changing the table\<close>

lemma jobs_ok_append:
  assumes ok: "jobs_ok proj js" and new: "\<forall>k \<in> set js. jb_id k \<noteq> jid" and run: "proj rid \<noteq> None"
    and idle: "\<forall>k \<in> set js. job_active k \<longrightarrow> jb_run_id k \<noteq> rid"
  shows "jobs_ok proj (js @ [queued_job jid rid kind message t])"
proof -
  let ?j = "queued_job jid rid kind message t"
  have "distinct (map jb_id (js @ [?j]))" using jobs_okD(1)[OF ok] new by auto
  moreover have "\<forall>k \<in> set (js @ [?j]). proj (jb_run_id k) \<noteq> None \<and> job_ok k"
    using jobs_okD(2,3)[OF ok] run by auto
  moreover have "j = k" if "j \<in> set (js @ [?j])" "k \<in> set (js @ [?j])" "job_active j" "job_active k"
    "jb_run_id j = jb_run_id k" for j k
    using that idle jobs_okD(4)[OF ok, of j k] by auto
  moreover have "j = k" if "j \<in> set (js @ [?j])" "k \<in> set (js @ [?j])" "jb_status j = ''running''"
    "jb_status k = ''running''" "proj (jb_run_id j) = proj (jb_run_id k)" for j k
    using that jobs_okD(5)[OF ok, of j k] by auto
  ultimately show ?thesis unfolding jobs_ok_def by blast
qed

text \<open>A change that keeps a job's identity and starts nothing.\<close>

definition settles :: "(Job \<Rightarrow> Job) \<Rightarrow> Job \<Rightarrow> bool" where
  "settles f j \<longleftrightarrow> jb_id (f j) = jb_id j \<and> jb_run_id (f j) = jb_run_id j \<and> jb_kind (f j) = jb_kind j \<and>
     job_ok (f j) \<and> (job_active (f j) \<longrightarrow> job_active j) \<and> (jb_status (f j) = ''running'' \<longrightarrow> jb_status j = ''running'')"

lemma claimed_fields [simp]:
  "jb_id (claimed_job w e t j) = jb_id j" "jb_run_id (claimed_job w e t j) = jb_run_id j"
  "jb_status (claimed_job w e t j) = ''running''" "jb_kind (claimed_job w e t j) = jb_kind j"
  "jb_lease_owner (claimed_job w e t j) = Some w" "jb_lease_expires (claimed_job w e t j) = Some e"
  by (simp_all add: claimed_job_def)

lemma claimed_ok: "job_ok j \<Longrightarrow> jb_status j = ''queued'' \<Longrightarrow> job_ok (claimed_job w e t j)"
  by (simp add: job_ok_def claimed_job_def job_active_def JOB_ACTIVE_def)

lemma renewed_settles: "job_ok j \<Longrightarrow> jb_status j = ''running'' \<Longrightarrow> settles (renewed_job e) j"
  by (simp add: settles_def renewed_job_def job_ok_def job_active_def) blast

lemma interrupted_settles: "jb_status j = ''running'' \<Longrightarrow> settles (interrupted_job t) j"
  by (simp add: settles_def interrupted_job_def job_ok_def job_active_def JOB_ACTIVE_def)

lemma finished_settles:
  "status \<in> {''succeeded'', ''failed'', ''cancelled''} \<Longrightarrow> jb_status j = ''running'' \<Longrightarrow>
     settles (finished_job status outcome detail t) j"
  by (auto simp: settles_def finished_job_def job_ok_def job_active_def JOB_ACTIVE_def)

lemma cancelled_settles: "job_ok j \<Longrightarrow> jb_status j = ''queued'' \<Longrightarrow> settles (cancelled_job t) j"
  by (simp add: settles_def cancelled_job_def job_ok_def job_active_def JOB_ACTIVE_def)

lemma cancelling_settles: "job_ok j \<Longrightarrow> settles (\<lambda>j. j\<lparr>jb_cancel_requested := True\<rparr>) j"
  by (simp add: settles_def job_ok_def job_active_def) blast

lemma settlesD:
  assumes "settles f j"
  shows "jb_id (f j) = jb_id j" "jb_run_id (f j) = jb_run_id j" "jb_kind (f j) = jb_kind j" "job_ok (f j)"
    "job_active (f j) \<Longrightarrow> job_active j" "jb_status (f j) = ''running'' \<Longrightarrow> jb_status j = ''running''"
  using assms by (auto simp: settles_def)

lemma jobs_ok_settle:
  assumes ok: "jobs_ok proj js" and f: "\<forall>j \<in> set js. P j \<longrightarrow> settles f j"
  shows "jobs_ok proj (map (\<lambda>j. if P j then f j else j) js)"
proof -
  let ?g = "\<lambda>j. if P j then f j else j"
  have g: "settles ?g j" if "j \<in> set js" for j
    using f that jobs_okD(3)[OF ok that] by (auto simp: settles_def)
  have "map jb_id (map ?g js) = map jb_id js"
    unfolding map_map comp_def by (rule map_cong[OF refl]) (rule settlesD(1)[OF g])
  with jobs_okD(1)[OF ok] have "distinct (map jb_id (map ?g js))" by (simp only:)
  moreover have "\<forall>j \<in> set (map ?g js). proj (jb_run_id j) \<noteq> None \<and> job_ok j"
    unfolding set_map ball_simps using settlesD(2,4)[OF g] jobs_okD(2)[OF ok] by metis
  moreover have "\<forall>j \<in> set (map ?g js). \<forall>k \<in> set (map ?g js). job_active j \<longrightarrow> job_active k \<longrightarrow>
      jb_run_id j = jb_run_id k \<longrightarrow> j = k"
    unfolding set_map ball_simps
    using settlesD(2,5)[OF g] jobs_okD(4)[OF ok] by metis
  moreover have "\<forall>j \<in> set (map ?g js). \<forall>k \<in> set (map ?g js). jb_status j = ''running'' \<longrightarrow> jb_status k = ''running'' \<longrightarrow>
      proj (jb_run_id j) = proj (jb_run_id k) \<longrightarrow> j = k"
    unfolding set_map ball_simps
    using settlesD(2,6)[OF g] jobs_okD(5)[OF ok] by metis
  ultimately show ?thesis unfolding jobs_ok_def by blast
qed

text \<open>A queued job of a project where nothing runs starts.\<close>

lemma jobs_ok_start:
  assumes ok: "jobs_ok proj js" and row: "row \<in> set js" "jb_status row = ''queued''"
    and free: "\<forall>k \<in> set js. jb_status k = ''running'' \<longrightarrow> proj (jb_run_id k) \<noteq> proj (jb_run_id row)"
    and f: "jb_id (f row) = jb_id row" "jb_run_id (f row) = jb_run_id row" "job_ok (f row)" "jb_status (f row) = ''running''"
  shows "jobs_ok proj (map (\<lambda>j. if jb_id j = jb_id row \<and> jb_status j = ''queued'' then f j else j) js)"
proof -
  let ?g = "\<lambda>j. if jb_id j = jb_id row \<and> jb_status j = ''queued'' then f j else j"
  have g: "?g j = (if j = row then f row else j)" if "j \<in> set js" for j
    using jobs_okD(6)[OF ok that row(1)] row(2) by auto
  then have eq: "map ?g js = map (\<lambda>j. if j = row then f row else j) js" by (intro map_cong) auto
  let ?h = "\<lambda>j. if j = row then f row else j"
  have ids: "jb_id (?h j) = jb_id j" "jb_run_id (?h j) = jb_run_id j" "job_active (?h j) \<Longrightarrow> job_active j"
    "j \<in> set js \<Longrightarrow> job_ok (?h j)" for j
    using f row jobs_okD(3)[OF ok] active_simps(1)[OF row(2)] by (auto split: if_splits)
  have "map jb_id (map ?h js) = map jb_id js"
    unfolding map_map comp_def by (rule map_cong[OF refl]) (rule ids(1))
  with jobs_okD(1)[OF ok] have "distinct (map jb_id (map ?h js))" by (simp only:)
  moreover have "\<forall>j \<in> set (map ?h js). proj (jb_run_id j) \<noteq> None \<and> job_ok j"
    unfolding set_map ball_simps ids(2) using ids(4) jobs_okD(2)[OF ok] by blast
  moreover have "\<forall>j \<in> set (map ?h js). \<forall>k \<in> set (map ?h js). job_active j \<longrightarrow> job_active k \<longrightarrow>
      jb_run_id j = jb_run_id k \<longrightarrow> j = k"
    unfolding set_map ball_simps using ids(2,3) jobs_okD(4)[OF ok] by metis
  moreover have "\<forall>j \<in> set (map ?h js). \<forall>k \<in> set (map ?h js). jb_status j = ''running'' \<longrightarrow> jb_status k = ''running'' \<longrightarrow>
      proj (jb_run_id j) = proj (jb_run_id k) \<longrightarrow> j = k"
    unfolding set_map ball_simps ids(2)
    using jobs_okD(5)[OF ok] free row(1) by (auto split: if_splits)
  ultimately show ?thesis unfolding jobs_ok_def eq by blast
qed

lemma jobs_ok_filter: "jobs_ok proj js \<Longrightarrow> jobs_ok proj (filter P js)"
  by (auto simp: jobs_ok_def distinct_map_filter)

lemma jobs_ok_proj: "jobs_ok proj js \<Longrightarrow> (\<And>j. j \<in> set js \<Longrightarrow> proj' (jb_run_id j) = proj (jb_run_id j)) \<Longrightarrow> jobs_ok proj' js"
  by (simp add: jobs_ok_def)

end
