(* ===== verification/Platform_Laws.thy ===== *)
theory Platform_Laws
  imports Platform_Jobs
begin

text \<open>
  The invariant of the platform's records and that every operation keeps it: ownership and references
  hold together, the job table is sound, and a project is never at once running a job and held by a
  current lease.
\<close>

section \<open>The invariant\<close>

definition run_project :: "Platform \<Rightarrow> ident \<Rightarrow> ident option" where
  "run_project db rid = map_option rr_project_id (run_by_id rid db)"

lemma project_of_run: "project_of db j = run_project db (jb_run_id j)"
  by (simp add: project_of_def run_project_def)

definition owned :: "Platform \<Rightarrow> RunRecord \<Rightarrow> bool" where
  "owned db r \<longleftrightarrow> (\<exists>p \<in> set (pf_projects db). pj_id p = rr_project_id r \<and> pj_owner_id p = rr_owner_id r)"

definition known_run :: "Platform \<Rightarrow> ident \<Rightarrow> bool" where
  "known_run db rid \<longleftrightarrow> rid \<in> rr_id ` set (pf_runs db)"

definition platform_ok :: "Platform \<Rightarrow> bool" where
  "platform_ok db \<longleftrightarrow> distinct (map pj_id (pf_projects db)) \<and> distinct (map rr_id (pf_runs db)) \<and>
     (\<forall>r \<in> set (pf_runs db). owned db r) \<and> jobs_ok (run_project db) (pf_jobs db) \<and>
     (\<forall>p \<in> set (pf_publications db). known_run db (pb_run_id p)) \<and>
     (\<forall>w \<in> set (pf_workflow db). known_run db (fst w)) \<and> (\<forall>d \<in> set (pf_deliveries db). known_run db (fst d)) \<and>
     distinct (map fst (pf_leases db))"

definition exclusive :: "rat \<Rightarrow> Platform \<Rightarrow> bool" where
  "exclusive now db \<longleftrightarrow> (\<forall>j \<in> set (pf_jobs db). \<forall>l \<in> set (pf_leases db). jb_status j = ''running'' \<longrightarrow>
     run_project db (jb_run_id j) = Some (fst l) \<longrightarrow> snd (snd l) < now)"

lemma exclusive_later: "exclusive t db \<Longrightarrow> t \<le> now \<Longrightarrow> exclusive now db"
  by (force simp: exclusive_def)

lemma known_run_find: "known_run db rid \<longleftrightarrow> run_by_id rid db \<noteq> None"
  by (auto simp: known_run_def run_by_id_def find_None_iff)

lemma run_project_known: "run_project db rid \<noteq> None \<longleftrightarrow> known_run db rid"
  by (simp add: run_project_def known_run_find)

lemma run_project_frame [simp]:
  "run_project (db\<lparr>pf_jobs := js\<rparr>) = run_project db" "run_project (db\<lparr>pf_leases := ls\<rparr>) = run_project db"
  "run_project (db\<lparr>pf_projects := ps\<rparr>) = run_project db" "run_project (db\<lparr>pf_publications := bs\<rparr>) = run_project db"
  "run_project (db\<lparr>pf_workflow := ws\<rparr>) = run_project db" "run_project (db\<lparr>pf_deliveries := ds\<rparr>) = run_project db"
  "run_project (db\<lparr>pf_maintenance := ms\<rparr>) = run_project db" "run_project (db\<lparr>pf_retired := rs\<rparr>) = run_project db"
  "run_project (db\<lparr>pf_rates := es\<rparr>) = run_project db"
  by (simp_all add: run_project_def run_by_id_def fun_eq_iff)

lemma platform_frame [simp]:
  "platform_ok (db\<lparr>pf_maintenance := ms\<rparr>) = platform_ok db" "platform_ok (db\<lparr>pf_retired := rs\<rparr>) = platform_ok db"
  "platform_ok (db\<lparr>pf_rates := es\<rparr>) = platform_ok db"
  "exclusive now (db\<lparr>pf_maintenance := ms\<rparr>) = exclusive now db" "exclusive now (db\<lparr>pf_retired := rs\<rparr>) = exclusive now db"
  "exclusive now (db\<lparr>pf_rates := es\<rparr>) = exclusive now db"
  by (simp_all add: platform_ok_def exclusive_def owned_def known_run_def)

lemma platform_jobs: "platform_ok db \<Longrightarrow> jobs_ok (run_project db) js \<Longrightarrow> platform_ok (db\<lparr>pf_jobs := js\<rparr>)"
  by (simp add: platform_ok_def owned_def known_run_def)

lemma platform_okD:
  assumes "platform_ok db"
  shows "distinct (map pj_id (pf_projects db))" "distinct (map rr_id (pf_runs db))"
    "r \<in> set (pf_runs db) \<Longrightarrow> owned db r" "jobs_ok (run_project db) (pf_jobs db)" "distinct (map fst (pf_leases db))"
  using assms by (simp_all add: platform_ok_def)

section \<open>The queue\<close>

lemma update_jobs_ok:
  assumes "platform_ok db" and "\<And>j. j \<in> set (pf_jobs db) \<Longrightarrow> P j \<Longrightarrow> settles f j"
  shows "platform_ok (update_jobs P f db)"
  unfolding update_jobs_def
  by (rule platform_jobs[OF assms(1) jobs_ok_settle[OF platform_okD(4)[OF assms(1)]]]) (use assms(2) in blast)

lemma update_jobs_exclusive:
  assumes ex: "exclusive now db" and f: "\<And>j. j \<in> set (pf_jobs db) \<Longrightarrow> P j \<Longrightarrow> settles f j"
  shows "exclusive now (update_jobs P f db)"
  unfolding exclusive_def
proof (intro ballI impI)
  fix j' l
  assume "j' \<in> set (pf_jobs (update_jobs P f db))" and l: "l \<in> set (pf_leases (update_jobs P f db))"
    and run: "jb_status j' = ''running''" "run_project (update_jobs P f db) (jb_run_id j') = Some (fst l)"
  then obtain j where j: "j \<in> set (pf_jobs db)" "j' = (if P j then f j else j)" by (auto simp: update_jobs_def)
  with f[OF j(1)] run have "jb_status j = ''running''" "jb_run_id j' = jb_run_id j"
    by (auto dest: settlesD split: if_splits)
  with ex j(1) l run(2) show "snd (snd l) < now" by (simp add: exclusive_def update_jobs_def)
qed

lemma update_jobs_keeps:
  assumes "platform_ok db" and "\<And>j. j \<in> set (pf_jobs db) \<Longrightarrow> P j \<Longrightarrow> settles f j"
  shows "platform_ok (update_jobs P f db) \<and> (exclusive now db \<longrightarrow> exclusive now (update_jobs P f db))"
  using update_jobs_ok[OF assms] update_jobs_exclusive[OF _ assms(2)] by blast

lemma insert_job_Inr:
  "insert_job j db = Inr db' \<longleftrightarrow> (\<forall>k \<in> set (pf_jobs db). jb_id k \<noteq> jb_id j) \<and> known_run db (jb_run_id j) \<and>
     db' = db\<lparr>pf_jobs := pf_jobs db @ [j]\<rparr>"
  by (auto simp: insert_job_def known_run_find)

lemma insert_job_ok:
  assumes ok: "platform_ok db" and ins: "insert_job (queued_job jid rid kind message t) db = Inr db'"
    and idle: "\<forall>k \<in> set (pf_jobs db). job_active k \<longrightarrow> jb_run_id k \<noteq> rid"
  shows "platform_ok db'" "exclusive now db \<Longrightarrow> exclusive now db'"
proof -
  from ins have new: "\<forall>k \<in> set (pf_jobs db). jb_id k \<noteq> jid" and run: "run_project db rid \<noteq> None"
    and db': "db' = db\<lparr>pf_jobs := pf_jobs db @ [queued_job jid rid kind message t]\<rparr>"
    unfolding insert_job_Inr run_project_known by simp_all
  show "platform_ok db'" unfolding db'
    by (rule platform_jobs[OF ok jobs_ok_append[OF platform_okD(4)[OF ok] new run idle]])
  show "exclusive now db \<Longrightarrow> exclusive now db'" by (auto simp: db' exclusive_def)
qed

lemma active_job_None: "active_job rid db = None \<longleftrightarrow> (\<forall>j \<in> set (pf_jobs db). job_active j \<longrightarrow> jb_run_id j \<noteq> rid)"
proof -
  have "active_job rid db = None \<longleftrightarrow> filter (\<lambda>j. jb_run_id j = rid \<and> job_active j) (pf_jobs db) = []"
    using sort_key_Nil[of jb_created_at "filter (\<lambda>j. jb_run_id j = rid \<and> job_active j) (pf_jobs db)"]
    unfolding active_job_def by (cases "sort_key jb_created_at (filter (\<lambda>j. jb_run_id j = rid \<and> job_active j) (pf_jobs db))")
      (simp_all del: sort_key_Nil)
  then show ?thesis by (auto simp: filter_empty_conv)
qed

lemma active_job_Some: "active_job rid db = Some j \<Longrightarrow> j \<in> set (pf_jobs db) \<and> job_active j \<and> jb_run_id j = rid"
proof -
  assume "active_job rid db = Some j"
  then obtain ks where "sort_key jb_created_at (filter (\<lambda>j. jb_run_id j = rid \<and> job_active j) (pf_jobs db)) = j # ks"
    by (auto simp: active_job_def split: list.splits)
  from sort_key_Cons[OF this] show ?thesis by simp
qed

lemma active_job_iff:
  assumes "platform_ok db"
  shows "active_job rid db = Some j \<longleftrightarrow> j \<in> set (pf_jobs db) \<and> job_active j \<and> jb_run_id j = rid"
proof
  assume j: "j \<in> set (pf_jobs db) \<and> job_active j \<and> jb_run_id j = rid"
  then obtain k where k: "active_job rid db = Some k" by (metis active_job_None not_Some_eq)
  from active_job_Some[OF this] j jobs_okD(4)[OF platform_okD(4)[OF assms], of j k] k show "active_job rid db = Some j"
    by simp
qed (rule active_job_Some)

lemma job_by_id_iff:
  assumes "platform_ok db"
  shows "job_by_id jid db = Some j \<longleftrightarrow> j \<in> set (pf_jobs db) \<and> jb_id j = jid"
  using find_key[OF jobs_okD(1)[OF platform_okD(4)[OF assms]], of j] find_SomeD[of "\<lambda>j. jb_id j = jid" "pf_jobs db" j]
  by (auto simp: job_by_id_def)

lemma enqueue_ok:
  assumes ok: "platform_ok db" and enq: "enqueue rid kind message jid t db = Inr ((j, b), db')"
  shows "platform_ok db'" "exclusive now db \<Longrightarrow> exclusive now db'"
proof -
  consider (active) "db' = db" | (new) "active_job rid db = None" "insert_job (queued_job jid rid kind message t) db = Inr db'"
    using enq by (auto simp: enqueue_def Let_def bind_ok_Inr_iff split: if_splits option.splits)
  then have "platform_ok db' \<and> (exclusive now db \<longrightarrow> exclusive now db')"
  proof cases
    case new
    from insert_job_ok[OF ok new(2)] new(1) show ?thesis unfolding active_job_None by blast
  qed (use ok in simp)
  then show "platform_ok db'" "exclusive now db \<Longrightarrow> exclusive now db'" by blast+
qed

text \<open>The rows still to be reaped are still in the table, running.\<close>

lemma interrupt_row:
  assumes ok: "platform_ok db" and row: "row \<in> set (pf_jobs db)" "jb_status row = ''running''"
  shows "platform_ok (update_jobs (\<lambda>j. jb_id j = jb_id row) (interrupted_job t) db)"
    "exclusive now db \<Longrightarrow> exclusive now (update_jobs (\<lambda>j. jb_id j = jb_id row) (interrupted_job t) db)"
    "\<forall>k \<in> set (pf_jobs (update_jobs (\<lambda>j. jb_id j = jb_id row) (interrupted_job t) db)).
       job_active k \<longrightarrow> jb_run_id k \<noteq> jb_run_id row"
proof -
  note js = platform_okD(4)[OF ok]
  have s: "settles (interrupted_job t) j" if "j \<in> set (pf_jobs db)" "jb_id j = jb_id row" for j
    using jobs_okD(6)[OF js that(1) row(1) that(2)] row(2) interrupted_settles by simp
  show "platform_ok (update_jobs (\<lambda>j. jb_id j = jb_id row) (interrupted_job t) db)"
    by (rule update_jobs_ok[OF ok s])
  show "exclusive now db \<Longrightarrow> exclusive now (update_jobs (\<lambda>j. jb_id j = jb_id row) (interrupted_job t) db)"
    by (rule update_jobs_exclusive[OF _ s])
  show "\<forall>k \<in> set (pf_jobs (update_jobs (\<lambda>j. jb_id j = jb_id row) (interrupted_job t) db)).
       job_active k \<longrightarrow> jb_run_id k \<noteq> jb_run_id row"
  proof (intro ballI impI)
    fix k'
    assume "k' \<in> set (pf_jobs (update_jobs (\<lambda>j. jb_id j = jb_id row) (interrupted_job t) db))" and act: "job_active k'"
    then obtain k where k: "k \<in> set (pf_jobs db)" "k' = (if jb_id k = jb_id row then interrupted_job t k else k)"
      by (auto simp: update_jobs_def)
    have "jb_id k \<noteq> jb_id row"
      using act k(2) by (auto simp: interrupted_job_def job_active_def JOB_ACTIVE_def)
    with act k show "jb_run_id k' \<noteq> jb_run_id row"
      using jobs_okD(4)[OF js k(1) row(1)] row(2) by auto
  qed
qed

lemma reap_rows_ok:
  "reap_rows m fresh n rows db = Inr (js, db') \<Longrightarrow> platform_ok db \<Longrightarrow> set rows \<subseteq> set (pf_jobs db) \<Longrightarrow>
     distinct (map jb_id rows) \<Longrightarrow> \<forall>row \<in> set rows. jb_status row = ''running'' \<Longrightarrow>
     platform_ok db' \<and> (exclusive now db \<longrightarrow> exclusive now db')"
proof (induction rows arbitrary: n db js db')
  case Nil
  then show ?case by simp
next
  case (Cons row rows)
  obtain finished jid created where fr: "fresh n = (finished, jid, created)" by (cases "fresh n")
  let ?db1 = "update_jobs (\<lambda>j. jb_id j = jb_id row) (interrupted_job finished) db"
  have row: "row \<in> set (pf_jobs db)" "jb_status row = ''running''" using Cons.prems(3,5) by simp_all
  note one = interrupt_row[OF Cons.prems(2) row, where t = finished]
  have keep: "set rows \<subseteq> set (pf_jobs ?db1)"
  proof
    fix k
    assume k: "k \<in> set rows"
    with Cons.prems(3,4) have "k \<in> set (pf_jobs db)" "jb_id k \<noteq> jb_id row" by (auto simp: image_iff)
    then show "k \<in> set (pf_jobs ?db1)" by (auto simp: update_jobs_def image_iff)
  qed
  have rest: "distinct (map jb_id rows)" "\<forall>row \<in> set rows. jb_status row = ''running''" using Cons.prems(4,5) by simp_all
  show ?case
  proof (cases "int (recoveries (jb_run_id row) ?db1) < m \<and> \<not> jb_cancel_requested row")
    case True
    with Cons.prems(1) fr obtain db2 js' where
      ins: "insert_job (queued_job jid (jb_run_id row) ''recover'' [] created) ?db1 = Inr db2"
      and rec: "reap_rows m fresh (Suc n) rows db2 = Inr (js', db')"
      by (auto simp: bind_ok_Inr_iff Let_def)
    note two = insert_job_ok[OF one(1) ins one(3)]
    have "set rows \<subseteq> set (pf_jobs db2)" using keep ins by (auto simp: insert_job_Inr)
    from Cons.IH[OF rec two(1) this rest] one(2) two(2) show ?thesis by blast
  next
    case False
    with Cons.prems(1) fr have "reap_rows m fresh (Suc n) rows ?db1 = Inr (js, db')" by (auto simp: Let_def)
    from Cons.IH[OF this one(1) keep rest] one(2) show ?thesis by blast
  qed
qed

lemma reap_expired_ok:
  assumes "platform_ok db" and "reap_expired m fresh t db = Inr (js, db')"
  shows "platform_ok db' \<and> (exclusive now db \<longrightarrow> exclusive now db')"
proof (rule reap_rows_ok[OF assms(2)[unfolded reap_expired_def] assms(1)])
  show "distinct (map jb_id (filter (lease_expired t) (pf_jobs db)))"
    using jobs_okD(1)[OF platform_okD(4)[OF assms(1)]] by (rule distinct_map_filter)
qed (auto simp: lease_expired_def)

lemma claim_Some:
  assumes ok: "platform_ok db" and cl: "claim worker seconds started now db = (Some j, db')"
  obtains row where "row \<in> set (pf_jobs db)" "claimable now db row" "jb_status row = ''queued''"
    "j = claimed_job worker (now + seconds) started row"
    "db' = update_jobs (\<lambda>k. jb_id k = jb_id row \<and> jb_status k = ''queued'') (claimed_job worker (now + seconds) started) db"
    "platform_ok db'" "j \<in> set (pf_jobs db')"
proof -
  let ?f = "claimed_job worker (now + seconds) started"
  from cl obtain row rows where first: "sort_key jb_created_at (filter (claimable now db) (pf_jobs db)) = row # rows"
    and db': "db' = update_jobs (\<lambda>k. jb_id k = jb_id row \<and> jb_status k = ''queued'') ?f db"
    and j: "job_by_id (jb_id row) db' = Some j" by (auto simp: claim_def Let_def split: list.splits)
  from sort_key_Cons[OF first] have row: "row \<in> set (pf_jobs db)" "claimable now db row" by simp_all
  then have q: "jb_status row = ''queued''" by (simp add: claimable_def)
  note js = platform_okD(4)[OF ok]
  have free: "\<forall>k \<in> set (pf_jobs db). jb_status k = ''running'' \<longrightarrow>
      run_project db (jb_run_id k) \<noteq> run_project db (jb_run_id row)"
    using row(2) by (auto simp: claimable_def project_running_def project_of_run split: option.splits)
  have ok': "platform_ok db'"
    unfolding db' update_jobs_def
    by (rule platform_jobs[OF ok jobs_ok_start[where f = ?f, OF js row(1) q free]])
      (simp_all add: claimed_ok[OF jobs_okD(3)[OF js row(1)] q])
  have mem: "?f row \<in> set (pf_jobs db')" using row(1) q by (simp add: db' update_jobs_def image_iff) blast
  have "job_by_id (jb_id row) db' = Some (?f row)" unfolding job_by_id_iff[OF ok'] using mem by simp
  with j have "j = ?f row" by simp
  with that[OF row q _ db' ok'] mem show thesis by simp
qed

lemma claim_None: "claim worker seconds started now db = (None, db') \<Longrightarrow> db' = db"
proof (cases "sort_key jb_created_at (filter (claimable now db) (pf_jobs db))")
  case (Cons row rows)
  assume cl: "claim worker seconds started now db = (None, db')"
  let ?g = "\<lambda>j. if jb_id j = jb_id row \<and> jb_status j = ''queued'' then claimed_job worker (now + seconds) started j else j"
  from cl Cons have "find (\<lambda>j. jb_id j = jb_id row) (map ?g (pf_jobs db)) = None"
    by (simp add: claim_def Let_def job_by_id_def update_jobs_def)
  then have none: "\<forall>k \<in> set (map ?g (pf_jobs db)). jb_id k \<noteq> jb_id row" by (simp only: find_None_iff) blast
  have "row \<in> set (pf_jobs db)" using sort_key_Cons[OF Cons] by simp
  then have "?g row \<in> set (map ?g (pf_jobs db))" by (simp only: set_map) (rule imageI)
  with none have "jb_id (?g row) \<noteq> jb_id row" by blast
  then have False by (simp split: if_splits)
  then show ?thesis ..
qed (simp add: claim_def)

lemma claim_ok:
  assumes ok: "platform_ok db" and cl: "claim worker seconds started now db = (x, db')"
  shows "platform_ok db' \<and> (exclusive now db \<longrightarrow> exclusive now db')"
proof (cases x)
  case None
  with claim_None[of worker seconds started now db db'] assms show ?thesis by simp
next
  case (Some j)
  with cl have "claim worker seconds started now db = (Some j, db')" by simp
  with ok show ?thesis
  proof (rule claim_Some)
    fix row
    let ?f = "claimed_job worker (now + seconds) started"
    assume row: "row \<in> set (pf_jobs db)" "claimable now db row" and ok': "platform_ok db'"
      and db': "db' = update_jobs (\<lambda>k. jb_id k = jb_id row \<and> jb_status k = ''queued'') ?f db"
    have "exclusive now db'" if ex: "exclusive now db"
      unfolding exclusive_def
    proof (intro ballI impI)
      fix k' l
      assume "k' \<in> set (pf_jobs db')" "l \<in> set (pf_leases db')" and run: "jb_status k' = ''running''"
        "run_project db' (jb_run_id k') = Some (fst l)"
      then obtain k where k: "k \<in> set (pf_jobs db)" "l \<in> set (pf_leases db)"
        "k' = (if jb_id k = jb_id row \<and> jb_status k = ''queued'' then ?f k else k)" by (auto simp: db' update_jobs_def)
      show "snd (snd l) < now"
      proof (cases "jb_id k = jb_id row \<and> jb_status k = ''queued''")
        case True
        with jobs_okD(6)[OF platform_okD(4)[OF ok] k(1) row(1)] k(3) run(2) have
          "run_project db (jb_run_id row) = Some (fst l)" by (simp add: db' update_jobs_def)
        with row(2) k(2) show ?thesis by (auto simp: claimable_def project_of_run not_le)
      next
        case False
        with ex k run show ?thesis by (simp add: exclusive_def db' update_jobs_def)
      qed
    qed
    with ok' show ?thesis by blast
  qed
qed

lemma heartbeat_ok:
  assumes ok: "platform_ok db" and hb: "heartbeat jid worker seconds t db = (b, db')"
  shows "platform_ok db' \<and> (exclusive now db \<longrightarrow> exclusive now db')"
proof -
  consider "db' = db" | row where "job_by_id jid db = Some row" "jb_status row = ''running''"
    "db' = update_jobs (\<lambda>j. jb_id j = jid) (renewed_job (t + seconds)) db"
    using hb by (auto simp: heartbeat_def split: option.splits if_splits)
  then show ?thesis
  proof cases
    case (2 row)
    note js = platform_okD(4)[OF ok]
    have row: "row \<in> set (pf_jobs db)" "jb_id row = jid" using 2(1) by (simp_all add: job_by_id_iff[OF ok])
    show ?thesis unfolding 2(3)
    proof (rule update_jobs_keeps[OF ok])
      fix j
      assume j: "j \<in> set (pf_jobs db)" "jb_id j = jid"
      with jobs_okD(6)[OF js j(1) row(1)] row(2) 2(2) have "jb_status j = ''running''" by simp
      with jobs_okD(3)[OF js j(1)] show "settles (renewed_job (t + seconds)) j" by (rule renewed_settles)
    qed
  qed (use ok in simp)
qed

lemma finish_Inr:
  "finish jid worker status outcome detail t db = Inr db' \<longleftrightarrow> status \<in> {''succeeded'', ''failed'', ''cancelled''} \<and>
     db' = update_jobs (\<lambda>j. jb_id j = jid \<and> jb_lease_owner j = Some worker \<and> jb_status j = ''running'')
       (finished_job status outcome detail t) db"
  by (auto simp: finish_def)

lemma finish_ok:
  assumes ok: "platform_ok db" and fin: "finish jid worker status outcome detail t db = Inr db'"
  shows "platform_ok db' \<and> (exclusive now db \<longrightarrow> exclusive now db')"
  using fin unfolding finish_Inr by (auto intro!: update_jobs_keeps[OF ok] finished_settles)

lemma request_cancel_ok:
  assumes ok: "platform_ok db" and can: "request_cancel rid t db = (x, db')"
  shows "platform_ok db' \<and> (exclusive now db \<longrightarrow> exclusive now db')"
proof (cases "active_job rid db")
  case None
  with can ok show ?thesis by (simp add: request_cancel_def)
next
  case (Some row)
  note js = platform_okD(4)[OF ok]
  have row: "row \<in> set (pf_jobs db)" using Some by (simp add: active_job_iff[OF ok])
  show ?thesis
  proof (cases "jb_status row = ''queued''")
    case True
    from can Some True have db': "db' = update_jobs (\<lambda>j. jb_id j = jb_id row) (cancelled_job t) db"
      by (simp add: request_cancel_def Let_def)
    show ?thesis unfolding db'
    proof (rule update_jobs_keeps[OF ok])
      fix j
      assume j: "j \<in> set (pf_jobs db)" "jb_id j = jb_id row"
      with jobs_okD(6)[OF js j(1) row] True have "jb_status j = ''queued''" by simp
      with jobs_okD(3)[OF js j(1)] show "settles (cancelled_job t) j" by (rule cancelled_settles)
    qed
  next
    case False
    with can Some have db': "db' = update_jobs (\<lambda>j. jb_id j = jb_id row) (\<lambda>j. j\<lparr>jb_cancel_requested := True\<rparr>) db"
      by (simp add: request_cancel_def Let_def)
    show ?thesis unfolding db' by (rule update_jobs_keeps[OF ok cancelling_settles[OF jobs_okD(3)[OF js]]])
  qed
qed

end
