(* ===== verification/Platform_Steps.thy ===== *)
theory Platform_Steps
  imports Platform_Laws
begin

text \<open>
  Every operation of the platform store as a step at a time, and the states the platform can be in:
  those reached from the empty tables by operations whose clock never runs backwards.
\<close>

section \<open>Leases, ownership and other tables\<close>

lemma acquire_ok:
  assumes ok: "platform_ok db" and acq: "acquire_project pid holder seconds t db = (b, db')"
  shows "platform_ok db' \<and> (exclusive now db \<longrightarrow> exclusive now db')"
proof (cases b)
  case False
  with acq ok show ?thesis by (auto simp: acquire_project_def split: if_splits)
next
  case True
  with acq have idle: "\<not> project_running pid db"
    and db': "db' = db\<lparr>pf_leases := AList.update pid (holder, t + seconds) (pf_leases db)\<rparr>"
    by (auto simp: acquire_project_def split: if_splits)
  have "platform_ok db'" using ok by (simp add: db' platform_ok_def owned_def known_run_def)
  moreover have "exclusive now db'" if ex: "exclusive now db"
    unfolding exclusive_def
  proof (intro ballI impI)
    fix j l
    assume j: "j \<in> set (pf_jobs db')" "jb_status j = ''running''" "run_project db' (jb_run_id j) = Some (fst l)"
      and l: "l \<in> set (pf_leases db')"
    from idle j have "fst l \<noteq> pid" by (auto simp: project_running_def project_of_run db')
    with l have "map_of (AList.update pid (holder, t + seconds) (pf_leases db)) (fst l) = map_of (pf_leases db) (fst l)"
      by simp
    moreover have "map_of (pf_leases db') (fst l) = Some (snd l)"
      using platform_okD(5)[OF \<open>platform_ok db'\<close>] l by (simp add: map_of_eq_Some_iff)
    ultimately have "l \<in> set (pf_leases db)" by (simp add: db') (metis map_of_SomeD prod.collapse)
    with ex j show "snd (snd l) < now" by (simp add: exclusive_def db')
  qed
  ultimately show ?thesis by blast
qed

lemma release_ok:
  assumes "platform_ok db"
  shows "platform_ok (release_project pid holder db) \<and> (exclusive now db \<longrightarrow> exclusive now (release_project pid holder db))"
  using assms by (simp add: release_project_def platform_ok_def exclusive_def owned_def known_run_def distinct_map_filter)

lemma create_project_Inr:
  assumes "create_project owner name description settings given fresh t db = Inr (x, db')"
  obtains pid where "substantive owner" "\<forall>q \<in> set (pf_projects db). pj_id q \<noteq> pid"
    "db' = db\<lparr>pf_projects := pf_projects db @ [new_project pid owner name description settings t]\<rparr>"
    "x = get_project owner pid db'"
  using assms by (auto simp: create_project_def Let_def split: if_splits)

lemma new_project_fields [simp]:
  "pj_id (new_project pid owner name description settings t) = pid"
  "pj_owner_id (new_project pid owner name description settings t) = owner"
  by (simp_all add: new_project_def)

lemma create_project_ok:
  assumes ok: "platform_ok db" and new: "create_project owner name description settings given fresh t db = Inr (x, db')"
  shows "platform_ok db' \<and> (exclusive now db \<longrightarrow> exclusive now db')"
proof -
  obtain p where p: "\<forall>q \<in> set (pf_projects db). pj_id q \<noteq> pj_id p"
    and db': "db' = db\<lparr>pf_projects := pf_projects db @ [p]\<rparr>"
    using new by (rule create_project_Inr) (metis new_project_fields(1))
  have "distinct (map pj_id (pf_projects db'))" using ok p by (auto simp: platform_ok_def db')
  with ok show ?thesis by (auto simp: db' platform_ok_def exclusive_def owned_def known_run_def)
qed

lemma touch_ids [simp]:
  "map (pj_id \<circ> (\<lambda>p. if pj_id p = pid then p\<lparr>pj_updated_at := t\<rparr> else p)) ps = map pj_id ps"
  by (induction ps) auto

lemma touch_ok:
  assumes ok: "platform_ok db"
  shows "platform_ok (touch_project pid t db) \<and> (exclusive now db \<longrightarrow> exclusive now (touch_project pid t db))"
proof -
  have "owned (touch_project pid t db) r" if r: "r \<in> set (pf_runs db)" for r
  proof -
    from platform_okD(3)[OF ok r] obtain p where p: "p \<in> set (pf_projects db)" "pj_id p = rr_project_id r"
      "pj_owner_id p = rr_owner_id r" by (auto simp: owned_def)
    let ?q = "if pj_id p = pid then p\<lparr>pj_updated_at := t\<rparr> else p"
    have "?q \<in> set (pf_projects (touch_project pid t db))" unfolding touch_project_def using p(1) by simp
    moreover have "pj_id ?q = rr_project_id r" "pj_owner_id ?q = rr_owner_id r" using p(2,3) by simp_all
    ultimately show ?thesis unfolding owned_def by blast
  qed
  moreover have "map pj_id (pf_projects (touch_project pid t db)) = map pj_id (pf_projects db)"
    by (simp add: touch_project_def)
  moreover have "pf_runs (touch_project pid t db) = pf_runs db" "pf_jobs (touch_project pid t db) = pf_jobs db"
    "pf_leases (touch_project pid t db) = pf_leases db" "pf_workflow (touch_project pid t db) = pf_workflow db"
    "pf_publications (touch_project pid t db) = pf_publications db"
    "pf_deliveries (touch_project pid t db) = pf_deliveries db" "run_project (touch_project pid t db) = run_project db"
    by (simp_all add: touch_project_def)
  ultimately show ?thesis using ok unfolding platform_ok_def exclusive_def known_run_def by simp
qed

text \<open>Appending a run with a new identifier leaves the lookup of the others.\<close>

lemma run_by_id_append: "\<forall>r \<in> set (pf_runs db). rr_id r \<noteq> rr_id row \<Longrightarrow>
    run_by_id rid (db\<lparr>pf_runs := pf_runs db @ [row]\<rparr>) = (if rid = rr_id row then Some row else run_by_id rid db)"
proof -
  have "\<forall>r \<in> set rs. rr_id r \<noteq> rr_id row \<Longrightarrow>
      find (\<lambda>r. rr_id r = rid) (rs @ [row]) = (if rid = rr_id row then Some row else find (\<lambda>r. rr_id r = rid) rs)" for rs
    by (induction rs) auto
  then show "\<forall>r \<in> set (pf_runs db). rr_id r \<noteq> rr_id row \<Longrightarrow>
    run_by_id rid (db\<lparr>pf_runs := pf_runs db @ [row]\<rparr>) = (if rid = rr_id row then Some row else run_by_id rid db)"
    by (simp add: run_by_id_def)
qed

lemma register_run_Inr:
  "register_run row t db = Inr (x, db') \<longleftrightarrow> (\<exists>p. project_by_id (rr_project_id row) db = Some p \<and>
     pj_owner_id p = rr_owner_id row \<and> (\<forall>r \<in> set (pf_runs db). rr_id r \<noteq> rr_id row) \<and>
     db' = touch_project (rr_project_id row) t (db\<lparr>pf_runs := pf_runs db @ [row]\<rparr>) \<and> x = run_by_id (rr_id row) db')"
  by (auto simp: register_run_def Let_def split: option.splits)

lemma register_run_ok:
  assumes ok: "platform_ok db" and reg: "register_run row t db = Inr (x, db')"
  shows "platform_ok db' \<and> (exclusive now db \<longrightarrow> exclusive now db')"
proof -
  from reg obtain p where p: "project_by_id (rr_project_id row) db = Some p" "pj_owner_id p = rr_owner_id row"
    and new: "\<forall>r \<in> set (pf_runs db). rr_id r \<noteq> rr_id row"
    and db': "db' = touch_project (rr_project_id row) t (db\<lparr>pf_runs := pf_runs db @ [row]\<rparr>)"
    by (auto simp: register_run_Inr)
  let ?db = "db\<lparr>pf_runs := pf_runs db @ [row]\<rparr>"
  have proj: "run_project ?db rid = run_project db rid" if "known_run db rid" for rid
    using that new by (auto simp: run_project_def run_by_id_append[OF new] known_run_def)
  have known: "known_run db (jb_run_id j)" if "j \<in> set (pf_jobs db)" for j
    using jobs_okD(2)[OF platform_okD(4)[OF ok] that] by (simp only: run_project_known)
  have "p \<in> set (pf_projects db)" "pj_id p = rr_project_id row"
    using find_SomeD[OF p(1)[unfolded project_by_id_def]] by simp_all
  with p(2) have "owned ?db row" by (auto simp: owned_def)
  moreover have "jobs_ok (run_project ?db) (pf_jobs db)"
    by (rule jobs_ok_proj[OF platform_okD(4)[OF ok]]) (use proj known in blast)
  moreover have "distinct (map rr_id (pf_runs ?db))" using ok new by (auto simp: platform_ok_def)
  ultimately have ok1: "platform_ok ?db" using ok by (auto simp: platform_ok_def owned_def known_run_def)
  moreover have "exclusive now db \<longrightarrow> exclusive now ?db" using proj known by (simp add: exclusive_def)
  ultimately show ?thesis using touch_ok[OF ok1] unfolding db' by blast
qed

lemma set_budget_ok:
  assumes ok: "platform_ok db"
  shows "platform_ok (set_budget rid b db) \<and> (exclusive now db \<longrightarrow> exclusive now (set_budget rid b db))"
proof -
  let ?g = "\<lambda>r. if rr_id r = rid then r\<lparr>rr_budget_usd := b\<rparr> else r"
  have g: "rr_id (?g r) = rr_id r" "rr_project_id (?g r) = rr_project_id r" "rr_owner_id (?g r) = rr_owner_id r" for r
    by simp_all
  have ids: "map (rr_id \<circ> ?g) rs = map rr_id rs" for rs by (induction rs) auto
  have "map_option rr_project_id (find (\<lambda>r. rr_id r = k) (map ?g rs)) = map_option rr_project_id (find (\<lambda>r. rr_id r = k) rs)" for k rs
    by (induction rs) auto
  then have proj: "run_project (set_budget rid b db) = run_project db"
    unfolding run_project_def run_by_id_def set_budget_def by (intro ext) simp
  have "rr_id ` set (map ?g (pf_runs db)) = rr_id ` set (pf_runs db)" 
    unfolding set_map image_comp using arg_cong[OF ids[of "pf_runs db"], of set] by (simp only: set_map)
  then have known: "known_run (set_budget rid b db) = known_run db" by (simp add: known_run_def set_budget_def fun_eq_iff)
  have "distinct (map rr_id (pf_runs (set_budget rid b db)))"
    using platform_okD(2)[OF ok] by (simp add: set_budget_def ids)
  moreover have "\<forall>r \<in> set (pf_runs (set_budget rid b db)). owned (set_budget rid b db) r"
    unfolding set_budget_def using platform_okD(3)[OF ok] g by (auto simp: owned_def)
  moreover have "pf_projects (set_budget rid b db) = pf_projects db" "pf_jobs (set_budget rid b db) = pf_jobs db"
    "pf_leases (set_budget rid b db) = pf_leases db" "pf_workflow (set_budget rid b db) = pf_workflow db"
    "pf_publications (set_budget rid b db) = pf_publications db" "pf_deliveries (set_budget rid b db) = pf_deliveries db"
    by (simp_all add: set_budget_def)
  ultimately show ?thesis using ok unfolding platform_ok_def exclusive_def proj known by simp
qed

lemma records_ok:
  assumes ok: "platform_ok db"
  shows "save_publication row db = Inr (p, db') \<Longrightarrow> platform_ok db' \<and> (exclusive now db \<longrightarrow> exclusive now db')"
    "save_workflow_state rid state t db = Inr db' \<Longrightarrow> platform_ok db' \<and> (exclusive now db \<longrightarrow> exclusive now db')"
    "save_delivery rid status manifest archive t db = Inr (d, db') \<Longrightarrow>
       platform_ok db' \<and> (exclusive now db \<longrightarrow> exclusive now db')"
proof -
  have frame: "known_run (db\<lparr>pf_publications := bs\<rparr>) = known_run db" "known_run (db\<lparr>pf_workflow := ws\<rparr>) = known_run db"
    "known_run (db\<lparr>pf_deliveries := ds\<rparr>) = known_run db" for bs ws ds
    by (simp_all add: known_run_def fun_eq_iff)
  show "platform_ok db' \<and> (exclusive now db \<longrightarrow> exclusive now db')" if "save_publication row db = Inr (p, db')"
  proof -
    from that have "known_run db (pb_run_id row)" "db' = db\<lparr>pf_publications := pf_publications db @ [row]\<rparr>"
      by (auto simp: save_publication_def Let_def known_run_find split: if_splits)
    with ok show ?thesis by (auto simp: platform_ok_def exclusive_def owned_def frame)
  qed
  show "platform_ok db' \<and> (exclusive now db \<longrightarrow> exclusive now db')" if "save_workflow_state rid state t db = Inr db'"
  proof -
    from that have k: "known_run db rid"
      and db': "db' = db\<lparr>pf_workflow := AList.update rid (sorted_json (JObj state), t) (pf_workflow db)\<rparr>"
      by (auto simp: save_workflow_state_def known_run_find split: if_splits)
    have "\<forall>w \<in> set (pf_workflow db'). known_run db (fst w)"
      using ok k by (auto simp: db' platform_ok_def simp del: sorted_json.simps dest!: update_entries)
    with ok show ?thesis by (auto simp: db' platform_ok_def exclusive_def owned_def frame)
  qed
  show "platform_ok db' \<and> (exclusive now db \<longrightarrow> exclusive now db')" if "save_delivery rid status manifest archive t db = Inr (d, db')"
  proof -
    from that obtain x where k: "known_run db rid" and db': "db' = db\<lparr>pf_deliveries := AList.update rid x (pf_deliveries db)\<rparr>"
      by (auto simp: save_delivery_def Let_def known_run_find split: if_splits)
    have "\<forall>w \<in> set (pf_deliveries db'). known_run db (fst w)"
      using ok k by (auto simp: db' platform_ok_def dest!: update_entries)
    with ok show ?thesis by (auto simp: db' platform_ok_def exclusive_def owned_def frame)
  qed
qed

section \<open>Erasing an owner\<close>

lemma owned_by:
  assumes ok: "platform_ok db" and r: "r \<in> set (pf_runs db)"
  shows "rr_id r \<in> owned_runs owner db \<longleftrightarrow> rr_owner_id r = owner"
    "rr_project_id r \<in> owned_projects owner db \<longleftrightarrow> rr_owner_id r = owner"
proof -
  show "rr_id r \<in> owned_runs owner db \<longleftrightarrow> rr_owner_id r = owner"
    using r platform_okD(2)[OF ok] by (auto simp: owned_runs_def distinct_map inj_on_def)
  from platform_okD(3)[OF ok r] obtain p where p: "p \<in> set (pf_projects db)" "pj_id p = rr_project_id r"
    "pj_owner_id p = rr_owner_id r" by (auto simp: owned_def)
  show "rr_project_id r \<in> owned_projects owner db \<longleftrightarrow> rr_owner_id r = owner"
  proof
    assume "rr_project_id r \<in> owned_projects owner db"
    then obtain q where "q \<in> set (pf_projects db)" "pj_owner_id q = owner" "pj_id q = rr_project_id r"
      by (auto simp: owned_projects_def)
    with p platform_okD(1)[OF ok] have "q = p" by (auto simp: distinct_map inj_on_def)
    with p \<open>pj_owner_id q = owner\<close> show "rr_owner_id r = owner" by simp
  next
    assume "rr_owner_id r = owner"
    with p have "p \<in> set (filter (\<lambda>p. pj_owner_id p = owner) (pf_projects db))" by simp
    with p(2) show "rr_project_id r \<in> owned_projects owner db" unfolding owned_projects_def by (metis imageI)
  qed
qed

lemma erase_fields:
  "pf_projects (erase_owner owner db) = filter (\<lambda>p. pj_owner_id p \<noteq> owner) (pf_projects db)"
  "pf_runs (erase_owner owner db) = filter (\<lambda>r. rr_owner_id r \<noteq> owner) (pf_runs db)"
  "pf_jobs (erase_owner owner db) = filter (\<lambda>j. jb_run_id j \<notin> owned_runs owner db) (pf_jobs db)"
  "pf_publications (erase_owner owner db) =
     filter (\<lambda>p. pb_run_id p \<notin> owned_runs owner db \<and> pb_owner_id p \<noteq> owner) (pf_publications db)"
  "pf_workflow (erase_owner owner db) = filter (\<lambda>w. fst w \<notin> owned_runs owner db) (pf_workflow db)"
  "pf_deliveries (erase_owner owner db) = filter (\<lambda>d. fst d \<notin> owned_runs owner db) (pf_deliveries db)"
  "pf_retired (erase_owner owner db) = filter (\<lambda>r. fst r \<notin> owned_runs owner db) (pf_retired db)"
  "pf_rates (erase_owner owner db) = filter (\<lambda>e. re_owner_id e \<noteq> owner) (pf_rates db)"
  "pf_leases (erase_owner owner db) = filter (\<lambda>l. fst l \<notin> owned_projects owner db) (pf_leases db)"
  "pf_maintenance (erase_owner owner db) = pf_maintenance db"
  by (simp_all add: erase_owner_def Let_def)

lemma known_after_erase:
  assumes ok: "platform_ok db" and k: "known_run db rid" "rid \<notin> owned_runs owner db"
  shows "known_run (erase_owner owner db) rid"
proof -
  from k(1) obtain r where "r \<in> set (pf_runs db)" "rid = rr_id r" by (auto simp: known_run_def)
  with k(2) show ?thesis using owned_by(1)[OF ok] by (auto simp: known_run_def erase_fields)
qed

lemma find_filter_known: "(\<And>r. r \<in> set rs \<Longrightarrow> rr_id r = rid \<Longrightarrow> Q r) \<Longrightarrow>
    find (\<lambda>r. rr_id r = rid) (filter Q rs) = find (\<lambda>r. rr_id r = rid) rs"
  by (induction rs) auto

lemma erase_ok:
  assumes ok: "platform_ok db"
  shows "platform_ok (erase_owner owner db) \<and> (exclusive now db \<longrightarrow> exclusive now (erase_owner owner db))"
proof -
  let ?db = "erase_owner owner db"
  have proj: "run_project ?db rid = run_project db rid" if "rid \<notin> owned_runs owner db" for rid
  proof -
    have "find (\<lambda>r. rr_id r = rid) (filter (\<lambda>r. rr_owner_id r \<noteq> owner) (pf_runs db)) = find (\<lambda>r. rr_id r = rid) (pf_runs db)"
      by (rule find_filter_known) (use that in \<open>auto simp: owned_runs_def\<close>)
    then show ?thesis by (simp add: run_project_def run_by_id_def erase_fields)
  qed
  have "owned ?db r" if r: "r \<in> set (pf_runs ?db)" for r
  proof -
    from r have "r \<in> set (pf_runs db)" "rr_owner_id r \<noteq> owner" by (simp_all add: erase_fields)
    with platform_okD(3)[OF ok this(1)] show ?thesis by (auto simp: owned_def erase_fields)
  qed
  moreover have "jobs_ok (run_project ?db) (pf_jobs ?db)"
    unfolding erase_fields
    by (rule jobs_ok_proj[OF jobs_ok_filter[OF platform_okD(4)[OF ok]]]) (simp add: proj)
  moreover have "\<forall>p \<in> set (pf_publications ?db). known_run ?db (pb_run_id p)"
    "\<forall>w \<in> set (pf_workflow ?db). known_run ?db (fst w)" "\<forall>d \<in> set (pf_deliveries ?db). known_run ?db (fst d)"
    using ok known_after_erase[OF ok] by (auto simp: erase_fields platform_ok_def)
  ultimately have "platform_ok ?db"
    using ok by (simp add: platform_ok_def erase_fields(1,2,9) distinct_map_filter)
  moreover have "exclusive now ?db" if ex: "exclusive now db"
    unfolding exclusive_def
  proof (intro ballI impI)
    fix j l
    assume "j \<in> set (pf_jobs ?db)" "l \<in> set (pf_leases ?db)" "jb_status j = ''running''"
      "run_project ?db (jb_run_id j) = Some (fst l)"
    then have "j \<in> set (pf_jobs db)" "l \<in> set (pf_leases db)" "run_project db (jb_run_id j) = Some (fst l)"
      by (simp_all add: erase_fields proj)
    with ex \<open>jb_status j = ''running''\<close> show "snd (snd l) < now" unfolding exclusive_def by blast
  qed
  ultimately show ?thesis by blast
qed

section \<open>Steps\<close>

inductive operates :: "rat \<Rightarrow> Platform \<Rightarrow> Platform \<Rightarrow> bool" where
  acquire: "acquire_project pid holder seconds now db = (b, db') \<Longrightarrow> operates now db db'"
| release: "operates now db (release_project pid holder db)"
| maintain: "due name interval now db = (b, db') \<Longrightarrow> operates now db db'"
| retire: "operates now db (mark_retired rid t db)"
| prune: "prune_rate_events older_than db = (n, db') \<Longrightarrow> operates now db db'"
| rate: "consume_rate owner action bound window now db = Inr (x, db') \<Longrightarrow> operates now db db'"
| erase: "delete_owner owner db = Inr (ids, db') \<Longrightarrow> operates now db db'"
| project: "create_project owner name description settings given fresh t db = Inr (p, db') \<Longrightarrow> operates now db db'"
| touch: "operates now db (touch_project pid t db)"
| register: "register_run row t db = Inr (r, db') \<Longrightarrow> operates now db db'"
| budget: "operates now db (set_budget rid usd db)"
| queue: "enqueue rid kind message jid t db = Inr (x, db') \<Longrightarrow> operates now db db'"
| reap: "reap_expired m stamps now db = Inr (js, db') \<Longrightarrow> operates now db db'"
| start: "claim worker seconds t now db = (j, db') \<Longrightarrow> operates now db db'"
| beat: "heartbeat jid worker seconds now db = (b, db') \<Longrightarrow> operates now db db'"
| stop: "finish jid worker status outcome detail t db = Inr db' \<Longrightarrow> operates now db db'"
| cancel: "request_cancel rid t db = (j, db') \<Longrightarrow> operates now db db'"
| publish: "save_publication pub db = Inr (x, db') \<Longrightarrow> operates now db db'"
| state: "save_workflow_state rid st t db = Inr db' \<Longrightarrow> operates now db db'"
| deliver: "save_delivery rid status manifest archive t db = Inr (d, db') \<Longrightarrow> operates now db db'"

lemma operates_ok:
  assumes "operates t db db'" and "platform_ok db"
  shows "platform_ok db' \<and> (exclusive t db \<longrightarrow> exclusive t db')"
  using assms
proof (induction rule: operates.induct)
  case (maintain name interval now db b db')
  then show ?case by (auto simp: due_def split: if_splits)
next
  case (retire now db rid t)
  then show ?case by (simp add: mark_retired_def)
next
  case (prune older_than db n db' now)
  then show ?case by (auto simp: prune_rate_events_def)
next
  case (rate owner action bound window now db x db')
  then show ?case by (auto simp: consume_rate_def Let_def split: if_splits)
next
  case (erase owner db ids db' now)
  then have "db' = erase_owner owner db" by (auto simp: delete_owner_def split: if_splits)
  with erase_ok[OF erase.prems] show ?case by simp
next
  case (queue rid kind message jid t db x db' now)
  obtain j b where "x = (j, b)" by (cases x)
  with enqueue_ok[OF queue.prems] queue.hyps show ?case by blast
qed (rule acquire_ok release_ok create_project_ok touch_ok register_run_ok set_budget_ok reap_expired_ok claim_ok
    heartbeat_ok finish_ok request_cancel_ok records_ok; assumption)+

text \<open>The clock of successive operations does not run backwards.\<close>

inductive running_platform :: "rat \<Rightarrow> Platform \<Rightarrow> bool" where
  empty: "running_platform now empty_platform"
| step: "running_platform t db \<Longrightarrow> t \<le> now \<Longrightarrow> operates now db db' \<Longrightarrow> running_platform now db'"

lemma running_platform_ok: "running_platform now db \<Longrightarrow> platform_ok db \<and> exclusive now db"
proof (induction rule: running_platform.induct)
  case (empty now)
  show ?case by (simp add: platform_ok_def exclusive_def empty_platform_def jobs_ok_def)
next
  case (step t db now db')
  then have "platform_ok db" "exclusive now db" using exclusive_later by blast+
  with operates_ok[OF step.hyps(3)] show ?case by blast
qed

end
