(* ===== verification/Upkeep.thy ===== *)
theory Upkeep
  imports Delivery Platform_Steps
begin

text \<open>
  The work around the builds: the periodic cleanup of \<open>src/src/cavman/maintenance.py\<close> and the erasure of
  an account, \<open>src/src/cavman/erasure.py\<close>. The directories of projects and what is deleted in them are
  arguments: which repositories exist, how many stale installs a project has, and the workspaces retired
  so far, or the exception of a retirement. What the file system and SQLite refuse during an erasure is
  an argument, too, so an erasure may stop at every point the code can.
\<close>

section \<open>Maintenance\<close>

definition run_finished :: "Codec \<Rightarrow> Db \<Rightarrow> Platform \<Rightarrow> RunRecord \<Rightarrow> py_error + bool" where
  "run_finished cd db pf record =
     bind_ok (load cd (rr_id record) db) (\<lambda>r.
       if run_status r = ''completed''
       then Inr (case delivery (rr_id record) pf of None \<Rightarrow> False | Some d \<Rightarrow> dl_status d = ''ready'')
       else Inr (run_status r \<noteq> ''active''))"

text \<open>
  The runs to retire, by project; a run without a kernel record is marked at once. Marks made before an
  exception stay.
\<close>

fun collect :: "Codec \<Rightarrow> Db \<Rightarrow> string \<Rightarrow> RunRecord list \<Rightarrow> (ident, ident list) dict \<Rightarrow> Platform \<Rightarrow>
    (py_error + (ident, ident list) dict) \<times> Platform" where
  "collect cd db t [] retire pf = (Inr retire, pf)"
| "collect cd db t (record # records) retire pf =
     (case run_finished cd db pf record of
        Inl (KeyError k) \<Rightarrow> collect cd db t records retire (mark_retired (rr_id record) t pf)
      | Inl e \<Rightarrow> (Inl e, pf)
      | Inr True \<Rightarrow> collect cd db t records
          (AList.update (rr_project_id record)
            ((case map_of retire (rr_project_id record) of None \<Rightarrow> [] | Some ids \<Rightarrow> ids) @ [rr_id record]) retire) pf
      | Inr False \<Rightarrow> collect cd db t records retire pf)"

record Upkeep_Env =
  up_repo :: "ident \<Rightarrow> py_error + bool"
  up_retire :: "ident \<Rightarrow> py_error + unit"
  up_prune :: "ident \<Rightarrow> py_error + nat"

record Upkeep_Summary =
  us_runs_retired :: nat
  us_deps_pruned :: nat
  us_projects_skipped :: nat
  us_rates_pruned :: nat

text \<open>
  Retiring stops at the first exception, which is logged. The state carries the workspaces retired so
  far, in order.
\<close>

fun retire_all :: "Upkeep_Env \<Rightarrow> string \<Rightarrow> ident list \<Rightarrow> Platform \<Rightarrow> ident list \<Rightarrow> nat \<Rightarrow>
    bool \<times> Platform \<times> ident list \<times> nat" where
  "retire_all E t [] pf gone n = (True, pf, gone, n)"
| "retire_all E t (rid # rids) pf gone n =
     (case up_retire E rid of
        Inl e \<Rightarrow> (False, pf, gone, n)
      | Inr _ \<Rightarrow> retire_all E t rids (mark_retired rid t pf) (gone @ [rid]) (Suc n))"

definition clean_project :: "Upkeep_Env \<Rightarrow> string \<Rightarrow> ident list \<Rightarrow> ident \<Rightarrow> Platform \<Rightarrow> ident list \<Rightarrow> Upkeep_Summary \<Rightarrow>
    Platform \<times> ident list \<times> Upkeep_Summary" where
  "clean_project E t rids pid pf gone s =
     (let (fine, pf1, gone1, n) = retire_all E t rids pf gone (us_runs_retired s);
          s1 = s\<lparr>us_runs_retired := n\<rparr>
      in (pf1, gone1,
          if fine then (case up_prune E pid of Inl e \<Rightarrow> s1 | Inr k \<Rightarrow> s1\<lparr>us_deps_pruned := us_deps_pruned s1 + k\<rparr>) else s1))"

fun clean_projects :: "Upkeep_Env \<Rightarrow> string \<Rightarrow> ident \<Rightarrow> rat \<Rightarrow> (ident, ident list) dict \<Rightarrow> ident list \<Rightarrow> Platform \<Rightarrow>
    ident list \<Rightarrow> Upkeep_Summary \<Rightarrow> (py_error + Upkeep_Summary) \<times> Platform \<times> ident list" where
  "clean_projects E t holder now retire [] pf gone s = (Inr s, pf, gone)"
| "clean_projects E t holder now retire (pid # pids) pf gone s =
     (case up_repo E pid of
        Inl e \<Rightarrow> (Inl e, pf, gone)
      | Inr there \<Rightarrow>
        if \<not> there then clean_projects E t holder now retire pids pf gone s
        else
          let (held, pf1) = acquire_project pid holder 900 now pf in
          if \<not> held
          then clean_projects E t holder now retire pids pf1 gone (s\<lparr>us_projects_skipped := us_projects_skipped s + 1\<rparr>)
          else
            let rids = (case map_of retire pid of None \<Rightarrow> [] | Some ids \<Rightarrow> ids);
                (pf2, gone2, s2) = clean_project E t rids pid pf1 gone s
            in clean_projects E t holder now retire pids (release_project pid holder pf2) gone2 s2)"

definition run_maintenance :: "Codec \<Rightarrow> Upkeep_Env \<Rightarrow> string \<Rightarrow> ident \<Rightarrow> rat \<Rightarrow> Db \<Rightarrow> Platform \<Rightarrow>
    (py_error + Upkeep_Summary) \<times> Platform \<times> ident list" where
  "run_maintenance cd E t holder now db pf =
     (case collect cd db t (unretired_runs 1000 pf) [] pf of
        (Inl e, pf1) \<Rightarrow> (Inl e, pf1, [])
      | (Inr retire, pf1) \<Rightarrow>
        (case clean_projects E t holder now retire (sorted_set (map pj_id (pf_projects pf1))) pf1 []
            \<lparr>us_runs_retired = 0, us_deps_pruned = 0, us_projects_skipped = 0, us_rates_pruned = 0\<rparr> of
           (Inl e, pf2, gone) \<Rightarrow> (Inl e, pf2, gone)
         | (Inr s, pf2, gone) \<Rightarrow>
             (let (k, pf3) = prune_rate_events (now - 86400) pf2 in (Inr (s\<lparr>us_rates_pruned := k\<rparr>), pf3, gone))))"

section \<open>Erasing an account\<close>

text \<open>
  What can go wrong while things are removed: the store cannot be opened, or a run not deleted from it; the
  sessions' database cannot be changed; a file cannot be unlinked. Removing a directory raises nothing
  (\<open>ignore_errors\<close>), but may leave it there.
\<close>

record Faults =
  fl_open :: "py_error option"
  fl_delete :: "ident \<Rightarrow> py_error option"
  fl_sessions :: "py_error option"
  fl_unlink :: "string \<Rightarrow> py_error option"
  fl_stays :: "ident \<Rightarrow> bool"

record Disk =
  dk_db :: Db
  dk_sessions :: "(ident \<times> string) list"
  dk_archives :: archives
  dk_projects :: "ident list"

fun delete_runs :: "Faults \<Rightarrow> ident list \<Rightarrow> Db \<Rightarrow> py_error option \<times> Db" where
  "delete_runs F [] db = (None, db)"
| "delete_runs F (rid # rids) db =
     (case fl_delete F rid of Some e \<Rightarrow> (Some e, db) | None \<Rightarrow> delete_runs F rids (snd (delete_run rid db)))"

text \<open>One transaction; nothing is opened when there is no run to forget.\<close>

definition purge_sessions :: "Faults \<Rightarrow> ident list \<Rightarrow> (ident \<times> string) list \<Rightarrow> py_error option \<times> (ident \<times> string) list" where
  "purge_sessions F rids sessions =
     (if rids = [] then (None, sessions)
      else case fl_sessions F of
        Some e \<Rightarrow> (Some e, sessions)
      | None \<Rightarrow> (None, filter (\<lambda>s. fst s \<notin> set rids) sessions))"

fun unlink_all :: "Faults \<Rightarrow> string list \<Rightarrow> archives \<Rightarrow> py_error option \<times> archives" where
  "unlink_all F [] files = (None, files)"
| "unlink_all F (name # names) files =
     (case fl_unlink F name of
        Some e \<Rightarrow> (Some e, files)
      | None \<Rightarrow> unlink_all F names (filter (\<lambda>a. fst a \<noteq> name) files))"

definition hex_id :: "ident \<Rightarrow> bool" where
  "hex_id pid = (length pid = 32 \<and> list_all (\<lambda>c. in_range CHR ''0'' CHR ''9'' c \<or> in_range CHR ''a'' CHR ''f'' c) pid)"

text \<open>
  \<open>_purge\<close>: the kernel's runs, the conversation sessions, the archives and the projects' directories, up
  to the first exception.
\<close>

definition purge :: "Faults \<Rightarrow> ident list \<Rightarrow> ident list \<Rightarrow> Disk \<Rightarrow> py_error option \<times> Disk" where
  "purge F rids pids D =
     (case fl_open F of
        Some e \<Rightarrow> (Some e, D)
      | None \<Rightarrow>
        (case delete_runs F rids (dk_db D) of
           (Some e, db) \<Rightarrow> (Some e, D\<lparr>dk_db := db\<rparr>)
         | (None, db) \<Rightarrow>
           (case purge_sessions F rids (dk_sessions D) of
              (Some e, ss) \<Rightarrow> (Some e, D\<lparr>dk_db := db, dk_sessions := ss\<rparr>)
            | (None, ss) \<Rightarrow>
              (case unlink_all F (concat (map (\<lambda>rid. [rid @ ''.tar.gz'', rid @ ''.tar.gz.tmp'']) rids)) (dk_archives D) of
                 (Some e, files) \<Rightarrow> (Some e, D\<lparr>dk_db := db, dk_sessions := ss, dk_archives := files\<rparr>)
               | (None, files) \<Rightarrow>
                   (None, D\<lparr>dk_db := db, dk_sessions := ss, dk_archives := files,
                      dk_projects := filter (\<lambda>p. \<not> (p \<in> set pids \<and> hex_id p \<and> \<not> fl_stays F p)) (dk_projects D)\<rparr>)))))"

text \<open>
  The platform's rows go first, in one transaction. An exception of the purge is logged and raised
  again; what it left on disk belongs to nobody then.
\<close>

definition erase_account :: "Faults \<Rightarrow> ident \<Rightarrow> Platform \<Rightarrow> Disk \<Rightarrow> (py_error + (nat \<times> nat)) \<times> Platform \<times> Disk" where
  "erase_account F owner pf D =
     (case delete_owner owner pf of
        Inl e \<Rightarrow> (Inl e, pf, D)
      | Inr ((rids, pids), pf') \<Rightarrow>
        (case purge F rids pids D of
           (Some e, D') \<Rightarrow> (Inl e, pf', D')
         | (None, D') \<Rightarrow> (Inr (length rids, length pids), pf', D')))"

text \<open>
  \<open>purge_orphans\<close>: what no platform record owns and is old enough. \<open>old_run\<close>, \<open>old_project\<close> and
  \<open>old_archive\<close> tell whether the time stamp of a thing lies before the cutoff.
\<close>

definition orphan_runs :: "Codec \<Rightarrow> (Run \<Rightarrow> bool) \<Rightarrow> Platform \<Rightarrow> Db \<Rightarrow> py_error + ident list" where
  "orphan_runs cd old_run pf db =
     foldr (\<lambda>rid rest. bind_ok (if rid \<in> rr_id ` set (pf_runs pf) then Inr False
         else bind_ok (load cd rid db) (\<lambda>r. Inr (old_run r))) (\<lambda>orphan.
       bind_ok rest (\<lambda>rids. Inr (if orphan then rid # rids else rids)))) (run_ids db) (Inr [])"

definition purge_orphans :: "Codec \<Rightarrow> Faults \<Rightarrow> (Run \<Rightarrow> bool) \<Rightarrow> (ident \<Rightarrow> bool) \<Rightarrow> (string \<Rightarrow> bool) \<Rightarrow> Platform \<Rightarrow> Disk \<Rightarrow>
    (py_error + (nat \<times> nat \<times> nat)) \<times> Disk" where
  "purge_orphans cd F old_run old_project old_archive pf D =
     (let (runs, projects) = known_ids pf in
      case (case fl_open F of Some e \<Rightarrow> Inl e | None \<Rightarrow> orphan_runs cd old_run pf (dk_db D)) of
        Inl e \<Rightarrow> (Inl e, D)
      | Inr rids \<Rightarrow>
        (let pids = filter (\<lambda>p. hex_id p \<and> p \<notin> projects \<and> old_project p) (dk_projects D);
             names = filter (\<lambda>n. takeWhile (\<lambda>c. c \<noteq> CHR ''.'') n \<notin> runs \<and> old_archive n) (filter (contains ''.tar.gz'') (map fst (dk_archives D)))
         in case purge F rids pids D of
              (Some e, D1) \<Rightarrow> (Inl e, D1)
            | (None, D1) \<Rightarrow>
              (case unlink_all F names (dk_archives D1) of
                 (Some e, files) \<Rightarrow> (Inl e, D1\<lparr>dk_archives := files\<rparr>)
               | (None, files) \<Rightarrow> (Inr (length rids, length pids, length names), D1\<lparr>dk_archives := files\<rparr>))))"

end
