(* ===== verification/Upkeep_Claims.thy ===== *)
theory Upkeep_Claims
  imports Upkeep Delivery_Claims
begin

text \<open>
  What cleaning up and erasing leave alone: only finished work is retired, under a lease that keeps builds
  out and is given back; an erased account leaves nothing behind, and neither it nor the purge of orphans
  touches what somebody owns.
\<close>

text \<open>A platform with one run, its delivery ready, in a project whose repository is there.\<close>

definition demo_project0 :: Project where
  "demo_project0 = \<lparr>pj_id = ''p'', pj_owner_id = ''o'', pj_name = ''Demo'', pj_description = [], pj_settings = JObj [],
     pj_created_at = ''2026'', pj_updated_at = ''2026''\<rparr>"

definition upkept0 :: Platform where
  "upkept0 = empty_platform\<lparr>pf_projects := [demo_project0], pf_runs := [row0],
     pf_deliveries := [(''run'', \<lparr>dl_run_id = ''run'', dl_status = ''ready'', dl_manifest = JObj [], dl_archive_name = Some ''run.tar.gz'',
       dl_created_at = ''2026''\<rparr>)]\<rparr>"

definition upkeep0 :: Upkeep_Env where
  "upkeep0 = \<lparr>up_repo = (\<lambda>pid. Inr True), up_retire = (\<lambda>rid. Inr ()), up_prune = (\<lambda>pid. Inr 0)\<rparr>"

section \<open>Maintenance\<close>

definition same_rows :: "Platform \<Rightarrow> Platform \<Rightarrow> bool" where
  "same_rows pf pf' \<longleftrightarrow> pf_runs pf' = pf_runs pf \<and> pf_jobs pf' = pf_jobs pf \<and> pf_projects pf' = pf_projects pf \<and>
     pf_deliveries pf' = pf_deliveries pf"

lemma same_rows_refl [simp]: "same_rows pf pf"
  by (simp add: same_rows_def)

lemma same_rows_trans: "same_rows pf pf1 \<Longrightarrow> same_rows pf1 pf2 \<Longrightarrow> same_rows pf pf2"
  by (simp add: same_rows_def)

lemma same_rows_ops [simp]:
  "same_rows pf (mark_retired rid t pf)" "same_rows pf (release_project pid holder pf)"
  "same_rows pf (snd (prune_rate_events cutoff pf))" "same_rows pf (snd (acquire_project pid holder seconds now pf))"
  by (simp_all add: same_rows_def mark_retired_def release_project_def prune_rate_events_def acquire_project_def split: option.split)

lemma same_rows_finished: "same_rows pf pf' \<Longrightarrow> run_finished cd db pf' row = run_finished cd db pf row"
  unfolding run_finished_def same_rows_def delivery_def by (elim conjE) (simp only:)

lemma same_rows_running: "same_rows pf pf' \<Longrightarrow> project_running pid pf' = project_running pid pf"
  by (simp add: project_running_def project_of_def run_by_id_def same_rows_def)

lemma leases_marked [simp]: "pf_leases (mark_retired rid t pf) = pf_leases pf"
  by (simp add: mark_retired_def)

text \<open>What is to be retired belongs to its project and is finished.\<close>

definition due_rows :: "Codec \<Rightarrow> Db \<Rightarrow> Platform \<Rightarrow> RunRecord list \<Rightarrow> (ident, ident list) dict \<Rightarrow> bool" where
  "due_rows cd db pf rows retire \<longleftrightarrow> (\<forall>pid rids rid. map_of retire pid = Some rids \<longrightarrow> rid \<in> set rids \<longrightarrow>
     (\<exists>row \<in> set rows. rr_id row = rid \<and> rr_project_id row = pid \<and> run_finished cd db pf row = Inr True))"

lemma due_rows_add:
  assumes "due_rows cd db pf rows retire" and "row \<in> set rows" and "run_finished cd db pf row = Inr True"
  shows "due_rows cd db pf rows (AList.update (rr_project_id row)
    ((case map_of retire (rr_project_id row) of None \<Rightarrow> [] | Some ids \<Rightarrow> ids) @ [rr_id row]) retire)"
  unfolding due_rows_def
proof (intro allI impI)
  fix pid rids rid
  assume at: "map_of (AList.update (rr_project_id row)
      ((case map_of retire (rr_project_id row) of None \<Rightarrow> [] | Some ids \<Rightarrow> ids) @ [rr_id row]) retire) pid = Some rids"
    and mem: "rid \<in> set rids"
  show "\<exists>row \<in> set rows. rr_id row = rid \<and> rr_project_id row = pid \<and> run_finished cd db pf row = Inr True"
  proof (cases "pid = rr_project_id row \<and> rid = rr_id row")
    case True
    with assms(2,3) show ?thesis by blast
  next
    case False
    with at mem have "\<exists>rids'. map_of retire pid = Some rids' \<and> rid \<in> set rids'"
      by (cases "map_of retire (rr_project_id row)") (auto split: if_splits)
    with assms(1) show ?thesis unfolding due_rows_def by blast
  qed
qed

lemma collect_due:
  assumes "collect cd db t rest retire pf1 = (res, pf2)" and "same_rows pf pf1" and "set rest \<subseteq> set rows"
    and "due_rows cd db pf rows retire"
  shows "same_rows pf pf2 \<and> pf_leases pf2 = pf_leases pf1 \<and> (\<forall>retire'. res = Inr retire' \<longrightarrow> due_rows cd db pf rows retire')"
  using assms
proof (induct rest arbitrary: retire pf1)
  case Nil
  then show ?case by auto
next
  case (Cons row rest)
  have eq: "run_finished cd db pf1 row = run_finished cd db pf row" by (rule same_rows_finished[OF Cons.prems(2)])
  have sub: "set rest \<subseteq> set rows" "row \<in> set rows" using Cons.prems(3) by auto
  consider (gone) k where "run_finished cd db pf row = Inl (KeyError k)"
    | (bad) e where "run_finished cd db pf row = Inl e" "\<forall>k. e \<noteq> KeyError k"
    | (yes) "run_finished cd db pf row = Inr True" | (no) "run_finished cd db pf row = Inr False"
    by (cases "run_finished cd db pf row") auto
  then show ?case
  proof cases
    case gone
    with Cons.prems(1) eq have "collect cd db t rest retire (mark_retired (rr_id row) t pf1) = (res, pf2)" by simp
    from Cons.hyps[OF this same_rows_trans[OF Cons.prems(2) same_rows_ops(1)] sub(1) Cons.prems(4)] show ?thesis
      by (simp add: leases_marked)
  next
    case bad
    with Cons.prems eq show ?thesis by (cases e) auto
  next
    case yes
    with Cons.prems(1) eq have "collect cd db t rest (AList.update (rr_project_id row)
      ((case map_of retire (rr_project_id row) of None \<Rightarrow> [] | Some ids \<Rightarrow> ids) @ [rr_id row]) retire) pf1 = (res, pf2)" by simp
    from Cons.hyps[OF this Cons.prems(2) sub(1) due_rows_add[OF Cons.prems(4) sub(2) yes]] show ?thesis .
  next
    case no
    with Cons.prems(1) eq have "collect cd db t rest retire pf1 = (res, pf2)" by simp
    from Cons.hyps[OF this Cons.prems(2) sub(1) Cons.prems(4)] show ?thesis .
  qed
qed

lemma retire_all_only:
  "retire_all E t rids pf gone n = (fine, pf', gone', n') \<Longrightarrow>
     set gone' \<subseteq> set gone \<union> set rids \<and> same_rows pf pf' \<and> pf_leases pf' = pf_leases pf"
proof (induct rids arbitrary: pf gone n)
  case Nil
  then show ?case by simp
next
  case (Cons rid rids)
  show ?case
  proof (cases "up_retire E rid")
    case (Inl e)
    with Cons.prems show ?thesis by auto
  next
    case (Inr u)
    with Cons.prems have "retire_all E t rids (mark_retired rid t pf) (gone @ [rid]) (Suc n) = (fine, pf', gone', n')" by simp
    from Cons.hyps[OF this] same_rows_trans[of pf "mark_retired rid t pf" pf'] show ?thesis
      by auto
  qed
qed

definition unleased :: "ident \<Rightarrow> Platform \<Rightarrow> bool" where
  "unleased holder pf \<longleftrightarrow> (\<forall>l \<in> set (pf_leases pf). fst (snd l) \<noteq> holder)"

lemma set_dict_update: "set (AList.update k v d) \<subseteq> insert (k, v) (set d)"
  by (induct d) auto

lemma lease_cycle:
  assumes un: "unleased holder pf" and acq: "acquire_project pid holder seconds now pf = (held, pf1)"
    and same: "pf_leases pf2 = pf_leases pf1"
  shows "unleased holder (release_project pid holder pf2)"
proof -
  have "pf_leases pf1 = pf_leases pf \<or> pf_leases pf1 = AList.update pid (holder, now + seconds) (pf_leases pf)"
    using acq by (auto simp: acquire_project_def split: if_splits)
  then have "set (pf_leases pf2) \<subseteq> insert (pid, holder, now + seconds) (set (pf_leases pf))"
    using same set_dict_update[of pid "(holder, now + seconds)" "pf_leases pf"] by auto
  then show ?thesis using un unfolding unleased_def release_project_def by fastforce
qed

lemma clean_projects_only:
  assumes "clean_projects E t holder now retire pids pf gone s = (res, pf', gone')" and "unleased holder pf"
    and "same_rows pf0 pf"
  shows "same_rows pf0 pf' \<and> unleased holder pf' \<and>
    (\<forall>rid \<in> set gone'. rid \<in> set gone \<or> (\<exists>pid rids. map_of retire pid = Some rids \<and> rid \<in> set rids \<and> \<not> project_running pid pf0))"
  using assms
proof (induct pids arbitrary: pf gone s)
  case Nil
  then show ?case by simp
next
  case (Cons pid pids)
  obtain held pf1 where acq: "acquire_project pid holder 900 now pf = (held, pf1)" by (cases "acquire_project pid holder 900 now pf")
  have rows1: "same_rows pf0 pf1" using same_rows_trans[OF Cons.prems(3) same_rows_ops(4)] acq by (metis snd_conv)
  consider (bad) e where "up_repo E pid = Inl e" | (none) "up_repo E pid = Inr False"
    | (busy) "up_repo E pid = Inr True" "\<not> held" | (clean) "up_repo E pid = Inr True" held
    by (cases "up_repo E pid") auto
  then show ?case
  proof cases
    case bad
    with Cons.prems show ?thesis by auto
  next
    case none
    with Cons.prems(1) have "clean_projects E t holder now retire pids pf gone s = (res, pf', gone')" by simp
    from Cons.hyps[OF this Cons.prems(2,3)] show ?thesis .
  next
    case busy
    with Cons.prems(1) acq have "clean_projects E t holder now retire pids pf1 gone
      (s\<lparr>us_projects_skipped := us_projects_skipped s + 1\<rparr>) = (res, pf', gone')" by simp
    moreover have "pf1 = pf" using acq busy by (auto simp: acquire_project_def split: if_splits)
    ultimately show ?thesis using Cons.hyps Cons.prems(2,3) by blast
  next
    case clean
    define rids where "rids = (case map_of retire pid of None \<Rightarrow> [] | Some ids \<Rightarrow> ids)"
    obtain pf2 gone2 s2 where c: "clean_project E t rids pid pf1 gone s = (pf2, gone2, s2)" by (metis prod_cases3)
    with clean Cons.prems(1) acq have rest: "clean_projects E t holder now retire pids (release_project pid holder pf2) gone2 s2 =
      (res, pf', gone')" by (simp add: rids_def)
    from c obtain fine n where ra: "retire_all E t rids pf1 gone (us_runs_retired s) = (fine, pf2, gone2, n)"
      by (auto simp: clean_project_def Let_def split: prod.splits)
    note R = retire_all_only[OF ra]
    have idle: "\<not> project_running pid pf0" using acq clean(2) same_rows_running[OF Cons.prems(3)]
      by (auto simp: acquire_project_def split: if_splits)
    have "same_rows pf0 (release_project pid holder pf2)"
      using R same_rows_trans[OF rows1] same_rows_trans[OF _ same_rows_ops(2)] by blast
    from Cons.hyps[OF rest lease_cycle[OF Cons.prems(2) acq] this] R have
      ih: "same_rows pf0 pf'" "unleased holder pf'" "\<forall>rid \<in> set gone'. rid \<in> set gone2 \<or>
        (\<exists>pid rids. map_of retire pid = Some rids \<and> rid \<in> set rids \<and> \<not> project_running pid pf0)" by auto
    have "rid \<in> set gone \<or> (\<exists>pid rids. map_of retire pid = Some rids \<and> rid \<in> set rids \<and> \<not> project_running pid pf0)"
      if "rid \<in> set gone2" for rid
    proof (cases "rid \<in> set gone")
      case False
      with that R have "rid \<in> set rids" by auto
      with idle show ?thesis by (auto simp: rids_def split: option.splits)
    qed simp
    with ih show ?thesis by blast
  qed
qed

text \<open>
  C33 (safety). A maintenance pass retires the workspaces of a run only when nothing can need them: the run
  belongs to a project none of whose jobs runs, and the kernel has closed it, with the delivery ready if it
  was completed. No run, job, project or delivery changes, and every lease the pass took is given back,
  also when the pass ends with an exception.
\<close>

theorem maintenance_retires_only_finished_runs:
  assumes "run_maintenance cd E t holder now db pf = (res, pf', gone)" and "unleased holder pf"
  shows "same_rows pf pf' \<and> unleased holder pf' \<and>
    (\<forall>rid \<in> set gone. \<exists>row r. row \<in> set (unretired_runs 1000 pf) \<and> rr_id row = rid \<and>
       \<not> project_running (rr_project_id row) pf \<and> load cd rid db = Inr r \<and> run_status r \<noteq> ''active'' \<and>
       (run_status r = ''completed'' \<longrightarrow> (\<exists>d. delivery rid pf = Some d \<and> dl_status d = ''ready'')))"
proof -
  obtain col pf1 where c: "collect cd db t (unretired_runs 1000 pf) [] pf = (col, pf1)"
    by (cases "collect cd db t (unretired_runs 1000 pf) [] pf")
  have "due_rows cd db pf (unretired_runs 1000 pf) []" by (simp add: due_rows_def)
  from collect_due[OF c same_rows_refl subset_refl this]
  have C: "same_rows pf pf1" "unleased holder pf1"
    and due: "\<And>retire. col = Inr retire \<Longrightarrow> due_rows cd db pf (unretired_runs 1000 pf) retire"
    using assms(2) by (auto simp: unleased_def)
  show ?thesis
  proof (cases col)
    case (Inl e)
    with assms(1) c C show ?thesis by (simp add: run_maintenance_def)
  next
    case (Inr retire)
    obtain res2 pf2 where cl: "clean_projects E t holder now retire (sorted_set (map pj_id (pf_projects pf1))) pf1 []
        \<lparr>us_runs_retired = 0, us_deps_pruned = 0, us_projects_skipped = 0, us_rates_pruned = 0\<rparr> = (res2, pf2, gone)"
      and pf': "pf' = pf2 \<or> pf' = snd (prune_rate_events (now - 86400) pf2)"
      using assms(1) c Inr by (auto simp: run_maintenance_def Let_def split: prod.splits sum.splits)
    note P = clean_projects_only[OF cl C(2,1)]
    have "same_rows pf pf'" using P pf' same_rows_trans[OF _ same_rows_ops(3)] by blast
    moreover have "unleased holder pf'" using P pf' by (auto simp: unleased_def prune_rate_events_def)
    moreover have "\<exists>row r. row \<in> set (unretired_runs 1000 pf) \<and> rr_id row = rid \<and>
       \<not> project_running (rr_project_id row) pf \<and> load cd rid db = Inr r \<and> run_status r \<noteq> ''active'' \<and>
       (run_status r = ''completed'' \<longrightarrow> (\<exists>d. delivery rid pf = Some d \<and> dl_status d = ''ready''))"
      if gone: "rid \<in> set gone" for rid
    proof -
      from P gone obtain pid rids where at: "map_of retire pid = Some rids" "rid \<in> set rids" "\<not> project_running pid pf" by auto
      with due[OF Inr] obtain row where row: "row \<in> set (unretired_runs 1000 pf)" "rr_id row = rid" "rr_project_id row = pid"
        and fin: "run_finished cd db pf row = Inr True" unfolding due_rows_def by blast
      from fin row(2) obtain r where "load cd rid db = Inr r" "run_status r \<noteq> ''active''"
        "run_status r = ''completed'' \<longrightarrow> (\<exists>d. delivery rid pf = Some d \<and> dl_status d = ''ready'')"
        by (auto simp: run_finished_def bind_ok_Inr_iff split: if_splits option.splits)
      with row at(3) show ?thesis by blast
    qed
    ultimately show ?thesis by blast
  qed
qed

theorem maintenance_retires_only_finished_runs_witness:
  "\<exists>pf' gone db. run_maintenance codec0 upkeep0 ''now'' ''m'' 100 db upkept0 = (Inr \<lparr>us_runs_retired = 1, us_deps_pruned = 0,
     us_projects_skipped = 0, us_rates_pruned = 0\<rparr>, pf', gone) \<and> gone = [''run''] \<and> unleased ''m'' pf'"
proof -
  have "plain_run (after0 closing0)" using closed0_facts by (simp add: plain_run_def)
  from stored_run[OF after0_reachable this] obtain db n where
    "load codec0 (run_id (after0 closing0)) db = Inr (saved_run (after0 closing0) None n)" by blast
  then have "\<exists>r. load codec0 ''run'' db = Inr r \<and> run_status r = ''completed''"
    using closed0_facts by (simp add: saved_run_def)
  then obtain r where db: "load codec0 ''run'' db = Inr r" "run_status r = ''completed''" by blast
  obtain res pf' gone where m: "run_maintenance codec0 upkeep0 ''now'' ''m'' 100 db upkept0 = (res, pf', gone)" by (metis prod_cases3)
  have "unretired_runs 1000 upkept0 = [row0]"
    by (simp add: unretired_runs_def upkept0_def empty_platform_def limited_def)
  moreover have "run_finished codec0 db upkept0 row0 = Inr True" using db
    by (simp add: run_finished_def row0_def upkept0_def delivery_def)
  ultimately have "res = Inr \<lparr>us_runs_retired = 1, us_deps_pruned = 0, us_projects_skipped = 0, us_rates_pruned = 0\<rparr> \<and> gone = [''run'']"
    using m by (auto simp: run_maintenance_def upkept0_def upkeep0_def demo_project0_def row0_def empty_platform_def clean_project_def
        acquire_project_def project_running_def release_project_def prune_rate_events_def mark_retired_def sorted_set_def Let_def)
  moreover have "unleased ''m'' upkept0" by (simp add: unleased_def upkept0_def empty_platform_def)
  ultimately show ?thesis using m maintenance_retires_only_finished_runs[OF m] by blast
qed

section \<open>Erasing\<close>

lemma map_of_filter_keys: "map_of (filter (\<lambda>a. Q (fst a)) rows) k = (if Q k then map_of rows k else None)"
  by (induct rows) auto

lemma load_delete_run: "load cd k (snd (delete_run rid db)) = (if k = rid then Inl (KeyError k) else load cd k db)"
proof (cases "k = rid")
  case True
  then show ?thesis by (simp add: load_def delete_run_def map_of_filter_keys[where Q = "\<lambda>n. n \<noteq> rid"])
next
  case False
  then have "filter (\<lambda>row. fst row \<noteq> rid \<and> fst row = k) rows = filter (\<lambda>row. fst row = k) rows" for rows :: "(ident \<times> int \<times> json) list"
    by (intro filter_cong) auto
  then have events: "event_rows k (snd (delete_run rid db)) = event_rows k db" by (simp add: event_rows_def delete_run_def)
  have rows: "map_of (db_runs (snd (delete_run rid db))) k = map_of (db_runs db) k"
    using False by (simp add: delete_run_def map_of_filter_keys[where Q = "\<lambda>n. n \<noteq> rid"])
  show ?thesis unfolding load_def events rows using False by (rule if_not_P[symmetric])
qed

lemma delete_runs_load:
  "delete_runs F rids db = (err, db') \<Longrightarrow>
     (k \<notin> set rids \<longrightarrow> load cd k db' = load cd k db) \<and>
     (load cd k db = Inl (KeyError k) \<longrightarrow> load cd k db' = Inl (KeyError k)) \<and>
     (err = None \<longrightarrow> k \<in> set rids \<longrightarrow> load cd k db' = Inl (KeyError k))"
proof (induction rids arbitrary: db)
  case (Cons rid rids)
  show ?case
  proof (cases "fl_delete F rid")
    case None
    with Cons.prems have "delete_runs F rids (snd (delete_run rid db)) = (err, db')" by simp
    from Cons.IH[OF this] show ?thesis by (auto simp: load_delete_run)
  next
    case (Some e)
    with Cons.prems show ?thesis by auto
  qed
qed simp

lemma unlinked:
  "unlink_all F names files = (err, files') \<Longrightarrow>
     (n \<notin> set names \<longrightarrow> map_of files' n = map_of files n) \<and>
     (map_of files n = None \<longrightarrow> map_of files' n = None) \<and>
     (err = None \<longrightarrow> n \<in> set names \<longrightarrow> map_of files' n = None)"
proof (induction names arbitrary: files)
  case (Cons name names)
  show ?case
  proof (cases "fl_unlink F name")
    case None
    with Cons.prems have "unlink_all F names (filter (\<lambda>a. fst a \<noteq> name) files) = (err, files')" by simp
    from Cons.IH[OF this] show ?thesis by (auto simp: map_of_filter_keys[where Q = "\<lambda>n. n \<noteq> name"])
  next
    case (Some e)
    with Cons.prems show ?thesis by auto
  qed
qed simp

text \<open>The files a purge may unlink.\<close>

definition archive_of :: "ident set \<Rightarrow> string \<Rightarrow> bool" where
  "archive_of runs n \<longleftrightarrow> (\<exists>rid \<in> runs. n = rid @ ''.tar.gz'' \<or> n = rid @ ''.tar.gz.tmp'')"

lemma archive_names: "rid @ ''.tar.gz'' \<noteq> k @ ''.tar.gz.tmp''"
proof
  assume "rid @ ''.tar.gz'' = k @ ''.tar.gz.tmp''"
  from arg_cong[OF this, of rev] show False by simp
qed

lemma archive_of_run [simp]: "archive_of runs (rid @ ''.tar.gz'') \<longleftrightarrow> rid \<in> runs"
  using archive_names by (auto simp: archive_of_def)

lemma archive_set: "n \<in> set (concat (map (\<lambda>rid. [rid @ ''.tar.gz'', rid @ ''.tar.gz.tmp'']) rids)) \<longleftrightarrow> archive_of (set rids) n"
  by (auto simp: archive_of_def)

text \<open>What a purge leaves as it was, wherever it stops, and what it has removed when it did not.\<close>

definition spares :: "ident set \<Rightarrow> ident set \<Rightarrow> Codec \<Rightarrow> Disk \<Rightarrow> Disk \<Rightarrow> bool" where
  "spares runs projects cd D D' \<longleftrightarrow>
     (\<forall>rid. rid \<notin> runs \<longrightarrow> load cd rid (dk_db D') = load cd rid (dk_db D)) \<and>
     filter (\<lambda>s. fst s \<notin> runs) (dk_sessions D') = filter (\<lambda>s. fst s \<notin> runs) (dk_sessions D) \<and>
     (\<forall>n. \<not> archive_of runs n \<longrightarrow> map_of (dk_archives D') n = map_of (dk_archives D) n) \<and>
     filter (\<lambda>p. p \<notin> projects) (dk_projects D') = filter (\<lambda>p. p \<notin> projects) (dk_projects D)"

definition purged :: "Faults \<Rightarrow> ident set \<Rightarrow> ident set \<Rightarrow> Codec \<Rightarrow> Disk \<Rightarrow> bool" where
  "purged F runs projects cd D' \<longleftrightarrow>
     (\<forall>rid \<in> runs. load cd rid (dk_db D') = Inl (KeyError rid) \<and> rid \<notin> fst ` set (dk_sessions D')) \<and>
     (\<forall>n. archive_of runs n \<longrightarrow> map_of (dk_archives D') n = None) \<and>
     (\<forall>p \<in> projects. hex_id p \<longrightarrow> p \<in> set (dk_projects D') \<longrightarrow> fl_stays F p)"

lemma purge_sessions_cases:
  "purge_sessions F rids ss = (err, ss') \<Longrightarrow>
     filter (\<lambda>s. fst s \<notin> set rids) ss' = filter (\<lambda>s. fst s \<notin> set rids) ss \<and>
     (err = None \<longrightarrow> (\<forall>rid \<in> set rids. rid \<notin> fst ` set ss'))"
  by (auto simp: purge_sessions_def split: if_splits option.splits)

lemma purge_cases:
  assumes "purge F rids pids D = (err, D')"
  shows "spares (set rids) (set pids) cd D D' \<and> (err = None \<longrightarrow> purged F (set rids) (set pids) cd D')"
proof -
  let ?names = "concat (map (\<lambda>rid. [rid @ ''.tar.gz'', rid @ ''.tar.gz.tmp'']) rids)"
  obtain e1 db where d: "delete_runs F rids (dk_db D) = (e1, db)" by (cases "delete_runs F rids (dk_db D)")
  obtain e2 ss where s: "purge_sessions F rids (dk_sessions D) = (e2, ss)" by (cases "purge_sessions F rids (dk_sessions D)")
  obtain e3 files where u: "unlink_all F ?names (dk_archives D) = (e3, files)" by (cases "unlink_all F ?names (dk_archives D)")
  note D = delete_runs_load[OF d, where cd = cd] and S = purge_sessions_cases[OF s] and U = unlinked[OF u, unfolded archive_set]
  note parts = purge_def d s u
  show ?thesis
  proof (cases "fl_open F")
    case (Some e)
    with assms show ?thesis by (auto simp: parts spares_def)
  next
    case opened: None
    show ?thesis
    proof (cases e1)
      case (Some e)
      with opened assms D show ?thesis by (auto simp: parts spares_def)
    next
      case deleted: None
      show ?thesis
      proof (cases e2)
        case (Some e)
        with opened deleted assms D S show ?thesis by (auto simp: parts spares_def)
      next
        case forgotten: None
        show ?thesis
        proof (cases e3)
          case (Some e)
          with opened deleted forgotten assms D S U show ?thesis by (auto simp: parts spares_def archive_set)
        next
          case None
          with opened deleted forgotten assms have at: "err = None" "D' = D\<lparr>dk_db := db, dk_sessions := ss, dk_archives := files,
             dk_projects := filter (\<lambda>p. \<not> (p \<in> set pids \<and> hex_id p \<and> \<not> fl_stays F p)) (dk_projects D)\<rparr>"
            by (simp_all add: parts)
          have "filter (\<lambda>p. p \<notin> set pids) (dk_projects D') = filter (\<lambda>p. p \<notin> set pids) (dk_projects D)"
            unfolding at by (auto intro!: filter_cong)
          with D S U at deleted forgotten None show ?thesis by (simp add: spares_def purged_def archive_set)
        qed
      qed
    qed
  qed
qed

text \<open>The rows of the platform that belong to others than \<open>owner\<close>, whose runs and projects these are.\<close>

definition rows_of_others :: "ident \<Rightarrow> ident set \<Rightarrow> ident set \<Rightarrow> Platform \<Rightarrow> Platform" where
  "rows_of_others owner runs projects pf = pf\<lparr>
     pf_projects := filter (\<lambda>p. pj_owner_id p \<noteq> owner) (pf_projects pf),
     pf_runs := filter (\<lambda>r. rr_owner_id r \<noteq> owner) (pf_runs pf),
     pf_jobs := filter (\<lambda>j. jb_run_id j \<notin> runs) (pf_jobs pf),
     pf_publications := filter (\<lambda>p. pb_run_id p \<notin> runs \<and> pb_owner_id p \<noteq> owner) (pf_publications pf),
     pf_workflow := filter (\<lambda>w. fst w \<notin> runs) (pf_workflow pf),
     pf_deliveries := filter (\<lambda>d. fst d \<notin> runs) (pf_deliveries pf),
     pf_retired := filter (\<lambda>r. fst r \<notin> runs) (pf_retired pf),
     pf_rates := filter (\<lambda>e. re_owner_id e \<noteq> owner) (pf_rates pf),
     pf_leases := filter (\<lambda>l. fst l \<notin> projects) (pf_leases pf)\<rparr>"


lemma rows_of_others_twice [simp]:
  "rows_of_others owner runs projects (rows_of_others owner runs projects pf) = rows_of_others owner runs projects pf"
  by (simp add: rows_of_others_def)




text \<open>An account whose one run is closed, beside a project of someone else, on a disk with both.\<close>

definition hex0 :: ident where
  "hex0 = replicate 32 CHR ''a''"

definition foreign0 :: ident where
  "foreign0 = replicate 32 CHR ''b''"

definition erased0 :: Platform where
  "erased0 = empty_platform\<lparr>pf_projects := [demo_project0\<lparr>pj_id := hex0\<rparr>, demo_project0\<lparr>pj_id := foreign0, pj_owner_id := ''x''\<rparr>],
     pf_runs := [row0\<lparr>rr_project_id := hex0\<rparr>]\<rparr>"

definition disk0 :: Disk where
  "disk0 = \<lparr>dk_db = \<lparr>db_runs = [], db_events = [], db_backups = []\<rparr>, dk_sessions = [(''run'', ''hello'')],
     dk_archives = [(''run.tar.gz'', []), (''other.tar.gz'', [])], dk_projects = [hex0, foreign0]\<rparr>"

definition no_faults :: Faults where
  "no_faults = \<lparr>fl_open = None, fl_delete = (\<lambda>r. None), fl_sessions = None, fl_unlink = (\<lambda>n. None), fl_stays = (\<lambda>p. False)\<rparr>"



section \<open>Orphans\<close>

text \<open>What the purge of orphans picks: nothing the platform owns, and nothing young.\<close>

lemma orphan_runs_Inr:
  assumes "orphan_runs cd old_run pf db = Inr rids" and "rid \<in> set rids"
  shows "rid \<notin> rr_id ` set (pf_runs pf) \<and> (\<exists>r. load cd rid db = Inr r \<and> old_run r)"
proof -
  have "foldr (\<lambda>rid rest. bind_ok (if rid \<in> rr_id ` set (pf_runs pf) then Inr False
         else bind_ok (load cd rid db) (\<lambda>r. Inr (old_run r))) (\<lambda>orphan.
       bind_ok rest (\<lambda>rids. Inr (if orphan then rid # rids else rids)))) ks (Inr []) = Inr rids \<Longrightarrow> rid \<in> set rids \<Longrightarrow>
     rid \<notin> rr_id ` set (pf_runs pf) \<and> (\<exists>r. load cd rid db = Inr r \<and> old_run r)" for ks
    by (induct ks arbitrary: rids) (auto simp: bind_ok_Inr_iff split: if_splits)
  with assms show ?thesis unfolding orphan_runs_def by blast
qed

text \<open>
  C35 (safety). The purge of orphans takes nothing that somebody owns, wherever it stops: the kernel's record of
  every run the platform knows, its sessions, its delivery archive and the directory of every project it
  knows are as they were, and so is every run that is not old enough, whoever it belongs to.
\<close>

theorem orphan_purge_spares_the_owned:
  assumes "purge_orphans cd F old_run old_project old_archive pf D = (res, D')"
  shows "(\<forall>rid \<in> rr_id ` set (pf_runs pf). load cd rid (dk_db D') = load cd rid (dk_db D) \<and>
       filter (\<lambda>s. fst s = rid) (dk_sessions D') = filter (\<lambda>s. fst s = rid) (dk_sessions D) \<and>
       (CHR ''.'' \<notin> set rid \<longrightarrow> map_of (dk_archives D') (rid @ ''.tar.gz'') = map_of (dk_archives D) (rid @ ''.tar.gz''))) \<and>
    (\<forall>pid \<in> pj_id ` set (pf_projects pf). pid \<in> set (dk_projects D') \<longleftrightarrow> pid \<in> set (dk_projects D)) \<and>
    (\<forall>rid r. load cd rid (dk_db D) = Inr r \<longrightarrow> \<not> old_run r \<longrightarrow> load cd rid (dk_db D') = Inr r)"
proof (cases "case fl_open F of Some e \<Rightarrow> Inl e | None \<Rightarrow> orphan_runs cd old_run pf (dk_db D)")
  case (Inl e)
  with assms have "D' = D" by (simp add: purge_orphans_def known_ids_def Let_def)
  then show ?thesis by simp
next
  case (Inr rids)
  then have rids: "orphan_runs cd old_run pf (dk_db D) = Inr rids" by (simp split: option.splits)
  define pids where "pids = filter (\<lambda>p. hex_id p \<and> p \<notin> pj_id ` set (pf_projects pf) \<and> old_project p) (dk_projects D)"
  define names where "names = filter (\<lambda>n. takeWhile (\<lambda>c. c \<noteq> CHR ''.'') n \<notin> rr_id ` set (pf_runs pf) \<and> old_archive n)
    (filter (contains ''.tar.gz'') (map fst (dk_archives D)))"
  obtain err D1 where p: "purge F rids pids D = (err, D1)" by (cases "purge F rids pids D")
  obtain err' files where u: "unlink_all F names (dk_archives D1) = (err', files)" by (cases "unlink_all F names (dk_archives D1)")
  have D': "D' = D1 \<or> D' = D1\<lparr>dk_archives := files\<rparr>"
    using assms p u unfolding purge_orphans_def known_ids_def Let_def Inr pids_def names_def by (auto split: option.splits)
  from purge_cases[OF p, of cd] have sp: "spares (set rids) (set pids) cd D D1" by blast
  have known: "rid \<notin> set rids" if "rid \<in> rr_id ` set (pf_runs pf)" for rid
    using orphan_runs_Inr[OF rids] that by blast
  have names: "takeWhile (\<lambda>c. c \<noteq> CHR ''.'') n \<notin> rr_id ` set (pf_runs pf)" if "n \<in> set names" for n
    using that by (simp add: names_def)
  have files: "map_of (dk_archives D') (rid @ ''.tar.gz'') = map_of (dk_archives D) (rid @ ''.tar.gz'')"
    if "rid \<in> rr_id ` set (pf_runs pf)" "CHR ''.'' \<notin> set rid" for rid
  proof -
    have "takeWhile (\<lambda>c. c \<noteq> CHR ''.'') (rid @ ''.tar.gz'') = rid" using that(2) by (simp add: takeWhile_tail takeWhile_append)
    with names that(1) have "rid @ ''.tar.gz'' \<notin> set names" by metis
    with unlinked[OF u] have "map_of files (rid @ ''.tar.gz'') = map_of (dk_archives D1) (rid @ ''.tar.gz'')" by blast
    moreover have "map_of (dk_archives D1) (rid @ ''.tar.gz'') = map_of (dk_archives D) (rid @ ''.tar.gz'')"
      using sp known[OF that(1)] by (simp add: spares_def)
    ultimately show ?thesis using D' by auto
  qed
  have db: "load cd rid (dk_db D') = load cd rid (dk_db D)" if "rid \<in> rr_id ` set (pf_runs pf)" for rid
    using sp known[OF that] D' by (auto simp: spares_def)
  have sessions: "filter (\<lambda>s. fst s = rid) (dk_sessions D') = filter (\<lambda>s. fst s = rid) (dk_sessions D)"
    if "rid \<in> rr_id ` set (pf_runs pf)" for rid
  proof -
    have pick: "filter (\<lambda>s. fst s = rid) ss = filter (\<lambda>s. fst s = rid) (filter (\<lambda>s. fst s \<notin> set rids) ss)"
      for ss :: "(ident \<times> string) list"
      using known[OF that] by (auto intro!: filter_cong)
    have "dk_sessions D' = dk_sessions D1" using D' by auto
    with sp pick[of "dk_sessions D1"] pick[of "dk_sessions D"] show ?thesis by (simp add: spares_def)
  qed
  have dirs: "pid \<in> set (dk_projects D') \<longleftrightarrow> pid \<in> set (dk_projects D)" if "pid \<in> pj_id ` set (pf_projects pf)" for pid
  proof -
    have "pid \<notin> set pids" using that by (simp add: pids_def)
    moreover from sp have "set (filter (\<lambda>p. p \<notin> set pids) (dk_projects D1)) = set (filter (\<lambda>p. p \<notin> set pids) (dk_projects D))"
      by (simp add: spares_def)
    moreover have "dk_projects D' = dk_projects D1" using D' by auto
    ultimately show ?thesis by auto
  qed
  have young: "load cd rid (dk_db D') = Inr r" if "load cd rid (dk_db D) = Inr r" "\<not> old_run r" for rid r
  proof -
    have "rid \<notin> set rids" using orphan_runs_Inr[OF rids, of rid] that by auto
    with sp that(1) D' show ?thesis by (auto simp: spares_def)
  qed
  show ?thesis by (intro conjI ballI allI impI; (rule files | rule db | rule sessions | rule dirs | rule young); assumption)
qed

lemma orphans0:
  "(\<lambda>(n, D). (n, map fst (dk_archives D), dk_projects D))
     (purge_orphans codec0 no_faults (\<lambda>r. True) (\<lambda>p. True) (\<lambda>n. True) erased0 (disk0\<lparr>dk_projects := [hex0, replicate 32 CHR ''c'']\<rparr>)) =
   (Inr (0, 1, 1), [''run.tar.gz''], [hex0])"
  by code_simp

theorem orphan_purge_spares_the_owned_witness:
  "\<exists>D'. purge_orphans codec0 no_faults (\<lambda>r. True) (\<lambda>p. True) (\<lambda>n. True) erased0 (disk0\<lparr>dk_projects := [hex0, replicate 32 CHR ''c'']\<rparr>) =
     (Inr (0, 1, 1), D') \<and> dk_projects D' = [hex0] \<and> map_of (dk_archives D') ''run.tar.gz'' = Some []"
proof -
  obtain n D' where p: "purge_orphans codec0 no_faults (\<lambda>r. True) (\<lambda>p. True) (\<lambda>n. True) erased0
      (disk0\<lparr>dk_projects := [hex0, replicate 32 CHR ''c'']\<rparr>) = (n, D')" by (rule prod.exhaust)
  with orphans0 have n: "n = Inr (0, 1, 1)" "dk_projects D' = [hex0]" by simp_all
  have "''run'' \<in> rr_id ` set (pf_runs erased0)" "CHR ''.'' \<notin> set ''run''" by (simp_all add: erased0_def row0_def)
  with orphan_purge_spares_the_owned[OF p] have
    "map_of (dk_archives D') (''run'' @ ''.tar.gz'') = map_of (dk_archives (disk0\<lparr>dk_projects := [hex0, replicate 32 CHR ''c'']\<rparr>)) (''run'' @ ''.tar.gz'')"
    by blast
  then have "map_of (dk_archives D') ''run.tar.gz'' = Some []" by (simp add: disk0_def)
  with p n show ?thesis by blast
qed

end
