(* ===== verification/Platform_Queue.thy ===== *)
theory Platform_Queue
  imports Platform_Steps
begin

text \<open>
  The job queue as its clients see it: a phase per run. The interface and its client lemmas are a
  locale, the platform store provides it, and every operation of the platform moves each run's phase
  along one small machine.
\<close>

section \<open>The interface\<close>

datatype phase = Idle | Queued | Executing ident

locale job_queue =
  fixes ok :: "'s \<Rightarrow> bool"
    and phase :: "'s \<Rightarrow> ident \<Rightarrow> phase"
    and enqueue :: "ident \<Rightarrow> string \<Rightarrow> string \<Rightarrow> ident \<Rightarrow> string \<Rightarrow> 's \<Rightarrow> py_error + ((Job \<times> bool) \<times> 's)"
    and claim :: "ident \<Rightarrow> rat \<Rightarrow> string \<Rightarrow> rat \<Rightarrow> 's \<Rightarrow> Job option \<times> 's"
    and finish :: "ident \<Rightarrow> ident \<Rightarrow> string \<Rightarrow> string \<Rightarrow> string \<Rightarrow> string \<Rightarrow> 's \<Rightarrow> py_error + 's"
  assumes enqueue_law: "ok s \<Longrightarrow> enqueue rid kind m jid t s = Inr ((j, b), s') \<Longrightarrow>
      ok s' \<and> (b \<longleftrightarrow> phase s rid = Idle) \<and> phase s' = (if b then (phase s)(rid := Queued) else phase s)"
    and claim_law: "ok s \<Longrightarrow> claim w seconds t now s = (Some j, s') \<Longrightarrow>
      ok s' \<and> phase s (jb_run_id j) = Queued \<and> phase s' = (phase s)(jb_run_id j := Executing w)"
    and finish_law: "ok s \<Longrightarrow> finish jid w status outcome detail t s = Inr s' \<Longrightarrow>
      ok s' \<and> (phase s' = phase s \<or> (\<exists>rid. phase s rid = Executing w \<and> phase s' = (phase s)(rid := Idle)))"
begin

text \<open>Two requests to start the same run queue one job.\<close>

lemma second_request_joins:
  assumes "ok s" "enqueue rid kind m jid t s = Inr (x, s1)" "enqueue rid kind' m' jid' t' s1 = Inr ((k, b), s2)"
  shows "\<not> b"
proof -
  obtain j b1 where x: "x = (j, b1)" by (cases x)
  note one = enqueue_law[OF assms(1) assms(2)[unfolded x]]
  then have "phase s1 rid \<noteq> Idle" by (cases b1) simp_all
  with enqueue_law[OF conjunct1[OF one] assms(3)] show ?thesis by simp
qed

text \<open>What one worker claimed no other can claim, and no other's \<open>finish\<close> ends it.\<close>

lemma claims_differ:
  assumes "ok s" "claim w seconds t now s = (Some j, s1)" "claim w' seconds' t' now' s1 = (Some k, s2)"
  shows "jb_run_id k \<noteq> jb_run_id j"
  using claim_law[OF assms(1,2)] claim_law[OF _ assms(3)] by auto

lemma only_the_holder_finishes:
  assumes "ok s" "phase s rid = Executing v" "v \<noteq> w" "finish jid w status outcome detail t s = Inr s'"
  shows "phase s' rid = Executing v"
  using finish_law[OF assms(1,4)] assms(2,3) by auto

end

section \<open>Phases of the platform\<close>

definition job_phase :: "Job \<Rightarrow> phase" where
  "job_phase j = (if jb_status j = ''queued'' then Queued
     else if jb_status j = ''running'' then Executing (case jb_lease_owner j of None \<Rightarrow> [] | Some w \<Rightarrow> w) else Idle)"

definition phase_of :: "Platform \<Rightarrow> ident \<Rightarrow> phase" where
  "phase_of db rid = (case active_job rid db of None \<Rightarrow> Idle | Some j \<Rightarrow> job_phase j)"

lemma job_phase_Idle: "job_phase j = Idle \<longleftrightarrow> \<not> job_active j"
  by (auto simp: job_phase_def job_active_def JOB_ACTIVE_def)

lemma phase_Idle: "phase_of db rid = Idle \<longleftrightarrow> active_job rid db = None"
  by (auto simp: phase_of_def job_phase_Idle dest: active_job_Some split: option.splits)

lemma phase_active:
  assumes "platform_ok db" "j \<in> set (pf_jobs db)" "job_active j"
  shows "phase_of db (jb_run_id j) = job_phase j"
proof -
  have "active_job (jb_run_id j) db = Some j" using assms by (simp add: active_job_iff)
  then show ?thesis by (simp add: phase_of_def)
qed

text \<open>A change of rows that wakes no closed job moves exactly the phases of the jobs it changes.\<close>

lemma phase_update:
  assumes ok: "platform_ok db" and ok': "platform_ok (update_jobs P f db)"
    and f: "\<And>j. j \<in> set (pf_jobs db) \<Longrightarrow> P j \<Longrightarrow> jb_run_id (f j) = jb_run_id j \<and> (job_active (f j) \<longrightarrow> job_active j)"
  shows "phase_of (update_jobs P f db) rid = (case active_job rid db of None \<Rightarrow> Idle
    | Some j \<Rightarrow> if P j then job_phase (f j) else job_phase j)"
proof -
  let ?db = "update_jobs P f db"
  let ?g = "\<lambda>j. if P j then f j else j"
  have g: "jb_run_id (?g j) = jb_run_id j" "job_active (?g j) \<Longrightarrow> job_active j" if "j \<in> set (pf_jobs db)" for j
    using f[OF that] by (simp_all split: if_splits)
  have mem: "j' \<in> set (pf_jobs ?db) \<longleftrightarrow> (\<exists>j \<in> set (pf_jobs db). j' = ?g j)" for j'
    by (auto simp: update_jobs_def)
  have none: "phase_of ?db rid = Idle" if "\<And>j. j \<in> set (pf_jobs db) \<Longrightarrow> jb_run_id j = rid \<Longrightarrow> \<not> job_active (?g j)"
    unfolding phase_Idle active_job_None
  proof (intro ballI impI)
    fix j'
    assume "j' \<in> set (pf_jobs ?db)" and act: "job_active j'"
    then obtain j where j: "j \<in> set (pf_jobs db)" "j' = ?g j" by (auto simp only: mem)
    show "jb_run_id j' \<noteq> rid"
    proof
      assume "jb_run_id j' = rid"
      with j(2) g(1)[OF j(1)] have "jb_run_id j = rid" by simp
      from that[OF j(1) this] act j(2) show False by simp
    qed
  qed
  show ?thesis
  proof (cases "active_job rid db")
    case None
    have "phase_of ?db rid = Idle"
    proof (rule none)
      fix j
      assume "j \<in> set (pf_jobs db)" "jb_run_id j = rid"
      with None g(2)[of j] show "\<not> job_active (?g j)" unfolding active_job_None by blast
    qed
    with None show ?thesis by simp
  next
    case (Some j)
    from active_job_Some[OF Some] have j: "j \<in> set (pf_jobs db)" "job_active j" "jb_run_id j = rid" by simp_all
    show ?thesis
    proof (cases "job_active (?g j)")
      case True
      have "?g j \<in> set (pf_jobs ?db)" using j(1) mem by blast
      from phase_active[OF ok' this True] g(1)[OF j(1)] j(3) Some show ?thesis by simp
    next
      case False
      have "phase_of ?db rid = Idle"
      proof (rule none)
        fix k
        assume k: "k \<in> set (pf_jobs db)" "jb_run_id k = rid"
        show "\<not> job_active (?g k)"
        proof
          assume act: "job_active (?g k)"
          from jobs_okD(4)[OF platform_okD(4)[OF ok] k(1) j(1) g(2)[OF k(1) act] j(2)] k(2) j(3) have "k = j" by simp
          from act[unfolded this] False show False by contradiction
        qed
      qed
      moreover from False have "job_phase (?g j) = Idle" by (simp only: job_phase_Idle simp_thms)
      ultimately show ?thesis using Some by (auto split: if_splits)
    qed
  qed
qed

lemma phase_kept:
  assumes "platform_ok db" "platform_ok (update_jobs P f db)"
    and "\<And>j. j \<in> set (pf_jobs db) \<Longrightarrow> P j \<Longrightarrow> jb_run_id (f j) = jb_run_id j \<and> (job_active (f j) \<longrightarrow> job_active j)"
    and "\<And>j. j \<in> set (pf_jobs db) \<Longrightarrow> jb_run_id j = rid \<Longrightarrow> job_active j \<Longrightarrow> \<not> P j"
  shows "phase_of (update_jobs P f db) rid = phase_of db rid"
proof (cases "active_job rid db")
  case None
  with phase_update[OF assms(1-3), of rid] show ?thesis by (simp add: phase_of_def)
next
  case (Some j)
  then have "\<not> P j" using active_job_Some[OF Some] assms(4)[of j] by simp
  with Some phase_update[OF assms(1-3), of rid] show ?thesis by (simp add: phase_of_def)
qed

lemma phase_insert:
  assumes ok: "platform_ok db" and ok': "platform_ok db'" and idle: "active_job rid db = None"
    and db': "db' = db\<lparr>pf_jobs := pf_jobs db @ [queued_job jid rid kind message t]\<rparr>"
  shows "phase_of db' = (phase_of db)(rid := Queued)"
proof
  fix k
  show "phase_of db' k = ((phase_of db)(rid := Queued)) k"
  proof (cases "k = rid")
    case True
    let ?j = "queued_job jid rid kind message t"
    have "?j \<in> set (pf_jobs db')" by (simp add: db')
    from phase_active[OF ok' this] True show ?thesis by (simp add: job_phase_def)
  next
    case False
    have "active_job k db' = active_job k db" using False by (simp add: db' active_job_def)
    with False show ?thesis by (simp add: phase_of_def)
  qed
qed

lemma enqueue_phase:
  assumes ok: "platform_ok db" and enq: "enqueue rid kind m jid t db = Inr ((j, b), db')"
  shows "platform_ok db' \<and> (b \<longleftrightarrow> phase_of db rid = Idle) \<and>
    phase_of db' = (if b then (phase_of db)(rid := Queued) else phase_of db)"
proof -
  consider (active) k where "active_job rid db = Some k" "\<not> b" "db' = db"
    | (new) "active_job rid db = None" b "db' = db\<lparr>pf_jobs := pf_jobs db @ [queued_job jid rid kind m t]\<rparr>"
    using enq by (auto simp: enqueue_def Let_def bind_ok_Inr_iff insert_job_Inr split: if_splits option.splits)
  then show ?thesis
  proof cases
    case active
    with ok show ?thesis by (simp add: phase_Idle)
  next
    case new
    from phase_insert[OF ok enqueue_ok(1)[OF ok enq] new(1,3)] new(1,2) enqueue_ok(1)[OF ok enq]
    show ?thesis by (simp add: phase_Idle)
  qed
qed

lemma claim_phase:
  assumes ok: "platform_ok db" and cl: "claim w seconds t now db = (Some j, db')"
  shows "platform_ok db' \<and> phase_of db (jb_run_id j) = Queued \<and>
    phase_of db' = (phase_of db)(jb_run_id j := Executing w)"
  using assms
proof (rule claim_Some)
  fix row :: Job
  let ?f = "claimed_job w (now + seconds) t"
  let ?P = "\<lambda>k. jb_id k = jb_id row \<and> jb_status k = ''queued''"
  assume row: "(row :: Job) \<in> set (pf_jobs db)" "jb_status row = ''queued''" and j: "j = ?f row"
    and db': "db' = update_jobs ?P ?f db" and ok': "platform_ok db'" and mem: "j \<in> set (pf_jobs db')"
  have rid: "jb_run_id j = jb_run_id row" by (simp add: j)
  have "phase_of db (jb_run_id row) = Queued" using phase_active[OF ok row(1)] row(2) by (simp add: job_phase_def)
  moreover have "phase_of db' k = ((phase_of db)(jb_run_id row := Executing w)) k" for k
  proof (cases "k = jb_run_id row")
    case True
    with phase_active[OF ok' mem] show ?thesis by (simp add: rid job_phase_def) (simp add: j job_phase_def)
  next
    case False
    have "phase_of db' k = phase_of db k"
      unfolding db'
    proof (rule phase_kept[OF ok ok'[unfolded db']])
      fix i
      assume "i \<in> set (pf_jobs db)" "jb_run_id i = k"
      with False jobs_okD(6)[OF platform_okD(4)[OF ok] _ row(1), of i] show "\<not> ?P i" by auto
    qed simp
    with False show ?thesis by simp
  qed
  ultimately show ?thesis using ok' unfolding rid by blast
qed

lemma job_phase_running: "jb_status j = ''running'' \<Longrightarrow> jb_lease_owner j = Some w \<Longrightarrow> job_phase j = Executing w"
  by (simp add: job_phase_def)

lemma finish_phase:
  assumes ok: "platform_ok db" and fin: "finish jid w status outcome detail t db = Inr db'"
  shows "platform_ok db' \<and> (phase_of db' = phase_of db \<or>
    (\<exists>rid. phase_of db rid = Executing w \<and> phase_of db' = (phase_of db)(rid := Idle)))"
proof -
  let ?P = "\<lambda>j. jb_id j = jid \<and> jb_lease_owner j = Some w \<and> jb_status j = ''running''"
  let ?f = "finished_job status outcome detail t"
  from fin have st: "status \<in> {''succeeded'', ''failed'', ''cancelled''}" and db': "db' = update_jobs ?P ?f db"
    unfolding finish_Inr by simp_all
  have ok': "platform_ok db'" using finish_ok[OF ok fin] by blast
  have f: "jb_run_id (?f j) = jb_run_id j" "\<not> job_active (?f j)" for j
    using st by (auto simp: finished_job_def job_active_def JOB_ACTIVE_def)
  have up: "phase_of db' k = (case active_job k db of None \<Rightarrow> Idle | Some i \<Rightarrow> if ?P i then job_phase (?f i) else job_phase i)" for k
    unfolding db' by (rule phase_update[OF ok ok'[unfolded db']]) (simp add: f)
  show ?thesis
  proof (cases "\<exists>row \<in> set (pf_jobs db). ?P row")
    case True
    then obtain row where row: "row \<in> set (pf_jobs db)" "?P row" by blast
    have "phase_of db (jb_run_id row) = Executing w"
      using phase_active[OF ok row(1)] row(2) by (simp add: job_phase_running)
    moreover have "phase_of db' k = ((phase_of db)(jb_run_id row := Idle)) k" for k
    proof (cases "k = jb_run_id row")
      case True
      have "active_job k db = Some row" using row True by (simp add: active_job_iff[OF ok])
      with up[of k] row(2) True show ?thesis using f(2) by (simp add: job_phase_Idle)
    next
      case False
      have "phase_of db' k = phase_of db k"
        unfolding db'
      proof (rule phase_kept[OF ok ok'[unfolded db']])
        fix i
        assume "i \<in> set (pf_jobs db)" "jb_run_id i = k"
        with False row(2) jobs_okD(6)[OF platform_okD(4)[OF ok] _ row(1), of i] show "\<not> ?P i" by auto
      qed (simp add: f)
      with False show ?thesis by simp
    qed
    ultimately show ?thesis using ok' by blast
  next
    case False
    have "phase_of db' k = phase_of db k" for k
      unfolding db' by (rule phase_kept[OF ok ok'[unfolded db']]) (use False in \<open>auto simp: f\<close>)
    with ok' show ?thesis by blast
  qed
qed

interpretation platform_queue: job_queue platform_ok phase_of enqueue claim finish
  by unfold_locales (rule enqueue_phase claim_phase finish_phase; assumption)+

end
