(* ===== verification/Platform_Recovery.thy ===== *)
theory Platform_Recovery
  imports Platform_Queue
begin

text \<open>
  Reaping: what it does to the jobs whose workers fell silent, how many recoveries it creates, and the
  machine that every operation moves a run's phase along.
\<close>

section \<open>Reaping, row by row\<close>

lemma recoveries_interrupt [simp]:
  "recoveries rid (update_jobs P (interrupted_job t) db) = recoveries rid db"
proof -
  have "length (filter (\<lambda>j. jb_run_id j = rid \<and> jb_kind j = ''recover'') (map (\<lambda>j. if P j then interrupted_job t j else j) js)) =
      length (filter (\<lambda>j. jb_run_id j = rid \<and> jb_kind j = ''recover'') js)" for js
    by (induction js) (auto simp: interrupted_job_def)
  then show ?thesis by (simp add: recoveries_def update_jobs_def)
qed

lemma recoveries_insert:
  assumes "insert_job (queued_job jid rid ''recover'' [] t) db = Inr db'"
  shows "recoveries k db' = (if k = rid then Suc (recoveries k db) else recoveries k db)"
  using assms by (auto simp: insert_job_Inr recoveries_def)

text \<open>
  Of the running jobs exactly the given rows stop; a run's recoveries grow only below the cap; a
  reaped run ends idle or queued again, every other run keeps its phase.
\<close>

definition reaped :: "int \<Rightarrow> Job list \<Rightarrow> Platform \<Rightarrow> Platform \<Rightarrow> bool" where
  "reaped m rows db db' \<longleftrightarrow>
     {j \<in> set (pf_jobs db'). jb_status j = ''running''} = {j \<in> set (pf_jobs db). jb_status j = ''running''} - set rows \<and>
     (\<forall>row \<in> set rows. \<exists>t. interrupted_job t row \<in> set (pf_jobs db')) \<and>
     (\<forall>rid. recoveries rid db' \<le> max (recoveries rid db) (nat m)) \<and>
     (\<forall>rid. if rid \<in> jb_run_id ` set rows then phase_of db' rid \<in> {Idle, Queued} else phase_of db' rid = phase_of db rid)"

lemma interrupt_phase:
  assumes ok: "platform_ok db" and row: "row \<in> set (pf_jobs db)" "jb_status row = ''running''"
  shows "phase_of (update_jobs (\<lambda>j. jb_id j = jb_id row) (interrupted_job t) db) = (phase_of db)(jb_run_id row := Idle)"
proof
  fix rid
  let ?db = "update_jobs (\<lambda>j. jb_id j = jb_id row) (interrupted_job t) db"
  note one = interrupt_row[OF ok row, where t = t]
  show "phase_of ?db rid = ((phase_of db)(jb_run_id row := Idle)) rid"
  proof (cases "rid = jb_run_id row")
    case True
    with one(3) show ?thesis by (simp add: phase_Idle active_job_None)
  next
    case False
    have "phase_of ?db rid = phase_of db rid"
    proof (rule phase_kept[OF ok one(1)])
      fix j
      assume "j \<in> set (pf_jobs db)" "jb_run_id j = rid"
      with False jobs_okD(6)[OF platform_okD(4)[OF ok] _ row(1), of j] show "jb_id j \<noteq> jb_id row" by auto
    qed (simp add: interrupted_job_def job_active_def JOB_ACTIVE_def)
    with False show ?thesis by simp
  qed
qed

lemma interrupt_running:
  assumes ok: "platform_ok db" and row: "row \<in> set (pf_jobs db)"
  shows "{j \<in> set (pf_jobs (update_jobs (\<lambda>j. jb_id j = jb_id row) (interrupted_job t) db)). jb_status j = ''running''} =
      {j \<in> set (pf_jobs db). jb_status j = ''running''} - {row}"
    "j \<in> set (pf_jobs db) \<Longrightarrow> j \<noteq> row \<Longrightarrow>
      j \<in> set (pf_jobs (update_jobs (\<lambda>j. jb_id j = jb_id row) (interrupted_job t) db))"
    "interrupted_job t row \<in> set (pf_jobs (update_jobs (\<lambda>j. jb_id j = jb_id row) (interrupted_job t) db))"
proof -
  note js = platform_okD(4)[OF ok]
  have g: "(if jb_id j = jb_id row then interrupted_job t j else j) = (if j = row then interrupted_job t row else j)"
    if "j \<in> set (pf_jobs db)" for j using jobs_okD(6)[OF js that row] by auto
  have set: "set (pf_jobs (update_jobs (\<lambda>j. jb_id j = jb_id row) (interrupted_job t) db)) =
      (\<lambda>j. if j = row then interrupted_job t row else j) ` set (pf_jobs db)"
    unfolding update_jobs_def using g by (auto intro!: image_cong)
  have ns: "jb_status (interrupted_job t row) \<noteq> ''running''" by (simp add: interrupted_job_def)
  show "{j \<in> set (pf_jobs (update_jobs (\<lambda>j. jb_id j = jb_id row) (interrupted_job t) db)). jb_status j = ''running''} =
      {j \<in> set (pf_jobs db). jb_status j = ''running''} - {row}" unfolding set using ns by auto
  show "j \<in> set (pf_jobs db) \<Longrightarrow> j \<noteq> row \<Longrightarrow>
      j \<in> set (pf_jobs (update_jobs (\<lambda>j. jb_id j = jb_id row) (interrupted_job t) db))" unfolding set by auto
  show "interrupted_job t row \<in> set (pf_jobs (update_jobs (\<lambda>j. jb_id j = jb_id row) (interrupted_job t) db))"
    unfolding set using row by auto
qed

text \<open>The rows still to come, after one has been interrupted.\<close>

definition pending_rows :: "Job list \<Rightarrow> Platform \<Rightarrow> bool" where
  "pending_rows rows db \<longleftrightarrow> set rows \<subseteq> set (pf_jobs db) \<and> distinct (map jb_id rows) \<and>
     (\<forall>row \<in> set rows. jb_status row = ''running'')"

lemma pending_tail:
  assumes ok: "platform_ok db" and pend: "pending_rows (row # rows) db"
  shows "pending_rows rows (update_jobs (\<lambda>j. jb_id j = jb_id row) (interrupted_job t) db)"
    "row \<in> set (pf_jobs db)" "jb_status row = ''running''" "row \<notin> set rows" "jb_run_id row \<notin> jb_run_id ` set rows"
proof -
  from pend show row: "row \<in> set (pf_jobs db)" and run: "jb_status row = ''running''" by (simp_all add: pending_rows_def)
  from pend show new: "row \<notin> set rows" by (auto simp: pending_rows_def)
  show "jb_run_id row \<notin> jb_run_id ` set rows"
  proof
    assume "jb_run_id row \<in> jb_run_id ` set rows"
    then obtain k where k: "k \<in> set rows" "jb_run_id row = jb_run_id k" by blast
    with pend have "k \<in> set (pf_jobs db)" "jb_status k = ''running''" by (auto simp: pending_rows_def)
    with jobs_okD(4)[OF platform_okD(4)[OF ok] row this(1)] run k(2) have "row = k" by simp
    with k(1) new show False by simp
  qed
  show "pending_rows rows (update_jobs (\<lambda>j. jb_id j = jb_id row) (interrupted_job t) db)"
    using pend new interrupt_running(2)[OF ok row] by (auto simp: pending_rows_def)
qed

lemma reaped_step:
  assumes ok: "platform_ok db" and pend: "pending_rows (row # rows) db"
    and db1: "db1 = update_jobs (\<lambda>j. jb_id j = jb_id row) (interrupted_job t) db"
    and db2: "{j \<in> set (pf_jobs db2). jb_status j = ''running''} = {j \<in> set (pf_jobs db1). jb_status j = ''running''}"
      "set (pf_jobs db1) \<subseteq> set (pf_jobs db2)"
      "\<And>rid. recoveries rid db2 \<le> max (recoveries rid db1) (nat m)"
      "phase_of db2 (jb_run_id row) \<in> {Idle, Queued}" "\<And>rid. rid \<noteq> jb_run_id row \<Longrightarrow> phase_of db2 rid = phase_of db1 rid"
    and kept: "\<And>j. j \<in> set (pf_jobs db2) \<Longrightarrow> jb_status j \<noteq> ''running'' \<Longrightarrow> j \<in> set (pf_jobs db')"
    and rest: "reaped m rows db2 db'"
  shows "reaped m (row # rows) db db'"
proof -
  note P = pending_tail[OF ok pend]
  note R = interrupt_running[OF ok P(2), where t = t, folded db1]
  have "{j \<in> set (pf_jobs db'). jb_status j = ''running''} =
      {j \<in> set (pf_jobs db). jb_status j = ''running''} - set (row # rows)"
    using rest unfolding reaped_def db2(1) R(1) by auto
  moreover have "interrupted_job t row \<in> set (pf_jobs db')"
    using R(3) db2(2) by (intro kept) (auto simp: interrupted_job_def)
  then have "\<forall>k \<in> set (row # rows). \<exists>t. interrupted_job t k \<in> set (pf_jobs db')" using rest by (auto simp: reaped_def)
  moreover have "recoveries rid db' \<le> max (recoveries rid db) (nat m)" for rid
  proof -
    have "recoveries rid db' \<le> max (recoveries rid db2) (nat m)" using rest by (simp add: reaped_def)
    with db2(3)[of rid] show ?thesis by (simp add: db1)
  qed
  moreover have "if rid \<in> jb_run_id ` set (row # rows) then phase_of db' rid \<in> {Idle, Queued} else phase_of db' rid = phase_of db rid" for rid
  proof -
    have later: "if rid \<in> jb_run_id ` set rows then phase_of db' rid \<in> {Idle, Queued} else phase_of db' rid = phase_of db2 rid"
      using rest unfolding reaped_def by blast
    show ?thesis
    proof (cases "rid = jb_run_id row")
      case True
      with later P(5) db2(4) show ?thesis by simp
    next
      case False
      with later db2(5)[OF False] interrupt_phase[OF ok P(2,3), of t] show ?thesis
        by (auto simp: db1 split: if_splits)
    qed
  qed
  ultimately show ?thesis unfolding reaped_def by blast
qed

text \<open>Closed jobs stay as they are.\<close>

lemma reap_rows_keeps:
  "reap_rows m fresh n rows db = Inr (js, db') \<Longrightarrow> platform_ok db \<Longrightarrow> pending_rows rows db \<Longrightarrow>
     j \<in> set (pf_jobs db) \<Longrightarrow> jb_status j \<noteq> ''running'' \<Longrightarrow> j \<in> set (pf_jobs db')"
proof (induction rows arbitrary: n db js db')
  case Nil
  then show ?case by simp
next
  case (Cons row rows)
  obtain finished jid created where fr: "fresh n = (finished, jid, created)" by (cases "fresh n")
  let ?db1 = "update_jobs (\<lambda>j. jb_id j = jb_id row) (interrupted_job finished) db"
  note P = pending_tail[OF Cons.prems(2,3)]
  note one = interrupt_row[OF Cons.prems(2) P(2,3), where t = finished]
  have j: "j \<in> set (pf_jobs ?db1)" using Cons.prems(4,5) P(3) by (intro interrupt_running(2)[OF Cons.prems(2) P(2)]) auto
  show ?case
  proof (cases "int (recoveries (jb_run_id row) ?db1) < m \<and> \<not> jb_cancel_requested row")
    case True
    with Cons.prems(1) fr obtain db2 js' where
      ins: "insert_job (queued_job jid (jb_run_id row) ''recover'' [] created) ?db1 = Inr db2"
      and rec: "reap_rows m fresh (Suc n) rows db2 = Inr (js', db')"
      by (auto simp: bind_ok_Inr_iff Let_def)
    have "pending_rows rows db2" "j \<in> set (pf_jobs db2)" using P(1) j ins by (auto simp: insert_job_Inr pending_rows_def)
    from Cons.IH[OF rec insert_job_ok(1)[OF one(1) ins one(3)] this Cons.prems(5)] show ?thesis .
  next
    case False
    with Cons.prems(1) fr have "reap_rows m fresh (Suc n) rows ?db1 = Inr (js, db')" by (auto simp: Let_def)
    from Cons.IH[OF this one(1) P(1) j Cons.prems(5)] show ?thesis .
  qed
qed

lemma reap_rows_reaped:
  "reap_rows m fresh n rows db = Inr (js, db') \<Longrightarrow> platform_ok db \<Longrightarrow> pending_rows rows db \<Longrightarrow> reaped m rows db db'"
proof (induction rows arbitrary: n db js db')
  case Nil
  then show ?case by (simp add: reaped_def)
next
  case (Cons row rows)
  obtain finished jid created where fr: "fresh n = (finished, jid, created)" by (cases "fresh n")
  let ?db1 = "update_jobs (\<lambda>j. jb_id j = jb_id row) (interrupted_job finished) db"
  note P = pending_tail[OF Cons.prems(2,3)]
  note one = interrupt_row[OF Cons.prems(2) P(2,3), where t = finished]
  note ph = interrupt_phase[OF Cons.prems(2) P(2,3), of finished]
  show ?case
  proof (cases "int (recoveries (jb_run_id row) ?db1) < m \<and> \<not> jb_cancel_requested row")
    case True
    with Cons.prems(1) fr obtain db2 js' where
      ins: "insert_job (queued_job jid (jb_run_id row) ''recover'' [] created) ?db1 = Inr db2"
      and rec: "reap_rows m fresh (Suc n) rows db2 = Inr (js', db')"
      by (auto simp: bind_ok_Inr_iff Let_def)
    note ok2 = insert_job_ok(1)[OF one(1) ins one(3)]
    from ins have db2: "db2 = ?db1\<lparr>pf_jobs := pf_jobs ?db1 @ [queued_job jid (jb_run_id row) ''recover'' [] created]\<rparr>"
      by (simp add: insert_job_Inr)
    have jobs2: "pf_jobs db2 = pf_jobs ?db1 @ [queued_job jid (jb_run_id row) ''recover'' [] created]" by (simp add: db2)
    have pend: "pending_rows rows db2" using P(1) by (auto simp: db2 pending_rows_def)
    have ph2: "phase_of db2 = (phase_of ?db1)(jb_run_id row := Queued)"
      by (rule phase_insert[OF one(1) ok2 _ db2]) (use one(3) in \<open>simp add: active_job_None\<close>)
    show ?thesis
    proof (rule reaped_step[OF Cons.prems(2,3) refl _ _ _ _ _ _ Cons.IH[OF rec ok2 pend]])
      show "recoveries rid db2 \<le> max (recoveries rid ?db1) (nat m)" for rid
        using True by (auto simp: recoveries_insert[OF ins])
      show "j \<in> set (pf_jobs db2) \<Longrightarrow> jb_status j \<noteq> ''running'' \<Longrightarrow> j \<in> set (pf_jobs db')" for j
        by (rule reap_rows_keeps[OF rec ok2 pend])
    qed (auto simp: ph2 jobs2)
  next
    case False
    with Cons.prems(1) fr have rec: "reap_rows m fresh (Suc n) rows ?db1 = Inr (js, db')" by (auto simp: Let_def)
    show ?thesis
    proof (rule reaped_step[OF Cons.prems(2,3) refl _ _ _ _ _ _ Cons.IH[OF rec one(1) P(1)]])
      show "j \<in> set (pf_jobs ?db1) \<Longrightarrow> jb_status j \<noteq> ''running'' \<Longrightarrow> j \<in> set (pf_jobs db')" for j
        by (rule reap_rows_keeps[OF rec one(1) P(1)])
    qed (auto simp: ph)
  qed
qed

lemma expired_pending:
  assumes "platform_ok db"
  shows "pending_rows (filter (lease_expired now) (pf_jobs db)) db"
  using jobs_okD(1)[OF platform_okD(4)[OF assms]]
  by (auto simp: pending_rows_def lease_expired_def distinct_map_filter)

end
