(* ===== verification/Platform_Limits.thy ===== *)
theory Platform_Limits
  imports Platform_Recovery
begin

text \<open>
  Limits and listings of the platform: what a sequence of rate-limited requests is granted, how pages
  of a listing follow each other, and what erasing an account leaves.
\<close>

section \<open>Rate limits\<close>

type_synonym request = "ident \<times> string \<times> int \<times> rat \<times> rat"

text \<open>The times at which a sequence of requests (owner, action, limit, window, time) grants one key.\<close>

fun grants :: "ident \<Rightarrow> string \<Rightarrow> request list \<Rightarrow> Platform \<Rightarrow> rat list" where
  "grants owner action [] db = []"
| "grants owner action ((owner', action', bound, window, now) # rs) db =
     (case consume_rate owner' action' bound window now db of
        Inl e \<Rightarrow> grants owner action rs db
      | Inr (wait, db') \<Rightarrow>
          (if wait = None \<and> owner' = owner \<and> action' = action then now # grants owner action rs db'
           else grants owner action rs db'))"

definition in_window :: "rat \<Rightarrow> rat \<Rightarrow> rat list \<Rightarrow> nat" where
  "in_window s window ts = length (filter (\<lambda>t. s \<le> t \<and> t \<le> s + window) ts)"

text \<open>What the table still knows of the times granted so far.\<close>

definition tracks :: "ident \<Rightarrow> string \<Rightarrow> int \<Rightarrow> rat \<Rightarrow> rat list \<Rightarrow> rat \<Rightarrow> Platform \<Rightarrow> bool" where
  "tracks owner action bound window ts now db \<longleftrightarrow> (\<forall>t \<in> set ts. t \<le> now) \<and>
     (\<forall>s. in_window s window ts \<le> nat bound) \<and>
     filter (\<lambda>t. now - window \<le> t) ts =
       map re_at (filter (\<lambda>e. same_key owner action e \<and> now - window \<le> re_at e) (pf_rates db))"

lemma tracks_later:
  assumes "tracks owner action bound window ts t db" and "t \<le> now"
  shows "tracks owner action bound window ts now db"
proof -
  have "filter (\<lambda>u. now - window \<le> u) ts = filter (\<lambda>u. now - window \<le> u) (filter (\<lambda>u. t - window \<le> u) ts)"
    using assms(2) by (auto simp: conj_commute intro!: filter_cong)
  also have "\<dots> = map re_at (filter (\<lambda>e. same_key owner action e \<and> now - window \<le> re_at e) (pf_rates db))"
    using assms unfolding tracks_def by (auto simp: filter_map comp_def intro!: arg_cong[where f = "map re_at"] filter_cong)
  finally show ?thesis using assms unfolding tracks_def by force
qed

text \<open>Requests of other keys do not touch this key's rows.\<close>

lemma tracks_other:
  assumes tr: "tracks owner action bound window ts now db" and other: "\<not> (owner' = owner \<and> action' = action)"
    and ok: "consume_rate owner' action' bound' window' now' db = Inr (wait, db')"
  shows "tracks owner action bound window ts now db'"
proof -
  let ?gone = "\<lambda>e. same_key owner' action' e \<and> re_at e < now' - window'"
  have "filter (\<lambda>e. same_key owner action e \<and> now - window \<le> re_at e) (filter (\<lambda>e. \<not> ?gone e) (pf_rates db)) =
      filter (\<lambda>e. same_key owner action e \<and> now - window \<le> re_at e) (pf_rates db)"
    using other by (auto simp: same_key_def intro!: filter_cong)
  moreover have "pf_rates db' = filter (\<lambda>e. \<not> ?gone e) (pf_rates db) \<or>
      pf_rates db' = filter (\<lambda>e. \<not> ?gone e) (pf_rates db) @ [\<lparr>re_owner_id = owner', re_action = action', re_at = now'\<rparr>]"
    using ok by (auto simp: consume_rate_def Let_def split: if_splits)
  ultimately have "filter (\<lambda>e. same_key owner action e \<and> now - window \<le> re_at e) (pf_rates db') =
      filter (\<lambda>e. same_key owner action e \<and> now - window \<le> re_at e) (pf_rates db)"
    using other by (auto simp: same_key_def)
  with tr show ?thesis unfolding tracks_def by simp
qed

lemma in_window_append: "in_window s window (ts @ [t]) = in_window s window ts + (if s \<le> t \<and> t \<le> s + window then 1 else 0)"
  by (simp add: in_window_def)

lemma tracks_granted:
  assumes tr: "tracks owner action bound window ts now db"
    and ok: "consume_rate owner action bound window now db = Inr (None, db')"
  shows "tracks owner action bound window (ts @ [now]) now db'"
proof -
  let ?kept = "filter (\<lambda>e. \<not> (same_key owner action e \<and> re_at e < now - window)) (pf_rates db)"
  have own: "filter (same_key owner action) ?kept = filter (\<lambda>e. same_key owner action e \<and> now - window \<le> re_at e) (pf_rates db)"
    by (auto simp: not_less intro!: filter_cong)
  from ok have few: "int (length (filter (same_key owner action) ?kept)) < bound"
    and db': "pf_rates db' = ?kept @ [\<lparr>re_owner_id = owner, re_action = action, re_at = now\<rparr>]"
    by (auto simp: consume_rate_def Let_def not_le split: if_splits)
  let ?recent = "filter (\<lambda>t. now - window \<le> t) ts"
  have eq: "?recent = map re_at (filter (same_key owner action) ?kept)" using tr unfolding tracks_def own by simp
  have "in_window s window (ts @ [now]) \<le> nat bound" for s
  proof (cases "s \<le> now \<and> now \<le> s + window")
    case True
    then have "filter (\<lambda>t. s \<le> t \<and> t \<le> s + window) ts = filter (\<lambda>t. s \<le> t \<and> t \<le> s + window) ?recent"
      by (auto intro!: filter_cong)
    then have "in_window s window ts \<le> length ?recent" unfolding in_window_def by (simp del: filter_filter)
    moreover have "int (length ?recent) < bound" using few by (simp add: eq)
    ultimately have "int (in_window s window ts) < bound" by linarith
    then have "in_window s window ts < nat bound" by (simp only: zless_nat_eq_int_zless)
    with True show ?thesis by (simp add: in_window_append)
  next
    case False
    have "in_window s window ts \<le> nat bound" using tr by (simp add: tracks_def)
    with False show ?thesis by (simp only: in_window_append if_False add_0_right)
  qed
  moreover have "filter (\<lambda>t. now - window \<le> t) (ts @ [now]) =
      map re_at (filter (\<lambda>e. same_key owner action e \<and> now - window \<le> re_at e) (pf_rates db'))"
    using tr unfolding tracks_def db' by (auto simp: same_key_def not_less intro!: arg_cong[where f = "map re_at"] filter_cong)
  ultimately show ?thesis using tr unfolding tracks_def by auto
qed

lemma tracks_refused:
  assumes tr: "tracks owner action bound window ts now db"
    and ok: "consume_rate owner action bound window now db = Inr (Some wait, db')"
  shows "tracks owner action bound window ts now db'"
proof -
  have "pf_rates db' = filter (\<lambda>e. \<not> (same_key owner action e \<and> re_at e < now - window)) (pf_rates db)"
    using ok by (auto simp: consume_rate_def Let_def split: if_splits)
  with tr show ?thesis unfolding tracks_def by (auto simp: not_less intro!: arg_cong[where f = "map re_at"] filter_cong)
qed

definition requests_of :: "ident \<Rightarrow> string \<Rightarrow> request list \<Rightarrow> request list" where
  "requests_of owner action rs = filter (\<lambda>(o', a', b, w, t). o' = owner \<and> a' = action) rs"

lemma grants_in_window:
  "tracks owner action bound window ts now db \<Longrightarrow>
     \<forall>(o', a', b, w, t) \<in> set (requests_of owner action rs). b = bound \<and> w = window \<and> now \<le> t \<Longrightarrow>
     sorted (map (\<lambda>(o', a', b, w, t). t) (requests_of owner action rs)) \<Longrightarrow>
     in_window s window (ts @ grants owner action rs db) \<le> nat bound"
proof (induction rs arbitrary: ts now db)
  case Nil
  then show ?case by (simp add: tracks_def)
next
  case (Cons q rs)
  obtain o' a' b w t where q: "q = (o', a', b, w, t)" by (cases q)
  show ?case
  proof (cases "o' = owner \<and> a' = action")
    case True
    from Cons.prems(2) True q have b: "b = bound" "w = window" "now \<le> t" by (auto simp: requests_of_def)
    note tr = tracks_later[OF Cons.prems(1) b(3)]
    have rest: "\<forall>(o', a', b, w, u) \<in> set (requests_of owner action rs). b = bound \<and> w = window \<and> t \<le> u"
      "sorted (map (\<lambda>(o', a', b, w, t). t) (requests_of owner action rs))"
      using Cons.prems(2,3) True q by (auto simp: requests_of_def)
    show ?thesis
    proof (cases "consume_rate owner action bound window t db")
      case (Inl e)
      with Cons.IH[OF tr rest] q True b show ?thesis by simp
    next
      case (Inr r)
      obtain wait db' where r: "r = (wait, db')" by (cases r)
      show ?thesis
      proof (cases wait)
        case None
        from Cons.IH[OF tracks_granted[OF tr Inr[unfolded r None]] rest] Inr r None q True b show ?thesis by simp
      next
        case (Some x)
        from Cons.IH[OF tracks_refused[OF tr Inr[unfolded r Some]] rest] Inr r Some q True b show ?thesis by simp
      qed
    qed
  next
    case False
    have rest: "\<forall>(o', a', b, w, u) \<in> set (requests_of owner action rs). b = bound \<and> w = window \<and> now \<le> u"
      "sorted (map (\<lambda>(o', a', b, w, t). t) (requests_of owner action rs))"
      using Cons.prems(2,3) False q by (auto simp: requests_of_def)
    show ?thesis
    proof (cases "consume_rate o' a' b w t db")
      case (Inl e)
      with Cons.IH[OF Cons.prems(1) rest] q show ?thesis by simp
    next
      case (Inr r)
      obtain wait db' where r: "r = (wait, db')" by (cases r)
      from Cons.IH[OF tracks_other[OF Cons.prems(1) False Inr[unfolded r]] rest] Inr r q False show ?thesis by auto
    qed
  qed
qed

end
