(* ===== verification/Platform_Claims.thy ===== *)
theory Platform_Claims
  imports Platform_Limits
begin

text \<open>
  What the platform guarantees: exclusive execution, the machine a run's job moves along, leases that
  only their holder can use, bounded recovery, rate limits, pages that tile a listing, and complete
  erasure. The witnesses drive a concrete platform with two runs of one project.
\<close>

section \<open>Listings\<close>

definition before_row :: "('a \<Rightarrow> string) \<Rightarrow> ('a \<Rightarrow> ident) \<Rightarrow> 'a \<Rightarrow> 'a \<Rightarrow> bool" where
  "before_row c i x y \<longleftrightarrow> c y < c x \<or> (c y = c x \<and> i y < i x)"

lemma insort_lex:
  "sorted_wrt (\<lambda>x y. before_row c i y x) zs \<Longrightarrow> \<forall>z \<in> set zs. i y < i z \<Longrightarrow>
     sorted_wrt (\<lambda>x y. before_row c i y x) (insort_key c y zs)"
  by (induction zs) (auto simp: before_row_def set_insort_key)

lemma sort_lex:
  "sorted_wrt (\<lambda>x y. i x < i y) ys \<Longrightarrow> sorted_wrt (\<lambda>x y. before_row c i y x) (sort_key c ys)"
  by (induction ys) (auto intro!: insort_lex)

lemma newest_first_sorted:
  assumes "distinct (map i rows)"
  shows "sorted_wrt (before_row c i) (newest_first c i rows)"
proof -
  have "distinct (map i (sort_key i rows))"
    using assms by (simp add: distinct_map)
  then have "sorted_wrt (<) (map i (sort_key i rows))" by (simp add: strict_sorted_iff)
  then have "sorted_wrt (\<lambda>x y. i x < i y) (sort_key i rows)" by (simp add: sorted_wrt_map)
  from sort_lex[OF this] show ?thesis by (simp add: newest_first_def sorted_wrt_rev)
qed

lemma newest_first_filter: "newest_first c i (filter P rows) = filter P (newest_first c i rows)"
  unfolding newest_first_def filter_sort[symmetric] rev_filter ..

lemma filter_after:
  assumes "sorted_wrt (before_row c i) xs" and "n < length xs"
  shows "filter (older c i (Some (c (xs ! n), i (xs ! n)))) xs = drop (Suc n) xs"
  using assms
proof (induction xs arbitrary: n)
  case Nil
  then show ?case by simp
next
  case (Cons x xs)
  show ?case
  proof (cases n)
    case 0
    have "filter (older c i (Some (c x, i x))) xs = xs"
      using Cons.prems(1) by (auto simp: filter_id_conv older_def before_row_def)
    with 0 show ?thesis by (simp add: older_def[abs_def])
  next
    case (Suc m)
    with Cons.prems have m: "m < length xs" "before_row c i x (xs ! m)" by simp_all
    then have "\<not> older c i (Some (c (xs ! m), i (xs ! m))) x" by (auto simp: older_def before_row_def)
    with Cons.IH[OF _ m(1)] Cons.prems(1) Suc show ?thesis by simp
  qed
qed

lemma list_owned_runs_page:
  "list_owned_runs owner project bound before db =
     page_limit bound (filter (older rr_created_at rr_id before) (list_owned_runs owner project None None db))"
proof -
  have "filter (\<lambda>r. rr_owner_id r = owner \<and> (case project of None \<Rightarrow> True | Some pid \<Rightarrow> rr_project_id r = pid) \<and>
      older rr_created_at rr_id before r) (pf_runs db) =
    filter (older rr_created_at rr_id before) (filter (\<lambda>r. rr_owner_id r = owner \<and>
      (case project of None \<Rightarrow> True | Some pid \<Rightarrow> rr_project_id r = pid)) (pf_runs db))"
    by (auto intro!: filter_cong)
  then show ?thesis
    by (simp add: list_owned_runs_def page_limit_def older_def[of _ _ None] newest_first_filter)
qed

section \<open>A concrete platform\<close>

definition project0 :: Project where
  "project0 = \<lparr>pj_id = ''p'', pj_owner_id = ''ann'', pj_name = ''site'', pj_description = [], pj_settings = JObj [],
     pj_created_at = ''t0'', pj_updated_at = ''t0''\<rparr>"

definition row0 :: "ident \<Rightarrow> string \<Rightarrow> RunRecord" where
  "row0 rid t = \<lparr>rr_id = rid, rr_project_id = ''p'', rr_owner_id = ''ann'', rr_prompt = ''build'',
     rr_executor = ''scripted'', rr_budget_usd = 1, rr_max_model_calls = 10, rr_created_at = t,
     rr_model_mode = ''automatic''\<rparr>"

definition idle0 :: Platform where
  "idle0 = empty_platform\<lparr>pf_projects := [project0], pf_runs := [row0 ''r1'' ''t1'', row0 ''r2'' ''t2'']\<rparr>"

definition queue0 :: Platform where
  "queue0 = idle0\<lparr>pf_jobs := [queued_job ''j1'' ''r1'' ''start'' [] ''t3'', queued_job ''j2'' ''r2'' ''start'' [] ''t4'']\<rparr>"

definition busy0 :: Platform where
  "busy0 = idle0\<lparr>pf_jobs := [claimed_job ''w'' 10 ''t5'' (queued_job ''j1'' ''r1'' ''start'' [] ''t3''),
     queued_job ''j2'' ''r2'' ''start'' [] ''t4'']\<rparr>"

lemma idle0_running: "running_platform 0 idle0"
proof -
  let ?p = "empty_platform\<lparr>pf_projects := [project0]\<rparr>"
  let ?r1 = "?p\<lparr>pf_projects := [project0], pf_runs := [row0 ''r1'' ''t1'']\<rparr>"
  have "create_project ''ann'' ''site'' [] [] (Some ''p'') ''x'' ''t0'' empty_platform = Inr (Some project0, ?p)"
    by (simp add: create_project_def Let_def new_project_def project0_def get_project_def empty_platform_def substantive_iff)
      (simp add: py_space_def)
  then have one: "running_platform 0 ?p" by (rule running_platform.step[OF running_platform.empty order_refl operates.project])
  have "register_run (row0 ''r1'' ''t1'') ''t0'' ?p = Inr (Some (row0 ''r1'' ''t1''), ?r1)"
    by (simp add: register_run_def touch_project_def project_by_id_def run_by_id_def project0_def row0_def empty_platform_def)
  then have two: "running_platform 0 ?r1" by (rule running_platform.step[OF one order_refl operates.register])
  have "register_run (row0 ''r2'' ''t2'') ''t0'' ?r1 = Inr (Some (row0 ''r2'' ''t2''), idle0)"
    by (simp add: register_run_def touch_project_def project_by_id_def run_by_id_def project0_def row0_def idle0_def empty_platform_def)
  then show ?thesis by (rule running_platform.step[OF two order_refl operates.register])
qed

lemma run0_fields [simp]:
  "rr_id (row0 rid t) = rid" "rr_project_id (row0 rid t) = ''p''" "rr_owner_id (row0 rid t) = ''ann''"
  by (simp_all add: row0_def)

lemma queue0_running: "running_platform 0 queue0"
proof -
  let ?j1 = "queued_job ''j1'' ''r1'' ''start'' [] ''t3''"
  have "enqueue ''r1'' ''start'' [] ''j1'' ''t3'' idle0 = Inr ((?j1, True), idle0\<lparr>pf_jobs := [?j1]\<rparr>)"
    by (simp add: enqueue_def Let_def active_job_def insert_job_def run_by_id_def idle0_def empty_platform_def)
  then have one: "running_platform 0 (idle0\<lparr>pf_jobs := [?j1]\<rparr>)"
    by (rule running_platform.step[OF idle0_running order_refl operates.queue])
  have "enqueue ''r2'' ''start'' [] ''j2'' ''t4'' (idle0\<lparr>pf_jobs := [?j1]\<rparr>) =
      Inr ((queued_job ''j2'' ''r2'' ''start'' [] ''t4'', True), queue0)"
    by (simp add: enqueue_def Let_def active_job_def insert_job_def run_by_id_def idle0_def queue0_def empty_platform_def)
  then show ?thesis by (rule running_platform.step[OF one order_refl operates.queue])
qed

lemma claim0: "claim ''w'' 10 ''t5'' 0 queue0 =
    (Some (claimed_job ''w'' 10 ''t5'' (queued_job ''j1'' ''r1'' ''start'' [] ''t3'')), busy0)"
proof -
  have "sort_key jb_created_at (filter (claimable 0 queue0) (pf_jobs queue0)) =
      [queued_job ''j1'' ''r1'' ''start'' [] ''t3'', queued_job ''j2'' ''r2'' ''start'' [] ''t4'']"
    by (simp add: queue0_def claimable_def project_of_def project_running_def run_by_id_def idle0_def
        empty_platform_def) (simp add: queued_job_def)
  then show ?thesis
    by (simp add: claim_def update_jobs_def busy0_def queue0_def job_by_id_def)
qed

lemma busy0_running: "running_platform 0 busy0"
  by (rule running_platform.step[OF queue0_running order_refl operates.start[OF claim0]])

section \<open>The machine of a run's job\<close>

text \<open>
  Idle to queued (a request), queued to executing (a claim), queued to idle (cancelled or erased),
  executing to idle (finished or reaped), executing to queued (reaped into a recovery). Nothing else:
  no worker takes over another's execution, and nothing executes that was not queued.
\<close>

definition moves :: "phase \<Rightarrow> phase \<Rightarrow> bool" where
  "moves p q \<longleftrightarrow> p = q \<or> (case p of
     Idle \<Rightarrow> q = Queued
   | Queued \<Rightarrow> q = Idle \<or> (\<exists>w. q = Executing w)
   | Executing w \<Rightarrow> q = Idle \<or> q = Queued)"

lemma moves_refl [simp]: "moves p p"
  by (simp add: moves_def)

lemma moves_simps [simp]:
  "moves Idle Queued" "moves Queued Idle" "moves Queued (Executing w)" "moves (Executing w) Idle"
  "moves (Executing w) Queued"
  by (simp_all add: moves_def)

lemma phase_of_jobs: "pf_jobs db' = pf_jobs db \<Longrightarrow> phase_of db' = phase_of db"
  by (simp add: phase_of_def active_job_def fun_eq_iff)

lemma cancel_moves:
  assumes ok: "platform_ok db" and can: "request_cancel rid t db = (x, db')"
  shows "moves (phase_of db k) (phase_of db' k)"
proof (cases "active_job rid db")
  case None
  with can show ?thesis by (simp add: request_cancel_def)
next
  case (Some row)
  from active_job_Some[OF Some] have row: "row \<in> set (pf_jobs db)" "job_active row" "jb_run_id row = rid" by simp_all
  have ok': "platform_ok db'" using request_cancel_ok[OF ok can] by blast
  let ?P = "\<lambda>j. jb_id j = jb_id row"
  define f :: "Job \<Rightarrow> Job" where "f = (if jb_status row = ''queued'' then cancelled_job t else (\<lambda>j. j\<lparr>jb_cancel_requested := True\<rparr>))"
  have db': "db' = update_jobs ?P f db" using can Some by (auto simp: request_cancel_def Let_def f_def)
  have f: "jb_run_id (f j) = jb_run_id j \<and> (job_active (f j) \<longrightarrow> job_active j)" for j
    by (simp add: f_def cancelled_job_def job_active_def JOB_ACTIVE_def)
  show ?thesis
  proof (cases "k = rid")
    case True
    have "phase_of db' k = job_phase (f row)"
      using phase_update[OF ok ok'[unfolded db'], of k] f Some True by (simp add: db')
    moreover have "phase_of db k = job_phase row" using phase_active[OF ok row(1,2)] row(3) True by simp
    ultimately show ?thesis using job_active_cases[OF row(2)]
      by (auto simp: f_def cancelled_job_def job_phase_def)
  next
    case False
    have "phase_of db' k = phase_of db k" unfolding db'
    proof (rule phase_kept[OF ok ok'[unfolded db'] f])
      fix j
      assume "j \<in> set (pf_jobs db)" "jb_run_id j = k"
      with False row jobs_okD(6)[OF platform_okD(4)[OF ok] _ row(1), of j] show "jb_id j \<noteq> jb_id row" by auto
    qed
    then show ?thesis by simp
  qed
qed

lemma heartbeat_phase:
  assumes ok: "platform_ok db" and hb: "heartbeat jid worker seconds t db = (b, db')"
  shows "phase_of db' k = phase_of db k"
proof (cases "db' = db")
  case False
  with hb have db': "db' = update_jobs (\<lambda>j. jb_id j = jid) (renewed_job (t + seconds)) db"
    by (auto simp: heartbeat_def split: option.splits if_splits)
  have ok': "platform_ok db'" using heartbeat_ok[OF ok hb] by blast
  have "phase_of db' k = (case active_job k db of None \<Rightarrow> Idle
      | Some j \<Rightarrow> if jb_id j = jid then job_phase (renewed_job (t + seconds) j) else job_phase j)"
    unfolding db' by (rule phase_update[OF ok ok'[unfolded db']]) (simp add: renewed_job_def job_active_def)
  moreover have "job_phase (renewed_job (t + seconds) j) = job_phase j" for j
    by (simp add: renewed_job_def job_phase_def)
  ultimately show ?thesis by (simp add: phase_of_def split: option.splits)
qed simp

lemma erase_moves:
  assumes ok: "platform_ok db" and del: "delete_owner owner db = Inr (ids, db')"
  shows "moves (phase_of db k) (phase_of db' k)"
proof -
  from del have db': "db' = erase_owner owner db"
    and idle: "\<forall>j \<in> set (pf_jobs db). jb_status j = ''running'' \<longrightarrow> jb_run_id j \<notin> owned_runs owner db"
    by (auto simp: delete_owner_def split: if_splits)
  show ?thesis
  proof (cases "k \<in> owned_runs owner db")
    case True
    then have "active_job k db' = None" by (auto simp: active_job_None db' erase_fields)
    then have "phase_of db' k = Idle" by (simp add: phase_Idle)
    moreover have "phase_of db k \<in> {Idle, Queued}"
    proof (cases "active_job k db")
      case (Some j)
      from active_job_Some[OF Some] idle True have "jb_status j = ''queued''" using job_active_cases by blast
      with Some show ?thesis by (simp add: phase_of_def job_phase_def)
    qed (simp add: phase_of_def)
    ultimately show ?thesis by auto
  next
    case False
    have "filter (\<lambda>j. jb_run_id j = k \<and> job_active j) (pf_jobs db') = filter (\<lambda>j. jb_run_id j = k \<and> job_active j) (pf_jobs db)"
      using False by (auto simp: db' erase_fields intro!: filter_cong)
    then have "phase_of db' k = phase_of db k" by (simp add: phase_of_def active_job_def)
    then show ?thesis by simp
  qed
qed

lemma operates_moves:
  assumes "operates now db db'" and "platform_ok db"
  shows "moves (phase_of db rid) (phase_of db' rid)"
  using assms
proof (induction rule: operates.induct)
  case (erase owner db ids db' now)
  from erase_moves[OF erase.prems erase.hyps] show ?case .
next
  case (queue rid' kind message jid t db x db' now)
  obtain j b where "x = (j, b)" by (cases x)
  with queue.hyps have "enqueue rid' kind message jid t db = Inr ((j, b), db')" by simp
  from enqueue_phase[OF queue.prems this] show ?case by (cases "rid = rid'"; cases b; simp)
next
  case (reap m stamps now db js db')
  from reap_rows_reaped[OF reap.hyps[unfolded reap_expired_def] reap.prems expired_pending[OF reap.prems]]
  have r: "if rid \<in> jb_run_id ` set (filter (lease_expired now) (pf_jobs db)) then phase_of db' rid \<in> {Idle, Queued}
    else phase_of db' rid = phase_of db rid" unfolding reaped_def by blast
  show ?case
  proof (cases "rid \<in> jb_run_id ` set (filter (lease_expired now) (pf_jobs db))")
    case True
    then obtain j where "j \<in> set (pf_jobs db)" "jb_status j = ''running''" "jb_run_id j = rid"
      by (auto simp: lease_expired_def)
    with phase_active[OF reap.prems this(1)] have "\<exists>w. phase_of db rid = Executing w" by (simp add: job_phase_def)
    with r True show ?thesis by auto
  next
    case False
    with r show ?thesis by (simp split: if_splits)
  qed
next
  case (start worker seconds t now db j db')
  show ?case
  proof (cases j)
    case None
    with start.hyps claim_None[of worker seconds t now db db'] show ?thesis by simp
  next
    case (Some k)
    with claim_phase[OF start.prems] start.hyps show ?thesis by auto
  qed
next
  case (beat jid worker seconds now db b db')
  with heartbeat_phase[OF beat.prems beat.hyps] show ?case by simp
next
  case (stop jid worker status outcome detail t db db' now)
  with finish_phase[OF stop.prems stop.hyps] show ?case by auto
next
  case (cancel rid' t db j db' now)
  from cancel_moves[OF cancel.prems cancel.hyps] show ?case .
next
  case (project owner name description settings given fresh t db p db' now)
  from project.hyps have "pf_jobs db' = pf_jobs db" by (rule create_project_Inr) simp
  from phase_of_jobs[OF this] show ?case by simp
next
  case (rate owner action bound window now db x db')
  then have "pf_jobs db' = pf_jobs db" by (auto simp: consume_rate_def Let_def split: if_splits)
  from phase_of_jobs[OF this] show ?case by simp
next
  case (register row t db r db' now)
  then have "pf_jobs db' = pf_jobs db" by (auto simp: register_run_Inr touch_project_def)
  from phase_of_jobs[OF this] show ?case by simp
next
  case (deliver rid' status manifest archive t db d db' now)
  then have "pf_jobs db' = pf_jobs db" by (auto simp: save_delivery_def Let_def split: if_splits)
  from phase_of_jobs[OF this] show ?case by simp
qed (auto simp: acquire_project_def release_project_def due_def mark_retired_def prune_rate_events_def touch_project_def
    set_budget_def save_publication_def save_workflow_state_def Let_def phase_of_def active_job_def
    split: if_splits simp del: sorted_json.simps)

section \<open>Execution\<close>

text \<open>
  C20 (safety). On a running platform a project is worked on by one party at a time: two running jobs
  of the same project are the same job, and while one runs no lease on that project is current.
\<close>

theorem projects_are_exclusive:
  assumes "running_platform now db" and "j \<in> set (pf_jobs db)" and "jb_status j = ''running''"
    and "project_of db j = Some pid"
  shows "(\<forall>k \<in> set (pf_jobs db). jb_status k = ''running'' \<longrightarrow> project_of db k = Some pid \<longrightarrow> k = j) \<and>
    (\<forall>holder expires. (pid, holder, expires) \<in> set (pf_leases db) \<longrightarrow> expires < now)"
proof -
  from running_platform_ok[OF assms(1)] have ok: "platform_ok db" and ex: "exclusive now db" by blast+
  have "k = j" if "k \<in> set (pf_jobs db)" "jb_status k = ''running''" "project_of db k = Some pid" for k
    using jobs_okD(5)[OF platform_okD(4)[OF ok] that(1) assms(2) that(2) assms(3)] that(3) assms(4)
    by (simp add: project_of_run)
  moreover have "expires < now" if "(pid, holder, expires) \<in> set (pf_leases db)" for holder expires
    using ex assms(2-4) that unfolding exclusive_def project_of_run by fastforce
  ultimately show ?thesis by blast
qed

theorem projects_are_exclusive_witness:
  "list_all (\<lambda>k. \<not> (jb_status k = ''running'' \<and> project_of busy0 k = Some ''p'' \<and> jb_run_id k \<noteq> ''r1''))
     (pf_jobs busy0)"
proof -
  let ?j = "claimed_job ''w'' 10 ''t5'' (queued_job ''j1'' ''r1'' ''start'' [] ''t3'')"
  have j: "?j \<in> set (pf_jobs busy0)" by (simp add: busy0_def)
  have "project_of busy0 ?j = Some ''p''"
    by (simp add: project_of_def run_by_id_def busy0_def idle0_def empty_platform_def)
  from projects_are_exclusive[OF busy0_running j _ this] show ?thesis by (auto simp: list_all_iff)
qed

text \<open>
  C21 (invariant). On a running platform a run has at most one active job; a job is leased exactly
  while it runs, and has an end time and an outcome exactly when it is over; its run exists, and a run
  belongs to a project of the same owner.
\<close>

theorem job_table_is_sound:
  assumes "running_platform now db" and "j \<in> set (pf_jobs db)"
  shows "(\<forall>k \<in> set (pf_jobs db). job_active j \<longrightarrow> job_active k \<longrightarrow> jb_run_id k = jb_run_id j \<longrightarrow> k = j) \<and>
    (jb_status j = ''running'' \<longleftrightarrow> jb_lease_owner j \<noteq> None) \<and>
    (job_active j \<longleftrightarrow> jb_finished_at j = None) \<and> (job_active j \<longleftrightarrow> jb_outcome j = None) \<and>
    (\<exists>r p. run_by_id (jb_run_id j) db = Some r \<and> project_by_id (rr_project_id r) db = Some p \<and>
       pj_owner_id p = rr_owner_id r)"
proof -
  from running_platform_ok[OF assms(1)] have ok: "platform_ok db" by blast
  note js = platform_okD(4)[OF ok]
  from jobs_okD(2)[OF js assms(2)] obtain r where r: "run_by_id (jb_run_id j) db = Some r"
    by (auto simp: run_project_def)
  then have "r \<in> set (pf_runs db)" using find_SomeD[of "\<lambda>r. rr_id r = jb_run_id j"] by (auto simp: run_by_id_def)
  from platform_okD(3)[OF ok this] obtain p where p: "p \<in> set (pf_projects db)" "pj_id p = rr_project_id r"
    "pj_owner_id p = rr_owner_id r" by (auto simp: owned_def)
  have "project_by_id (rr_project_id r) db = Some p"
    using find_key[OF platform_okD(1)[OF ok] p(1)] p(2) by (simp add: project_by_id_def)
  moreover have "\<forall>k \<in> set (pf_jobs db). job_active j \<longrightarrow> job_active k \<longrightarrow> jb_run_id k = jb_run_id j \<longrightarrow> k = j"
    using jobs_okD(4)[OF js _ assms(2)] by blast
  moreover have "job_ok j" using jobs_okD(3)[OF js assms(2)] .
  ultimately show ?thesis using r p(3) unfolding job_ok_def by blast
qed

theorem job_table_is_sound_witness:
  "list_all (\<lambda>j. jb_status j = ''running'' \<longleftrightarrow> jb_lease_owner j \<noteq> None) (pf_jobs busy0)"
  unfolding list_all_iff using job_table_is_sound[OF busy0_running] by blast

text \<open>
  C22 (refinement). Every operation of the platform moves the job of every run along the abstract
  machine: idle, queued, executing under one worker.
\<close>

theorem jobs_follow_the_machine:
  assumes "running_platform t db" and "operates now db db'"
  shows "moves (phase_of db rid) (phase_of db' rid)"
  using operates_moves[OF assms(2)] running_platform_ok[OF assms(1)] by blast

theorem jobs_follow_the_machine_witness:
  "moves (phase_of queue0 ''r1'') (phase_of busy0 ''r1'') \<and> phase_of busy0 ''r1'' = Executing ''w''"
proof -
  let ?j = "claimed_job ''w'' 10 ''t5'' (queued_job ''j1'' ''r1'' ''start'' [] ''t3'')"
  have "phase_of busy0 (jb_run_id ?j) = job_phase ?j"
    by (rule phase_active[OF conjunct1[OF running_platform_ok[OF busy0_running]]]) (simp_all add: busy0_def)
  moreover have "job_phase ?j = Executing ''w''" by (simp add: job_phase_running)
  ultimately have "phase_of busy0 ''r1'' = Executing ''w''" by simp
  with jobs_follow_the_machine[OF queue0_running operates.start[OF claim0], of "''r1''"] show ?thesis by simp
qed

text \<open>
  C23 (liveness). A claim gets a job whenever there is one to get: a queued job of a project where
  nothing runs and no lease is current. It is the oldest such job, leased to the claimant from now,
  and no other row changes.
\<close>

theorem claims_take_the_oldest:
  assumes "running_platform t db" and "j0 \<in> set (pf_jobs db)" and "claimable now db j0"
  shows "\<exists>row db'. claim worker seconds started now db = (Some (claimed_job worker (now + seconds) started row), db') \<and>
    row \<in> set (pf_jobs db) \<and> claimable now db row \<and>
    (\<forall>k \<in> set (pf_jobs db). claimable now db k \<longrightarrow> jb_created_at row \<le> jb_created_at k) \<and>
    pf_jobs db' = map (\<lambda>k. if k = row then claimed_job worker (now + seconds) started row else k) (pf_jobs db)"
proof -
  from running_platform_ok[OF assms(1)] have ok: "platform_ok db" by blast
  obtain row rows where first: "sort_key jb_created_at (filter (claimable now db) (pf_jobs db)) = row # rows"
  proof (cases "sort_key jb_created_at (filter (claimable now db) (pf_jobs db))")
    case Nil
    with assms(2,3) show thesis by (auto simp: filter_empty_conv)
  qed
  from sort_key_Cons[OF first] have row: "row \<in> set (pf_jobs db)" "claimable now db row" by simp_all
  have "sorted (map jb_created_at (row # rows))" unfolding first[symmetric] by simp
  moreover have mem: "set (row # rows) = set (filter (claimable now db) (pf_jobs db))"
    unfolding first[symmetric] by simp
  ultimately have oldest: "\<forall>k \<in> set (pf_jobs db). claimable now db k \<longrightarrow> jb_created_at row \<le> jb_created_at k"
    by auto
  let ?f = "claimed_job worker (now + seconds) started"
  have eq: "map (\<lambda>k. if jb_id k = jb_id row \<and> jb_status k = ''queued'' then ?f k else k) (pf_jobs db) =
      map (\<lambda>k. if k = row then ?f row else k) (pf_jobs db)"
    using row jobs_okD(6)[OF platform_okD(4)[OF ok] _ row(1)] by (intro map_cong) (auto simp: claimable_def)
  obtain x db' where cl: "claim worker seconds started now db = (x, db')" by (cases "claim worker seconds started now db")
  have db': "pf_jobs db' = map (\<lambda>k. if k = row then ?f row else k) (pf_jobs db)"
    using cl first by (auto simp: claim_def Let_def update_jobs_def eq)
  have "?f row \<in> set (pf_jobs db')" using row(1) by (simp add: db' image_iff)
  moreover have "platform_ok db'" using claim_ok[OF ok cl] by blast
  ultimately have "job_by_id (jb_id row) db' = Some (?f row)" by (simp add: job_by_id_iff)
  moreover have "x = job_by_id (jb_id row) db'" using cl first by (auto simp: claim_def Let_def)
  ultimately show ?thesis using cl row oldest db' by (intro exI[of _ row] exI[of _ db'] conjI) simp_all
qed

theorem claims_take_the_oldest_witness:
  "\<exists>row db'. claim ''w'' 10 ''t5'' 0 queue0 = (Some (claimed_job ''w'' (0 + 10) ''t5'' row), db')"
proof -
  have "claimable 0 queue0 (queued_job ''j1'' ''r1'' ''start'' [] ''t3'')"
    by (simp add: queue0_def claimable_def project_of_def project_running_def run_by_id_def idle0_def
        empty_platform_def)
  moreover have "queued_job ''j1'' ''r1'' ''start'' [] ''t3'' \<in> set (pf_jobs queue0)" by (simp add: queue0_def)
  ultimately show ?thesis using claims_take_the_oldest[OF queue0_running] by blast
qed

text \<open>
  C24 (safety). Jobs are claimed once and finished by their holder: two claims in a row are of different
  runs, and a run executed by one worker is still executed by it after any other worker's \<open>finish\<close>.
\<close>

theorem leases_bind_their_holder:
  assumes "running_platform t db" and "claim w seconds started now db = (Some j, db')"
  shows "(\<forall>w' seconds' started' now' k db''. claim w' seconds' started' now' db' = (Some k, db'') \<longrightarrow>
      jb_run_id k \<noteq> jb_run_id j) \<and>
    (\<forall>jid w' status outcome detail end db''. w' \<noteq> w \<longrightarrow> finish jid w' status outcome detail end db' = Inr db'' \<longrightarrow>
      phase_of db'' (jb_run_id j) = Executing w)"
proof -
  from running_platform_ok[OF assms(1)] have ok: "platform_ok db" by blast
  note one = platform_queue.claim_law[OF ok assms(2)]
  have "phase_of db' (jb_run_id j) = Executing w" using one by simp
  with platform_queue.claims_differ[OF ok assms(2)] platform_queue.only_the_holder_finishes[OF conjunct1[OF one] this]
  show ?thesis by (metis (no_types))
qed

theorem leases_bind_their_holder_witness:
  "\<exists>db''. finish ''j1'' ''other'' ''failed'' ''error'' [] ''t6'' busy0 = Inr db'' \<and>
     phase_of db'' ''r1'' = Executing ''w''"
proof -
  have other: "''other'' \<noteq> ''w''" by simp
  have "finish ''j1'' ''other'' ''failed'' ''error'' [] ''t6'' busy0 = Inr busy0"
    by (simp add: finish_def update_jobs_def busy0_def idle0_def empty_platform_def)
  with conjunct2[OF leases_bind_their_holder[OF queue0_running claim0], rule_format, OF other this]
  show ?thesis by auto
qed

section \<open>Recovery\<close>

text \<open>
  C25 (functional). Reaping ends exactly the running jobs whose lease has expired, each as interrupted;
  no expired lease is left; the recoveries of a run grow only below the cap; and a run loses its
  executing worker only if its lease had expired.
\<close>

theorem reaping_settles_silent_workers:
  assumes "running_platform t db" and "reap_expired m stamps now db = Inr (js, db')"
  shows "(\<forall>j. j \<in> set (pf_jobs db') \<and> jb_status j = ''running'' \<longleftrightarrow>
      j \<in> set (pf_jobs db) \<and> jb_status j = ''running'' \<and> \<not> lease_expired now j) \<and>
    (\<forall>j \<in> set (pf_jobs db). lease_expired now j \<longrightarrow> (\<exists>t. interrupted_job t j \<in> set (pf_jobs db'))) \<and>
    (\<forall>rid. recoveries rid db' \<le> max (recoveries rid db) (nat m)) \<and>
    (\<forall>rid w. phase_of db rid = Executing w \<longrightarrow> phase_of db' rid \<noteq> Executing w \<longrightarrow>
       (\<exists>j \<in> set (pf_jobs db). jb_run_id j = rid \<and> lease_expired now j))"
proof -
  from running_platform_ok[OF assms(1)] have ok: "platform_ok db" by blast
  have r: "reaped m (filter (lease_expired now) (pf_jobs db)) db db'"
    by (rule reap_rows_reaped[OF assms(2)[unfolded reap_expired_def] ok expired_pending[OF ok]])
  have "j \<in> {j \<in> set (pf_jobs db'). jb_status j = ''running''} \<longleftrightarrow>
      j \<in> {j \<in> set (pf_jobs db). jb_status j = ''running''} - set (filter (lease_expired now) (pf_jobs db))" for j
    using r unfolding reaped_def by blast
  then have "\<forall>j. j \<in> set (pf_jobs db') \<and> jb_status j = ''running'' \<longleftrightarrow>
      j \<in> set (pf_jobs db) \<and> jb_status j = ''running'' \<and> \<not> lease_expired now j" by simp blast
  moreover have "\<exists>j \<in> set (pf_jobs db). jb_run_id j = rid \<and> lease_expired now j"
    if "phase_of db rid = Executing w" "phase_of db' rid \<noteq> Executing w" for rid w
  proof -
    have "if rid \<in> jb_run_id ` set (filter (lease_expired now) (pf_jobs db)) then phase_of db' rid \<in> {Idle, Queued}
      else phase_of db' rid = phase_of db rid" using r unfolding reaped_def by blast
    with that have "rid \<in> jb_run_id ` set (filter (lease_expired now) (pf_jobs db))" by (auto split: if_splits)
    then show ?thesis by auto
  qed
  ultimately show ?thesis using r unfolding reaped_def by auto
qed

theorem reaping_settles_silent_workers_witness:
  "\<exists>js db'. reap_expired 3 (\<lambda>n. (''t7'', ''j3'', ''t7'')) 20 busy0 = Inr (js, db') \<and> \<not> (\<exists>j \<in> set (pf_jobs db'). lease_expired 20 j)"
proof -
  let ?j = "claimed_job ''w'' 10 ''t5'' (queued_job ''j1'' ''r1'' ''start'' [] ''t3'')"
  have exp: "filter (lease_expired 20) (pf_jobs busy0) = [?j]"
    by (simp add: busy0_def lease_expired_def)
  have "\<exists>js db'. reap_expired 3 (\<lambda>n. (''t7'', ''j3'', ''t7'')) 20 busy0 = Inr (js, db')"
    unfolding reap_expired_def exp
    by (simp add: busy0_def idle0_def empty_platform_def update_jobs_def interrupted_job_def insert_job_def
        run_by_id_def recoveries_def Let_def)
  then obtain js db' where reap: "reap_expired 3 (\<lambda>n. (''t7'', ''j3'', ''t7'')) 20 busy0 = Inr (js, db')" by blast
  from reaping_settles_silent_workers[OF busy0_running this] have
    "\<not> (\<exists>j \<in> set (pf_jobs db'). lease_expired 20 j)" by (auto simp: lease_expired_def)
  with reap show ?thesis by blast
qed

section \<open>Limits, listings and erasure\<close>

text \<open>
  C26 (bounds). However many requests an account makes, mixed with other accounts' and with other
  actions', an action is granted at most as often in any window of time as its limit allows.
\<close>

theorem rate_limit_holds:
  assumes "\<forall>e \<in> set (pf_rates db). \<not> same_key owner action e"
    and "\<forall>(o', a', b, w, t) \<in> set (requests_of owner action rs). b = bound \<and> w = window \<and> now \<le> t"
    and "sorted (map (\<lambda>(o', a', b, w, t). t) (requests_of owner action rs))"
  shows "in_window s window (grants owner action rs db) \<le> nat bound"
proof -
  have "filter (\<lambda>e. same_key owner action e \<and> now - window \<le> re_at e) (pf_rates db) = []"
    using assms(1) by (auto simp: filter_empty_conv)
  then have "tracks owner action bound window [] now db" by (simp add: tracks_def in_window_def)
  from grants_in_window[OF this assms(2,3)] show ?thesis by simp
qed

theorem rate_limit_holds_witness:
  "in_window 0 60 (grants ''ann'' ''run'' [(''ann'', ''run'', 1, 60, 0), (''bob'', ''run'', 5, 60, 1), (''ann'', ''run'', 1, 60, 2)]
     empty_platform) \<le> nat 1"
  by (rule rate_limit_holds[where now = 0]) (simp_all add: empty_platform_def requests_of_def)

text \<open>
  C27 (equivalence). Pages tile a listing: the page after any row already shown is the next stretch of
  the full listing, newest first, without a gap or a repeat.
\<close>

theorem pages_tile_the_listing:
  assumes "running_platform t db" and "0 < n" and "i < length (list_owned_runs owner project None None db)"
    and "row = list_owned_runs owner project None None db ! i"
  shows "list_owned_runs owner project (Some n) (Some (rr_created_at row, rr_id row)) db =
    take (nat n) (drop (Suc i) (list_owned_runs owner project None None db))"
proof -
  let ?all = "list_owned_runs owner project None None db"
  have "distinct (map rr_id (pf_runs db))" using running_platform_ok[OF assms(1)] platform_okD(2) by blast
  then have "distinct (map rr_id (filter Q (pf_runs db)))" for Q by (rule distinct_map_filter)
  then have "sorted_wrt (before_row rr_created_at rr_id) ?all"
    unfolding list_owned_runs_def page_limit_def option.case by (intro newest_first_sorted)
  from filter_after[OF this assms(3)] have
    "filter (older rr_created_at rr_id (Some (rr_created_at row, rr_id row))) ?all = drop (Suc i) ?all"
    by (simp only: assms(4))
  then show ?thesis
    using assms(2) by (subst list_owned_runs_page) (simp add: page_limit_def limited_def)
qed

theorem pages_tile_the_listing_witness:
  "list_owned_runs ''ann'' None (Some 1) (Some (''t2'', ''r2'')) idle0 =
     take (nat 1) (drop (Suc 0) (list_owned_runs ''ann'' None None None idle0))"
proof -
  have all: "list_owned_runs ''ann'' None None None idle0 = [row0 ''r2'' ''t2'', row0 ''r1'' ''t1'']"
    by (simp add: list_owned_runs_def page_limit_def newest_first_def older_def idle0_def empty_platform_def)
      (simp add: row0_def)
  have "row0 ''r2'' ''t2'' = list_owned_runs ''ann'' None None None idle0 ! 0" by (simp add: all)
  from pages_tile_the_listing[OF idle0_running _ _ this, of 1] show ?thesis by (simp add: all) (simp add: row0_def)
qed

text \<open>
  An account is erased exactly when none of its jobs runs; nothing it owned is left,
  in any table, and other owners' projects, runs and jobs are as they were. The transaction cannot
  fail on a reference.
\<close>

theorem erasure_is_complete:
  assumes "running_platform now db"
  shows "if \<exists>j \<in> set (pf_jobs db). jb_status j = ''running'' \<and> owner_of db j = Some owner
    then \<exists>m. delete_owner owner db = Inl (ActiveWork m)
    else \<exists>ids db'. delete_owner owner db = Inr (ids, db') \<and>
      (\<forall>p \<in> set (pf_projects db'). pj_owner_id p \<noteq> owner) \<and> (\<forall>r \<in> set (pf_runs db'). rr_owner_id r \<noteq> owner) \<and>
      (\<forall>j \<in> set (pf_jobs db'). owner_of db j \<noteq> Some owner) \<and> (\<forall>e \<in> set (pf_rates db'). re_owner_id e \<noteq> owner) \<and>
      (\<forall>p \<in> set (pf_publications db'). pb_owner_id p \<noteq> owner) \<and>
      filter (\<lambda>p. pj_owner_id p \<noteq> owner) (pf_projects db) = pf_projects db' \<and>
      filter (\<lambda>r. rr_owner_id r \<noteq> owner) (pf_runs db) = pf_runs db' \<and>
      filter (\<lambda>j. owner_of db j \<noteq> Some owner) (pf_jobs db) = pf_jobs db'"
proof -
  from running_platform_ok[OF assms] have ok: "platform_ok db" by blast
  have own: "owner_of db j = Some owner \<longleftrightarrow> jb_run_id j \<in> owned_runs owner db" if j: "j \<in> set (pf_jobs db)" for j
  proof -
    from jobs_okD(2)[OF platform_okD(4)[OF ok] j] obtain r where r: "run_by_id (jb_run_id j) db = Some r"
      by (auto simp: run_project_def)
    then have "r \<in> set (pf_runs db)" "rr_id r = jb_run_id j"
      using find_SomeD[of "\<lambda>r. rr_id r = jb_run_id j"] by (auto simp: run_by_id_def)
    with owned_by(1)[OF ok this(1), of owner] r show ?thesis by (simp add: owner_of_def)
  qed
  have ref: "\<not> (\<exists>r \<in> set (pf_runs (erase_owner owner db)). rr_project_id r \<in> owned_projects owner db)"
    using owned_by(2)[OF ok] by (auto simp: erase_fields)
  have jobs: "filter (\<lambda>j. owner_of db j \<noteq> Some owner) (pf_jobs db) = pf_jobs (erase_owner owner db)"
    unfolding erase_fields by (rule filter_cong[OF refl]) (simp add: own)
  show ?thesis
  proof (cases "\<exists>j \<in> set (pf_jobs db). jb_status j = ''running'' \<and> owner_of db j = Some owner")
    case True
    then show ?thesis using own by (auto simp: delete_owner_def)
  next
    case False
    then have "\<not> (\<exists>j \<in> set (pf_jobs db). jb_status j = ''running'' \<and> jb_run_id j \<in> owned_runs owner db)"
      using own by blast
    with ref have "\<exists>ids. delete_owner owner db = Inr (ids, erase_owner owner db)" by (simp add: delete_owner_def)
    then obtain ids where del: "delete_owner owner db = Inr (ids, erase_owner owner db)" ..
    have "\<forall>j \<in> set (pf_jobs (erase_owner owner db)). owner_of db j \<noteq> Some owner"
      unfolding jobs[symmetric] by simp
    then show ?thesis unfolding if_not_P[OF False]
      by (intro exI[of _ ids] exI[of _ "erase_owner owner db"] conjI del jobs) (simp_all add: erase_fields)
  qed
qed

theorem erasure_is_complete_witness:
  "\<exists>m. delete_owner ''ann'' busy0 = Inl (ActiveWork m)"
proof -
  have "\<exists>j \<in> set (pf_jobs busy0). jb_status j = ''running'' \<and> owner_of busy0 j = Some ''ann''"
    by (simp add: busy0_def owner_of_def run_by_id_def idle0_def empty_platform_def)
  with erasure_is_complete[OF busy0_running, of "''ann''"] show ?thesis by (simp only: if_True)
qed

end
