(* ===== verification/Planner.thy ===== *)
theory Planner
  imports Text System
begin

text \<open>
  From a proposal of the planning model to an installed plan: \<open>set_criteria\<close>, \<open>_task_nodes\<close> and
  \<open>_unresolvable_inputs\<close> of \<open>DurableController\<close> in \<open>src/src/walter/adapter.py\<close>, and \<open>_normalize_inputs\<close>,
  \<open>_drop_vacuous_regression\<close> and \<open>_install_plan\<close> of \<open>src/src/cavman/workflow.py\<close>. The files the project
  tracks are an argument. Calls into the kernel are its commands on the run's snapshot, one transaction
  each: what an earlier call has saved stays when a later one raises.
\<close>

section \<open>Proposals\<close>

record PlannedTask =
  pt_packet :: TaskPacket
  pt_capability :: CapabilityProfile
  pt_checks :: "string list"
  pt_covers :: "int list"

record PlanProposal =
  pp_criteria :: "string list"
  pp_tasks :: "PlannedTask list"

text \<open>
  What the schema of a proposal admits: one to eight criteria, one to twelve tasks, each with one of
  the three capabilities a planner may ask for.
\<close>

definition proposal_valid :: "PlanProposal \<Rightarrow> bool" where
  "proposal_valid p \<longleftrightarrow> 1 \<le> length (pp_criteria p) \<and> length (pp_criteria p) \<le> 8 \<and>
     1 \<le> length (pp_tasks p) \<and> length (pp_tasks p) \<le> 12 \<and>
     (\<forall>t \<in> set (pp_tasks p). pt_capability t \<in> {MODEL_ONLY, REPO_READER, DEVELOPER_SANDBOX})"

section \<open>Inputs named in free text\<close>

text \<open>\<open>\w\<close> below code point 256, and the hyphen.\<close>

definition word_char :: "char \<Rightarrow> bool" where
  "word_char c = (let n = (of_char c :: nat) in
     (48 \<le> n \<and> n \<le> 57) \<or> (65 \<le> n \<and> n \<le> 90) \<or> n = 95 \<or> (97 \<le> n \<and> n \<le> 122) \<or>
     n \<in> {170, 178, 179, 181, 185, 186, 188, 189, 190} \<or>
     (192 \<le> n \<and> n \<le> 214) \<or> (216 \<le> n \<and> n \<le> 246) \<or> 248 \<le> n)"

definition joins_word :: "char \<Rightarrow> bool" where
  "joins_word c = (word_char c \<or> c = CHR ''-'')"

text \<open>
  \<open>re.search(rf"(?<![\w-]){re.escape(w)}(?![\w-])", s)\<close>: \<open>w\<close> occurs in \<open>s\<close>, joined to no word on either side.
  \<open>edge\<close> tells whether an occurrence may start here.
\<close>

fun found_from :: "bool \<Rightarrow> string \<Rightarrow> string \<Rightarrow> bool" where
  "found_from edge w [] = (edge \<and> w = [])"
| "found_from edge w (c # cs) =
     ((edge \<and> starts_with (c # cs) w \<and>
        (case drop (length w) (c # cs) of [] \<Rightarrow> True | d # ds \<Rightarrow> \<not> joins_word d)) \<or>
      found_from (\<not> joins_word c) w cs)"

definition named_in :: "string \<Rightarrow> string \<Rightarrow> bool" where
  "named_in w s = found_from True w s"

text \<open>One entry of \<open>required_inputs\<close>: the earlier tasks it names are kept, other text is described.\<close>

definition sort_entry :: "ident list \<Rightarrow> string \<Rightarrow> ident list \<times> string list \<Rightarrow> ident list \<times> string list" where
  "sort_entry earlier entry kd =
     (let text = strip entry;
          named = filter (\<lambda>tid. text = tid \<or> named_in tid text) earlier
      in if named \<noteq> [] then (foldl (\<lambda>kept tid. add_once tid kept) (fst kd) named, snd kd)
         else if text \<noteq> [] then (fst kd, snd kd @ [text])
         else kd)"

definition normalize_packet :: "ident list \<Rightarrow> TaskPacket \<Rightarrow> TaskPacket" where
  "normalize_packet earlier p =
     (let (kept, described) = foldl (\<lambda>kd entry. sort_entry earlier entry kd) ([], []) (tp_required_inputs p);
          context = (if described = [] then tp_context p
            else (if tp_context p = [] then [] else tp_context p @ [CHR 0x0A, CHR 0x0A]) @
              ''Inputs to use: '' @ join ''; '' described)
      in p\<lparr>tp_required_inputs := kept,
           tp_dependencies := tp_dependencies p @ filter (\<lambda>t. t \<notin> set (tp_dependencies p)) kept,
           tp_context := context\<rparr>)"

fun normalize_from :: "ident list \<Rightarrow> TaskPacket list \<Rightarrow> TaskPacket list" where
  "normalize_from earlier [] = []"
| "normalize_from earlier (p # ps) = normalize_packet earlier p # normalize_from (earlier @ [tp_task_id p]) ps"

definition normalize_inputs :: "TaskPacket list \<Rightarrow> TaskPacket list" where
  "normalize_inputs ps = normalize_from [] ps"

section \<open>Regression checks with nothing to run\<close>

text \<open>\<open>Path(path).name\<close> of a tracked file, and whether it is a test.\<close>

definition file_name :: "string \<Rightarrow> string" where
  "file_name path = (case rcut ''/'' path of None \<Rightarrow> path | Some (dir, name) \<Rightarrow> name)"

definition is_test_file :: "string \<Rightarrow> bool" where
  "is_test_file path = (starts_with (file_name path) ''test_'' \<or> ends_with path ''_test.py'')"

fun drop_regression_from :: "ident list \<Rightarrow> PlannedTask list \<Rightarrow> PlannedTask list" where
  "drop_regression_from code [] = []"
| "drop_regression_from code (t # ts) =
     (let upstream = tp_dependencies (pt_packet t);
          t' = (if ''pytest_regression'' \<in> set (pt_checks t) \<and> (\<forall>k \<in> set upstream. k \<notin> set code)
                then t\<lparr>pt_checks := filter (\<lambda>c. c \<noteq> ''pytest_regression'') (pt_checks t)\<rparr> else t);
          code' = (if pt_capability t' = DEVELOPER_SANDBOX then tp_task_id (pt_packet t') # code else code)
      in t' # drop_regression_from code' ts)"

definition drop_vacuous_regression :: "string list \<Rightarrow> PlannedTask list \<Rightarrow> PlannedTask list" where
  "drop_vacuous_regression tracked ts =
     (if \<exists>path \<in> set tracked. is_test_file path then ts else drop_regression_from [] ts)"

section \<open>Criteria and task nodes\<close>

text \<open>\<open>str.casefold\<close>: the letters of Latin-1 in lower case, the sharp s as two letters.\<close>

definition fold_char :: "char \<Rightarrow> string" where
  "fold_char c = (let n = (of_char c :: nat) in
     if (65 \<le> n \<and> n \<le> 90) \<or> (192 \<le> n \<and> n \<le> 214) \<or> (216 \<le> n \<and> n \<le> 222) then [char_of (n + 32)]
     else if n = 223 then ''ss'' else [c])"

definition casefold :: "string \<Rightarrow> string" where
  "casefold s = concat (map fold_char s)"

definition criteria_refused :: "string \<Rightarrow> string list \<Rightarrow> bool" where
  "criteria_refused objective normalized =
     (normalized = [] \<or> (\<exists>c \<in> set normalized. length c < 12) \<or>
      (\<exists>c \<in> set normalized. casefold c = casefold (strip objective)) \<or>
      \<not> distinct normalized \<or> INITIAL_COMPLETION_CRITERION \<in> set normalized)"

definition set_criteria :: "Orchestrator \<Rightarrow> string list \<Rightarrow> Run \<Rightarrow> py_error + Run" where
  "set_criteria core criteria r =
     (let normalized = map strip criteria in
      if criteria_refused (run_objective r) normalized
      then Inl (ValueError ''Completion criteria must be distinct, measurable, and more specific than the objective'')
      else bind_ok (mutate core (Define_Criteria normalized) r) (\<lambda>(r', evs). Inr r'))"

definition unresolvable_inputs :: "Run \<Rightarrow> TaskPacket list \<Rightarrow> (ident, ident list) dict" where
  "unresolvable_inputs r packets =
     (let batch = map tp_task_id packets;
          missing = foldl (\<lambda>d p. AList.update (tp_task_id p)
            (filter (\<lambda>v. v \<notin> fst ` set (run_available_inputs r) \<and> v \<notin> fst ` set (run_tasks r) \<and>
               v \<notin> fst ` set (run_artifacts r) \<and> v \<notin> set batch) (tp_required_inputs p)) d) [] packets
      in filter (\<lambda>(k, vs). vs \<noteq> []) missing)"

definition node_of :: "TaskPacket \<Rightarrow> CapabilityProfile \<Rightarrow> string list \<Rightarrow> TaskNode" where
  "node_of packet capability required =
     \<lparr>tn_packet = packet, tn_capability = capability, tn_workspace_id = None,
      tn_required_checks = (if required = [] then [''result_schema''] else required),
      tn_review_required = True, tn_high_risk = (capability = DEVELOPER_SANDBOX),
      tn_status = PLANNED, tn_attempts = 0, tn_revisions = 0, tn_attempt_baseline = 0, tn_revision_baseline = 0,
      tn_max_attempts = 3, tn_max_revisions = 2, tn_assignment = None, tn_assignment_history = [],
      tn_artifact_ids = [], tn_result = None, tn_blocker = None, tn_approval_gates = [], tn_approval_ids = []\<rparr>"

fun nodes_from :: "(TaskPacket \<times> CapabilityProfile \<times> string list) list \<Rightarrow> py_error + TaskNode list" where
  "nodes_from [] = Inr []"
| "nodes_from ((packet, capability, required) # rest) =
     (if capability = REVIEWER
      then Inl (ValueError ''Reviewer instances are commissioned only through review_task'')
      else if \<not> set required \<subseteq> insert ''result_schema'' (set EXECUTABLE_DEVELOPER_CHECKS)
      then Inl (ValueError ''Unknown trusted check'')
      else if capability = DEVELOPER_SANDBOX \<and> (\<forall>c \<in> set required. c \<notin> set EXECUTABLE_DEVELOPER_CHECKS)
      then Inl (ValueError ''Development requires a predeclared executable check'')
      else bind_ok (nodes_from rest) (\<lambda>nodes. Inr (node_of packet capability required # nodes)))"

definition task_nodes :: "Run \<Rightarrow> TaskPacket list \<Rightarrow> CapabilityProfile list \<Rightarrow> string list list \<Rightarrow>
    py_error + TaskNode list" where
  "task_nodes r packets capabilities checks =
     (if \<not> (length packets = length capabilities \<and> length capabilities = length checks)
      then Inl (ValueError ''Provide one capability and check list per packet'')
      else if unresolvable_inputs r packets \<noteq> []
      then Inl (ValueError (''Declared required_inputs are not resolvable: '' @
        dumps '', '' '': '' True (JObj (map (\<lambda>(k, vs). (k, JArr (map JStr vs))) (unresolvable_inputs r packets))) @
        ''. Register repository files with register_repository_inputs before'' @
        '' planning, or reference task IDs or accepted artifact IDs.''))
      else nodes_from (zip packets (zip capabilities checks)))"

section \<open>Installing a plan\<close>

text \<open>\<open>[d for d in packet.dependencies if d not in ids[:index]]\<close> for each packet in turn.\<close>

fun check_order :: "ident list \<Rightarrow> TaskPacket list \<Rightarrow> py_error + unit" where
  "check_order earlier [] = Inr ()"
| "check_order earlier (p # ps) =
     (let unknown = filter (\<lambda>d. d \<notin> set earlier) (tp_dependencies p) in
      if unknown \<noteq> []
      then Inl (ValueError (''task '' @ tp_task_id p @ '' depends on unknown or later tasks '' @
        py_repr (JArr (map JStr unknown))))
      else check_order (earlier @ [tp_task_id p]) ps)"

text \<open>\<open>coverage[criteria[index]].append(task_id)\<close> for the valid indexes a task names.\<close>

definition cover_index :: "string list \<Rightarrow> ident \<Rightarrow> (string, ident list) dict \<Rightarrow> int \<Rightarrow> (string, ident list) dict" where
  "cover_index criteria tid coverage i =
     (if 0 \<le> i \<and> i < int (length criteria)
      then (let c = criteria ! nat i in
        AList.update c ((case map_of coverage c of None \<Rightarrow> [] | Some ks \<Rightarrow> ks) @ [tid]) coverage)
      else coverage)"

definition coverage_of :: "string list \<Rightarrow> PlannedTask list \<Rightarrow> (string, ident list) dict" where
  "coverage_of criteria tasks =
     foldl (\<lambda>cov t. foldl (cover_index criteria (tp_task_id (pt_packet t))) cov (pt_covers t))
       (foldl (\<lambda>d c. AList.update c [] d) [] criteria) tasks"

text \<open>
  \<open>_install_plan\<close>: the exception it raises, if any, the run as saved by then, and the coverage it
  hands to \<open>save_state\<close> when it gets that far.
\<close>

definition planned_tasks :: "string list \<Rightarrow> PlanProposal \<Rightarrow> PlannedTask list" where
  "planned_tasks tracked p =
     drop_vacuous_regression tracked
       (map (\<lambda>(t, packet). t\<lparr>pt_packet := packet\<rparr>) (zip (pp_tasks p) (normalize_inputs (map pt_packet (pp_tasks p)))))"

definition check_plan :: "string list \<Rightarrow> PlanProposal \<Rightarrow> Run \<Rightarrow> py_error + (TaskNode list \<times> (string, ident list) dict)" where
  "check_plan tracked p r =
     (let packets = normalize_inputs (map pt_packet (pp_tasks p));
          tasks = planned_tasks tracked p;
          ids = map tp_task_id packets in
      if \<not> distinct ids then Inl (ValueError ''task_ids must be unique'')
      else bind_ok (check_order [] packets) (\<lambda>_.
        let coverage = coverage_of (pp_criteria p) tasks;
            uncovered = map fst (filter (\<lambda>(c, ks). ks = []) coverage) in
        if uncovered \<noteq> []
        then Inl (ValueError (''criteria not covered by any task: '' @ py_repr (JArr (map JStr uncovered))))
        else bind_ok (task_nodes r packets (map pt_capability tasks) (map pt_checks tasks)) (\<lambda>nodes.
          Inr (nodes, coverage))))"

definition install_plan :: "Orchestrator \<Rightarrow> string list \<Rightarrow> PlanProposal \<Rightarrow> Run \<Rightarrow>
    py_error option \<times> Run \<times> (string, ident list) dict option" where
  "install_plan core tracked p r =
     (case check_plan tracked p r of
        Inl e \<Rightarrow> (Some e, r, None)
      | Inr (nodes, coverage) \<Rightarrow>
          (case set_criteria core (pp_criteria p) r of
             Inl e \<Rightarrow> (Some e, r, None)
           | Inr r1 \<Rightarrow>
               (case mutate core (Plan_Tasks nodes) r1 of
                  Inl e \<Rightarrow> (Some e, r1, None)
                | Inr (r2, evs) \<Rightarrow> (None, r2, Some coverage))))"

end
