(* ===== verification/Planner_Laws.thy ===== *)
theory Planner_Laws
  imports Planner Scenario
begin

text \<open>
  What planning establishes before the kernel is asked: normalised packets name only earlier tasks as
  inputs and depend on all of them, an accepted order makes the graph acyclic, the nodes carry the
  packets, and coverage is counted over the plan's own tasks. With them the kernel adds the nodes.
\<close>

section \<open>Normalised packets\<close>

lemma foldl_add_once: "set (foldl (\<lambda>kept tid. add_once tid kept) kept named) = set kept \<union> set named"
  by (induct named arbitrary: kept) auto

lemma sort_entry_kept: "set (fst (sort_entry earlier entry kd)) \<subseteq> set (fst kd) \<union> set earlier"
  by (auto simp: sort_entry_def Let_def foldl_add_once)

lemma sort_entries_kept:
  "set (fst (foldl (\<lambda>kd entry. sort_entry earlier entry kd) kd entries)) \<subseteq> set (fst kd) \<union> set earlier"
proof (induct entries arbitrary: kd)
  case (Cons entry entries)
  show ?case using Cons[of "sort_entry earlier entry kd"] sort_entry_kept[of earlier entry kd] by auto
qed simp

lemma normalize_packet_fields:
  "tp_task_id (normalize_packet earlier p) = tp_task_id p"
  "set (tp_required_inputs (normalize_packet earlier p)) \<subseteq> set earlier"
  "set (tp_required_inputs (normalize_packet earlier p)) \<subseteq> set (tp_dependencies (normalize_packet earlier p))"
  using sort_entries_kept[of earlier "([], [])" "tp_required_inputs p"]
  by (auto simp: normalize_packet_def Let_def split: prod.splits)

lemma normalize_from_ids: "map tp_task_id (normalize_from earlier ps) = map tp_task_id ps"
  by (induct ps arbitrary: earlier) (simp_all add: normalize_packet_fields)

lemma normalize_from_inputs:
  "p \<in> set (normalize_from earlier ps) \<Longrightarrow> set (tp_required_inputs p) \<subseteq> set (tp_dependencies p)"
  by (induct ps arbitrary: earlier) (auto dest: normalize_packet_fields(3)[THEN subsetD])

lemma length_normalize [simp]: "length (normalize_inputs ps) = length ps"
  unfolding normalize_inputs_def using normalize_from_ids[of "[]" ps] by (metis length_map)

section \<open>Order\<close>

lemma check_order_earlier:
  "check_order earlier (ps @ p # qs) = Inr () \<Longrightarrow> set (tp_dependencies p) \<subseteq> set earlier \<union> tp_task_id ` set ps"
proof (induct ps arbitrary: earlier)
  case Nil
  then show ?case by (auto simp: Let_def filter_empty_conv split: if_splits)
next
  case (Cons q ps)
  from Cons.prems have "check_order (earlier @ [tp_task_id q]) (ps @ p # qs) = Inr ()"
    by (simp add: Let_def split: if_splits)
  from Cons.hyps[OF this] show ?case by auto
qed

text \<open>
  A run's tasks follow their references: every task is live and refers only to tasks listed before it.
\<close>

definition follows :: "(ident \<times> TaskNode) list \<Rightarrow> bool" where
  "follows kts \<longleftrightarrow> distinct (map fst kts) \<and>
     (\<forall>xs k t ys. kts = xs @ (k, t) # ys \<longrightarrow> \<not> retired (tn_status t) \<and> set (packet_refs (tn_packet t)) \<subseteq> fst ` set xs)"

lemma follows_live:
  assumes "follows kts" and "map_of kts k = Some t"
  shows "\<not> retired (tn_status t)"
proof -
  from map_of_SomeD[OF assms(2)] obtain xs ys where "kts = xs @ (k, t) # ys" by (auto dest: split_list)
  with assms(1) show ?thesis unfolding follows_def by blast
qed

text \<open>The position of a key in the list.\<close>

definition position :: "(ident \<times> 'v) list \<Rightarrow> ident \<Rightarrow> nat" where
  "position kts k = length (takeWhile (\<lambda>x. x \<noteq> k) (map fst kts))"

lemma position_append: "k \<notin> fst ` set xs \<Longrightarrow> position (xs @ (k, t) # ys) k = length xs"
  unfolding position_def by (subst map_append, subst takeWhile_append2) (auto simp: image_iff)

lemma position_before:
  assumes "k \<in> fst ` set xs"
  shows "position (xs @ ys) k < length xs"
proof -
  have k: "k \<in> set (map fst xs)" using assms by simp
  then have "position (xs @ ys) k = length (takeWhile (\<lambda>x. x \<noteq> k) (map fst xs))"
    unfolding position_def by (simp only: map_append) (subst takeWhile_append1[OF k], simp_all)
  also have "\<dots> < length (map fst xs)"
  proof -
    have "takeWhile (\<lambda>x. x \<noteq> k) (map fst xs) \<noteq> map fst xs" using k by (simp only: takeWhile_eq_all_conv) blast
    then show ?thesis by (metis length_takeWhile_le order_le_less takeWhile_eq_take take_all order_refl)
  qed
  finally show ?thesis by simp
qed

lemma follows_before:
  assumes "follows kts" and "map_of kts k = Some t" and "d \<in> set (packet_refs (tn_packet t))"
  shows "position kts d < position kts k" and "d \<in> fst ` set kts"
proof -
  from map_of_SomeD[OF assms(2)] obtain xs ys where kts: "kts = xs @ (k, t) # ys" by (auto dest: split_list)
  with assms(1,3) have d: "d \<in> fst ` set xs" unfolding follows_def by blast
  have "k \<notin> fst ` set xs" using assms(1) unfolding follows_def kts by (auto simp: image_iff)
  from position_append[OF this] position_before[OF d]
  show "position kts d < position kts k" unfolding kts by simp
  show "d \<in> fst ` set kts" using d unfolding kts by auto
qed

lemma follows_graph:
  assumes "follows (run_tasks r)" and "run_artifacts r = []"
  shows "graph r = Inr ()"
proof -
  have dist: "distinct (map fst (run_tasks r))" using assms(1) by (simp add: follows_def)
  have target: "graph_target r (tn_packet t) d = Inr (Some d)"
    if "map_of (run_tasks r) k = Some t" "d \<in> set (packet_refs (tn_packet t))" for k t d
  proof -
    from follows_before(2)[OF assms(1) that] obtain t' where t': "map_of (run_tasks r) d = Some t'"
      by (auto simp: keys_map_of)
    with follows_live[OF assms(1) t'] show ?thesis by (simp add: graph_target_def)
  qed
  have "depends r \<subseteq> (measure (position (run_tasks r)))\<inverse>"
  proof (rule subsetI)
    fix p assume "p \<in> depends r"
    then obtain k d t dep where p: "p = (k, d)" and t: "map_of (run_tasks r) k = Some t"
      "dep \<in> set (packet_refs (tn_packet t))" and tg: "graph_target r (tn_packet t) dep = Inr (Some d)"
      unfolding depends_def by blast
    from target[OF t] tg have "d = dep" by simp
    with follows_before(1)[OF assms(1) t] show "p \<in> (measure (position (run_tasks r)))\<inverse>" by (simp add: p)
  qed
  moreover have "acyclic ((measure (position (run_tasks r)))\<inverse>)" by (simp add: acyclic_converse wf_acyclic)
  ultimately have "acyclic (depends r)" by (rule acyclic_subset[rotated])
  moreover have "resolvable r k" if "live r k" for k
    using that target unfolding live_def resolvable_def by blast
  ultimately show ?thesis using graph_iff[OF dist] by blast
qed

lemma follows_map:
  assumes "follows kts" and "map fst kts' = map fst kts"
    and "\<And>k t'. map_of kts' k = Some t' \<Longrightarrow>
      \<exists>t. map_of kts k = Some t \<and> tn_packet t' = tn_packet t \<and> (\<not> retired (tn_status t) \<longrightarrow> \<not> retired (tn_status t'))"
  shows "follows kts'"
proof -
  have dist: "distinct (map fst kts')" using assms(1,2) by (simp add: follows_def)
  have "\<not> retired (tn_status t') \<and> set (packet_refs (tn_packet t')) \<subseteq> fst ` set xs'"
    if split: "kts' = xs' @ (k, t') # ys'" for xs' k t' ys'
  proof -
    have "map_of kts' k = Some t'" using set_dict_map_of[OF dist, of k t'] split by simp
    with assms(3) obtain t where t: "map_of kts k = Some t" "tn_packet t' = tn_packet t"
      "\<not> retired (tn_status t) \<longrightarrow> \<not> retired (tn_status t')" by blast
    from map_of_SomeD[OF t(1)] obtain xs ys where kts: "kts = xs @ (k, t) # ys" by (auto dest: split_list)
    have "map fst xs @ k # map fst ys = map fst xs' @ k # map fst ys'" using assms(2) unfolding kts split by simp
    moreover have "distinct (map fst xs @ k # map fst ys)" using assms(1) unfolding follows_def kts by simp
    ultimately have "map fst xs = map fst xs'"
      by (metis append_Cons_eq_iff distinct.simps(2) distinct_append in_set_conv_decomp_first not_distinct_conv_prefix)
    then have "fst ` set xs = fst ` set xs'" by (metis list.set_map)
    moreover have "\<not> retired (tn_status t) \<and> set (packet_refs (tn_packet t)) \<subseteq> fst ` set xs"
      using assms(1) kts unfolding follows_def by blast
    ultimately show ?thesis using t by simp
  qed
  with dist show ?thesis unfolding follows_def by blast
qed

section \<open>Nodes\<close>

lemma drop_regression_packets: "map pt_packet (drop_regression_from code ts) = map pt_packet ts"
  by (induct ts arbitrary: code) (simp_all add: Let_def)

lemma planned_packets: "map pt_packet (planned_tasks tracked p) = normalize_inputs (map pt_packet (pp_tasks p))"
proof -
  have kept: "map pt_packet (drop_vacuous_regression tracked ts) = map pt_packet ts" for ts
    by (simp add: drop_vacuous_regression_def drop_regression_packets)
  have "map pt_packet (map (\<lambda>(t, packet). t\<lparr>pt_packet := packet\<rparr>) (zip ts ps)) = ps" if "length ts = length ps" for ts ps
    using that by (induct ts ps rule: list_induct2) auto
  from this[of "pp_tasks p" "normalize_inputs (map pt_packet (pp_tasks p))"]
  show ?thesis unfolding planned_tasks_def kept by (simp only: length_normalize length_map)
qed

text \<open>A node as planning makes it: fresh, and with an executable check where it needs one.\<close>

definition fresh_node :: "TaskNode \<Rightarrow> bool" where
  "fresh_node t \<longleftrightarrow> tn_status t = PLANNED \<and> tn_attempts t = 0 \<and> tn_artifact_ids t = [] \<and> tn_assignment t = None \<and>
     tn_attempt_baseline t = 0 \<and> tn_revision_baseline t = 0 \<and> validate_capability_checks t None = Inr ()"

lemma nodes_from_Inr:
  "nodes_from kvs = Inr nodes \<Longrightarrow> map tn_packet nodes = map fst kvs \<and> (\<forall>t \<in> set nodes. fresh_node t)"
proof (induct kvs arbitrary: nodes)
  case (Cons kv kvs)
  obtain packet capability required where kv: "kv = (packet, capability, required)" by (cases kv)
  from Cons.prems obtain rest where rest: "nodes_from kvs = Inr rest"
    and nodes: "nodes = node_of packet capability required # rest"
    and exec: "capability = DEVELOPER_SANDBOX \<Longrightarrow> \<exists>c \<in> set required. c \<in> set EXECUTABLE_DEVELOPER_CHECKS"
    by (auto simp: kv Inr_simps)
  have "fresh_node (node_of packet capability required)"
    using exec by (auto simp: fresh_node_def node_of_def validate_capability_checks_Inr)
  with Cons.hyps[OF rest] show ?case by (simp add: nodes kv node_of_def)
qed simp

section \<open>Adding the nodes\<close>

definition keyed :: "TaskNode list \<Rightarrow> (ident \<times> TaskNode) list" where
  "keyed ts = map (\<lambda>t. (task_id t, t)) ts"

lemma add_each_nodes:
  assumes "\<forall>t \<in> set ts. fresh_node t" and "distinct (map fst (run_tasks r) @ map task_id ts)"
    and "run_available_inputs r = []" and "run_artifacts r = []"
  shows "\<exists>r' evs. add_each ts r = Inr (r', evs) \<and> run_tasks r' = run_tasks r @ keyed ts \<and> run_artifacts r' = [] \<and>
    run_status r' = run_status r \<and> wp_completion_criteria (run_plan r') = wp_completion_criteria (run_plan r)"
  using assms
proof (induct ts arbitrary: r)
  case Nil
  then show ?case by (simp add: keyed_def)
next
  case (Cons t ts)
  let ?r = "(set_task (task_id t) t r)\<lparr>run_plan := (run_plan r)\<lparr>wp_task_ids := wp_task_ids (run_plan r) @ [task_id t]\<rparr>\<rparr>"
  have new: "task_id t \<notin> fst ` set (run_tasks r)" using Cons.prems(2) by auto
  then have tasks: "run_tasks ?r = run_tasks r @ [(task_id t, t)]" by (simp add: keys_update_new)
  have "add_task t r = Inr (?r, [event r ''task.created'' [(''task_id'', VStr (task_id t))]])"
    using Cons.prems new by (simp add: add_task_Inr is_fresh_task_def fresh_node_def)
  moreover obtain r' evs where "add_each ts ?r = Inr (r', evs)" "run_tasks r' = run_tasks ?r @ keyed ts"
    "run_artifacts r' = []" "run_status r' = run_status ?r"
    "wp_completion_criteria (run_plan r') = wp_completion_criteria (run_plan ?r)"
    using Cons.hyps[of ?r] Cons.prems by (auto simp: tasks simp del: set_task_simps(1))
  ultimately show ?case unfolding tasks by (auto simp: keyed_def)
qed

section \<open>Coverage\<close>

definition counts_over :: "string list \<Rightarrow> ident set \<Rightarrow> (string, ident list) dict \<Rightarrow> bool" where
  "counts_over criteria ids cov \<longleftrightarrow> fst ` set cov = set criteria \<and> (\<forall>c ks. map_of cov c = Some ks \<longrightarrow> set ks \<subseteq> ids)"

lemma counts_over_start: "counts_over criteria ids (foldl (\<lambda>d c. AList.update c [] d) [] criteria)"
proof -
  have "fst ` set (foldl (\<lambda>d c. AList.update c ([] :: ident list) d) d0 cs) = fst ` set d0 \<union> set cs \<and>
      (\<forall>c ks. map_of (foldl (\<lambda>d c. AList.update c [] d) d0 cs) c = Some ks \<longrightarrow> ks = [] \<or> map_of d0 c = Some ks)"
    for d0 cs
  proof (induct cs arbitrary: d0)
    case (Cons c cs)
    show ?case using Cons[of "AList.update c [] d0"] by (auto split: if_splits)
  qed simp
  from this[of "[]" criteria] show ?thesis unfolding counts_over_def by fastforce
qed

lemma cover_index_counts:
  assumes "counts_over criteria ids cov" and "tid \<in> ids"
  shows "counts_over criteria ids (cover_index criteria tid cov i)"
proof (cases "0 \<le> i \<and> i < int (length criteria)")
  case True
  then have "criteria ! nat i \<in> set criteria" by (simp add: nat_less_iff)
  with assms True show ?thesis
    unfolding counts_over_def cover_index_def by (auto simp: Let_def split: option.splits if_splits) (metis subsetD)
next
  case False
  with assms(1) show ?thesis by (simp only: cover_index_def if_False)
qed

lemma coverage_counts:
  assumes "tp_task_id ` pt_packet ` set tasks \<subseteq> ids"
  shows "counts_over criteria ids (coverage_of criteria tasks)"
proof -
  have one: "counts_over criteria ids (foldl (cover_index criteria tid) cov js)"
    if "counts_over criteria ids cov" "tid \<in> ids" for tid cov js
    using that by (induct js arbitrary: cov) (auto intro: cover_index_counts)
  have "counts_over criteria ids (foldl (\<lambda>cov t. foldl (cover_index criteria (tp_task_id (pt_packet t))) cov (pt_covers t)) cov ts)"
    if "counts_over criteria ids cov" "tp_task_id ` pt_packet ` set ts \<subseteq> ids" for cov ts
    using that by (induct ts arbitrary: cov) (auto intro: one)
  with counts_over_start assms show ?thesis unfolding coverage_of_def by blast
qed

end
