(* ===== verification/Planner_Claims.thy ===== *)
theory Planner_Claims
  imports Planner_Laws
begin

text \<open>
  Installing a plan is all or nothing on a run that has nothing yet; where it is not, the driver is
  stranded. With a concrete plan of two tasks.
\<close>

section \<open>Installing\<close>

text \<open>What the checks before the first command have established about the nodes.\<close>

lemma check_plan_Inr:
  assumes "check_plan tracked p r = Inr (nodes, coverage)"
  shows "map task_id nodes = map (tp_task_id \<circ> pt_packet) (pp_tasks p)" and "distinct (map task_id nodes)"
    and "\<forall>t \<in> set nodes. fresh_node t" and "follows (keyed nodes)"
    and "fst ` set coverage = set (pp_criteria p)"
    and "\<And>c ks. map_of coverage c = Some ks \<Longrightarrow> ks \<noteq> [] \<and> set ks \<subseteq> set (map task_id nodes)"
proof -
  let ?packets = "normalize_inputs (map pt_packet (pp_tasks p))"
  let ?tasks = "planned_tasks tracked p"
  from assms have dist: "distinct (map tp_task_id ?packets)" and order: "check_order [] ?packets = Inr ()"
    and cov: "coverage = coverage_of (pp_criteria p) ?tasks"
    and covered: "map fst (filter (\<lambda>(c, ks). ks = []) coverage) = []"
    and nodes: "task_nodes r ?packets (map pt_capability ?tasks) (map pt_checks ?tasks) = Inr nodes"
    by (auto simp: check_plan_def Let_def Inr_simps)
  have len: "length ?packets = length ?tasks" using planned_packets[of tracked p] by (metis length_map)
  from nodes have nf: "nodes_from (zip ?packets (zip (map pt_capability ?tasks) (map pt_checks ?tasks))) = Inr nodes"
    by (simp add: task_nodes_def split: if_splits)
  from nodes_from_Inr[OF this] have packets: "map tn_packet nodes = ?packets" and fresh: "\<forall>t \<in> set nodes. fresh_node t"
    using len by simp_all
  have ids: "map task_id nodes = map tp_task_id ?packets"
    unfolding packets[symmetric] by (simp add: task_id_def comp_def)
  then show "map task_id nodes = map (tp_task_id \<circ> pt_packet) (pp_tasks p)"
    by (simp add: normalize_inputs_def normalize_from_ids comp_def)
  show dist': "distinct (map task_id nodes)" using dist ids by simp
  show "\<forall>t \<in> set nodes. fresh_node t" by (rule fresh)
  have "\<not> retired (tn_status t) \<and> set (packet_refs (tn_packet t)) \<subseteq> fst ` set xs"
    if split: "keyed nodes = xs @ (k, t) # ys" for xs k t ys
  proof -
    from split have "map snd (keyed nodes) = map snd xs @ t # map snd ys" by simp
    then have ns: "nodes = map snd xs @ t # map snd ys" by (simp add: keyed_def comp_def)
    then have ps: "?packets = map tn_packet (map snd xs) @ tn_packet t # map tn_packet (map snd ys)"
      unfolding packets[symmetric] by simp
    have "set (tp_dependencies (tn_packet t)) \<subseteq> tp_task_id ` set (map tn_packet (map snd xs))"
      using check_order_earlier[OF order[unfolded ps]] by simp
    also have "\<dots> = task_id ` set (map snd xs)" by (simp add: task_id_def image_image)
    also have "\<dots> = fst ` set xs"
    proof -
      have "\<forall>kt \<in> set (keyed nodes). fst kt = task_id (snd kt)" by (simp add: keyed_def)
      then have "\<forall>kt \<in> set xs. task_id (snd kt) = fst kt" unfolding split by simp
      then show ?thesis by (simp add: image_image cong: image_cong)
    qed
    finally have deps: "set (tp_dependencies (tn_packet t)) \<subseteq> fst ` set xs" .
    have "tn_packet t \<in> set ?packets" unfolding ps by simp
    from normalize_from_inputs[OF this[unfolded normalize_inputs_def]]
    have "set (packet_refs (tn_packet t)) \<subseteq> fst ` set xs" using deps by (auto simp: packet_refs_def)
    moreover have "fresh_node t" using fresh ns by simp
    ultimately show ?thesis by (simp add: fresh_node_def retired_def)
  qed
  moreover have "map fst (keyed nodes) = map task_id nodes" by (simp add: keyed_def)
  ultimately show "follows (keyed nodes)" using dist' unfolding follows_def by metis
  have "tp_task_id ` pt_packet ` set ?tasks = set (map tp_task_id (map pt_packet ?tasks))" by (simp add: image_image)
  also have "\<dots> = set (map task_id nodes)" unfolding planned_packets ids ..
  finally have "counts_over (pp_criteria p) (set (map task_id nodes)) coverage"
    unfolding cov by (intro coverage_counts) simp
  then have counts: "counts_over (pp_criteria p) (set (map task_id nodes)) coverage" .
  then show "fst ` set coverage = set (pp_criteria p)" by (simp add: counts_over_def)
  show "ks \<noteq> [] \<and> set ks \<subseteq> set (map task_id nodes)" if "map_of coverage c = Some ks" for c ks
    using counts covered that by (auto simp: counts_over_def filter_empty_conv dest: map_of_SomeD)
qed

lemma set_criteria_Inr:
  "set_criteria core criteria r = Inr r1 \<longleftrightarrow> run_status r = ''active'' \<and> \<not> criteria_refused (run_objective r) (map strip criteria) \<and>
     (\<exists>x evs. set_completion_criteria (map strip criteria) r = Inr (x, r1, evs))"
  by (auto simp: set_criteria_def Let_def mutate_def Inr_simps effect_Inr)

lemma plan_tasks_total:
  assumes "run_status r = ''active''" and "run_tasks r = []" and "run_artifacts r = []"
    and "run_available_inputs r = []" and "wp_revision (run_plan r) = 0"
    and "\<forall>t \<in> set nodes. fresh_node t" and "follows (keyed nodes)"
  obtains r' evs where "mutate core (Plan_Tasks nodes) r = Inr (r', evs)"
    and "map fst (run_tasks r') = map task_id nodes" and "graph r' = Inr ()"
    and "wp_completion_criteria (run_plan r') = wp_completion_criteria (run_plan r)"
proof -
  have "map fst (keyed nodes) = map task_id nodes" by (simp add: keyed_def)
  with assms(7) have dist: "distinct (map task_id nodes)" unfolding follows_def by metis
  from add_each_nodes[of nodes r] assms dist obtain r1 evs1 where add: "add_each nodes r = Inr (r1, evs1)"
    and tasks: "run_tasks r1 = keyed nodes" and arts: "run_artifacts r1 = []"
    and crit: "wp_completion_criteria (run_plan r1) = wp_completion_criteria (run_plan r)" by auto
  have g1: "graph r1 = Inr ()" by (rule follows_graph) (simp_all add: tasks arts assms(7))
  have dist1: "distinct (map fst (run_tasks r1))" using assms(7) by (simp add: tasks follows_def)
  from refresh_total[OF dist1] obtain r' evs2 where re: "refresh r1 = Inr (r', evs2)" "refreshed r1 r'" by blast
  from re have "mutate core (Plan_Tasks nodes) r = Inr (r', evs1 @ evs2)"
    using assms(1,2,5) add g1 by (simp add: mutate_def effect_Inr add_tasks_Inr then_refresh_Inr)
  moreover have keys: "map fst (run_tasks r') = map task_id nodes"
    using re(2) by (simp add: refreshed_def tasks keyed_def)
  moreover have "graph r' = Inr ()"
  proof (rule follows_graph)
    show "run_artifacts r' = []" using refreshed_frame(1)[OF re(2)] arts by simp
    show "follows (run_tasks r')"
    proof (rule follows_map[OF assms(7)])
      show "map fst (run_tasks r') = map fst (keyed nodes)" using keys by (simp add: keyed_def)
      fix k t' assume "map_of (run_tasks r') k = Some t'"
      from refreshed_task[OF re(2) this] obtain t where "map_of (run_tasks r1) k = Some t" "settle_step r1 t t'" .
      then show "\<exists>t. map_of (keyed nodes) k = Some t \<and> tn_packet t' = tn_packet t \<and>
          (\<not> retired (tn_status t) \<longrightarrow> \<not> retired (tn_status t'))"
        unfolding tasks by (auto simp: settle_step_def retired_def split: if_splits)
    qed
  qed
  moreover have "wp_completion_criteria (run_plan r') = wp_completion_criteria (run_plan r)"
    using refreshed_frame(7)[OF re(2)] crit by simp
  ultimately show ?thesis by (rule that)
qed

text \<open>
  C38 (functional). A plan is installed whole or not at all: on an active run without tasks, artifacts
  or inputs, either \<open>_install_plan\<close> raises and the run is as it was, or the run has the trimmed
  criteria, exactly the proposed tasks, at most twelve, in a graph the kernel accepts, and the saved
  coverage names for every criterion at least one of those tasks.
\<close>

theorem plans_are_installed_whole:
  assumes "proposal_valid p" and "run_status r = ''active''" and "run_tasks r = []" and "run_artifacts r = []"
    and "run_available_inputs r = []" and "wp_revision (run_plan r) = 0"
  shows "case install_plan core tracked p r of
      (Some e, r', saved) \<Rightarrow> r' = r \<and> saved = None
    | (None, r', saved) \<Rightarrow>
        wp_completion_criteria (run_plan r') = map strip (pp_criteria p) \<and>
        map fst (run_tasks r') = map (tp_task_id \<circ> pt_packet) (pp_tasks p) \<and> length (run_tasks r') \<le> 12 \<and>
        graph r' = Inr () \<and>
        (\<exists>coverage. saved = Some coverage \<and> fst ` set coverage = set (pp_criteria p) \<and>
           (\<forall>c \<in> set (pp_criteria p). \<exists>ks. map_of coverage c = Some ks \<and> ks \<noteq> [] \<and> set ks \<subseteq> fst ` set (run_tasks r')))"
proof (cases "check_plan tracked p r")
  case (Inl e)
  then show ?thesis by (simp add: install_plan_def)
next
  case (Inr nc)
  obtain nodes coverage where nc: "nc = (nodes, coverage)" by (cases nc)
  note checked = check_plan_Inr[OF Inr[unfolded nc]]
  show ?thesis
  proof (cases "set_criteria core (pp_criteria p) r")
    case (Inl e)
    with Inr show ?thesis by (simp add: install_plan_def nc)
  next
    case criteria: (Inr r1)
    then have r1: "r1 = r\<lparr>run_plan := (run_plan r)\<lparr>wp_completion_criteria := map strip (pp_criteria p)\<rparr>\<rparr>"
      by (auto simp: set_criteria_Inr set_completion_criteria_def split: if_splits)
    obtain r' evs where added: "mutate core (Plan_Tasks nodes) r1 = Inr (r', evs)"
      and keys: "map fst (run_tasks r') = map task_id nodes" and g: "graph r' = Inr ()"
      and crit: "wp_completion_criteria (run_plan r') = map strip (pp_criteria p)"
      by (rule plan_tasks_total[where r = r1 and nodes = nodes and core = core]) (use assms checked in \<open>simp_all add: r1\<close>)
    have "set (map task_id nodes) = fst ` set (run_tasks r')" unfolding keys[symmetric] by simp
    moreover have "length (run_tasks r') \<le> 12"
      using assms(1) checked(1) keys unfolding proposal_valid_def by (metis length_map)
    moreover have "\<exists>ks. map_of coverage c = Some ks \<and> ks \<noteq> [] \<and> set ks \<subseteq> set (map task_id nodes)"
      if "c \<in> set (pp_criteria p)" for c
    proof -
      from that checked(5) have "c \<in> fst ` set coverage" by simp
      then obtain ks where "map_of coverage c = Some ks" unfolding keys_map_of by blast
      with checked(6)[OF this] show ?thesis by blast
    qed
    ultimately show ?thesis
      using Inr criteria added crit keys g checked(1,5) unfolding install_plan_def nc by simp
  qed
qed

section \<open>A concrete plan\<close>

definition plan0 :: PlanProposal where
  "plan0 = \<lparr>pp_criteria = ['' The answer is sourced'', ''The answer is short''],
     pp_tasks = [\<lparr>pt_packet = packet0 ''find'' [], pt_capability = MODEL_ONLY, pt_checks = [], pt_covers = [0]\<rparr>,
       \<lparr>pt_packet = (packet0 ''write'' [])\<lparr>tp_required_inputs := [''the text from find'', ''a style guide'']\<rparr>,
        pt_capability = MODEL_ONLY, pt_checks = [''result_schema''], pt_covers = [1, 7]\<rparr>]\<rparr>"

text \<open>The second task names the first in free text: it comes to depend on it, and keeps the rest as context.\<close>

lemma plan0_normalized:
  "map (\<lambda>p. (tp_required_inputs p, tp_dependencies p, tp_context p)) (normalize_inputs (map pt_packet (pp_tasks plan0))) =
     [([], [], []), ([''find''], [''find''], ''Inputs to use: a style guide'')]"
  by code_simp

lemma plan0_installs: "fst (install_plan core0 [] plan0 run0) = None"
  by code_simp

theorem plans_are_installed_whole_witness:
  "\<exists>r' coverage. install_plan core0 [] plan0 run0 = (None, r', Some coverage) \<and>
     map fst (run_tasks r') = [''find'', ''write''] \<and> graph r' = Inr ()"
proof -
  obtain e r' saved where i: "install_plan core0 [] plan0 run0 = (e, r', saved)" by (cases "install_plan core0 [] plan0 run0")
  have e: "e = None" using plan0_installs by (simp add: i)
  have "proposal_valid plan0" by (simp add: proposal_valid_def plan0_def)
  moreover have "run_status run0 = ''active''" "run_tasks run0 = []" "run_artifacts run0 = []"
    "run_available_inputs run0 = []" "wp_revision (run_plan run0) = 0"
    by (simp_all add: run0_def initial_run_def initial_plan_def)
  ultimately show ?thesis
    using plans_are_installed_whole[of plan0 run0 core0 "[]"] unfolding i e by (auto simp: plan0_def packet0_def)
qed

section \<open>Where a plan is not installed whole\<close>

text \<open>
  With an input registered under the name of a task, the kernel refuses the tasks after the criteria
  have been saved: the run now counts as planned and has no tasks, and every later session finds
  nothing to run.
\<close>

definition registered0 :: Run where
  "registered0 = run0\<lparr>run_available_inputs := [(''write'', ''sha256:0'')]\<rparr>"

lemma refused_plan_strands_the_run:
  "case install_plan core0 [] plan0 registered0 of (e, r', saved) \<Rightarrow>
     e \<noteq> None \<and> run_tasks r' = [] \<and> wp_completion_criteria (run_plan r') \<noteq> wp_completion_criteria (run_plan registered0)"
  by code_simp

text \<open>
  The criteria are saved trimmed, the coverage under the criteria as they were proposed: a criterion
  with white space around it is looked up in vain.
\<close>

lemma coverage_misses_trimmed_criteria:
  "case install_plan core0 [] plan0 run0 of (e, r', saved) \<Rightarrow>
     e = None \<and> (\<exists>c \<in> set (wp_completion_criteria (run_plan r')). map_of (the saved) c = None)"
  by code_simp

end
