(* ===== verification/Coroutine.thy ===== *)
theory Coroutine
  imports Prelude "HOL-Library.Multiset"
begin

text \<open>
  Python's coroutines and threads as resumptions: a computation returns or raises, or performs one step
  on a shared state and goes on from what it saw. Between two steps the others act. Sequencing, handlers,
  \<open>asyncio.gather\<close> under any choice of the event loop, the executions of a coroutine among others that
  respect a relation, and the law that a coroutine whose every step respects it does so as a whole.
\<close>

declare map_of_eq_Some_iff [simp del] Some_eq_map_of_iff [simp del]

section \<open>Resumptions\<close>

datatype ('s, 'a) co = Return "py_error + 'a" | Pause "'s \<Rightarrow> 's" "'s \<Rightarrow> ('s, 'a) co"

definition give :: "'a \<Rightarrow> ('s, 'a) co" where
  "give x = Return (Inr x)"

definition raising :: "py_error \<Rightarrow> ('s, 'a) co" where
  "raising e = Return (Inl e)"

text \<open>One step: what a function makes of the state at that moment.\<close>

definition act :: "('s \<Rightarrow> (py_error + 'a) \<times> 's) \<Rightarrow> ('s, 'a) co" where
  "act f = Pause (\<lambda>s. snd (f s)) (\<lambda>s. Return (fst (f s)))"

primrec then_do :: "('s, 'a) co \<Rightarrow> ('a \<Rightarrow> ('s, 'b) co) \<Rightarrow> ('s, 'b) co" where
  "then_do (Return res) f = (case res of Inl e \<Rightarrow> Return (Inl e) | Inr x \<Rightarrow> f x)"
| "then_do (Pause g k) f = Pause g (\<lambda>s. then_do (k s) f)"

text \<open>\<open>try\<close>: the handler decides what becomes of the exception.\<close>

primrec handle :: "('s, 'a) co \<Rightarrow> (py_error \<Rightarrow> ('s, 'a) co) \<Rightarrow> ('s, 'a) co" where
  "handle (Return res) h = (case res of Inl e \<Rightarrow> h e | Inr x \<Rightarrow> Return (Inr x))"
| "handle (Pause g k) h = Pause g (\<lambda>s. handle (k s) h)"

text \<open>\<open>if bad: raise e\<close>, and a value computed without a step.\<close>

definition stop_if :: "bool \<Rightarrow> py_error \<Rightarrow> ('s, unit) co" where
  "stop_if bad e = (if bad then raising e else give ())"

definition value_of :: "py_error + 'a \<Rightarrow> ('s, 'a) co" where
  "value_of res = Return res"

fun each :: "('a \<Rightarrow> ('s, 'b) co) \<Rightarrow> 'a list \<Rightarrow> ('s, 'b list) co" where
  "each f [] = give []"
| "each f (x # xs) = then_do (f x) (\<lambda>y. then_do (each f xs) (\<lambda>ys. give (y # ys)))"

section \<open>Gathering\<close>

fun finished_co :: "('s, 'a) co \<Rightarrow> bool" where
  "finished_co (Return res) = True"
| "finished_co (Pause g k) = False"

fun effect_co :: "('s, 'a) co \<Rightarrow> 's \<Rightarrow> 's" where
  "effect_co (Return res) s = s"
| "effect_co (Pause g k) s = g s"

fun next_co :: "('s, 'a) co \<Rightarrow> 's \<Rightarrow> ('s, 'a) co" where
  "next_co (Return res) s = Return res"
| "next_co (Pause g k) s = k s"

fun outcome_co :: "('s, 'a) co \<Rightarrow> py_error + 'a" where
  "outcome_co (Return res) = res"
| "outcome_co (Pause g k) = Inl CancelledError"

definition waiting :: "('s, 'a) co list \<Rightarrow> nat list" where
  "waiting cs = filter (\<lambda>i. \<not> finished_co (cs ! i)) [0..<length cs]"

text \<open>The coroutine the event loop resumes, picked by the state.\<close>

definition chosen :: "('s \<Rightarrow> nat) \<Rightarrow> ('s, 'a) co list \<Rightarrow> 's \<Rightarrow> nat" where
  "chosen pick cs s = waiting cs ! (pick s mod length (waiting cs))"

lemma chosen_waiting: "waiting cs \<noteq> [] \<Longrightarrow> chosen pick cs s \<in> set (waiting cs)"
  by (simp add: chosen_def)

lemma chosen_less:
  assumes "waiting cs \<noteq> []"
  shows "chosen pick cs s < length cs" and "\<not> finished_co (cs ! chosen pick cs s)"
  using chosen_waiting[OF assms, of pick s] by (auto simp: waiting_def)

definition resumes :: "(('s, 'a) co \<times> ('s, 'a) co) set" where
  "resumes = {(k s, Pause g k) | g k s. True}"

lemma wf_resumes: "wf (resumes :: (('s, 'a) co \<times> ('s, 'a) co) set)"
proof (rule wfUNIVI)
  fix P :: "('s, 'a) co \<Rightarrow> bool" and c :: "('s, 'a) co"
  assume "\<forall>x. (\<forall>y. (y, x) \<in> resumes \<longrightarrow> P y) \<longrightarrow> P x"
  then have step: "\<And>x. (\<And>y. (y, x) \<in> resumes \<Longrightarrow> P y) \<Longrightarrow> P x" by blast
  show "P c"
  proof (induct c)
    case (Return r)
    show ?case by (rule step) (simp add: resumes_def)
  next
    case (Pause g k)
    show ?case
    proof (rule step)
      fix y assume "(y, Pause g k) \<in> resumes"
      then obtain s where "y = k s" by (auto simp: resumes_def)
      then show "P y" using Pause[OF rangeI] by simp
    qed
  qed
qed

lemma resumes_smaller:
  assumes "waiting cs \<noteq> []"
  shows "(mset (cs[chosen pick cs s := next_co (cs ! chosen pick cs s) s]), mset cs) \<in> mult resumes"
proof -
  let ?i = "chosen pick cs s"
  note less = chosen_less[OF assms, of pick s]
  then obtain g k where c: "cs ! ?i = Pause g k" by (cases "cs ! ?i") auto
  have "mset (cs[?i := k s]) = (mset cs - {#cs ! ?i#}) + {#k s#}" using less(1) by (simp add: mset_update)
  moreover have "mset cs = (mset cs - {#cs ! ?i#}) + {#cs ! ?i#}" using less(1) by simp
  moreover have "((mset cs - {#cs ! ?i#}) + {#k s#}, (mset cs - {#cs ! ?i#}) + {#cs ! ?i#}) \<in> mult resumes"
    by (rule one_step_implies_mult) (auto simp: c resumes_def)
  ultimately show ?thesis by (simp add: c)
qed

text \<open>\<open>asyncio.gather(..., return_exceptions=True)\<close>: the outcomes, once all have finished.\<close>

function gather_all :: "('s \<Rightarrow> nat) \<Rightarrow> ('s, 'a) co list \<Rightarrow> ('s, (py_error + 'a) list) co" where
  "gather_all pick cs =
     (if waiting cs = [] then give (map outcome_co cs)
      else Pause (\<lambda>s. effect_co (cs ! chosen pick cs s) s)
        (\<lambda>s. gather_all pick (cs[chosen pick cs s := next_co (cs ! chosen pick cs s) s])))"
  by pat_completeness auto

termination
  by (relation "inv_image (mult resumes) (\<lambda>(pick, cs). mset cs)")
    (auto intro: wf_mult wf_resumes resumes_smaller)

declare gather_all.simps [simp del]

section \<open>Executions\<close>

text \<open>
  An execution of a coroutine while others act between its steps as \<open>R\<close> allows, and the one where
  nobody does.
\<close>

inductive runs :: "('s \<Rightarrow> 's \<Rightarrow> bool) \<Rightarrow> ('s, 'a) co \<Rightarrow> 's \<Rightarrow> py_error + 'a \<Rightarrow> 's \<Rightarrow> bool" for R where
  returned: "runs R (Return res) s res s"
| resumed: "R s s1 \<Longrightarrow> runs R (k s1) (g s1) res s' \<Longrightarrow> runs R (Pause g k) s res s'"

inductive_cases runs_ReturnE: "runs R (Return res) s res' s'"
inductive_cases runs_PauseE: "runs R (Pause g k) s res s'"

primrec alone :: "('s, 'a) co \<Rightarrow> 's \<Rightarrow> (py_error + 'a) \<times> 's" where
  "alone (Return res) s = (res, s)"
| "alone (Pause g k) s = alone (k s) (g s)"

lemma alone_runs: "(\<And>s. R s s) \<Longrightarrow> alone c s = (res, s') \<Longrightarrow> runs R c s res s'"
proof (induct c arbitrary: s)
  case (Return r)
  then show ?case by (simp add: runs.returned)
next
  case (Pause g k)
  from Pause(3) have "alone (k s) (g s) = (res, s')" by simp
  from Pause(1)[OF rangeI Pause(2) this] Pause(2) show ?case by (blast intro: runs.resumed)
qed

lemma alone_simps [simp]:
  "alone (give x) s = (Inr x, s)" "alone (raising e) s = (Inl e, s)" "alone (value_of res) s = (res, s)"
  "alone (act f) s = f s" "alone (stop_if b e) s = (if b then Inl e else Inr (), s)"
  by (simp_all add: give_def raising_def value_of_def act_def stop_if_def)

lemma alone_then_do [simp]:
  "alone (then_do m f) s = (case alone m s of (Inl e, s1) \<Rightarrow> (Inl e, s1) | (Inr x, s1) \<Rightarrow> alone (f x) s1)"
  by (induct m arbitrary: s) (auto split: sum.split prod.split)

lemma runs_Pause: "runs R (Pause g k) s res s' \<longleftrightarrow> (\<exists>s1. R s s1 \<and> runs R (k s1) (g s1) res s')"
  by (auto elim!: runs_PauseE intro: runs.resumed)

lemma runs_Return [simp]: "runs R (Return res) s res' s' \<longleftrightarrow> res' = res \<and> s' = s"
  by (auto intro: runs.intros elim: runs_ReturnE)

lemma runs_give [simp]: "runs R (give x) s res s' \<longleftrightarrow> res = Inr x \<and> s' = s"
  by (simp add: give_def)

lemma runs_raising [simp]: "runs R (raising e) s res s' \<longleftrightarrow> res = Inl e \<and> s' = s"
  by (simp add: raising_def)

lemma runs_stop_if [simp]: "runs R (stop_if bad e) s res s' \<longleftrightarrow> res = (if bad then Inl e else Inr ()) \<and> s' = s"
  by (simp add: stop_if_def)

lemma runs_value_of [simp]: "runs R (value_of res) s res' s' \<longleftrightarrow> res' = res \<and> s' = s"
  by (simp add: value_of_def)

lemma runs_act: "runs R (act f) s res s' \<longleftrightarrow> (\<exists>s1. R s s1 \<and> f s1 = (res, s'))"
  unfolding act_def by (auto elim!: runs_PauseE intro!: runs.resumed simp: prod_eq_iff)

lemma runs_then_do:
  "runs R (then_do m f) s res s' \<longleftrightarrow>
     (\<exists>e. runs R m s (Inl e) s' \<and> res = Inl e) \<or> (\<exists>x s1. runs R m s (Inr x) s1 \<and> runs R (f x) s1 res s')"
proof (induct m arbitrary: s)
  case (Return r)
  then show ?case by (cases r) auto
next
  case (Pause g k)
  show ?case unfolding then_do.simps runs_Pause Pause[OF rangeI] by blast
qed

lemma runs_handle:
  "runs R (handle m h) s res s' \<longleftrightarrow>
     (\<exists>e s1. runs R m s (Inl e) s1 \<and> runs R (h e) s1 res s') \<or> (\<exists>x. runs R m s (Inr x) s' \<and> res = Inr x)"
proof (induct m arbitrary: s)
  case (Return r)
  then show ?case by (cases r) auto
next
  case (Pause g k)
  show ?case unfolding handle.simps runs_Pause Pause[OF rangeI] by blast
qed

lemmas runs_simps = runs_then_do runs_handle runs_act

section \<open>Coroutines that respect a relation\<close>

inductive keeps :: "('s \<Rightarrow> 's \<Rightarrow> bool) \<Rightarrow> ('s, 'a) co \<Rightarrow> bool" for R where
  keeps_Return: "keeps R (Return res)"
| keeps_Pause: "(\<And>s. R s (g s)) \<Longrightarrow> (\<And>s. keeps R (k s)) \<Longrightarrow> keeps R (Pause g k)"

inductive_cases keeps_PauseE: "keeps R (Pause g k)"

lemma keeps_basic [simp]: "keeps R (give x)" "keeps R (raising e)" "keeps R (stop_if b e)" "keeps R (value_of res)"
  by (simp_all add: give_def raising_def stop_if_def value_of_def keeps_Return)

lemma keeps_act: "(\<And>s. R s (snd (f s))) \<Longrightarrow> keeps R (act f)"
  unfolding act_def by (blast intro: keeps.intros)

lemma keeps_then_do: "keeps R m \<Longrightarrow> (\<And>x. keeps R (f x)) \<Longrightarrow> keeps R (then_do m f)"
  by (induct m rule: keeps.induct) (auto intro: keeps.intros split: sum.splits)

lemma keeps_handle: "keeps R m \<Longrightarrow> (\<And>e. keeps R (h e)) \<Longrightarrow> keeps R (handle m h)"
  by (induct m rule: keeps.induct) (auto intro: keeps.intros split: sum.splits)

lemma keeps_each: "(\<And>x. x \<in> set xs \<Longrightarrow> keeps R (f x)) \<Longrightarrow> keeps R (each f xs)"
  by (induct xs) (auto intro!: keeps_then_do)

lemma keeps_next: "keeps R c \<Longrightarrow> keeps R (next_co c s)"
  by (cases c) (auto elim: keeps_PauseE)

lemma keeps_gather: "\<forall>c \<in> set cs. keeps R c \<Longrightarrow> keeps R (gather_all pick cs)"
proof (induct pick cs rule: gather_all.induct)
  case (1 pick cs)
  show ?case
  proof (cases "waiting cs = []")
    case True
    then show ?thesis by (simp add: gather_all.simps[of pick cs])
  next
    case False
    have "R s (effect_co (cs ! chosen pick cs s) s)" for s
    proof -
      note less = chosen_less[OF False, of pick s]
      then obtain g k where c: "cs ! chosen pick cs s = Pause g k" by (cases "cs ! chosen pick cs s") auto
      with 1(2) less(1) have "keeps R (Pause g k)" by (metis nth_mem)
      then show ?thesis by (auto simp: c elim: keeps_PauseE)
    qed
    moreover have "keeps R (gather_all pick (cs[chosen pick cs s := next_co (cs ! chosen pick cs s) s]))" for s
    proof (rule 1(1)[OF False])
      show "\<forall>c \<in> set (cs[chosen pick cs s := next_co (cs ! chosen pick cs s) s]). keeps R c"
      proof
        fix c assume "c \<in> set (cs[chosen pick cs s := next_co (cs ! chosen pick cs s) s])"
        then have "c = next_co (cs ! chosen pick cs s) s \<or> c \<in> set cs" by (metis insertE set_update_subset_insert subsetD)
        moreover have "keeps R (cs ! chosen pick cs s)"
          by (rule bspec[OF 1(2) nth_mem[OF chosen_less(1)[OF False]]])
        ultimately show "keeps R c" by (elim disjE) (simp_all add: keeps_next bspec[OF 1(2)])
      qed
    qed
    ultimately show ?thesis unfolding gather_all.simps[of pick cs] if_not_P[OF False] by (rule keeps_Pause)
  qed
qed

text \<open>
  What everybody respects, step by step, an execution respects from beginning to end: a contract between
  a coroutine and the others.
\<close>

locale respected =
  fixes R :: "'s \<Rightarrow> 's \<Rightarrow> bool"
  assumes refl: "R s s"
    and trans: "R s s1 \<Longrightarrow> R s1 s2 \<Longrightarrow> R s s2"
begin

lemma runs_respects: "runs R c s res s' \<Longrightarrow> keeps R c \<Longrightarrow> R s s'"
proof (induct rule: runs.induct)
  case (returned res s)
  show ?case by (rule refl)
next
  case (resumed s s1 k g res s')
  from resumed.prems have "R s1 (g s1)" "keeps R (k s1)" by (auto elim: keeps_PauseE)
  with resumed show ?case using trans by blast
qed

end

end
