(* ===== verification/Reviewer.thy ===== *)
theory Reviewer
  imports Text Models
begin

text \<open>
  What trusted code makes of a reviewer's answer: \<open>review_items\<close> and \<open>hold_to_plan\<close> of
  \<open>src/src/walter/adapter.py\<close>. The reviewer's own \<open>passed\<close> is a claim; it stands only with a verdict on
  every item of the plan, evidence for each, and no serious finding.
\<close>

section \<open>The reviewer's answer\<close>

record ItemVerdict =
  iv_item :: int
  iv_met :: bool
  iv_evidence :: string

datatype Severity = critical | high | medium | low

fun severity_value :: "Severity \<Rightarrow> string" where
  "severity_value critical = ''critical''"
| "severity_value high = ''high''"
| "severity_value medium = ''medium''"
| "severity_value low = ''low''"

record ReviewFinding =
  rf_severity :: Severity
  rf_issue :: string
  rf_evidence :: string

record ReviewResult =
  rs_passed :: bool
  rs_evidence :: "string list"
  rs_reason :: string
  rs_verdicts :: "ItemVerdict list"
  rs_findings :: "ReviewFinding list"

definition BLOCKING_SEVERITIES :: "Severity list" where
  "BLOCKING_SEVERITIES = [critical, high]"

section \<open>Holding a review to the plan\<close>

definition review_items :: "TaskPacket \<Rightarrow> string list \<Rightarrow> string list" where
  "review_items packet run_criteria =
     [''Planned deliverable is present and complete: '' @ tp_deliverable packet] @
     map (\<lambda>c. ''Acceptance criterion: '' @ c) (tp_acceptance_criteria packet) @
     map (\<lambda>c. ''Constraint respected: '' @ c) (tp_constraints packet) @
     map (\<lambda>c. ''Run success criterion this task alone covers: '' @ c) run_criteria"

text \<open>The problem with one verdict, and with the verdicts on item \<open>n\<close>.\<close>

definition verdict_problem :: "nat \<Rightarrow> string \<Rightarrow> ItemVerdict \<Rightarrow> string list" where
  "verdict_problem n text v =
     (if \<not> iv_met v then
        [''Plan item '' @ show_nat n @ '' not met: '' @ text @
          (if substantive (iv_evidence v) then '' ('' @ strip (iv_evidence v) @ '')'' else [])]
      else if \<not> substantive (iv_evidence v) then
        [''Plan item '' @ show_nat n @ '' ruled met without evidence: '' @ text]
      else [])"

definition item_problems :: "ReviewResult \<Rightarrow> nat \<times> string \<Rightarrow> string list" where
  "item_problems report nt =
     (let (n, text) = nt; verdicts = filter (\<lambda>v. iv_item v = int n) (rs_verdicts report) in
      (if verdicts = [] then [''No verdict on plan item '' @ show_nat n @ '': '' @ text] else []) @
      concat (map (verdict_problem n text) verdicts))"

definition finding_problems :: "ReviewResult \<Rightarrow> string list" where
  "finding_problems report = map (\<lambda>f. capitalize (severity_value (rf_severity f)) @ '' finding: '' @ rf_issue f)
     (filter (\<lambda>f. rf_severity f \<in> set BLOCKING_SEVERITIES) (rs_findings report))"

definition review_problems :: "ReviewResult \<Rightarrow> string list \<Rightarrow> string list" where
  "review_problems report items = concat (map (item_problems report) (enumerate 1 items)) @ finding_problems report"

text \<open>\<open>reason.rstrip('. ')\<close>\<close>

definition strip_end :: "string \<Rightarrow> string" where
  "strip_end s = rev (dropWhile (\<lambda>c. c = CHR ''.'' \<or> c = CHR '' '') (rev s))"

definition hold_to_plan :: "ReviewResult \<Rightarrow> string list \<Rightarrow> ReviewResult" where
  "hold_to_plan report items =
     (let problems = review_problems report items in
      if problems = [] then report
      else (let summary = join ''; '' problems in
        report\<lparr>rs_passed := False,
          rs_evidence := rs_evidence report @ problems,
          rs_reason := (if rs_passed report then summary else strip_end (rs_reason report) @ ''. '' @ summary)\<rparr>))"

section \<open>What a pass has to show\<close>

lemma verdict_problem_Nil: "verdict_problem n text v = [] \<longleftrightarrow> iv_met v \<and> substantive (iv_evidence v)"
  by (simp add: verdict_problem_def)

lemma item_problems_Nil:
  "item_problems report (n, text) = [] \<longleftrightarrow>
     (\<exists>v \<in> set (rs_verdicts report). iv_item v = int n) \<and>
     (\<forall>v \<in> set (rs_verdicts report). iv_item v = int n \<longrightarrow> iv_met v \<and> substantive (iv_evidence v))"
  by (auto simp: item_problems_def verdict_problem_Nil filter_empty_conv)

lemma review_problems_Nil:
  "review_problems report items = [] \<longleftrightarrow>
     (\<forall>n. 1 \<le> n \<and> n \<le> length items \<longrightarrow>
        (\<exists>v \<in> set (rs_verdicts report). iv_item v = int n) \<and>
        (\<forall>v \<in> set (rs_verdicts report). iv_item v = int n \<longrightarrow> iv_met v \<and> substantive (iv_evidence v))) \<and>
     (\<forall>f \<in> set (rs_findings report). rf_severity f \<in> {medium, low})"
proof -
  have blocking: "s \<in> set BLOCKING_SEVERITIES \<longleftrightarrow> s \<notin> {medium, low}" for s
    by (cases s) (simp_all add: BLOCKING_SEVERITIES_def)
  have "finding_problems report = [] \<longleftrightarrow> (\<forall>f \<in> set (rs_findings report). rf_severity f \<in> {medium, low})"
    unfolding finding_problems_def by (simp add: filter_empty_conv blocking)
  moreover have "concat (map (item_problems report) (enumerate 1 items)) = [] \<longleftrightarrow>
      (\<forall>n text. (n, text) \<in> set (enumerate 1 items) \<longrightarrow> item_problems report (n, text) = [])"
    by auto
  moreover have "(\<exists>text. (n, text) \<in> set (enumerate 1 items)) \<longleftrightarrow> 1 \<le> n \<and> n \<le> length items" for n
    by (auto simp: in_set_enumerate_eq)
  ultimately show ?thesis unfolding review_problems_def append_is_Nil_conv item_problems_Nil by blast
qed

text \<open>
  C39 (equivalence). A review passes exactly when the reviewer claims it, every item of the plan, the
  deliverable, each acceptance criterion, constraint and run criterion, has a verdict, all verdicts on
  it are met with evidence, and no finding is critical or high; it is then unchanged, and otherwise it
  fails with every problem listed in its evidence.
\<close>

theorem a_pass_rules_on_the_whole_plan:
  "(rs_passed (hold_to_plan report items) \<longleftrightarrow> rs_passed report \<and>
     (\<forall>n. 1 \<le> n \<and> n \<le> length items \<longrightarrow>
        (\<exists>v \<in> set (rs_verdicts report). iv_item v = int n) \<and>
        (\<forall>v \<in> set (rs_verdicts report). iv_item v = int n \<longrightarrow> iv_met v \<and> substantive (iv_evidence v))) \<and>
     (\<forall>f \<in> set (rs_findings report). rf_severity f \<in> {medium, low})) \<and>
   (rs_passed (hold_to_plan report items) \<longrightarrow> hold_to_plan report items = report) \<and>
   rs_evidence (hold_to_plan report items) = rs_evidence report @ review_problems report items \<and>
   length (review_items packet run_criteria) =
     1 + length (tp_acceptance_criteria packet) + length (tp_constraints packet) + length run_criteria"
proof -
  have "rs_passed (hold_to_plan report items) \<longleftrightarrow> rs_passed report \<and> review_problems report items = []"
    by (simp add: hold_to_plan_def Let_def)
  moreover have "rs_evidence (hold_to_plan report items) = rs_evidence report @ review_problems report items"
    "rs_passed (hold_to_plan report items) \<longrightarrow> hold_to_plan report items = report"
    by (simp_all add: hold_to_plan_def Let_def)
  ultimately show ?thesis unfolding review_problems_Nil by (simp add: review_items_def)
qed

text \<open>An answer that passes one item, and the same answer to a plan with a second item.\<close>

definition report0 :: ReviewResult where
  "report0 = \<lparr>rs_passed = True, rs_evidence = [], rs_reason = ''fine'',
     rs_verdicts = [\<lparr>iv_item = 1, iv_met = True, iv_evidence = ''main.py''\<rparr>],
     rs_findings = [\<lparr>rf_severity = low, rf_issue = ''naming'', rf_evidence = []\<rparr>]\<rparr>"

theorem a_pass_rules_on_the_whole_plan_witness:
  "rs_passed (hold_to_plan report0 [''deliverable'']) \<and> \<not> rs_passed (hold_to_plan report0 [''deliverable'', ''tests''])"
proof
  have "n = 1" if "1 \<le> n \<and> n \<le> length [''deliverable'']" for n :: nat using that by simp
  then show "rs_passed (hold_to_plan report0 [''deliverable''])"
    using a_pass_rules_on_the_whole_plan[of report0 "[''deliverable'']"]
    by (auto simp: report0_def substantive_iff py_space_def)
  show "\<not> rs_passed (hold_to_plan report0 [''deliverable'', ''tests''])"
    using a_pass_rules_on_the_whole_plan[of report0 "[''deliverable'', ''tests'']"] spec[of _ "2 :: nat"]
    by (auto simp: report0_def dest: spec[of _ "2 :: nat"])
qed

end
