(* ===== verification/Trusted.thy ===== *)
theory Trusted
  imports Coroutine Planner Reviewer Delivery
begin

text \<open>
  What trusted code of \<open>DurableController\<close> (\<open>src/src/walter/adapter.py\<close>) does with a submitted candidate: the
  checks it runs itself, the review it commissions, and acceptance with integration. Each operation is a
  coroutine over the desk: the run as stored, the world outside, and what the workflow driver remembers.
  A step reads the run, commits one transaction of the kernel, or asks the workspaces or a model.

  The workspace manager (git, worktrees, the sandbox), the models behind \<open>_invoke\<close>, \<open>uuid4\<close> and \<open>json.loads\<close>
  are fields of an \<open>Office\<close>. A specialist is a coroutine of its own: while it works the others go on. A
  transaction may be refused by the store (\<open>of_refuses\<close>), as when another process has just saved.
\<close>

declare map_of_eq_Some_iff [simp del] Some_eq_map_of_iff [simp del]

section \<open>The desk and the office\<close>

record 'w Desk =
  ds_run :: Run
  ds_world :: 'w
  ds_stuck :: "ident list"
  ds_coverage :: "(string, ident list) dict option"

type_synonym ('w, 'a) job = "('w Desk, 'a) co"

record Grant =
  gr_id :: ident
  gr_worker_id :: ident
  gr_read_only :: bool
  gr_used :: bool
  gr_base_revision :: string

record Command_Output =
  co_returncode :: int
  co_stdout :: string
  co_stderr :: string

text \<open>\<open>WorkspaceManager\<close>; of the installed dependencies it is asked whether there are any and whether typescript is one.\<close>

record 'w Workspaces =
  ws_head :: "'w \<Rightarrow> (py_error + string) \<times> 'w"
  ws_create :: "ident \<Rightarrow> ident \<Rightarrow> string option \<Rightarrow> 'w \<Rightarrow> (py_error + Grant) \<times> 'w"
  ws_reviewer_grant :: "ident \<Rightarrow> ident \<Rightarrow> 'w \<Rightarrow> (py_error + Grant) \<times> 'w"
  ws_inspect :: "ident \<Rightarrow> 'w \<Rightarrow> (py_error + Grant) \<times> 'w"
  ws_carry_over :: "ident \<Rightarrow> ident \<Rightarrow> 'w \<Rightarrow> (py_error + bool) \<times> 'w"
  ws_cleanup :: "ident \<Rightarrow> 'w \<Rightarrow> (py_error + unit) \<times> 'w"
  ws_mark_used :: "ident \<Rightarrow> 'w \<Rightarrow> (py_error + unit) \<times> 'w"
  ws_diff :: "ident \<Rightarrow> 'w \<Rightarrow> (py_error + string) \<times> 'w"
  ws_freeze :: "ident \<Rightarrow> 'w \<Rightarrow> (py_error + string) \<times> 'w"
  ws_fingerprint :: "ident \<Rightarrow> 'w \<Rightarrow> (py_error + string) \<times> 'w"
  ws_integrate :: "ident \<Rightarrow> string option \<Rightarrow> string \<Rightarrow> 'w \<Rightarrow> (py_error + string) \<times> 'w"
  ws_run :: "Grant \<Rightarrow> string \<Rightarrow> string list \<Rightarrow> bool option \<Rightarrow> 'w \<Rightarrow> (py_error + Command_Output) \<times> 'w"
  ws_changed_paths :: "Grant \<Rightarrow> 'w \<Rightarrow> (py_error + string list) \<times> 'w"
  ws_list_files :: "Grant \<Rightarrow> 'w \<Rightarrow> (py_error + string list) \<times> 'w"
  ws_read_file :: "Grant \<Rightarrow> string \<Rightarrow> 'w \<Rightarrow> (py_error + string) \<times> 'w"
  ws_node_dependencies :: "Grant \<Rightarrow> 'w \<Rightarrow> (py_error + bool option) \<times> 'w"
  ws_tracked_files :: "'w \<Rightarrow> (py_error + string list) \<times> 'w"

text \<open>
  The models: a worker is told its task, assignment, identity, grant and whether an earlier attempt was
  carried over; a reviewer its identity, the items and whether it is asked again, and answers with a report
  and whether it has read a file.
\<close>

record 'w Office =
  of_core :: Orchestrator
  of_workspaces :: "'w Workspaces option"
  of_integration :: bool
  of_salvage_exhausted :: bool
  of_uuid :: "Run \<Rightarrow> 'w \<Rightarrow> ident \<times> 'w"
  of_refuses :: "'w \<Rightarrow> py_error option"
  of_loads :: "string \<Rightarrow> py_error + json"
  of_worker :: "TaskNode \<Rightarrow> ident \<Rightarrow> ident \<Rightarrow> Grant option \<Rightarrow> bool option \<Rightarrow> ('w, WorkerResult) job"
  of_reviewer :: "ident \<Rightarrow> TaskNode \<Rightarrow> Artifact \<Rightarrow> string list \<Rightarrow> Grant option \<Rightarrow> bool \<Rightarrow> ('w, ReviewResult \<times> bool) job"
  of_planner :: "string \<Rightarrow> ('w, PlanProposal) job"
  of_pick :: "'w Desk \<Rightarrow> nat"
  of_dash :: string

definition look :: "('w, Run) job" where
  "look = act (\<lambda>s. (Inr (ds_run s), s))"

definition in_world :: "('w \<Rightarrow> (py_error + 'a) \<times> 'w) \<Rightarrow> ('w, 'a) job" where
  "in_world f = act (\<lambda>s. (fst (f (ds_world s)), s\<lparr>ds_world := snd (f (ds_world s))\<rparr>))"

text \<open>A transaction of the kernel; the identifier it draws is its result.\<close>

definition transact :: "'w Office \<Rightarrow> (ident \<Rightarrow> command) \<Rightarrow> ('w, ident) job" where
  "transact X c = act (\<lambda>s.
     case of_refuses X (ds_world s) of
       Some e \<Rightarrow> (Inl e, s)
     | None \<Rightarrow>
       (let (i, w) = of_uuid X (ds_run s) (ds_world s) in
        case mutate (of_core X) (c i) (ds_run s) of
          Inl e \<Rightarrow> (Inl e, s\<lparr>ds_world := w\<rparr>)
        | Inr (r, evs) \<Rightarrow> (Inr i, s\<lparr>ds_run := r, ds_world := w\<rparr>)))"

definition new_name :: "'w Office \<Rightarrow> string \<Rightarrow> ('w, ident) job" where
  "new_name X prefix = act (\<lambda>s. let (i, w) = of_uuid X (ds_run s) (ds_world s) in (Inr (prefix @ i), s\<lparr>ds_world := w\<rparr>))"

text \<open>\<open>if self.workspaces is None: raise e\<close>\<close>

definition with_workspaces :: "'w Office \<Rightarrow> py_error \<Rightarrow> ('w Workspaces \<Rightarrow> ('w, 'a) job) \<Rightarrow> ('w, 'a) job" where
  "with_workspaces X e f = (case of_workspaces X of None \<Rightarrow> raising e | Some W \<Rightarrow> f W)"

definition task_of :: "ident \<Rightarrow> ('w, TaskNode) job" where
  "task_of tid = then_do look (\<lambda>r. value_of (dget (run_tasks r) tid))"

section \<open>The candidate\<close>

definition candidate_of :: "ident \<Rightarrow> ('w, TaskNode \<times> Artifact) job" where
  "candidate_of tid = then_do look (\<lambda>r. value_of (
     bind_ok (dget (run_tasks r) tid) (\<lambda>t.
       case last_opt (tn_artifact_ids t) of
         None \<Rightarrow> Inl (ValueError ''Task has no submitted artifact'')
       | Some aid \<Rightarrow> bind_ok (dget (run_artifacts r) aid) (\<lambda>a. Inr (t, a)))))"

definition fingerprint_of :: "'w Office \<Rightarrow> ident \<Rightarrow> ('w, string option) job" where
  "fingerprint_of X tid =
     then_do (candidate_of tid) (\<lambda>(t, a).
       if \<not> present (tn_workspace_id t) then give None
       else with_workspaces X (no_attribute ''fingerprint'') (\<lambda>W.
         then_do (in_world (ws_fingerprint W (the (tn_workspace_id t)))) (\<lambda>fp.
           then_do (stop_if (Some fp \<noteq> ar_workspace_fingerprint a)
             (ValueError ''Candidate changed after submission; validation and review are stale''))
             (\<lambda>_. give (Some fp)))))"

section \<open>Trusted checks\<close>

definition command_evidence :: "string list \<Rightarrow> Command_Output \<Rightarrow> string" where
  "command_evidence argv out = dumps '', '' '': '' False
     (JObj [(''argv'', JArr (map JStr argv)), (''returncode'', JInt (co_returncode out)),
       (''stdout'', JStr (co_stdout out)), (''stderr'', JStr (co_stderr out))])"

definition quote :: string where
  "quote = [CHR 0x27]"

definition COMPILE :: "string list" where
  "COMPILE = [''python3'', ''-c'',
     ''import ast,pathlib; files=list(pathlib.Path('' @ quote @ ''.'' @ quote @ '').rglob('' @ quote @ ''*.py'' @ quote @
     '')); assert files, '' @ quote @ ''No Python sources'' @ quote @ ''; [ast.parse(p.read_text(), filename=str(p)) for p in files]'']"

definition PYTEST :: "string list" where
  "PYTEST = [''python3'', ''-m'', ''pytest'', ''-q'', ''-p'', ''no:cacheprovider'']"

definition NODE_CHECKS :: "string list" where
  "NODE_CHECKS = [''node_test'', ''tsc'', ''npm_build'']"

definition NODE_TEST_SUFFIXES :: "string list" where
  "NODE_TEST_SUFFIXES = [''.test.js'', ''.test.mjs'', ''.test.cjs'', ''.test.ts'', ''.test.mts'',
     ''.spec.js'', ''.spec.mjs'', ''.spec.ts'', ''.spec.mts'']"

definition test_like :: "string \<Rightarrow> bool" where
  "test_like path = (ends_with path ''.py'' \<and>
     (starts_with (file_name path) ''test_'' \<or> ends_with (file_name path) ''_test.py''))"

definition node_test_path :: "string \<Rightarrow> bool" where
  "node_test_path path = (path_parts path \<noteq> [] \<and> \<not> starts_with path ''/'' \<and>
     list_ex (ends_with path) NODE_TEST_SUFFIXES \<and> list_all (\<lambda>w. w \<notin> {'''', ''.'', ''..''}) (path_parts path) \<and>
     \<not> excluded path)"

text \<open>Running one command: it passes when it returns zero.\<close>

definition run_template :: "'w Workspaces \<Rightarrow> Grant \<Rightarrow> string \<Rightarrow> string list \<Rightarrow> bool option \<Rightarrow> ('w, bool \<times> string) job" where
  "run_template W g category argv modules =
     then_do (in_world (ws_run W g category argv modules)) (\<lambda>out. give (co_returncode out = 0, command_evidence argv out))"

text \<open>\<open>except SandboxViolation\<close> around it: a failure with a reason.\<close>

definition unless_violation :: "string \<Rightarrow> ('w, bool \<times> string) job \<Rightarrow> ('w, bool \<times> string) job" where
  "unless_violation prefix m =
     handle m (\<lambda>e. case e of SandboxViolation text \<Rightarrow> give (False, prefix @ text) | _ \<Rightarrow> raising e)"

definition python_check :: "'w Workspaces \<Rightarrow> Grant \<Rightarrow> string \<Rightarrow> ('w, bool \<times> string) job" where
  "python_check W g chk =
     then_do (in_world (ws_changed_paths W g)) (\<lambda>changed.
       let candidate_tests = filter test_like changed in
       if chk \<in> {''pytest'', ''pytest_candidate''}
       then (if candidate_tests = []
         then give (False, ''No candidate test files were added or changed; a developer candidate must include tests'')
         else run_template W g ''test'' (PYTEST @ candidate_tests) None)
       else then_do (in_world (ws_list_files W g)) (\<lambda>files.
         let regression = sorted_set (filter (\<lambda>p. p \<notin> set candidate_tests) (filter test_like files)) in
         if regression = []
         then give (False, ''No pre-existing test files found; the regression check has nothing to run'')
         else unless_violation ''Regression suite could not complete in the sandbox: ''
           (run_template W g ''test'' (PYTEST @ regression) None)))"

definition build_script_problem :: "'w Office \<Rightarrow> 'w Workspaces \<Rightarrow> Grant \<Rightarrow> string list \<Rightarrow> ('w, string option) job" where
  "build_script_problem X W g files =
     (if ''package.json'' \<notin> set files
      then give (Some (''The project build needs a package.json with a '' @ dumps_str ''build'' @ '' script''))
      else handle
        (then_do (in_world (ws_read_file W g ''package.json'')) (\<lambda>text.
           then_do (value_of (of_loads X text)) (\<lambda>value.
             case value of
               JObj o' \<Rightarrow> give (case json_get o' ''scripts'' of
                   JObj scripts \<Rightarrow> (case json_get scripts ''build'' of
                       JStr b \<Rightarrow> if substantive b then None else Some (''package.json has no '' @ dumps_str ''build'' @ '' script'')
                     | _ \<Rightarrow> Some (''package.json has no '' @ dumps_str ''build'' @ '' script''))
                 | _ \<Rightarrow> Some (''package.json has no '' @ dumps_str ''build'' @ '' script''))
             | _ \<Rightarrow> raising (no_attribute ''get''))))
        (\<lambda>e. if is_value_error e \<or> error_name e = ''AttributeError''
              then give (Some ''package.json is not a valid JSON object'') else raising e))"

text \<open>The command of a Node check, or why there is none.\<close>

definition node_template :: "'w Office \<Rightarrow> 'w Workspaces \<Rightarrow> Grant \<Rightarrow> string \<Rightarrow> string list \<Rightarrow>
    ('w, string + (string \<times> string list)) job" where
  "node_template X W g chk files =
     (if chk = ''node_test'' then
        then_do (in_world (ws_changed_paths W g)) (\<lambda>changed.
          let tests = filter node_test_path changed in
          if tests = []
          then give (Inl (''No candidate Node test files (*.test.ts, *.test.js, ...) were added or '' @
            ''changed; a developer candidate must include tests''))
          else give (Inr (''test'', [''node'', ''--test''] @ tests)))
      else if chk = ''npm_build'' then
        then_do (build_script_problem X W g files) (\<lambda>problem.
          give (case problem of Some p \<Rightarrow> Inl p | None \<Rightarrow> Inr (''build'', [''npm'', ''run'', ''build''])))
      else if ''tsconfig.json'' \<notin> set files
        then give (Inl ''Type checking requires a tsconfig.json in the project'')
        else give (Inr (''check'', [''tsc''])))"

definition node_check :: "'w Office \<Rightarrow> 'w Workspaces \<Rightarrow> Grant \<Rightarrow> string \<Rightarrow> ('w, bool \<times> string) job" where
  "node_check X W g chk =
     then_do (in_world (ws_list_files W g)) (\<lambda>files.
     then_do (node_template X W g chk files) (\<lambda>template.
       case template of
         Inl problem \<Rightarrow> give (False, problem)
       | Inr (category, argv) \<Rightarrow>
         then_do (handle (then_do (in_world (ws_node_dependencies W g)) (\<lambda>modules. give (Inr modules)))
             (\<lambda>e. case e of SandboxViolation text \<Rightarrow> give (Inl (''Dependencies could not be installed: '' @ text)) | _ \<Rightarrow> raising e))
           (\<lambda>installed.
             case installed of
               Inl problem \<Rightarrow> give (False, problem)
             | Inr modules \<Rightarrow>
               if chk = ''tsc'' \<and> modules \<noteq> Some True
               then give (False, ''Type checking requires typescript as a project dependency'')
               else unless_violation ''Node check could not complete in the sandbox: '' (run_template W g category argv modules))))"

definition schema_valid :: "TaskNode \<Rightarrow> bool" where
  "schema_valid t = (case tn_result t of
     None \<Rightarrow> False | Some res \<Rightarrow> wr_status res = result_completed \<and> substantive (wr_deliverable res))"

definition check_candidate :: "'w Office \<Rightarrow> TaskNode \<Rightarrow> Grant option \<Rightarrow> string \<Rightarrow> ('w, bool \<times> string) job" where
  "check_candidate X t g chk =
     (if chk = ''result_schema''
      then give (schema_valid t, ''Trusted structured-output check: completed status and nonempty deliverable; this is not a quality/test assertion.'')
      else if chk \<in> set EXECUTABLE_DEVELOPER_CHECKS
      then (case (of_workspaces X, g) of
          (Some W, Some grant) \<Rightarrow>
            if chk = ''compile'' then run_template W grant ''test'' COMPILE None
            else if chk \<in> {''pytest'', ''pytest_candidate'', ''pytest_regression''} then python_check W grant chk
            else node_check X W grant chk
        | _ \<Rightarrow> raising (ValueError ''Executable check requires candidate workspace''))
      else raising (ValueError ''Unsupported trusted validation check''))"

definition executor_grant :: "'w Office \<Rightarrow> TaskNode \<Rightarrow> ('w, Grant option) job" where
  "executor_grant X t =
     (if \<not> present (tn_workspace_id t) then give None
      else with_workspaces X (ValueError ''Workspace backend unavailable'') (\<lambda>W.
        then_do (new_name X ''executor-'') (\<lambda>executor_id.
        then_do (in_world (ws_reviewer_grant W (the (tn_workspace_id t)) executor_id)) (\<lambda>g. give (Some g)))))"

definition record_check :: "'w Office \<Rightarrow> ident \<Rightarrow> TaskNode \<Rightarrow> Artifact \<Rightarrow> Grant option \<Rightarrow> string \<Rightarrow> ('w, ArtifactValidation) job" where
  "record_check X tid t a g chk =
     then_do (check_candidate X t g chk) (\<lambda>(valid, evidence).
     then_do (case g of Some grant \<Rightarrow> give (gr_worker_id grant) | None \<Rightarrow> new_name X ''executor-'') (\<lambda>validator_id.
     then_do (fingerprint_of X tid) (\<lambda>fp.
     then_do (transact X (\<lambda>i. Validate i (ar_id a) chk valid evidence validator_id fp)) (\<lambda>i.
       give \<lparr>av_id = i, av_artifact_id = ar_id a, av_content_digest = ar_content_digest a, av_check = chk,
         av_passed = valid, av_evidence = evidence, av_validator_id = validator_id\<rparr>))))"

definition validate_task :: "'w Office \<Rightarrow> ident \<Rightarrow> ('w, ArtifactValidation list) job" where
  "validate_task X tid =
     then_do (candidate_of tid) (\<lambda>(t, a).
     then_do (fingerprint_of X tid) (\<lambda>_.
     then_do (executor_grant X t) (\<lambda>g.
       each (record_check X tid t a g) (tn_required_checks t))))"

section \<open>Independent review\<close>

definition report_text :: "ReviewResult \<Rightarrow> string" where
  "report_text rep = dumps '', '' '': '' False (JObj
     [(''passed'', JBool (rs_passed rep)), (''evidence'', JArr (map JStr (rs_evidence rep))),
      (''reason'', JStr (rs_reason rep)),
      (''verdicts'', JArr (map (\<lambda>v. JObj [(''item'', JInt (iv_item v)), (''met'', JBool (iv_met v)),
         (''evidence'', JStr (iv_evidence v))]) (rs_verdicts rep))),
      (''findings'', JArr (map (\<lambda>f. JObj [(''severity'', JStr (severity_value (rf_severity f))), (''issue'', JStr (rf_issue f)),
         (''evidence'', JStr (rf_evidence f))]) (rs_findings rep)))])"

definition UNREAD :: string where
  "UNREAD = ''The reviewer did not open any candidate file, so this is not a review of the work; its verdict was discarded''"

definition discard_unread :: "bool \<Rightarrow> ReviewResult \<Rightarrow> ReviewResult" where
  "discard_unread unread rep =
     (if unread
      then rep\<lparr>rs_passed := False, rs_evidence := rs_evidence rep @ [UNREAD],
        rs_reason := UNREAD @ ''. Reviewer'' @ quote @ ''s text: '' @ rs_reason rep\<rparr>
      else rep)"

definition must_read :: "TaskNode \<Rightarrow> bool" where
  "must_read t = (present (tn_workspace_id t) \<and> tn_capability t \<noteq> REPO_READER)"

definition review_task :: "'w Office \<Rightarrow> ident \<Rightarrow> string list \<Rightarrow> ('w, ReviewResult) job" where
  "review_task X tid run_criteria =
     then_do (candidate_of tid) (\<lambda>(t, a).
     then_do (fingerprint_of X tid) (\<lambda>_.
     then_do (new_name X ''reviewer-'') (\<lambda>reviewer_id.
     let items = review_items (tn_packet t) run_criteria in
     then_do (if \<not> present (tn_workspace_id t) then give None
       else with_workspaces X (ValueError ''Workspace backend unavailable'') (\<lambda>W.
         then_do (in_world (ws_reviewer_grant W (the (tn_workspace_id t)) reviewer_id)) (\<lambda>g. give (Some g)))) (\<lambda>g.
     then_do (of_reviewer X reviewer_id t a items g False) (\<lambda>(first, reads).
     then_do (if must_read t \<and> \<not> reads then of_reviewer X reviewer_id t a items g True else give (first, reads)) (\<lambda>(rep, reads').
     let final = discard_unread (must_read t \<and> \<not> reads \<and> \<not> reads') (hold_to_plan rep items) in
     then_do (fingerprint_of X tid) (\<lambda>fp.
     then_do (transact X (\<lambda>i. Give_Review i (ar_id a) reviewer_id (rs_passed final) (report_text final) fp)) (\<lambda>_.
       give final))))))))"

section \<open>Acceptance and integration\<close>

definition integrates :: "'w Office \<Rightarrow> TaskNode \<Rightarrow> bool" where
  "integrates X t = (of_integration X \<and> of_workspaces X \<noteq> None \<and> tn_capability t = DEVELOPER_SANDBOX \<and>
     present (tn_workspace_id t))"

definition integration_message :: "ident \<Rightarrow> TaskNode \<Rightarrow> Artifact \<Rightarrow> string" where
  "integration_message tid t a =
     take 180 (one_line (tp_role (tn_packet t) @ '': '' @ tp_objective (tn_packet t))) @ [CHR 0x0A, CHR 0x0A] @
     ''Accepted task '' @ tid @ '', artifact '' @ ar_id a @ ''.''"

definition integrate :: "'w Office \<Rightarrow> ident \<Rightarrow> ('w, string) job" where
  "integrate X tid =
     then_do look (\<lambda>r.
     then_do (value_of (dget (run_tasks r) tid)) (\<lambda>t.
     then_do (value_of (case last_opt (tn_artifact_ids t) of None \<Rightarrow> Inl IndexError | Some aid \<Rightarrow> dget (run_artifacts r) aid)) (\<lambda>a.
       if present (ar_integrated_commit a) then give (the (ar_integrated_commit a))
       else with_workspaces X (no_attribute ''integrate'') (\<lambda>W.
         then_do (in_world (ws_integrate W (the (tn_workspace_id t)) (ar_workspace_fingerprint a) (integration_message tid t a))) (\<lambda>commit.
         then_do (transact X (\<lambda>i. Integrate (ar_id a) commit)) (\<lambda>_. give commit))))))"

definition STALE :: string where
  "STALE = ''Another accepted task was integrated after this candidate was created, so the '' @
     ''candidate was not validated against the current project code.''"

text \<open>Kernel acceptance, then integration of exactly those bytes; False when the candidate's base is stale.\<close>

definition accept_now :: "'w Office \<Rightarrow> ident \<Rightarrow> string \<Rightarrow> ('w, bool) job" where
  "accept_now X tid reason =
     then_do (fingerprint_of X tid) (\<lambda>fp.
     then_do (transact X (\<lambda>i. Accept i tid None reason fp)) (\<lambda>_.
     then_do (task_of tid) (\<lambda>t.
       if integrates X t then then_do (integrate X tid) (\<lambda>_. give True) else give True)))"

definition accept_and_integrate :: "'w Office \<Rightarrow> ident \<Rightarrow> string \<Rightarrow> ('w, bool) job" where
  "accept_and_integrate X tid reason =
     then_do (task_of tid) (\<lambda>t.
       if \<not> integrates X t then accept_now X tid reason
       else if tn_status t = ACCEPTED then then_do (integrate X tid) (\<lambda>_. give True)
       else with_workspaces X (no_attribute ''integration_head'') (\<lambda>W.
         then_do (in_world (ws_head W)) (\<lambda>head.
         then_do (in_world (ws_inspect W (the (tn_workspace_id t)))) (\<lambda>grant.
           if gr_base_revision grant \<noteq> head
           then then_do (transact X (\<lambda>i. Fail i tid STALE_BASE STALE)) (\<lambda>failure.
             then_do (transact X (\<lambda>i. Recover i failure ''Rebuild on the current integrated code with the previous attempt carried over'' ''manager''))
               (\<lambda>_. give False))
           else accept_now X tid reason))))"

definition unintegrated_tasks :: "'w Office \<Rightarrow> ('w, ident list) job" where
  "unintegrated_tasks X =
     (if \<not> (of_integration X \<and> of_workspaces X \<noteq> None) then give []
      else then_do look (\<lambda>r. value_of (
        bind_ok (foldr (\<lambda>(k, t) rest.
            if tn_status t = ACCEPTED \<and> integrates X t
            then bind_ok (case last_opt (tn_artifact_ids t) of None \<Rightarrow> Inl IndexError | Some aid \<Rightarrow> dget (run_artifacts r) aid) (\<lambda>a.
              bind_ok rest (\<lambda>ks. Inr (if present (ar_integrated_commit a) then ks else k # ks)))
            else rest) (run_tasks r) (Inr [])) (\<lambda>ks. Inr (sort ks)))))"

end
