(* ===== verification/Controller.thy ===== *)
theory Controller
  imports Trusted
begin

text \<open>
  The rest of \<open>DurableController\<close> (\<open>src/src/walter/adapter.py\<close>) that the build loop and the Manager's tools call:
  delegation to a fresh specialist with its workspace, what becomes of its answer or of its failure, changes
  of capability, and replans. The texts that only a model reads are left out.
\<close>

section \<open>Failures of a specialist\<close>

text \<open>What went wrong, by class; anything not recognised escalates.\<close>

definition worker_exception_class :: "py_error \<Rightarrow> FailureClass" where
  "worker_exception_class e =
     (case e of
        UsageBudgetExceeded m \<Rightarrow> TIMEOUT
      | TypeError m \<Rightarrow> if contains ''unexpected structured output'' m then BAD_OUTPUT else TOOL_FAILURE
      | ProviderError c m \<Rightarrow> PROVIDER_FAILURE
      | MaxTurnsExceeded m \<Rightarrow> BAD_OUTPUT
      | _ \<Rightarrow> TOOL_FAILURE)"

definition salvaged :: "ident \<Rightarrow> WorkerResult" where
  "salvaged tid =
     \<lparr>wr_task_id = tid, wr_status = result_completed,
      wr_summary = ''The specialist used all its steps before reporting. Cavman submitted its workspace '' @
        ''as-is for trusted validation and independent review.'',
      wr_deliverable = ''Candidate workspace changes (see the diff). Submitted by Cavman: the specialist '' @
        ''used all its steps before reporting, so it did not describe or self-check this work.'',
      wr_evidence = [''Submitted by the platform after the specialist'' @ quote @ ''s step budget ran out''], wr_sources = [],
      wr_assumptions = [], wr_uncertainties = [''The specialist did not describe or self-check its final state''],
      wr_acceptance_check = [], wr_blocker = None, wr_capability_request = None\<rparr>"

definition salvage :: "'w Office \<Rightarrow> py_error \<Rightarrow> TaskNode \<Rightarrow> ident \<Rightarrow> ('w, WorkerResult option) job" where
  "salvage X e t tid =
     (case (e, of_workspaces X) of
        (MaxTurnsExceeded m, Some W) \<Rightarrow>
          if \<not> of_salvage_exhausted X \<or> tn_capability t \<noteq> DEVELOPER_SANDBOX then give None
          else then_do (task_of tid) (\<lambda>current.
            if \<not> present (tn_workspace_id current) then give None
            else then_do (in_world (ws_diff W (the (tn_workspace_id current)))) (\<lambda>diff.
              give (if substantive diff then Some (salvaged tid) else None)))
      | _ \<Rightarrow> give None)"

section \<open>The workspace of an attempt\<close>

definition new_candidate :: "'w Office \<Rightarrow> 'w Workspaces \<Rightarrow> ident \<Rightarrow> ident \<Rightarrow> ('w, Grant) job" where
  "new_candidate X W tid worker_id =
     then_do (if of_integration X then then_do (in_world (ws_head W)) (\<lambda>head. give (Some head)) else give None) (\<lambda>base.
       in_world (ws_create W tid worker_id base))"

text \<open>\<open>except Exception: cleanup; raise\<close>\<close>

definition or_clean :: "'w Workspaces \<Rightarrow> ident \<Rightarrow> ('w, 'a) job \<Rightarrow> ('w, 'a) job" where
  "or_clean W wid m = handle m (\<lambda>e. if e = CancelledError then raising e
     else then_do (in_world (ws_cleanup W wid)) (\<lambda>_. raising e))"

text \<open>
  The grant a specialist works under, its identity, and whether its earlier attempt was carried over. A task
  that has a workspace gets a fresh one, unless the workspace is the unused candidate of an approved
  escalation.
\<close>

definition fresh_place :: "'w Office \<Rightarrow> 'w Workspaces \<Rightarrow> TaskNode \<Rightarrow> ident \<Rightarrow> ident \<Rightarrow> ('w, Grant option \<times> ident \<times> bool option) job" where
  "fresh_place X W t tid worker_id =
     then_do (new_candidate X W tid worker_id) (\<lambda>g.
       if present (tn_workspace_id t)
       then (let old = the (tn_workspace_id t) in
         then_do (if of_integration X \<and> tn_capability t = DEVELOPER_SANDBOX
             then handle (then_do (in_world (ws_carry_over W old (gr_id g))) (\<lambda>b. give (Some b)))
               (\<lambda>e. if e = CancelledError then raising e else give (Some False))
             else give None) (\<lambda>carried.
         then_do (or_clean W (gr_id g) (transact X (\<lambda>i. Replace_Workspace tid old (gr_id g)
             ''Fresh isolated workspace for recovered assignment''))) (\<lambda>_.
         then_do (in_world (ws_cleanup W old)) (\<lambda>_. give (Some g, worker_id, carried)))))
       else then_do (or_clean W (gr_id g) (transact X (\<lambda>i. Bind_Workspace tid (gr_id g)))) (\<lambda>_.
         give (Some g, worker_id, None)))"

definition work_place :: "'w Office \<Rightarrow> TaskNode \<Rightarrow> ident \<Rightarrow> ident \<Rightarrow> ('w, Grant option \<times> ident \<times> bool option) job" where
  "work_place X t tid worker_id =
     (if tn_capability t = REVIEWER
      then raising (ValueError ''Reviewer capability is reserved for fresh review_task instances'')
      else if tn_capability t \<in> {REPO_READER, DEVELOPER_SANDBOX}
      then with_workspaces X (ValueError ''Workspace backend unavailable'') (\<lambda>W.
        if present (tn_workspace_id t) \<and> tn_capability t = REPO_READER
        then then_do (in_world (ws_reviewer_grant W (the (tn_workspace_id t)) worker_id)) (\<lambda>g. give (Some g, worker_id, None))
        else if present (tn_workspace_id t)
        then then_do (in_world (ws_inspect W (the (tn_workspace_id t)))) (\<lambda>existing.
          if \<not> gr_read_only existing \<and> \<not> gr_used existing
          then give (Some existing, gr_worker_id existing, None)
          else fresh_place X W t tid worker_id)
        else fresh_place X W t tid worker_id)
      else give (None, worker_id, None))"

section \<open>Delegation\<close>

definition fail_and_recover :: "'w Office \<Rightarrow> ident \<Rightarrow> ident \<Rightarrow> ident \<Rightarrow> FailureClass \<Rightarrow> string \<Rightarrow> string \<Rightarrow> ('w, unit) job" where
  "fail_and_recover X tid aid worker_id classification evidence reason =
     then_do (transact X (\<lambda>i. Fail_Assignment i tid aid worker_id classification evidence)) (\<lambda>failure.
     then_do (transact X (\<lambda>i. Recover i failure reason ''manager'')) (\<lambda>_. give ()))"

text \<open>A blocked or unfinished answer is kept as provisional and its failure routed.\<close>

definition provisional_answer :: "'w Office \<Rightarrow> ident \<Rightarrow> ident \<Rightarrow> ident \<Rightarrow> WorkerResult \<Rightarrow> ('w, unit) job" where
  "provisional_answer X tid aid worker_id res =
     (let evidence = (if present (wr_blocker res) then the (wr_blocker res) else wr_summary res) in
      if wr_capability_request res \<noteq> None
      then then_do (transact X (\<lambda>i. Request_Capability i tid aid worker_id res)) (\<lambda>_.
        fail_and_recover X tid aid worker_id CAPABILITY_UNAVAILABLE evidence
          ''Pause for Manager evaluation of the persisted capability request'')
      else then_do (transact X (\<lambda>i. Record_Provisional tid aid worker_id res)) (\<lambda>_.
        fail_and_recover X tid aid worker_id
          (if wr_status res = result_needs_revision then BAD_OUTPUT else MISSING_EVIDENCE) evidence
          ''Commission a bounded revision preserving provisional evidence''))"

definition with_manifest :: "ident \<Rightarrow> string \<Rightarrow> string \<Rightarrow> WorkerResult \<Rightarrow> WorkerResult" where
  "with_manifest wid fingerprint diff res =
     res\<lparr>wr_deliverable := wr_deliverable res @ [CHR 0x0A, CHR 0x0A] @ ''WORKSPACE_MANIFEST='' @ dumps '', '' '': '' False
       (JObj [(''workspace_id'', JStr wid), (''fingerprint'', JStr fingerprint), (''diff'', JStr diff)])\<rparr>"

text \<open>A completed answer is submitted with the frozen workspace's manifest; an unchanged workspace is refused.\<close>

definition completed_answer :: "'w Office \<Rightarrow> TaskNode \<Rightarrow> ident \<Rightarrow> ident \<Rightarrow> ident \<Rightarrow> WorkerResult \<Rightarrow> ('w, unit) job" where
  "completed_answer X t tid aid worker_id res =
     then_do (task_of tid) (\<lambda>current.
       if \<not> present (tn_workspace_id current)
       then then_do (transact X (\<lambda>i. Submit i tid aid worker_id res None)) (\<lambda>_. give ())
       else with_workspaces X (no_attribute ''diff'') (\<lambda>W.
         let wid = the (tn_workspace_id current) in
         then_do (in_world (ws_diff W wid)) (\<lambda>diff.
           if tn_capability t = DEVELOPER_SANDBOX \<and> \<not> substantive diff
           then fail_and_recover X tid aid worker_id BAD_OUTPUT
             (''Worker reported completed with an unchanged candidate workspace: '' @
              ''no file was created, modified or deleted, so there is no candidate '' @
              ''to validate. Redelegate with explicit direction to write the files '' @
              ''and verify with inspect_diff. Worker summary: '' @
              (if substantive (wr_summary res) then strip (wr_summary res) else ''(none)''))
             ''Commission a bounded revision: the lane produced no candidate change''
           else then_do (in_world (ws_freeze W wid)) (\<lambda>fingerprint.
             then_do (transact X (\<lambda>i. Submit i tid aid worker_id (with_manifest wid fingerprint diff res) (Some fingerprint)))
               (\<lambda>_. give ())))))"

definition attempt :: "'w Office \<Rightarrow> TaskNode \<Rightarrow> ident \<Rightarrow> ident \<Rightarrow> ident \<Rightarrow> Grant option \<Rightarrow> bool option \<Rightarrow> ('w, unit) job" where
  "attempt X t tid aid worker_id g carried =
     then_do (handle (of_worker X t aid worker_id g carried) (\<lambda>e.
         if e = CancelledError then raising e
         else then_do (salvage X e t tid) (\<lambda>saved. case saved of None \<Rightarrow> raising e | Some res \<Rightarrow> give res))) (\<lambda>answer.
       let res = answer\<lparr>wr_task_id := tid\<rparr> in
       if wr_status res \<noteq> result_completed then provisional_answer X tid aid worker_id res
       else completed_answer X t tid aid worker_id res)"

text \<open>Whatever an attempt raises is recorded on its own assignment, and raised again.\<close>

definition record_failure :: "'w Office \<Rightarrow> ident \<Rightarrow> ident \<Rightarrow> ident \<Rightarrow> py_error \<Rightarrow> ('w, unit) job" where
  "record_failure X tid aid worker_id e =
     then_do (handle (then_do (transact X (\<lambda>i. Fail_Assignment i tid aid worker_id (worker_exception_class e)
         (''Worker execution failed: '' @ typed_text e))) (\<lambda>_. give ()))
       (\<lambda>e'. if e' = CancelledError then raising e' else give ())) (\<lambda>_. raising e)"

definition guarded_attempt :: "'w Office \<Rightarrow> TaskNode \<Rightarrow> ident \<Rightarrow> ident \<Rightarrow> ident \<Rightarrow> Grant option \<Rightarrow> bool option \<Rightarrow> ('w, unit) job" where
  "guarded_attempt X t tid aid worker_id g carried =
     handle (attempt X t tid aid worker_id g carried) (\<lambda>e.
       if e = CancelledError then raising e else record_failure X tid aid worker_id e)"

definition criteria_defined :: "Run \<Rightarrow> bool" where
  "criteria_defined r = (wp_completion_criteria (run_plan r) \<noteq> [INITIAL_COMPLETION_CRITERION])"

definition assign :: "'w Office \<Rightarrow> ident \<Rightarrow> ident \<Rightarrow> Grant option \<Rightarrow> ('w, ident) job" where
  "assign X tid worker_id g =
     then_do (transact X (\<lambda>i. Delegate i tid worker_id)) (\<lambda>aid.
     then_do (transact X (\<lambda>i. Start tid)) (\<lambda>_.
     then_do (case (g, of_workspaces X) of (Some grant, Some W) \<Rightarrow> in_world (ws_mark_used W (gr_id grant)) | _ \<Rightarrow> give ()) (\<lambda>_.
       give aid)))"

definition delegate_task :: "'w Office \<Rightarrow> ident \<Rightarrow> ('w, unit) job" where
  "delegate_task X tid =
     then_do look (\<lambda>r.
     then_do (stop_if (\<not> criteria_defined r) (ValueError ''Define measurable completion criteria before delegation'')) (\<lambda>_.
     then_do (task_of tid) (\<lambda>t.
     then_do (stop_if (tn_status t \<notin> {PLANNED, READY, REVISION_REQUIRED}) (ValueError ''Task is not eligible for delegation'')) (\<lambda>_.
     then_do (new_name X ''worker-'') (\<lambda>fresh.
     then_do (work_place X t tid fresh) (\<lambda>(g, worker_id, carried).
     then_do (assign X tid worker_id g) (\<lambda>aid.
       guarded_attempt X t tid aid worker_id g carried)))))))"

section \<open>Changes of capability\<close>

fun capability_rank :: "CapabilityProfile \<Rightarrow> int" where
  "capability_rank MODEL_ONLY = 0"
| "capability_rank RESEARCHER = 1"
| "capability_rank REPO_READER = 1"
| "capability_rank DEVELOPER_SANDBOX = 2"
| "capability_rank REVIEWER = -1"

definition request_of :: "ident \<Rightarrow> ('w, Run \<times> CapabilityRequest) job" where
  "request_of qid = then_do look (\<lambda>r. value_of (bind_ok (dget (run_capability_requests r) qid) (\<lambda>c. Inr (r, c))))"

text \<open>The approval of an escalation, bound to the exact task, capability and workspace.\<close>

definition ask_escalation :: "'w Office \<Rightarrow> ident \<Rightarrow> CapabilityRequest \<Rightarrow> ident option \<Rightarrow> string \<Rightarrow> ('w, unit) job" where
  "ask_escalation X qid c wid reason =
     then_do (transact X (\<lambda>i. Request_Approval i ''change_capability''
       (capability_scope (cr_task_id c) (cr_requested_capability c) wid) reason (Some ''capability_escalation'')
       (Some (cr_task_id c)) (cr_risk c) [] (Some (cr_requested_capability c)) True None)) (\<lambda>approval.
     then_do (transact X (\<lambda>i. Link_Capability qid approval wid)) (\<lambda>_. give ()))"

definition request_capability_change :: "'w Office \<Rightarrow> ident \<Rightarrow> string \<Rightarrow> ('w, unit) job" where
  "request_capability_change X qid reason =
     then_do (request_of qid) (\<lambda>(r, c).
     then_do (stop_if (cr_status c \<noteq> CR_PENDING \<or> present (cr_approval_id c))
       (ValueError ''Capability request is not pending and unlinked'')) (\<lambda>_.
     then_do (value_of (dget (run_tasks r) (cr_task_id c))) (\<lambda>t.
       let wanted = cr_requested_capability c in
       if wanted = REVIEWER \<or> capability_rank wanted \<le> capability_rank (tn_capability t)
       then then_do (transact X (\<lambda>i. Deny_Capability qid ''Requested profile is reserved, lateral, or not an authority escalation''))
         (\<lambda>_. raising (ValueError ''Capability request is not a permitted escalation''))
       else if wanted = DEVELOPER_SANDBOX \<and> (\<forall>c \<in> set (tn_required_checks t). c \<notin> set EXECUTABLE_DEVELOPER_CHECKS)
       then then_do (transact X (\<lambda>i. Deny_Capability qid ''Developer sandbox requires a predeclared executable validation check''))
         (\<lambda>_. raising (ValueError ''Developer escalation requires compile or pytest''))
       else if wanted \<in> {REPO_READER, DEVELOPER_SANDBOX}
       then with_workspaces X (ValueError ''Workspace backend unavailable'') (\<lambda>W.
         then_do (new_name X ''capability-pending-'') (\<lambda>pending.
         then_do (new_candidate X W (cr_task_id c) pending) (\<lambda>g.
           or_clean W (gr_id g) (ask_escalation X qid c (Some (gr_id g)) reason))))
       else ask_escalation X qid c None reason)))"

text \<open>Equality of the dictionary a scope was parsed to with the expected one.\<close>

definition same_object :: "json \<Rightarrow> json_object \<Rightarrow> bool" where
  "same_object v expected =
     (case v of JObj got \<Rightarrow> set (map fst got) = set (map fst expected) \<and>
        list_all (\<lambda>k. map_of got k = map_of expected k) (map fst expected) | _ \<Rightarrow> False)"

definition apply_capability_change :: "'w Office \<Rightarrow> ident \<Rightarrow> ('w, unit) job" where
  "apply_capability_change X qid =
     then_do (request_of qid) (\<lambda>(r, c).
       if cr_status c = CR_ESCALATED
       then then_do (transact X (\<lambda>i. Apply_Escalation qid None)) (\<lambda>_. give ())
       else if \<not> present (cr_approval_id c) then raising (ValueError ''Capability request has no linked approval'')
       else then_do (value_of (dget (run_approvals r) (the (cr_approval_id c)))) (\<lambda>q.
         then_do (value_of (of_loads X (aq_scope_json q))) (\<lambda>scope.
           if aq_action q \<noteq> ''change_capability'' \<or>
              \<not> same_object scope (capability_scope (cr_task_id c) (cr_requested_capability c) (cr_workspace_id c)) \<or>
              cr_status c \<noteq> CR_PENDING
           then raising (ValueError ''Capability approval does not match the durable request'')
           else if aq_status q = AP_REJECTED
           then then_do (transact X (\<lambda>i. Deny_Capability qid ''Linked human approval was rejected'')) (\<lambda>_.
             then_do (case (cr_workspace_id c, of_workspaces X) of
                 (Some wid, Some W) \<Rightarrow> if wid \<noteq> [] then in_world (ws_cleanup W wid) else give () | _ \<Rightarrow> give ()) (\<lambda>_.
               raising (ValueError ''Capability request was denied'')))
           else then_do (transact X (\<lambda>i. Apply_Escalation qid None)) (\<lambda>_. give ()))))"

section \<open>Replans\<close>

text \<open>
  A proposal that is material is gated on the approval of exactly itself; one that is not is stored for
  autonomous application. The identifier of the proposal is drawn first, and the result is whether
  it waits for an approval.
\<close>

definition author_replan :: "'w Office \<Rightarrow> (Run \<Rightarrow> py_error + TaskNode list) \<Rightarrow> string \<Rightarrow> string list \<Rightarrow> ident list \<Rightarrow> ident list \<Rightarrow>
    (ident, ident list) dict \<Rightarrow> string list \<Rightarrow> ('w, ReplanProposal) job" where
  "author_replan X nodes trigger evidence remove reopen dependencies risks =
     then_do look (\<lambda>r.
     then_do (new_name X []) (\<lambda>pid.
     then_do look (\<lambda>r0. then_do (value_of (nodes r0)) (\<lambda>added.
     let p = \<lparr>rp_id = pid, rp_base_revision = wp_revision (run_plan r), rp_trigger = trigger, rp_evidence = evidence,
       rp_add = added, rp_remove = remove, rp_reopen = reopen, rp_dependencies = dependencies, rp_risks = risks,
       rp_approval_id = None, rp_requires_approval = False\<rparr> in
     then_do look (\<lambda>r1. then_do (value_of (validate_replan r1 p)) (\<lambda>_.
     then_do look (\<lambda>r2.
       let reasons = replan_materiality r2 p in
       if reasons = [] then then_do (transact X (\<lambda>i. Propose_Replan p)) (\<lambda>_. give p)
       else then_do (transact X (\<lambda>i. Request_Approval i ''replan''
           [(''proposal_id'', JStr pid), (''base_revision'', JInt (rp_base_revision p))]
           (''Runtime replan requires human review of the exact persisted proposal: '' @ join ''; '' reasons)
           (Some ''runtime_replan'') (Some (run_id r2)) ''Model-authored plan changes may omit or understate material impact''
           [] None True None)) (\<lambda>approval.
         let gated = p\<lparr>rp_requires_approval := True, rp_approval_id := Some approval\<rparr> in
         then_do (transact X (\<lambda>i. Propose_Replan gated)) (\<lambda>_. give gated)))))))))"

definition apply_proposal :: "'w Office \<Rightarrow> ident \<Rightarrow> ('w, unit) job" where
  "apply_proposal X pid =
     then_do look (\<lambda>r.
       case map_of (run_replans r) pid of
         None \<Rightarrow> raising (ValueError (''Unknown replan proposal '' @ pid @ ''. Known proposals: '' @
           py_repr (JArr (map JStr (sort (map fst (run_replans r)))))))
       | Some p \<Rightarrow>
         then_do look (\<lambda>r1.
           let reasons = (if rp_requires_approval p then [] else replan_materiality r1 p) in
           if reasons \<noteq> []
           then raising (ValueError (''This proposal is no longer autonomous: '' @ join ''; '' reasons @
             ''. Durable state changed since it was authored. Propose a '' @
             ''replacement with replan_tasks so it is gated on its current impact.''))
           else then_do (transact X (\<lambda>i. Apply_Replan pid)) (\<lambda>_. give ())))"

end
