(* ===== verification/Build_Laws.thy ===== *)
theory Build_Laws
  imports Build
begin

text \<open>
  Every step of the controller and of the workflow driver moves the run along the kernel's steps, if the
  models' own steps do (they record usage) and the identifiers drawn are new.
\<close>

declare map_of_eq_Some_iff [simp del] Some_eq_map_of_iff [simp del]

section \<open>Along the kernel\<close>

definition along :: "Orchestrator \<Rightarrow> 'w Desk \<Rightarrow> 'w Desk \<Rightarrow> bool" where
  "along core s s' \<longleftrightarrow> moves_to core (ds_run s) (ds_run s')"

interpretation kernel: respected "along core" for core
  by unfold_locales (auto simp: along_def intro: moves_to_trans)

text \<open>What is asked of \<open>uuid4\<close>, and of the models: their coroutines only move the run along the kernel.\<close>

definition is_new :: "Run \<Rightarrow> ident \<Rightarrow> bool" where
  "is_new r i \<longleftrightarrow> i \<notin> fst ` set (run_artifacts r) \<and> i \<notin> fst ` set (run_tasks r) \<and> i \<notin> fst ` set (run_available_inputs r) \<and>
     i \<notin> fst ` set (run_approvals r) \<and> i \<notin> fst ` set (run_approval_decisions r) \<and>
     (\<forall>t \<in> snd ` set (run_tasks r). i \<notin> ag_request_id ` set (tn_approval_gates t))"

definition office_ok :: "'w Office \<Rightarrow> bool" where
  "office_ok X \<longleftrightarrow> (\<forall>r w. is_new r (fst (of_uuid X r w))) \<and>
     (\<forall>t aid wid g c. keeps (along (of_core X)) (of_worker X t aid wid g c)) \<and>
     (\<forall>rid t a items g again. keeps (along (of_core X)) (of_reviewer X rid t a items g again)) \<and>
     (\<forall>request. keeps (along (of_core X)) (of_planner X request))"

lemma office_okD:
  assumes "office_ok X"
  shows "is_new r (fst (of_uuid X r w))" "keeps (along (of_core X)) (of_worker X t aid wid g c)"
    "keeps (along (of_core X)) (of_reviewer X rid t a items g' again)" "keeps (along (of_core X)) (of_planner X request)"
  using assms by (simp_all add: office_ok_def)

lemma keeps_look [simp]: "keeps (along core) look"
  unfolding look_def by (rule keeps_act) (simp add: along_def)

lemma keeps_in_world [simp]: "keeps (along core) (in_world f)"
  unfolding in_world_def by (rule keeps_act) (simp add: along_def)

lemma keeps_new_name [simp]: "keeps (along core) (new_name X prefix)"
  unfolding new_name_def by (rule keeps_act) (simp add: along_def split: prod.split)

lemma keeps_transact:
  assumes "\<And>r i. is_new r i \<Longrightarrow> fresh_ids r (c i)" and "office_ok X"
  shows "keeps (along (of_core X)) (transact X c)"
  unfolding transact_def
proof (rule keeps_act)
  fix s :: "'a Desk"
  obtain i w where u: "of_uuid X (ds_run s) (ds_world s) = (i, w)" by fastforce
  with office_okD(1)[OF assms(2), of "ds_run s" "ds_world s"] have "fresh_ids (ds_run s) (c i)" using assms(1) by simp
  then show "along (of_core X) s (snd (case of_refuses X (ds_world s) of None \<Rightarrow>
      let (i, w) = of_uuid X (ds_run s) (ds_world s) in
        case mutate (of_core X) (c i) (ds_run s) of Inl e \<Rightarrow> (Inl e, s\<lparr>ds_world := w\<rparr>)
        | Inr (r, evs) \<Rightarrow> (Inr i, s\<lparr>ds_run := r, ds_world := w\<rparr>)
    | Some e \<Rightarrow> (Inl e, s)))"
    by (auto simp: u along_def split: option.split sum.split dest: mutate_moves_to)
qed

text \<open>The rules that take a coroutine apart.\<close>

lemma keeps_if: "(b \<Longrightarrow> keeps R m) \<Longrightarrow> (\<not> b \<Longrightarrow> keeps R n) \<Longrightarrow> keeps R (if b then m else n)"
  by simp

lemma keeps_let: "(\<And>x. keeps R (f x)) \<Longrightarrow> keeps R (let x = v in f x)"
  by simp

lemma keeps_prod: "(\<And>x y. keeps R (f x y)) \<Longrightarrow> keeps R (case p of (x, y) \<Rightarrow> f x y)"
  by (cases p) simp

lemma keeps_option: "keeps R m \<Longrightarrow> (\<And>x. keeps R (f x)) \<Longrightarrow> keeps R (case v of None \<Rightarrow> m | Some x \<Rightarrow> f x)"
  by (cases v) simp_all

lemma keeps_sum: "(\<And>x. keeps R (f x)) \<Longrightarrow> (\<And>y. keeps R (g y)) \<Longrightarrow> keeps R (case v of Inl x \<Rightarrow> f x | Inr y \<Rightarrow> g y)"
  by (cases v) simp_all

lemma keeps_violation:
  "(\<And>m. keeps R (f m)) \<Longrightarrow> keeps R g \<Longrightarrow> keeps R (case e of SandboxViolation m \<Rightarrow> f m | _ \<Rightarrow> g)"
  by (cases e) simp_all

lemma keeps_gate_error:
  "(\<And>m. keeps R (f m)) \<Longrightarrow> keeps R (raising e) \<Longrightarrow> keeps R (case e of GateError m \<Rightarrow> f m | _ \<Rightarrow> raising e)"
  by (cases e) simp_all

lemma keeps_object: "(\<And>o'. keeps R (f o')) \<Longrightarrow> keeps R g \<Longrightarrow> keeps R (case v of JObj o' \<Rightarrow> f o' | _ \<Rightarrow> g)"
  by (cases v) simp_all

lemma keeps_with: "(\<And>W. keeps R (f W)) \<Longrightarrow> keeps R (with_workspaces X e f)"
  by (simp add: with_workspaces_def split: option.split)

lemmas keeps_rules = keeps_then_do keeps_handle keeps_with keeps_each keeps_if keeps_let keeps_prod keeps_option keeps_sum
  keeps_violation keeps_gate_error keeps_object

lemma keeps_task_of [simp]: "keeps (along core) (task_of tid)"
  unfolding task_of_def by (intro keeps_rules) simp_all

lemma keeps_candidate [simp]: "keeps (along core) (candidate_of tid)"
  unfolding candidate_of_def by (intro keeps_rules) simp_all

lemma keeps_fingerprint [simp]: "keeps (along core) (fingerprint_of X tid)"
  unfolding fingerprint_of_def by (intro keeps_rules) simp_all

section \<open>Checks, reviews and acceptance\<close>

lemma keeps_template [simp]: "keeps (along core) (run_template W g category argv modules)"
  unfolding run_template_def by (intro keeps_rules) simp_all

lemma keeps_unless [simp]: "keeps R m \<Longrightarrow> keeps R (unless_violation prefix m)"
  unfolding unless_violation_def by (intro keeps_rules) simp_all

lemma keeps_checks [simp]:
  "keeps (along core) (python_check W g chk)" "keeps (along core) (build_script_problem X W g files)"
  "keeps (along core) (node_template X W g chk files)"
  unfolding python_check_def build_script_problem_def node_template_def
  by (intro keeps_rules; simp add: build_script_problem_def; intro keeps_rules; simp)+

lemma keeps_node_check [simp]: "keeps (along core) (node_check X W g chk)"
  unfolding node_check_def by (intro keeps_rules; simp)

lemma keeps_check_candidate [simp]: "keeps (along core) (check_candidate X t g chk)"
  unfolding check_candidate_def by (intro keeps_rules; simp split: option.split)

lemma keeps_executor_grant [simp]: "keeps (along core) (executor_grant X t)"
  unfolding executor_grant_def by (intro keeps_rules; simp)

lemma keeps_validate_task [simp]: "office_ok X \<Longrightarrow> keeps (along (of_core X)) (validate_task X tid)"
  unfolding validate_task_def record_check_def by (intro keeps_rules keeps_transact; simp)

lemma keeps_review_task [simp]: "office_ok X \<Longrightarrow> keeps (along (of_core X)) (review_task X tid cs)"
  unfolding review_task_def by (intro keeps_rules keeps_transact; simp add: office_okD)

lemma keeps_integrate [simp]: "office_ok X \<Longrightarrow> keeps (along (of_core X)) (integrate X tid)"
  unfolding integrate_def by (intro keeps_rules keeps_transact; simp)

lemma keeps_accept [simp]: "office_ok X \<Longrightarrow> keeps (along (of_core X)) (accept_and_integrate X tid reason)"
  unfolding accept_and_integrate_def accept_now_def by (intro keeps_rules keeps_transact; simp)

lemma keeps_unintegrated [simp]: "keeps (along core) (unintegrated_tasks X)"
  unfolding unintegrated_tasks_def by (intro keeps_rules; simp)

section \<open>Delegation and changes of capability\<close>

lemma keeps_salvage [simp]: "keeps (along core) (salvage X e t tid)"
  unfolding salvage_def by (cases e) (auto intro!: keeps_rules split: option.split)

lemma keeps_or_clean: "keeps (along core) m \<Longrightarrow> keeps (along core) (or_clean W wid m)"
  unfolding or_clean_def by (intro keeps_rules; simp)

lemma keeps_work_place [simp]: "office_ok X \<Longrightarrow> keeps (along (of_core X)) (work_place X t tid wid)"
  unfolding work_place_def fresh_place_def new_candidate_def by (intro keeps_rules keeps_or_clean keeps_transact; simp)

lemma keeps_fail_and_recover [simp]: "office_ok X \<Longrightarrow> keeps (along (of_core X)) (fail_and_recover X tid aid wid c e reason)"
  unfolding fail_and_recover_def by (intro keeps_rules keeps_transact; simp)

lemma is_new_fresh:
  "is_new r i \<Longrightarrow> fresh_ids r (Submit i tid a w res fp)"
  "is_new r i \<Longrightarrow> fresh_ids r (Request_Approval i kind sc reason cat tgt risk refs cap req old)"
  by (auto simp: is_new_def)

lemma keeps_answers [simp]:
  "office_ok X \<Longrightarrow> keeps (along (of_core X)) (provisional_answer X tid aid wid res)"
  "office_ok X \<Longrightarrow> keeps (along (of_core X)) (completed_answer X t tid aid wid res)"
  unfolding provisional_answer_def completed_answer_def
  by (intro keeps_rules keeps_transact; simp add: is_new_fresh del: fresh_ids.simps(1))+

lemma keeps_attempt [simp]: "office_ok X \<Longrightarrow> keeps (along (of_core X)) (guarded_attempt X t tid aid wid g c)"
  unfolding guarded_attempt_def attempt_def record_failure_def by (intro keeps_rules keeps_transact; simp add: office_okD)

lemma keeps_delegate_task [simp]: "office_ok X \<Longrightarrow> keeps (along (of_core X)) (delegate_task X tid)"
  unfolding delegate_task_def assign_def by (intro keeps_rules keeps_transact; simp split: option.split)

lemma keeps_capability_changes [simp]:
  "office_ok X \<Longrightarrow> keeps (along (of_core X)) (request_capability_change X qid reason)"
  "office_ok X \<Longrightarrow> keeps (along (of_core X)) (apply_capability_change X qid)"
  unfolding request_capability_change_def apply_capability_change_def request_of_def ask_escalation_def new_candidate_def
  by (intro keeps_rules keeps_or_clean keeps_transact; simp add: is_new_fresh del: fresh_ids.simps(2) split: option.split)+

lemma keeps_replans:
  assumes "office_ok X"
  shows "keeps (along (of_core X)) (author_replan X nodes trigger evidence remove reopen dependencies risks)"
    and "keeps (along (of_core X)) (apply_proposal X pid)"
  unfolding author_replan_def apply_proposal_def using assms
  by (intro keeps_rules keeps_transact; simp add: is_new_fresh del: fresh_ids.simps(2))+

section \<open>The workflow driver\<close>

lemma install_plan_moves:
  assumes "install_plan core files p r = (e, r', coverage)"
  shows "moves_to core r r'"
proof -
  have "moves_to core r r1" if "set_criteria core cs r = Inr r1" for cs r1
    using that by (auto simp: set_criteria_def Let_def bind_ok_Inr_iff split: if_splits dest!: mutate_moves_to)
  with assms show ?thesis unfolding install_plan_def
    by (auto split: if_splits sum.splits prod.splits dest!: mutate_moves_to intro: moves_to_trans)
qed

lemma keeps_install_step [simp]: "keeps (along (of_core X)) (install_step X p)"
  unfolding install_step_def tracked_def
proof (intro keeps_rules keeps_act)
  fix files :: "string list" and s :: "'a Desk"
  obtain e r c where "install_plan (of_core X) files p (ds_run s) = (e, r, c)" by (metis prod_cases3)
  with install_plan_moves[OF this] show "along (of_core X) s (snd (case install_plan (of_core X) files p (ds_run s) of
         (Some e, r, _) \<Rightarrow> (Inl e, s\<lparr>ds_run := r\<rparr>)
       | (None, r, coverage) \<Rightarrow> (Inr (), s\<lparr>ds_run := r, ds_coverage := coverage\<rparr>)))"
    by (cases e) (simp_all add: along_def)
qed simp_all

lemma keeps_plan_attempts: "office_ok X \<Longrightarrow> keeps (along (of_core X)) (plan_attempts X request n feedback problem)"
  by (induct X request n feedback problem rule: plan_attempts.induct) (auto intro!: keeps_rules simp: office_okD)

lemma keeps_plan [simp]: "office_ok X \<Longrightarrow> keeps (along (of_core X)) (plan X notes)"
  unfolding plan_def tracked_def by (intro keeps_rules keeps_plan_attempts; simp)

lemma keeps_fail_routed [simp]: "office_ok X \<Longrightarrow> keeps (along (of_core X)) (fail_routed X tid c e)"
  unfolding fail_routed_def by (intro keeps_rules keeps_transact; simp)

lemma keeps_decide: "(\<And>i r. moves_to core r (snd (f X i r))) \<Longrightarrow> keeps (along core) (decide f X)"
  unfolding decide_def
proof (rule keeps_act)
  fix s :: "'a Desk"
  assume m: "\<And>i r. moves_to core r (snd (f X i r))"
  obtain i w where u: "of_uuid X (ds_run s) (ds_world s) = (i, w)" by fastforce
  obtain e r where f: "f X i (ds_run s) = (e, r)" by fastforce
  with m[of "ds_run s" i] have "moves_to core (ds_run s) r" by simp
  then show "along core s (snd (let (i, w) = of_uuid X (ds_run s) (ds_world s) in
     case f X i (ds_run s) of
       (Some e, r) \<Rightarrow> (Inl e, s\<lparr>ds_run := r, ds_world := w\<rparr>)
     | (None, r) \<Rightarrow> (Inr (), s\<lparr>ds_run := r, ds_world := w\<rparr>)))"
    by (cases e) (simp_all add: u f along_def)
qed

lemma keeps_decisions [simp]:
  "keeps (along (of_core X)) (recover_now X seen)" "keeps (along (of_core X)) (reopen_now X)"
  unfolding recover_now_def reopen_now_def recover_failed_def
  by (rule keeps_decide, rule recover_each_moves, rule keeps_decide, rule reopen_moves)

lemma keeps_delegated [simp]: "office_ok X \<Longrightarrow> keeps (along (of_core X)) (delegated X tid)"
  unfolding delegated_def by (intro keeps_rules keeps_act; simp add: along_def)

lemma keeps_own_criteria [simp]: "keeps (along core) (own_criteria_now tid)"
  unfolding own_criteria_now_def by (rule keeps_act) (simp add: along_def)

lemma keeps_or_fail: "office_ok X \<Longrightarrow> keeps (along (of_core X)) m \<Longrightarrow> keeps (along (of_core X)) (or_fail X tid c prefix m)"
  unfolding or_fail_def by (intro keeps_rules; simp)

lemma keeps_execute_task: "office_ok X \<Longrightarrow> keeps (along (of_core X)) (execute_task X tid)"
  unfolding execute_task_def judge_task_def accept_reviewed_def by (intro keeps_rules keeps_or_fail; simp)

lemma keeps_handle_requests: "office_ok X \<Longrightarrow> keeps (along (of_core X)) (handle_requests X seen qs)"
  by (induct X seen qs rule: handle_requests.induct) (auto intro!: keeps_rules split: option.split)

lemma keeps_finish [simp]: "office_ok X \<Longrightarrow> keeps (along (of_core X)) (finish_build X)"
  unfolding finish_build_def integrate_rest_def
proof (intro keeps_rules keeps_act)
  fix s :: "'a Desk"
  show "along (of_core X) s (snd (case of_refuses X (ds_world s) of Some e \<Rightarrow> (Inl e, s) | None \<Rightarrow>
       case finish_integrated (of_core X) (of_dash X) (case ds_coverage s of None \<Rightarrow> [] | Some c \<Rightarrow> c) (ds_run s) of
         Inl e \<Rightarrow> (Inl e, s)
       | Inr (message, r) \<Rightarrow> (Inr message, s\<lparr>ds_run := r\<rparr>)))"
    by (auto simp: finish_integrated_def bind_ok_Inr_iff along_def split: option.split sum.split dest!: mutate_moves_to)
qed simp_all

lemma keeps_work_round:
  assumes "office_ok X" and "keeps (along (of_core X)) m"
  shows "keeps (along (of_core X)) (work_round X m)"
  unfolding work_round_def using assms
  by (intro keeps_rules keeps_act keeps_gather; auto simp: along_def intro: keeps_execute_task)

lemma keeps_rounds: "office_ok X \<Longrightarrow> keeps (along (of_core X)) (rounds X n)"
proof (induct n)
  case (Suc n)
  then show ?case unfolding rounds.simps handle_capabilities_def
    by (intro keeps_rules keeps_handle_requests keeps_work_round; simp)
qed simp

text \<open>
  A build session, whatever the models answer, the workspaces refuse and the store turns down, in whatever
  order the event loop resumes the gathered tasks, and while the human and other processes take steps of
  the kernel between its own: it leaves a reachable run, so all that holds of reachable runs holds.
\<close>

theorem driver_stays_on_the_kernel:
  assumes "office_ok X" and "runs (along (of_core X)) (run_build X notes) s res s'" and "reachable (of_core X) (ds_run s)"
  shows "reachable (of_core X) (ds_run s')"
proof -
  have "keeps (along (of_core X)) (run_build X notes)"
    unfolding run_build_def using assms(1) by (intro keeps_rules keeps_rounds; simp)
  from kernel.runs_respects[OF assms(2) this] have "moves_to (of_core X) (ds_run s) (ds_run s')" by (simp add: along_def)
  then show ?thesis using assms(3) by (rule reachable_moves)
qed

end
