(* ===== verification/Integration.thy ===== *)
theory Integration
  imports Driver
begin

text \<open>
  Recording where accepted work was integrated changes nothing the completion gate reads: readiness, the
  graph and the evidence are the same before and after. In a reachable run a recorded commit is always a
  full object id.
\<close>

section \<open>Recorded commits\<close>

definition commit_ok :: "Artifact \<Rightarrow> bool" where
  "commit_ok a \<longleftrightarrow> (\<forall>c. ar_integrated_commit a = Some c \<longrightarrow> full_object_id c)"

definition commits_ok :: "Run \<Rightarrow> bool" where
  "commits_ok r \<longleftrightarrow> (\<forall>x a. map_of (run_artifacts r) x = Some a \<longrightarrow> commit_ok a)"

lemma commits_okD: "commits_ok r \<Longrightarrow> map_of (run_artifacts r) x = Some a \<Longrightarrow> commit_ok a"
  by (simp add: commits_ok_def)

lemma commits_ok_set: "commits_ok r \<Longrightarrow> commit_ok a \<Longrightarrow> commits_ok (set_artifact x a r)"
  by (auto simp: commits_ok_def split: if_splits)

lemma commits_ok_artifacts: "commits_ok r \<Longrightarrow> run_artifacts r' = run_artifacts r \<Longrightarrow> commits_ok r'"
  by (simp add: commits_ok_def)

lemma commits_refresh:
  assumes "then_refresh x r1 evs1 = Inr (y, r', evs)" and "distinct (map fst (run_tasks r1))" and "commits_ok r1"
  shows "commits_ok r'"
proof -
  from assms(1,2) obtain more where "refresh r1 = Inr (r', more)" by (auto simp: then_refresh_Inr)
  from refresh_refreshed[OF this assms(2)] have "quiet r1 r'" by (rule quiet_refreshed)
  then have "run_artifacts r' = run_artifacts r1" by (simp add: quiet_def)
  with assms(3) show ?thesis by (rule commits_ok_artifacts)
qed

lemma commits_candidate:
  assumes "run_ok core r" and "candidate core aid fp r = Inr (a, t, r1, evs)" and "commits_ok r"
  shows "commits_ok r1 \<and> commit_ok a"
proof -
  from candidate_ok(9)[OF assms(1,2)] have "run_artifacts r1 = run_artifacts r" by (simp add: quiet_op_def quiet_def)
  with assms(3) have "commits_ok r1" by (rule commits_ok_artifacts)
  with commits_okD[OF this candidate_ok(3)[OF assms(1,2)]] show ?thesis by simp
qed

lemma add_each_artifacts: "add_each ts r = Inr (r', evs) \<Longrightarrow> run_artifacts r' = run_artifacts r"
proof (induction ts r arbitrary: r' evs rule: add_each.induct)
  case (2 t ts r)
  then obtain r1 evs1 evs2 where one: "add_task t r = Inr (r1, evs1)" and rest: "add_each ts r1 = Inr (r', evs2)"
    by (auto simp: bind_ok_Inr_iff)
  from "2.IH"[OF one refl rest] one show ?case by (auto simp: add_task_Inr)
qed simp

lemma recover_commits:
  assumes rec: "recover core i fid reason actor r = Inr (x, r', evs)" and c: "commits_ok r"
  shows "commits_ok r'"
proof -
  from rec obtain f t t1 evs1 r1 evs2 where t: "map_of (run_tasks r) (wf_task_id f) = Some t"
    and st: "tn_status t = FAILED"
    and act: "apply_action r f reason (recovery_action t (wf_classification f)) t = Inr (t1, evs1)"
    and rej: "reject_latest t1 reason (wf_id f) (set_task (wf_task_id f) t1 r) = Inr (r1, evs2)"
    and r': "r' = r1\<lparr>run_recoveries := run_recoveries r1 @ [x], run_decisions := run_decisions r1 @ [Decision.truncate x]\<rparr>"
    unfolding recover_Inr by blast
  have "commits_ok (set_task (wf_task_id f) t1 r)" using c by (rule commits_ok_artifacts) simp
  with rej have "commits_ok r1"
    by (auto simp: reject_latest_def bind_ok_Inr_iff commit_ok_def dest: commits_okD intro!: commits_ok_set
        split: option.splits)
  then show ?thesis by (rule commits_ok_artifacts) (simp add: r')
qed

lemma insert_tasks_artifacts: "run_artifacts (insert_tasks ts r) = run_artifacts r"
  by (induct ts arbitrary: r) (simp_all add: insert_tasks_def)

lemma replanned_artifacts: "run_artifacts (replanned p r) = run_artifacts (invalidated p (replan_affected r p) r)"
  by (simp add: replanned_def insert_tasks_artifacts rewire_def)

lemma apply_replan_commits:
  assumes ok: "run_ok core r" and app: "apply_replan core pid r = Inr (x, r', evs)" and c: "commits_ok r"
  shows "commits_ok r'"
  using ok app
proof (rule apply_replan_Inr)
  fix p evs1
  assume nodef: "replan_defects r p = []" and ref: "then_refresh () (revise_plan p (replanned p r)) evs1 = Inr (x, r', evs)"
  have "commits_ok (replanned p r)"
    using c by (auto simp: commits_ok_def commit_ok_def replanned_artifacts split: if_splits)
  then have "commits_ok (revise_plan p (replanned p r))" by (rule commits_ok_artifacts) (simp add: revise_plan_def)
  moreover have "distinct (map fst (run_tasks (revise_plan p (replanned p r))))"
    using run_okD(1)[OF replanned_ok[OF ok nodef]] by (simp add: revise_plan_def)
  ultimately show ?thesis using commits_refresh[OF ref] by blast
qed

lemma perform_commits:
  assumes ok: "run_ok core r" and c: "commits_ok r" and per: "perform core cmd r = Inr (r', evs)"
  shows "commits_ok r'"
proof (cases "is_quiet cmd")
  case True
  from perform_quiet[OF per True run_okD(1)[OF ok]] have "run_artifacts r' = run_artifacts r" by (simp add: quiet_op_def quiet_def)
  with c show ?thesis by (rule commits_ok_artifacts)
next
  case False
  show ?thesis
  proof (cases cmd)
    case (Plan_Tasks ts)
    with per obtain r1 evs1 where each: "add_each ts r = Inr (r1, evs1)"
      and ref: "then_refresh () r1 evs1 = Inr ((), r', evs)" by (auto simp: effect_Inr add_tasks_Inr)
    have "run_ok core r1" using add_each_ok[OF each ok] by blast
    from commits_refresh[OF ref run_okD(1)[OF this]] commits_ok_artifacts[OF c add_each_artifacts[OF each]] show ?thesis
      by blast
  next
    case (Delegate i tid w)
    with per obtain t' where "r' = set_task tid t' r" by (auto simp: effect_Inr delegate_Inr)
    then show ?thesis by (intro commits_ok_artifacts[OF c]) simp
  next
    case (Submit i tid a w res fp)
    with per obtain x t' where "submit core i tid a w res fp r = Inr (x, r', evs)" by (auto simp: effect_Inr)
    then have "\<exists>t'. r' = set_artifact i x (set_task tid t' r)" and "ar_integrated_commit x = None"
      unfolding submit_Inr by auto
    moreover have "commits_ok (set_task tid t' r)" for t' using c by (rule commits_ok_artifacts) simp
    ultimately show ?thesis by (auto intro!: commits_ok_set simp: commit_ok_def)
  next
    case (Validate i aid ch p ev v fp)
    with per obtain x a t r1 evs1 where cand: "candidate core aid fp r = Inr (a, t, r1, evs1)"
      and r': "r' = set_artifact aid (a\<lparr>ar_validations := ar_validations a @ [x]\<rparr>) r1"
      by (auto simp: effect_Inr validate_Inr)
    from commits_candidate[OF ok cand c] show ?thesis by (auto simp: r' commit_ok_def intro!: commits_ok_set)
  next
    case (Give_Review i aid v p ev fp)
    with per obtain x a t r1 evs1 where cand: "candidate core aid fp r = Inr (a, t, r1, evs1)"
      and r': "r' = set_artifact aid (a\<lparr>ar_reviews := ar_reviews a @ [x]\<rparr>) r1"
      by (auto simp: effect_Inr review_Inr)
    from commits_candidate[OF ok cand c] show ?thesis by (auto simp: r' commit_ok_def intro!: commits_ok_set)
  next
    case (Accept i tid m reason fp)
    with per obtain x where "accept core i tid m reason fp r = Inr (x, r', evs)" by (auto simp: effect_Inr)
    then show ?thesis
    proof (rule accept_Inr)
      fix aid a t r1 evs1 evs2
      assume cand: "candidate core aid fp r = Inr (a, t, r1, evs1)" and g: "evidence_gate core t a = Inr ()"
        and ref: "then_refresh x (accepted_run x aid a t r1) evs2 = Inr (x, r', evs)"
      note cd = candidate_ok[OF ok cand]
      have "run_ok core (accepted_run x aid a t r1)"
        by (rule accepted_ok[OF cd(1-3,6,4,5)]) (simp add: evidenced_def cd(7) g)
      moreover have "commits_ok (accepted_run x aid a t r1)"
        using commits_candidate[OF ok cand c] by (auto simp: accepted_run_def commits_ok_def commit_ok_def)
      ultimately show ?thesis using commits_refresh[OF ref] run_okD(1) by blast
    qed
  next
    case (Integrate aid commit)
    with per obtain x where int: "record_integration aid commit r = Inr (x, r', evs)" by (auto simp: effect_Inr)
    then show ?thesis using c
      by (auto simp: record_integration_Inr integrate_artifact_Inr commit_ok_def intro!: commits_ok_set split: if_splits)
  next
    case (Recover i f reason a)
    with per obtain x where "recover core i f reason a r = Inr (x, r', evs)" by (auto simp: effect_Inr)
    with recover_commits c show ?thesis by blast
  next
    case (Apply_Replan pid)
    with per obtain x where "apply_replan core pid r = Inr (x, r', evs)" by (auto simp: effect_Inr)
    with apply_replan_commits[OF ok] c show ?thesis by blast
  qed (use False in simp_all)
qed

lemma reachable_commits: "reachable core r \<Longrightarrow> commits_ok r"
proof (induction rule: reachable.induct)
  case (created rid objective criteria constraints n r evs)
  then show ?case by (auto simp: create_run_Inr initial_run_def commits_ok_def)
next
  case (changed r r')
  from changed.hyps(2) show ?case
  proof (rule stepE)
    fix c evs
    assume "mutate core c r = Inr (r', evs)"
    with perform_commits[OF reachable_ok[OF changed.hyps(1)] changed.IH] show ?thesis by (auto simp: mutate_Inr)
  next
    fix u evs
    assume "append_usage u r = Inr ((), r', evs)"
    then show ?thesis by (intro commits_ok_artifacts[OF changed.IH]) (simp add: append_usage_Inr)
  next
    fix v n
    assume "r' = r\<lparr>run_version := v, run_event_cursor := n\<rparr>"
    then show ?thesis by (intro commits_ok_artifacts[OF changed.IH]) simp
  qed
qed

section \<open>What integration leaves as it was\<close>

definition but_commits :: "Run \<Rightarrow> Run" where
  "but_commits r = r\<lparr>run_artifacts := map (\<lambda>(x, a). (x, a\<lparr>ar_integrated_commit := None\<rparr>)) (run_artifacts r)\<rparr>"

definition integrated :: "Run \<Rightarrow> Run \<Rightarrow> bool" where
  "integrated r r' \<longleftrightarrow> but_commits r' = but_commits r"

lemma integrated_refl [simp]: "integrated r r"
  by (simp add: integrated_def)

lemma integrated_sym: "integrated r r' \<Longrightarrow> integrated r' r"
  by (simp add: integrated_def)

lemma integrated_trans: "integrated r r1 \<Longrightarrow> integrated r1 r2 \<Longrightarrow> integrated r r2"
  by (simp add: integrated_def)

lemma integrated_set:
  assumes "map_of (run_artifacts r) x = Some a"
  shows "integrated r (set_artifact x (a\<lparr>ar_integrated_commit := c\<rparr>) r)"
proof -
  let ?f = "\<lambda>(x, a). (x, a\<lparr>ar_integrated_commit := None\<rparr>)"
  have "map_of d x = Some a \<Longrightarrow> map ?f (AList.update x (a\<lparr>ar_integrated_commit := c\<rparr>) d) = map ?f d" for d
    by (induct d) auto
  with assms show ?thesis by (simp add: integrated_def but_commits_def set_artifact_def)
qed

lemma integrated_fields:
  assumes "integrated r r'"
  shows "run_tasks r' = run_tasks r" "run_id r' = run_id r" "run_status r' = run_status r" "run_plan r' = run_plan r"
    "run_accepted_artifacts r' = run_accepted_artifacts r" "run_available_inputs r' = run_available_inputs r"
    "run_approvals r' = run_approvals r" "run_approval_decisions r' = run_approval_decisions r"
    "run_unresolved_issues r' = run_unresolved_issues r" "run_usage_records r' = run_usage_records r"
proof -
  note eq = arg_cong[OF assms[unfolded integrated_def]]
  show "run_tasks r' = run_tasks r" "run_id r' = run_id r" "run_status r' = run_status r" "run_plan r' = run_plan r"
    "run_accepted_artifacts r' = run_accepted_artifacts r" "run_available_inputs r' = run_available_inputs r"
    "run_approvals r' = run_approvals r" "run_approval_decisions r' = run_approval_decisions r"
    "run_unresolved_issues r' = run_unresolved_issues r" "run_usage_records r' = run_usage_records r"
    using eq[of run_tasks] eq[of run_id] eq[of run_status] eq[of run_plan] eq[of run_accepted_artifacts]
      eq[of run_available_inputs] eq[of run_approvals] eq[of run_approval_decisions] eq[of run_unresolved_issues]
      eq[of run_usage_records] by (simp_all add: but_commits_def)
qed

lemma integrated_artifact:
  assumes "integrated r r'"
  shows "map_option (\<lambda>a. a\<lparr>ar_integrated_commit := None\<rparr>) (map_of (run_artifacts r') x) =
    map_option (\<lambda>a. a\<lparr>ar_integrated_commit := None\<rparr>) (map_of (run_artifacts r) x)"
proof -
  from assms have "run_artifacts (but_commits r') = run_artifacts (but_commits r)" by (simp only: integrated_def)
  then have "map_of (map (\<lambda>(x, a). (x, a\<lparr>ar_integrated_commit := None\<rparr>)) (run_artifacts r')) x =
    map_of (map (\<lambda>(x, a). (x, a\<lparr>ar_integrated_commit := None\<rparr>)) (run_artifacts r)) x" by (simp add: but_commits_def)
  then show ?thesis unfolding map_of_map_keyed[where f = "\<lambda>k a. a\<lparr>ar_integrated_commit := None\<rparr>"] .
qed

lemma integrated_artifactD:
  assumes "integrated r r'" and "map_of (run_artifacts r) x = Some a"
  obtains c where "map_of (run_artifacts r') x = Some (a\<lparr>ar_integrated_commit := c\<rparr>)"
proof -
  from integrated_artifact[OF assms(1), of x] assms(2) obtain b where b: "map_of (run_artifacts r') x = Some b"
    "b\<lparr>ar_integrated_commit := None\<rparr> = a\<lparr>ar_integrated_commit := None\<rparr>" by (cases "map_of (run_artifacts r') x") auto
  then have "b = a\<lparr>ar_integrated_commit := ar_integrated_commit b\<rparr>" by (cases a, cases b) simp
  with b(1) that show thesis by metis
qed

lemma integrated_keys:
  assumes "integrated r r'"
  shows "fst ` set (run_artifacts r') = fst ` set (run_artifacts r)"
proof -
  have "x \<in> fst ` set (run_artifacts r') \<longleftrightarrow> x \<in> fst ` set (run_artifacts r)" for x
    using integrated_artifact[OF assms, of x] by (metis map_of_eq_None_iff option.map_disc_iff)
  then show ?thesis by blast
qed

lemma integrated_extends:
  assumes "integrated r r'"
  shows "extends r r'"
proof -
  note f = integrated_fields[OF assms]
  show ?thesis unfolding extends_def f integrated_keys[OF assms]
  proof (intro conjI allI impI)
    fix x a assume "map_of (run_artifacts r) x = Some a"
    from integrated_artifactD[OF assms this] obtain c where
      "map_of (run_artifacts r') x = Some (a\<lparr>ar_integrated_commit := c\<rparr>)" .
    then show "\<exists>a'. map_of (run_artifacts r') x = Some a' \<and> ar_task_id a' = ar_task_id a \<and> ar_run_id a' = ar_run_id a \<and>
        ar_input_artifact_ids a' = ar_input_artifact_ids a \<and> (ar_status a = ''accepted'' \<longrightarrow> ar_status a' = ''accepted'')"
      by simp
  qed auto
qed

lemma integrated_ready:
  assumes "integrated r r'"
  shows "ready r' t = ready r t"
proof -
  note f = integrated_fields[OF assms]
  have "canonical r' i = canonical r i" for i
    using canonical_extends integrated_extends[OF assms] integrated_extends[OF integrated_sym[OF assms]] by blast
  moreover have "resolve_input r' t v = resolve_input r t v" for v
    unfolding resolve_input_def f integrated_keys[OF assms] by (rule refl)
  then have "resolved r' t vs acc = resolved r t vs acc" for vs acc by (induct vs arbitrary: acc) (simp_all cong: bind_ok_cong)
  moreover have "gate_satisfied r' g = gate_satisfied r g" for g unfolding gate_satisfied_def f by (rule refl)
  ultimately show ?thesis by (simp add: ready_iff input_artifact_ids_iff)
qed

lemma integrated_graph:
  assumes "integrated r r'" and "distinct (map fst (run_tasks r))"
  shows "graph r' = Inr () \<longleftrightarrow> graph r = Inr ()"
proof -
  note f = integrated_fields[OF assms(1)]
  have "graph_target r' p d = graph_target r p d" for p d
  proof (cases "map_of (run_artifacts r) d")
    case None
    then have none: "map_of (run_artifacts r') d = None" using integrated_artifact[OF assms(1), of d] by simp
    show ?thesis unfolding graph_target_def f None none by (rule refl)
  next
    case (Some a)
    from integrated_artifactD[OF assms(1) Some] obtain c where
      c: "map_of (run_artifacts r') d = Some (a\<lparr>ar_integrated_commit := c\<rparr>)" .
    have "ar_task_id (a\<lparr>ar_integrated_commit := c\<rparr>) = ar_task_id a" by simp
    then show ?thesis unfolding graph_target_def f Some c option.case by (simp only:)
  qed
  then have "depends r' = depends r" "resolvable r' k = resolvable r k" "live r' k = live r k" for k
    by (simp_all add: depends_def resolvable_def live_def f)
  with assms(2) show ?thesis by (simp add: graph_iff f)
qed

lemma integrated_finish:
  assumes "integrated r r'"
  shows "finish_evidence coverage r' = finish_evidence coverage r" "finish_summary dash r' = finish_summary dash r"
    "active_tasks r' = active_tasks r"
  unfolding finish_evidence_def criterion_evidence_def covering_artifacts_def finish_summary_def active_tasks_def
    integrated_fields[OF assms] by (rule refl)+

end
