(* ===== verification/Build_Claims.thy ===== *)
theory Build_Claims
  imports Build_Laws Integration
begin

text \<open>
  What the workflow driver achieves: once the work is accepted, finishing integrates what is left and
  completes the run.
\<close>

declare map_of_eq_Some_iff [simp del] Some_eq_map_of_iff [simp del]

section \<open>Integrating\<close>

text \<open>A task's latest artifact is integrated.\<close>

definition placed :: "Run \<Rightarrow> ident \<Rightarrow> bool" where
  "placed r k \<longleftrightarrow> (\<exists>t a. map_of (run_tasks r) k = Some t \<and> latest r t = Some a \<and> present (ar_integrated_commit a))"

definition owes :: "'w Office \<Rightarrow> Run \<Rightarrow> ident \<Rightarrow> bool" where
  "owes X r k \<longleftrightarrow> (\<exists>t. map_of (run_tasks r) k = Some t \<and> tn_status t = ACCEPTED \<and> integrates X t)"

text \<open>Nothing stands in the way: the store takes every save, and the repository takes the commit it is asked for.\<close>

definition unhindered :: "'w Office \<Rightarrow> bool" where
  "unhindered X \<longleftrightarrow> (\<forall>w. of_refuses X w = None) \<and>
     (\<forall>W k fp message w. of_workspaces X = Some W \<longrightarrow>
        (\<exists>c. fst (ws_integrate W k fp message w) = Inr c \<and> full_object_id c))"

lemma full_present: "full_object_id c \<Longrightarrow> present (Some c)"
  by (cases c) (simp_all add: full_object_id_def present_def)

text \<open>What integration looks up: the accepted artifact of an accepted task.\<close>

lemma accepted_latest:
  assumes re: "reachable core r" and t: "map_of (run_tasks r) k = Some t" "tn_status t = ACCEPTED"
  obtains aid a where "last_opt (tn_artifact_ids t) = Some aid" "map_of (run_artifacts r) aid = Some a"
    "ar_id a = aid" "ar_status a = ''accepted''" "aid \<in> set (run_accepted_artifacts r)" "ar_task_id a = k"
    "tn_capability t = DEVELOPER_SANDBOX \<longrightarrow> present (ar_workspace_fingerprint a)"
    "ar_integrated_commit a = None \<or> present (ar_integrated_commit a)"
proof -
  note ok = reachable_ok[OF re]
  have "phase_of (tn_status t) = Done" using t(2) by simp
  from task_okD(6)[OF run_okD(5)[OF ok t(1)] this] obtain a where l: "latest r t = Some a"
    and st: "ar_status a = ''accepted''" and ev: "evidenced core t a" by blast
  then obtain aid where aid: "last_opt (tn_artifact_ids t) = Some aid" and a: "map_of (run_artifacts r) aid = Some a"
    by (auto simp: latest_def split: option.splits)
  have "aid \<in> set (tn_artifact_ids t)" using last_opt_mem[OF aid] .
  from task_okD(4)[OF run_okD(5)[OF ok t(1)] this] a have "ar_task_id a = k" by (auto simp: artifact_of_def)
  moreover have "ar_id a = aid" "aid \<in> set (run_accepted_artifacts r)"
    using run_okD(6)[OF ok a] st by (simp_all add: artifact_ok_def)
  moreover have "ar_integrated_commit a = None \<or> present (ar_integrated_commit a)"
    using commits_okD[OF reachable_commits[OF re] a] full_present
    by (cases "ar_integrated_commit a") (auto simp: commit_ok_def)
  ultimately show thesis using that aid a st ev by (simp add: evidenced_def independent_def)
qed

text \<open>The relation between the desk before and after: only commits were recorded.\<close>

definition only_placed :: "'w Office \<Rightarrow> 'w Desk \<Rightarrow> 'w Desk \<Rightarrow> bool" where
  "only_placed X s s' \<longleftrightarrow> integrated (ds_run s) (ds_run s') \<and> (reachable (of_core X) (ds_run s) \<longrightarrow> reachable (of_core X) (ds_run s')) \<and>
     ds_coverage s' = ds_coverage s \<and> (\<forall>k. placed (ds_run s) k \<longrightarrow> placed (ds_run s') k)"

lemma only_placed_refl [simp]: "only_placed X s s"
  by (simp add: only_placed_def)

lemma only_placed_trans: "only_placed X s s1 \<Longrightarrow> only_placed X s1 s2 \<Longrightarrow> only_placed X s s2"
  unfolding only_placed_def using integrated_trans by metis

lemma placed_set:
  assumes "map_of (run_artifacts r) aid = Some a" and "present (Some c)"
  shows "placed r k \<Longrightarrow> placed (set_artifact aid (a\<lparr>ar_integrated_commit := Some c\<rparr>) r) k"
    and "map_of (run_tasks r) k = Some t \<Longrightarrow> last_opt (tn_artifact_ids t) = Some aid \<Longrightarrow>
      placed (set_artifact aid (a\<lparr>ar_integrated_commit := Some c\<rparr>) r) k"
  using assms by (auto simp: placed_def latest_def split: option.splits if_splits)

lemma integrate_places:
  assumes free: "unhindered X" and re: "reachable (of_core X) (ds_run s)" and act: "run_status (ds_run s) = ''active''"
    and owes: "owes X (ds_run s) k"
  shows "\<exists>c s'. alone (integrate X k) s = (Inr c, s') \<and> only_placed X s s' \<and> placed (ds_run s') k"
proof -
  let ?r = "ds_run s"
  from owes obtain t where t: "map_of (run_tasks ?r) k = Some t" "tn_status t = ACCEPTED" "integrates X t"
    by (auto simp: owes_def)
  from t(3) obtain W where W: "of_workspaces X = Some W" and dev: "tn_capability t = DEVELOPER_SANDBOX"
    by (auto simp: integrates_def)
  from accepted_latest[OF re t(1,2)] obtain aid a where a: "last_opt (tn_artifact_ids t) = Some aid"
    "map_of (run_artifacts ?r) aid = Some a" "ar_id a = aid" "ar_status a = ''accepted''"
    "aid \<in> set (run_accepted_artifacts ?r)" "ar_task_id a = k" "present (ar_workspace_fingerprint a)"
    "ar_integrated_commit a = None \<or> present (ar_integrated_commit a)" using dev by blast
  show ?thesis
  proof (cases "present (ar_integrated_commit a)")
    case True
    then have "placed ?r k" using t(1) a(1,2) by (auto simp: placed_def latest_def)
    moreover have "alone (integrate X k) s = (Inr (the (ar_integrated_commit a)), s)"
      using t(1) a(1,2) True by (simp add: integrate_def look_def dget_def)
    ultimately show ?thesis by (intro exI conjI) auto
  next
    case False
    with a(8) have none: "ar_integrated_commit a = None" by simp
    let ?ask = "ws_integrate W (the (tn_workspace_id t)) (ar_workspace_fingerprint a) (integration_message k t a) (ds_world s)"
    from free W obtain c where c: "fst ?ask = Inr c" "full_object_id c" unfolding unhindered_def by blast
    obtain w where ask: "?ask = (Inr c, w)" using c(1) by (cases ?ask) auto
    let ?r' = "set_artifact aid (a\<lparr>ar_integrated_commit := Some c\<rparr>) ?r"
    obtain i w' where u: "of_uuid X ?r w = (i, w')" by (cases "of_uuid X ?r w")
    have "\<exists>evs. integrate_artifact aid c ?r = Inr ((), ?r', evs)"
      using a t(1,2) none by (simp add: integrate_artifact_def)
    then obtain evs where m: "mutate (of_core X) (Integrate aid c) ?r = Inr (?r', evs)"
      using act none a(2) c(2)
      by (auto simp: mutate_Inr effect_Inr record_integration_Inr already_integrated_def)
    let ?s = "s\<lparr>ds_world := w'\<rparr>\<lparr>ds_run := ?r'\<rparr>"
    have "alone (integrate X k) s = (Inr c, s\<lparr>ds_world := w', ds_run := ?r'\<rparr>)"
      using t(1) a(1-3) False W free m ask u
      by (simp add: integrate_def look_def dget_def with_workspaces_def in_world_def transact_def unhindered_def)
    moreover have "reachable (of_core X) ?r'" using reachable_moves[OF mutate_moves_to[OF m] re] by simp
    then have "only_placed X s (s\<lparr>ds_world := w', ds_run := ?r'\<rparr>)"
      using integrated_set[OF a(2)] placed_set(1)[OF a(2) full_present[OF c(2)]] by (simp add: only_placed_def)
    ultimately show ?thesis using placed_set(2)[OF a(2) full_present[OF c(2)] t(1) a(1)] by auto
  qed
qed

lemma owes_integrated: "integrated r r' \<Longrightarrow> owes X r' k = owes X r k"
  by (simp add: owes_def integrated_fields)

lemma accept_again_places:
  assumes "unhindered X" "reachable (of_core X) (ds_run s)" "run_status (ds_run s) = ''active''" "owes X (ds_run s) k"
  shows "\<exists>s'. alone (accept_and_integrate X k reason) s = (Inr True, s') \<and> only_placed X s s' \<and> placed (ds_run s') k"
proof -
  from integrate_places[OF assms] obtain c s' where i: "alone (integrate X k) s = (Inr c, s')"
    "only_placed X s s'" "placed (ds_run s') k" by blast
  from assms(4) obtain t where t: "map_of (run_tasks (ds_run s)) k = Some t" "tn_status t = ACCEPTED" "integrates X t"
    by (auto simp: owes_def)
  with i show ?thesis by (simp add: accept_and_integrate_def task_of_def look_def dget_def)
qed

lemma each_places:
  assumes free: "unhindered X"
  shows "reachable (of_core X) (ds_run s) \<Longrightarrow> run_status (ds_run s) = ''active'' \<Longrightarrow> \<forall>k \<in> set ks. owes X (ds_run s) k \<Longrightarrow>
    \<exists>bs s'. alone (each (\<lambda>k. accept_and_integrate X k reason) ks) s = (Inr bs, s') \<and> only_placed X s s' \<and>
      (\<forall>k \<in> set ks. placed (ds_run s') k)"
proof (induct ks arbitrary: s)
  case (Cons k ks)
  from accept_again_places[OF free Cons.prems(1,2), of k] Cons.prems(3) obtain s1 where
    one: "alone (accept_and_integrate X k reason) s = (Inr True, s1)" "only_placed X s s1" "placed (ds_run s1) k" by auto
  have re: "reachable (of_core X) (ds_run s1)" using one(2) Cons.prems(1) by (simp add: only_placed_def)
  have int: "integrated (ds_run s) (ds_run s1)" using one(2) by (simp add: only_placed_def)
  have "run_status (ds_run s1) = ''active''" "\<forall>k \<in> set ks. owes X (ds_run s1) k"
    using Cons.prems(2,3) integrated_fields(3)[OF int] owes_integrated[OF int, of X] by auto
  from Cons.hyps[OF re this] obtain bs s2 where two: "alone (each (\<lambda>k. accept_and_integrate X k reason) ks) s1 = (Inr bs, s2)"
    "only_placed X s1 s2" "\<forall>k \<in> set ks. placed (ds_run s2) k" by blast
  have "placed (ds_run s2) k" using two(2) one(3) by (simp add: only_placed_def)
  with one(1) two only_placed_trans[OF one(2) two(2)] show ?case by simp
qed simp

section \<open>Finishing\<close>

text \<open>In a reachable run the tasks to integrate are exactly those that owe it and are not placed.\<close>

lemma unintegrated_listed:
  assumes re: "reachable (of_core X) (ds_run s)"
  shows "\<exists>ks. alone (unintegrated_tasks X) s = (Inr ks, s) \<and> (\<forall>k \<in> set ks. owes X (ds_run s) k) \<and>
    (\<forall>k. owes X (ds_run s) k \<longrightarrow> k \<in> set ks \<or> placed (ds_run s) k)"
proof (cases "of_integration X \<and> of_workspaces X \<noteq> None")
  case False
  then show ?thesis by (auto simp: unintegrated_tasks_def owes_def integrates_def)
next
  case True
  let ?r = "ds_run s"
  define one where "one = (\<lambda>(k, t) rest.
            if tn_status t = ACCEPTED \<and> integrates X t
            then bind_ok (case last_opt (tn_artifact_ids t) of None \<Rightarrow> Inl IndexError | Some aid \<Rightarrow> dget (run_artifacts ?r) aid) (\<lambda>a.
              bind_ok rest (\<lambda>ks. Inr (if present (ar_integrated_commit a) then ks else k # ks)))
            else (rest :: py_error + ident list))"
  have "\<exists>ks. foldr one d (Inr []) = Inr ks \<and> (\<forall>k \<in> set ks. owes X ?r k) \<and>
      (\<forall>(k, t) \<in> set d. tn_status t = ACCEPTED \<and> integrates X t \<longrightarrow> k \<in> set ks \<or> placed ?r k)"
    if "\<forall>(k, t) \<in> set d. map_of (run_tasks ?r) k = Some t" for d
    using that
  proof (induct d)
    case (Cons p d)
    obtain k t where p: "p = (k, t)" by (cases p)
    with Cons.prems have t: "map_of (run_tasks ?r) k = Some t" by simp
    from Cons obtain ks where ks: "foldr one d (Inr []) = Inr ks" "\<forall>k \<in> set ks. owes X ?r k"
      "\<forall>(k, t) \<in> set d. tn_status t = ACCEPTED \<and> integrates X t \<longrightarrow> k \<in> set ks \<or> placed ?r k" by auto
    show ?case
    proof (cases "tn_status t = ACCEPTED \<and> integrates X t")
      case False
      then have "foldr one (p # d) (Inr []) = Inr ks" using ks(1) by (auto simp: p one_def)
      with False ks(2,3) show ?thesis by (intro exI[of _ ks]) (auto simp: p)
    next
      case True
      obtain aid a where a: "last_opt (tn_artifact_ids t) = Some aid" "map_of (run_artifacts ?r) aid = Some a"
        by (rule accepted_latest[OF re t conjunct1[OF True]]) (rule that)
      have "foldr one (p # d) (Inr []) = Inr (if present (ar_integrated_commit a) then ks else k # ks)"
        using True a ks(1) by (simp add: p one_def dget_def)
      moreover have "owes X ?r k" unfolding owes_def using t True by (intro exI[of _ t]) simp
      moreover have placed: "placed ?r k" if "present (ar_integrated_commit a)"
        unfolding placed_def latest_def using t a that by simp
      moreover have "\<forall>(k, t) \<in> set (p # d). tn_status t = ACCEPTED \<and> integrates X t \<longrightarrow>
          k \<in> set (if present (ar_integrated_commit a) then ks else k' # ks) \<or> placed ?r k" if "k' = k" for k'
        using ks(3) placed that unfolding p by (auto split: if_splits)
      ultimately show ?thesis using ks(2)
        by (intro exI[of _ "if present (ar_integrated_commit a) then ks else k # ks"]) (auto split: if_splits)
    qed
  qed simp
  moreover have keyed: "map_of (run_tasks ?r) k = Some t" if "(k, t) \<in> set (run_tasks ?r)" for k t
    using set_dict_map_of[OF run_okD(1)[OF reachable_ok[OF re]]] that by blast
  ultimately obtain ks where ks: "foldr one (run_tasks ?r) (Inr []) = Inr ks" "\<forall>k \<in> set ks. owes X ?r k"
    "\<forall>(k, t) \<in> set (run_tasks ?r). tn_status t = ACCEPTED \<and> integrates X t \<longrightarrow> k \<in> set ks \<or> placed ?r k" by blast
  have "alone (unintegrated_tasks X) s = (Inr (sort ks), s)"
    using True ks(1) by (simp add: unintegrated_tasks_def look_def one_def)
  moreover have "\<forall>k. owes X ?r k \<longrightarrow> k \<in> set (sort ks) \<or> placed ?r k"
    using ks(3) by (auto simp: owes_def dest!: map_of_SomeD)
  ultimately show ?thesis using ks(2) by (intro exI[of _ "sort ks"]) simp
qed

text \<open>
  C40 (liveness). When every task of a reachable active run that is not cancelled is accepted and
  ready, the graph holds, nothing is pending or unresolved, and neither the store nor the repository
  refuses what it is asked for, \<open>_finish\<close> integrates what is not integrated yet and completes the run,
  whatever coverage was saved: recording the commits takes nothing from the completion gate, and the
  evidence selected for each criterion never fails it. Every accepted task that is to be integrated then
  has its commit.
\<close>

theorem accepted_work_completes:
  assumes "reachable (of_core X) (ds_run s)" and "run_status (ds_run s) = ''active''" and "active_tasks (ds_run s) \<noteq> []"
    and "\<forall>t \<in> set (active_tasks (ds_run s)). tn_status t = ACCEPTED \<and> ready (ds_run s) t"
    and "run_unresolved_issues (ds_run s) = []" and "graph (ds_run s) = Inr ()"
    and "\<forall>(k, q) \<in> set (run_approvals (ds_run s)). aq_required q \<longrightarrow> aq_status q \<noteq> AP_PENDING"
    and "unhindered X"
  shows "\<exists>s'. alone (finish_build X) s = (Inr (''Build complete. '' @ finish_summary (of_dash X) (ds_run s)), s') \<and>
    run_status (ds_run s') = ''completed'' \<and> run_final_result (ds_run s') = Some (finish_summary (of_dash X) (ds_run s)) \<and>
    reachable (of_core X) (ds_run s') \<and> run_tasks (ds_run s') = run_tasks (ds_run s) \<and>
    (\<forall>k t. map_of (run_tasks (ds_run s)) k = Some t \<longrightarrow> tn_status t = ACCEPTED \<longrightarrow> integrates X t \<longrightarrow>
       (\<exists>a. latest (ds_run s') t = Some a \<and> present (ar_integrated_commit a)))"
proof -
  from unintegrated_listed[OF assms(1)] obtain ks where ks: "alone (unintegrated_tasks X) s = (Inr ks, s)"
    "\<forall>k \<in> set ks. owes X (ds_run s) k" "\<forall>k. owes X (ds_run s) k \<longrightarrow> k \<in> set ks \<or> placed (ds_run s) k" by blast
  from each_places[OF assms(8,1,2) ks(2), of "''Complete integration''"] obtain bs s1 where
    e: "alone (each (\<lambda>k. accept_and_integrate X k ''Complete integration'') ks) s = (Inr bs, s1)"
    and op: "only_placed X s s1" and all: "\<forall>k \<in> set ks. placed (ds_run s1) k" by blast
  have int: "integrated (ds_run s) (ds_run s1)" and re: "reachable (of_core X) (ds_run s1)"
    and mono: "placed (ds_run s) k \<Longrightarrow> placed (ds_run s1) k" for k using op assms(1) by (simp_all add: only_placed_def)
  note f = integrated_fields[OF int] and fin = integrated_finish[OF int]
  have gates: "\<forall>t \<in> set (active_tasks (ds_run s1)). tn_status t = ACCEPTED \<and> ready (ds_run s1) t"
    using assms(4) by (simp add: fin(3) integrated_ready[OF int])
  have g: "graph (ds_run s1) = Inr ()"
    using integrated_graph[OF int run_okD(1)[OF reachable_ok[OF assms(1)]]] assms(6) by simp
  let ?cov = "case ds_coverage s1 of None \<Rightarrow> [] | Some c \<Rightarrow> c"
  from finish_completes[OF re, of "of_dash X" ?cov] obtain r' where
    c: "finish_integrated (of_core X) (of_dash X) ?cov (ds_run s1) = Inr (''Build complete. '' @ finish_summary (of_dash X) (ds_run s1), r')"
    and r': "run_status r' = ''completed''" "run_final_result r' = Some (finish_summary (of_dash X) (ds_run s1))"
      "reachable (of_core X) r'" "run_tasks r' = run_tasks (ds_run s1)" "run_artifacts r' = run_artifacts (ds_run s1)"
    using assms(2,3,5,7) gates g unfolding f fin by blast
  have "alone (finish_build X) s = (Inr (''Build complete. '' @ finish_summary (of_dash X) (ds_run s)), s1\<lparr>ds_run := r'\<rparr>)"
    using ks(1) e c assms(8) by (simp add: finish_build_def integrate_rest_def fin(2) unhindered_def)
  moreover have "\<exists>a. latest r' t = Some a \<and> present (ar_integrated_commit a)"
    if t: "map_of (run_tasks (ds_run s)) k = Some t" "tn_status t = ACCEPTED" "integrates X t" for k t
  proof -
    from t have "owes X (ds_run s) k" by (auto simp: owes_def)
    with ks(3) all mono have "placed (ds_run s1) k" by blast
    moreover have "latest r' t = latest (ds_run s1) t" unfolding latest_def r'(5) ..
    ultimately show ?thesis using t(1) by (auto simp: placed_def f(1))
  qed
  ultimately show ?thesis using r' fin(2) f(1) by (intro exI[of _ "s1\<lparr>ds_run := r'\<rparr>"]) simp
qed

text \<open>A run whose one task is code in a workspace, accepted and not yet integrated, and an office that integrates.\<close>

definition building0 :: "command list" where
  "building0 = [Plan_Tasks [(task0 ''t1'' [])\<lparr>tn_capability := DEVELOPER_SANDBOX, tn_required_checks := [''pytest'']\<rparr>],
     Bind_Workspace ''t1'' ''ws'', Delegate ''as'' ''t1'' ''w1'', Start ''t1'', Submit ''a1'' ''t1'' ''as'' ''w1'' (result0 ''t1'') (Some ''fp''),
     Validate ''v'' ''a1'' ''pytest'' True ''passed'' ''checker'' (Some ''fp''),
     Give_Review ''rv'' ''a1'' ''reviewer'' True ''read'' (Some ''fp''), Accept ''d'' ''t1'' None ''good'' (Some ''fp'')]"

lemma building0_completes: "succeeds (complete_run ''report'' [(''met'', [''a1''])] (after0 building0))"
  by code_simp

definition sides :: "Run \<Rightarrow> string \<times> (ident \<times> TaskStatus \<times> CapabilityProfile \<times> ident option \<times> ident list) list \<times> (ident \<times> string option) list" where
  "sides r = (run_status r, map (\<lambda>(k, t). (k, tn_status t, tn_capability t, tn_workspace_id t, tn_artifact_ids t)) (run_tasks r),
     map (\<lambda>(x, a). (x, ar_integrated_commit a)) (run_artifacts r))"

lemma building0_sides:
  "sides (after0 building0) = (''active'', [(''t1'', ACCEPTED, DEVELOPER_SANDBOX, Some ''ws'', [''a1''])], [(''a1'', None)])"
  by code_simp

definition refused :: "'w \<Rightarrow> (py_error + 'a) \<times> 'w" where
  "refused w = (Inl (SandboxUnavailable ''no sandbox''), w)"

definition workspaces0 :: "unit Workspaces" where
  "workspaces0 = \<lparr>ws_head = refused, ws_create = (\<lambda>a b c. refused), ws_reviewer_grant = (\<lambda>a b. refused),
     ws_inspect = (\<lambda>a. refused), ws_carry_over = (\<lambda>a b. refused), ws_cleanup = (\<lambda>a. refused), ws_mark_used = (\<lambda>a. refused),
     ws_diff = (\<lambda>a. refused), ws_freeze = (\<lambda>a. refused), ws_fingerprint = (\<lambda>a. refused),
     ws_integrate = (\<lambda>k fp message w. (Inr (replicate 40 CHR ''c''), w)), ws_run = (\<lambda>a b c d. refused),
     ws_changed_paths = (\<lambda>a. refused), ws_list_files = (\<lambda>a. refused), ws_read_file = (\<lambda>a b. refused),
     ws_node_dependencies = (\<lambda>a. refused), ws_tracked_files = refused\<rparr>"

definition office0 :: "unit Office" where
  "office0 = \<lparr>of_core = core0, of_workspaces = Some workspaces0, of_integration = True, of_salvage_exhausted = False,
     of_uuid = (\<lambda>r w. (''new'', w)), of_refuses = (\<lambda>w. None), of_loads = (\<lambda>s. Inl (ValueError s)),
     of_worker = (\<lambda>t a w g c. raising CancelledError), of_reviewer = (\<lambda>r t a items g again. raising CancelledError),
     of_planner = (\<lambda>request. raising CancelledError), of_pick = (\<lambda>s. 0), of_dash = ''-''\<rparr>"

definition desk0 :: "unit Desk" where
  "desk0 = \<lparr>ds_run = after0 building0, ds_world = (), ds_stuck = [], ds_coverage = Some [(''met'', [''t1''])]\<rparr>"

lemma office0_unhindered: "unhindered office0"
proof -
  have "full_object_id (replicate 40 CHR ''c'')" by (simp add: full_object_id_def)
  then show ?thesis by (simp add: unhindered_def office0_def workspaces0_def)
qed

theorem accepted_work_completes_witness:
  "\<exists>s'. alone (finish_build office0) desk0 = (Inr (''Build complete. '' @ finish_summary ''-'' (after0 building0)), s') \<and>
     run_status (ds_run s') = ''completed'' \<and>
     map (\<lambda>(x, a). ar_integrated_commit a) (run_artifacts (after0 building0)) = [None] \<and>
     (\<exists>a. map_of (run_artifacts (ds_run s')) ''a1'' = Some a \<and> present (ar_integrated_commit a))"
proof -
  let ?r = "after0 building0"
  from succeedsE[OF building0_completes] obtain x r' evs
    where "complete_run ''report'' [(''met'', [''a1''])] ?r = Inr (x, r', evs)" by blast
  note done_facts = complete_Inr[OF this]
  have all: "\<forall>t \<in> set (active_tasks ?r). tn_status t = ACCEPTED \<and> ready ?r t" using done_facts(2,6) by blast
  have active: "run_status ?r = ''active''" using building0_sides by (simp add: sides_def)
  obtain t where t: "run_tasks ?r = [(''t1'', t)]" "tn_status t = ACCEPTED" "tn_capability t = DEVELOPER_SANDBOX"
    "tn_workspace_id t = Some ''ws''" "tn_artifact_ids t = [''a1'']"
    using building0_sides by (auto simp: sides_def map_eq_Cons_conv)
  have desk: "ds_run desk0 = ?r" "of_core office0 = core0" "of_dash office0 = ''-''" by (simp_all add: desk0_def office0_def)
  have int: "integrates office0 t" using t(3,4) by (simp add: integrates_def office0_def present_def)
  from accepted_work_completes[of office0 desk0, unfolded desk, OF after0_reachable active done_facts(1) all
      done_facts(3,4,7) office0_unhindered] obtain s' where
    s': "alone (finish_build office0) desk0 = (Inr (''Build complete. '' @ finish_summary ''-'' ?r), s')"
      "run_status (ds_run s') = ''completed''"
    and placed: "\<forall>k t. map_of (run_tasks ?r) k = Some t \<longrightarrow> tn_status t = ACCEPTED \<longrightarrow> integrates office0 t \<longrightarrow>
       (\<exists>a. latest (ds_run s') t = Some a \<and> present (ar_integrated_commit a))" by (elim exE conjE) (rule that)
  have "map_of (run_tasks ?r) ''t1'' = Some t" by (simp add: t(1))
  from placed[rule_format, OF this t(2) int] obtain a where l: "latest (ds_run s') t = Some a" "present (ar_integrated_commit a)"
    by (elim exE conjE) (rule that)
  then have "map_of (run_artifacts (ds_run s')) ''a1'' = Some a" by (simp add: latest_def last_opt_def t(5))
  with l(2) have "\<exists>a. map_of (run_artifacts (ds_run s')) ''a1'' = Some a \<and> present (ar_integrated_commit a)" by (intro exI conjI)
  moreover have "map (\<lambda>(x, a). ar_integrated_commit a) (run_artifacts ?r) = [None]"
    using building0_sides by (auto simp: sides_def map_eq_Cons_conv)
  ultimately show ?thesis using s' by (intro exI[of _ s'] conjI)
qed

text \<open>
  What \<open>driver_stays_on_the_kernel\<close> asks of an office can be had: identifiers longer than any the run knows
  are new, and models that only raise move nothing.
\<close>

definition names_of :: "Run \<Rightarrow> ident list" where
  "names_of r = map fst (run_artifacts r) @ map fst (run_tasks r) @ map fst (run_available_inputs r) @
     map fst (run_approvals r) @ map fst (run_approval_decisions r) @
     concat (map (\<lambda>(k, t). map ag_request_id (tn_approval_gates t)) (run_tasks r))"

lemma longer_is_new: "is_new r (replicate (Suc (sum_list (map length (names_of r)))) CHR ''x'')" (is "is_new r ?i")
proof -
  have "length n \<le> sum_list (map length (names_of r))" if "n \<in> set (names_of r)" for n
    using that by (intro member_le_sum_list) auto
  then have "?i \<notin> set (names_of r)" by fastforce
  then show ?thesis by (auto simp: is_new_def names_of_def)
qed

definition office1 :: "unit Office" where
  "office1 = office0\<lparr>of_uuid := (\<lambda>r w. (replicate (Suc (sum_list (map length (names_of r)))) CHR ''x'', w))\<rparr>"

lemma office1_ok: "office_ok office1"
  using longer_is_new by (simp add: office_ok_def office1_def office0_def)

end
