(* ===== verification/Spec2Isabelle.thy ===== *)
theory Spec2Isabelle
  imports Persistence Engine_Claims Delivery_Claims Worker_Claims Upkeep_Claims Platform_Claims Views_Claims Planner_Claims Build_Claims Reviewer Outcomes Scenario
begin

text \<open>
  \<^bold>\<open>What is verified.\<close> Cavman builds software by delegating to language models under a kernel it can
  trust. A run is planned, its tasks are delegated to workers, their artifacts are validated and
  reviewed by others, and only then accepted; a human decides what exceeds the plan. This library
  models the parts that make this true, in Python under \<open>src/src/walter\<close> and \<open>src/src/cavman\<close>, and
  proves what they promise.

  \<^bold>\<open>The program and its theories.\<close>
  \<^item> The data of a run (\<open>contracts.py\<close>, \<open>models.py\<close>): \<open>Models\<close>, with \<open>Json\<close> for approval scopes,
    \<open>Text\<close> for the string methods and \<open>Prelude\<close> for exceptions as values, dictionaries in insertion
    order and sequencing.
  \<^item> The kernel \<open>Orchestrator\<close> (\<open>orchestration.py\<close>). An operation takes the snapshot that \<open>_mutate\<close>
    loaded and returns an exception, or its result, the new snapshot and its events. \<open>Kernel\<close>
    (transition table, events), \<open>Graph\<close> (\<open>_graph\<close>), \<open>Lineage\<close> (resolution of inputs and accepted
    provenance), \<open>Readiness\<close> (\<open>_ready\<close>, \<open>_refresh\<close>), \<open>Planning\<close>, \<open>Execution\<close>, \<open>Acceptance\<close>, \<open>Recovery\<close>,
    \<open>Approval\<close>, \<open>Capability\<close>, \<open>Replan\<close>, and \<open>Usage\<close> (\<open>usage.py\<close>, \<open>usage_model.py\<close>). \<open>System\<close> makes every
    public operation a command, \<open>step\<close> a change of the run and \<open>reachable\<close> what can become of it.
  \<^item> The run store (\<open>store.py\<close>): \<open>Store\<close>, rows of documents with a version and an event log; the
    kernel's transactions on top of it, \<open>execute\<close> and \<open>record_usage\<close>.
  \<^item> The platform (\<open>platform_store.py\<close>): \<open>Platform_Store\<close>, tables of projects, runs, jobs, leases, rate
    events and deliveries.
  \<^item> Planning and building (\<open>workflow.py\<close>, \<open>adapter.py\<close>): \<open>Planner\<close> turns a model's proposal into an
    installed plan, \<open>Driver\<close> decides what to delegate, recover, reopen and complete, \<open>Reviewer\<close> holds a
    review to the plan. \<open>Coroutine\<close> is Python's \<open>async\<close> as resumptions: a computation takes one step on the
    shared state and goes on from what it saw, \<open>asyncio.gather\<close> interleaves the steps of several as the event
    loop picks. In it, \<open>Trusted\<close> is what \<open>DurableController\<close> does with a candidate (fingerprints, trusted
    checks, the review, acceptance and integration), \<open>Controller\<close> its delegation, changes of capability and
    replans, \<open>Build\<close> the \<open>WorkflowDriver\<close>: planning with feedback, one task from delegation to acceptance,
    the rounds around the gathered tasks, completion. The state is a \<open>Desk\<close>: the stored run, the world
    outside, the tasks the driver gave up and the saved coverage. They change a run only by the kernel's
    commands, one transaction a step.
  \<^item> The boundary between platform and kernel (\<open>engine.py\<close>): \<open>Engine\<close> decides approvals on exactly what was
    displayed, in up to three attempts against racing writers, abandons runs and recovers interrupted
    ones; \<open>Engine_Claims\<close> shows what a recorded decision means.
  \<^item> Delivery (\<open>delivery.py\<close>): \<open>Assembly\<close> builds the archive of a completed run from the head that was
    integrated or from accepted workspaces, \<open>Delivery\<close> records the outcome.
  \<^item> The worker (\<open>worker.py\<close>, \<open>accounts.py\<close>): \<open>Accounts\<close> adds up what an account spends and derives a
    session's budget, \<open>Worker\<close> runs a claimed job: recovery, configuration, session under heartbeats,
    outcome, delivery. A job is claimed from \<open>Platform_Store\<close> and changes the run through \<open>Engine\<close>.
  \<^item> Upkeep (\<open>maintenance.py\<close>, \<open>erasure.py\<close>): \<open>Upkeep\<close> is the periodic pass that retires finished runs
    under leases, the erasure of an account and the purge of what nobody owns.
  \<^item> Presentation (\<open>views.py\<close>): \<open>Views\<close>, \<open>Views_Decisions\<close> and \<open>Views_Run\<close> build what users see from the
    run, its events and the platform's jobs.

  \<^bold>\<open>What is shown.\<close>
  \<^item> \<open>Invariants\<close> states what ties tasks, artifacts and evidence together; \<open>Quiet_Ops\<close>, \<open>Quiet_Gates\<close>,
    \<open>Evidence_Ops\<close> and \<open>Plan_Ops\<close> show that every operation keeps it, most of them because they are quiet
    (no artifact, no move into or out of review). \<open>Provenance\<close> and \<open>Governance\<close> do the same for accepted
    lineage and for human decisions, \<open>Outcomes\<close> for what a successful operation has established. The
    theorems of this theory put them together for reachable runs.
  \<^item> \<open>Graph\<close>, \<open>Lineage\<close>, \<open>Readiness\<close> and \<open>Replan\<close> relate the optimised searches to specifications:
    acyclicity, the inductive \<open>canonical\<close>, settled snapshots, the closure of consumers.
  \<^item> \<open>Store_Laws\<close> is the store's interface as a locale (what a load returns after a save, when a save is
    refused), interpreted on the SQLite store in \<open>Codec\<close>; \<open>Durable\<close> and \<open>Persistence\<close> refine it to the
    abstract kernel: what is on disk is reachable, so all of the above holds of it.
  \<^item> \<open>Platform_Jobs\<close>, \<open>Platform_Laws\<close>, \<open>Platform_Steps\<close> carry the platform's invariant through every
    operation; \<open>Platform_Queue\<close> is the queue's interface as a locale with its interpretation,
    \<open>Platform_Recovery\<close> and \<open>Platform_Limits\<close> treat reaping, rate limits and listings, and
    \<open>Platform_Claims\<close> states the guarantees, among them a simulation of a three-phase machine.
  \<^item> \<open>Planner_Laws\<close> and \<open>Planner_Claims\<close>: a plan is installed whole or not at all. \<open>Driver\<close>: the evidence
    selected for a completion never fails its gate. \<open>Build_Laws\<close>: whatever models, workspaces and the event
    loop do, the driver leaves a reachable run (its interface is the locale of the steps that respect a
    relation, interpreted on the kernel's steps). \<open>Integration\<close>: integrated artifacts carry full commit
    identifiers, and recording a commit keeps readiness, the graph and the evidence; \<open>Build_Claims\<close>:
    accepted work is integrated and completes. \<open>Reviewer\<close>: a pass rules on every item. \<open>Views_Claims\<close>:
    nothing is shown as passed that was not recorded as passed, and the usage table accounts for every
    call, token and cost.
  \<^item> \<open>Delivery_Laws\<close> and \<open>Delivery_Claims\<close>: what is delivered is what was verified or accepted, and a
    completed run is always settled. \<open>Worker_Claims\<close>: a session of \<open>k\<close> parallel callers passes the
    monthly calls of its account by at most \<open>k - 1\<close>, and a job ends with an outcome. \<open>Upkeep_Claims\<close>: upkeep retires only finished work, erases
    an account everywhere and spares what belongs to somebody.
  \<^item> \<open>Scenario\<close> runs the kernel on a concrete plan of two tasks; it and the concrete platforms and plans
    beside the theorems show that the hypotheses can hold.

  \<^bold>\<open>Arguments and bounds.\<close> SHA-256, identifiers drawn from \<open>uuid4\<close> (fresh where they become keys), the
  clock, Pydantic's conversion of a run to a document and back (\<open>codec_ok\<close>, which \<open>codec0\<close> satisfies),
  \<open>json.loads\<close>, redaction and the arithmetic of floats are arguments of the definitions. Recursion is
  structural or ends by a measure (keys not yet visited, characters left). Fuel appears twice, both
  bounds of the code: the loop that prunes unknown fields of a document gives up after 1000 rounds with
  an exception, and usage is recorded in at most five attempts; \<open>Persistence\<close> shows that five suffice,
  and the store then holds the record, unless each is raced. The driver's forty rounds and three attempts
  at a plan are the code's own bounds, by structural recursion.

  What git answers (\<open>Assembly\<close>), whether a workspace still has the fingerprint that was accepted, what
  the disk holds and what retiring a workspace raises are arguments too, and so is a worker's session:
  a function that may change the run store and ends with an output, an exception or a cancellation, at
  the heartbeats given with it. During one job no other process changes the platform. A model call is
  two steps, the check of the budget and the recorded answer, and the steps of parallel callers
  interleave. An erasure may be stopped by anything the file system or SQLite refuses (\<open>Faults\<close>), and a
  directory that \<open>rmtree\<close> does not remove stays without an exception.

  The build loop takes an \<open>Office\<close>: the kernel, the workspace manager (git, worktrees and the sandbox, each
  operation a function of the world with a result or an exception), \<open>uuid4\<close>, \<open>json.loads\<close>, whether the store
  refuses a transaction at a given moment, the event loop's choice, and the models. A worker or reviewer
  is a coroutine of its own, so it may take any steps on the desk and end in any way; the law of
  \<open>Build_Laws\<close> asks of it that its steps are the kernel's. That accepted work completes is shown for a
  driver that acts alone, with a store and a repository that refuse nothing (\<open>unhindered\<close>): every save is
  taken, and every integration answers with a full commit identifier.

  \<^bold>\<open>Not modelled.\<close> Time stamps of a run, which the kernel writes and never reads; rounding of floats;
  characters beyond code point 255; connections, locks and the PostgreSQL variant of the stores; the
  migration of version 1 databases and the count of jobs by outcome; the sandbox's processes, its file
  system and HTTP; the provider adapter's calls of the Agents SDK, the tools it grants, the texts only a
  model reads and the tool traces; a refusal of the store between the transactions of one recovery or
  reopening pass, or between an installed plan and the coverage saved for it; Python's recursion limit
  (the graph search is recursive in the depth of the plan) and the overflow of \<open>float\<close> on integers beyond
  its range; a maintenance pass interrupted by other processes between its steps; the worker's polling slots and signals, the size of directories
  on disk and the pruning of cached installs; importing and publishing, which are git and HTTP throughout;
  configuration, logging, the command lines and the demonstrations.
\<close>

section \<open>What every reachable run satisfies\<close>

text \<open>
  C1 (safety). In every reachable run an accepted task's latest artifact is accepted with evidence:
  its content still has the recorded digest, every required check has been recorded, every recorded
  check passed on that very content, no validator or reviewer is the Manager or a worker that was
  ever assigned the task, and a task that needs an independent review ends with one that passed.
\<close>

theorem accepted_work_is_evidenced:
  assumes "reachable core r" and "map_of (run_tasks r) k = Some t" and "tn_status t = ACCEPTED"
  shows "\<exists>aid a. last_opt (tn_artifact_ids t) = Some aid \<and> map_of (run_artifacts r) aid = Some a \<and>
    ar_status a = ''accepted'' \<and> ar_task_id a = k \<and> aid \<in> set (run_accepted_artifacts r) \<and>
    o_sha256 core (ar_content a) = ar_content_digest a \<and>
    (\<forall>c \<in> set (tn_required_checks t). \<exists>v \<in> set (ar_validations a). av_check v = c) \<and>
    (\<forall>v \<in> set (ar_validations a). av_passed v \<and> av_content_digest v = ar_content_digest a \<and>
       av_validator_id v \<noteq> o_manager_id core \<and> av_validator_id v \<notin> set (authors t)) \<and>
    (\<forall>v \<in> set (ar_reviews a). rv_content_digest v = ar_content_digest a \<and>
       rv_reviewer_id v \<noteq> o_manager_id core \<and> rv_reviewer_id v \<notin> set (authors t)) \<and>
    (needs_review t \<longrightarrow> ar_reviews a \<noteq> [] \<and> rv_passed (last (ar_reviews a))) \<and>
    (tn_required_checks t \<noteq> [] \<or> ar_reviews a \<noteq> [])"
proof -
  note ok = reachable_ok[OF assms(1)]
  from task_okD(6)[OF run_okD(5)[OF ok assms(2)]] assms(3) obtain a where
    l: "latest r t = Some a" and st: "ar_status a = ''accepted''" and ev: "evidenced core t a" by auto
  from l obtain aid where aid: "last_opt (tn_artifact_ids t) = Some aid" and a: "map_of (run_artifacts r) aid = Some a"
    by (auto simp: latest_def split: option.splits)
  have own: "ar_task_id a = k"
    using task_okD(4)[OF run_okD(5)[OF ok assms(2)] last_opt_mem[OF aid]] a by (auto simp: artifact_of_def)
  have "aid \<in> set (run_accepted_artifacts r)" "o_sha256 core (ar_content a) = ar_content_digest a"
    using run_okD(6)[OF ok a] st by (simp_all add: artifact_ok_def)
  with aid a st own ev show ?thesis
    unfolding evidenced_def independent_def evidence_gate_Inr by blast
qed

theorem accepted_work_is_evidenced_witness:
  "\<exists>t aid a. map_of (run_tasks (after0 full0)) ''t2'' = Some t \<and> last_opt (tn_artifact_ids t) = Some aid \<and>
     map_of (run_artifacts (after0 full0)) aid = Some a \<and> ar_status a = ''accepted''"
proof -
  from full0_facts(4) obtain t where t: "map_of (run_tasks (after0 full0)) ''t2'' = Some t" "tn_status t = ACCEPTED"
    by blast
  from accepted_work_is_evidenced[OF after0_reachable this] t show ?thesis by blast
qed

text \<open>
  C2 (safety). In every reachable run each artifact on the accepted list passes the kernel's own
  lineage check from an empty memo: it, and everything it was built from, is still the accepted
  current output of an accepted task with matching recorded provenance.
\<close>

theorem accepted_lineage_is_canonical:
  assumes "reachable core r" and "aid \<in> set (run_accepted_artifacts r)"
  shows "\<exists>checked. validate_accepted r [] [] aid = Inr checked"
proof -
  from reachable_lineage[OF assms(1)] assms(2) have "canonical r aid" by (simp add: lineage_ok_def)
  then show ?thesis by (rule search_complete(1)) simp
qed

theorem accepted_lineage_is_canonical_witness:
  "\<exists>checked. validate_accepted (after0 full0) [] [] ''a2'' = Inr checked"
  by (rule accepted_lineage_is_canonical[OF after0_reachable]) (simp add: full0_facts(2))

text \<open>
  C6 (invariant). In every reachable run the accepted list holds exactly the artifacts whose status
  is accepted, without repetition, and each belongs to the task that lists it last and is ACCEPTED.
\<close>

theorem accepted_list_is_exact:
  assumes "reachable core r"
  shows "distinct (run_accepted_artifacts r) \<and>
    (\<forall>aid. aid \<in> set (run_accepted_artifacts r) \<longleftrightarrow>
       (\<exists>a. map_of (run_artifacts r) aid = Some a \<and> ar_status a = ''accepted'')) \<and>
    (\<forall>aid a t. map_of (run_artifacts r) aid = Some a \<longrightarrow> ar_status a = ''accepted'' \<longrightarrow>
       map_of (run_tasks r) (ar_task_id a) = Some t \<longrightarrow>
       last_opt (tn_artifact_ids t) = Some aid \<and> tn_status t = ACCEPTED)"
proof (intro conjI allI impI)
  note ok = reachable_ok[OF assms]
  show "distinct (run_accepted_artifacts r)" using run_okD(3)[OF ok] .
  show "aid \<in> set (run_accepted_artifacts r) \<longleftrightarrow>
      (\<exists>a. map_of (run_artifacts r) aid = Some a \<and> ar_status a = ''accepted'')" for aid
  proof
    assume acc: "aid \<in> set (run_accepted_artifacts r)"
    with run_okD(4)[OF ok] obtain a where a: "map_of (run_artifacts r) aid = Some a"
      by (metis keys_map_of subsetD)
    with run_okD(6)[OF ok a] acc show "\<exists>a. map_of (run_artifacts r) aid = Some a \<and> ar_status a = ''accepted''"
      by (simp add: artifact_ok_def)
  qed (use run_okD(6)[OF ok] in \<open>auto simp: artifact_ok_def\<close>)
  fix aid a t
  assume a: "map_of (run_artifacts r) aid = Some a" "ar_status a = ''accepted''"
    and t: "map_of (run_tasks r) (ar_task_id a) = Some t"
  from run_okD(6)[OF ok a(1)] t have "aid \<in> set (tn_artifact_ids t)" by (auto simp: artifact_ok_def)
  from task_okD(4)[OF run_okD(5)[OF ok t] this] a
  show "last_opt (tn_artifact_ids t) = Some aid" "tn_status t = ACCEPTED" by (auto simp: artifact_of_def)
qed

theorem accepted_list_is_exact_witness:
  "\<exists>a. map_of (run_artifacts (after0 full0)) ''a1'' = Some a \<and> ar_status a = ''accepted''"
proof -
  have "''a1'' \<in> set (run_accepted_artifacts (after0 full0))" by (simp add: full0_facts(2))
  with accepted_list_is_exact[OF after0_reachable[of full0], THEN conjunct2, THEN conjunct1] show ?thesis
    by blast
qed

text \<open>
  C7 (bounds). In every reachable run a task has spent at most its attempt budget since its last
  reset.
\<close>

theorem attempts_within_budget:
  assumes "reachable core r" and "map_of (run_tasks r) k = Some t"
  shows "tn_attempts t - tn_attempt_baseline t \<le> max 0 (tn_max_attempts t)"
  using task_okD(3)[OF run_okD(5)[OF reachable_ok[OF assms(1)] assms(2)]] by (simp add: attempts_used_def)

theorem attempts_within_budget_witness:
  "\<exists>t. map_of (run_tasks (after0 full0)) ''t1'' = Some t \<and> tn_attempts t = 1 \<and>
     tn_attempts t - tn_attempt_baseline t \<le> max 0 (tn_max_attempts t)"
proof -
  from full0_facts(3) obtain t where t: "map_of (run_tasks (after0 full0)) ''t1'' = Some t" "tn_attempts t = 1"
    by blast
  with attempts_within_budget[OF after0_reachable t(1)] show ?thesis by blast
qed

section \<open>Human authority\<close>

text \<open>
  C4 (safety). In every reachable run an approval reads APPROVED only with a recorded decision that
  approves it, names a human and gives a reason; one that reads REJECTED has a recorded refusal; a
  pending one has no decision yet.
\<close>

theorem approvals_are_human_decisions:
  assumes "reachable core r" and "map_of (run_approvals r) k = Some q"
  shows "(aq_status q = AP_APPROVED \<longrightarrow> (\<exists>d. map_of (run_approval_decisions r) k = Some d \<and>
      al_approved d \<and> al_human_id d \<noteq> '''' \<and> al_reason d \<noteq> '''')) \<and>
    (aq_status q = AP_REJECTED \<longrightarrow> (\<exists>d. map_of (run_approval_decisions r) k = Some d \<and> \<not> al_approved d)) \<and>
    (aq_status q = AP_PENDING \<longrightarrow> map_of (run_approval_decisions r) k = None)"
  using reachable_governed[OF assms(1)] assms(2)
  by (auto simp: governed_def approval_ok_def decision_backs_def)

text \<open>
  C8 (invariant). No step of a run rewrites or drops a recorded human decision.
\<close>

theorem decisions_are_permanent:
  assumes "reachable core r" and "step core r r'" and "map_of (run_approval_decisions r) k = Some d"
  shows "map_of (run_approval_decisions r') k = Some d"
  using step_governed[OF assms(2) reachable_ok[OF assms(1)] reachable_governed[OF assms(1)]] assms(3)
  by (force simp: decisions_kept_def map_le_def)

text \<open>
  In every reachable run the plan has been revised at most as often as its replan budget
  allows.
\<close>

theorem revisions_within_budget:
  assumes "reachable core r"
  shows "0 \<le> wp_revision (run_plan r) \<and> wp_revision (run_plan r) \<le> wp_max_replans (run_plan r)"
  using reachable_governed[OF assms] by (simp add: governed_def)

theorem revisions_within_budget_witness: "wp_revision (run_plan run0) \<le> wp_max_replans (run_plan run0)"
  using revisions_within_budget[OF run0_reachable] by blast

theorem approvals_are_human_decisions_witness:
  "\<exists>q d. map_of (run_approvals (after0 approving0)) ''ap'' = Some q \<and> aq_status q = AP_APPROVED \<and>
     map_of (run_approval_decisions (after0 approving0)) ''ap'' = Some d \<and> al_approved d"
proof -
  from approving0_facts obtain q where q: "map_of (run_approvals (after0 approving0)) ''ap'' = Some q"
    "aq_status q = AP_APPROVED" by blast
  from approvals_are_human_decisions[OF after0_reachable q(1)] q show ?thesis by blast
qed

section \<open>The end of a run\<close>

text \<open>
  C3 (safety). A run completes only when it is done: every task that is not cancelled is accepted,
  still ready and canonical down to its inputs; the dependency graph is acyclic; no issue and no
  required approval is open; and every completion criterion is backed by accepted canonical
  artifacts.
\<close>

theorem completion_is_earned:
  assumes "complete_run final ev r = Inr (x, r', evs)" and "distinct (map fst (run_tasks r))"
  shows "(\<exists>k t. map_of (run_tasks r) k = Some t \<and> tn_status t = ACCEPTED) \<and>
    (\<forall>k t. map_of (run_tasks r) k = Some t \<longrightarrow> tn_status t \<noteq> CANCELLED \<longrightarrow>
       tn_status t = ACCEPTED \<and> ready r t \<and>
       (\<exists>aid. last_opt (tn_artifact_ids t) = Some aid \<and> canonical r aid)) \<and>
    acyclic (depends r) \<and> run_unresolved_issues r = [] \<and>
    (\<forall>(k, q) \<in> set (run_approvals r). aq_required q \<longrightarrow> aq_status q \<noteq> AP_PENDING) \<and>
    (\<forall>c \<in> set (wp_completion_criteria (run_plan r)). \<exists>ids. (c, ids) \<in> set ev \<and> ids \<noteq> [] \<and>
       (\<forall>aid \<in> set ids. aid \<in> set (run_accepted_artifacts r) \<and> canonical r aid)) \<and>
    run_status r' = ''completed'' \<and> run_final_result r' = Some final \<and> run_tasks r' = run_tasks r \<and>
    run_artifacts r' = run_artifacts r"
proof -
  note c = complete_Inr[OF assms(1)]
  have act: "t \<in> set (active_tasks r)" if "map_of (run_tasks r) k = Some t" "tn_status t \<noteq> CANCELLED" for k t
    using that by (auto simp: active_tasks_def dest: map_of_SomeD intro: rev_image_eqI)
  obtain t where t: "t \<in> set (active_tasks r)" using c(1) by (cases "active_tasks r") auto
  then obtain k where "(k, t) \<in> set (run_tasks r)" by (auto simp: active_tasks_def)
  with assms(2) have "map_of (run_tasks r) k = Some t" by (rule map_of_is_SomeI)
  with t c(2) have some: "\<exists>k t. map_of (run_tasks r) k = Some t \<and> tn_status t = ACCEPTED" by blast
  have all: "\<forall>k t. map_of (run_tasks r) k = Some t \<longrightarrow> tn_status t \<noteq> CANCELLED \<longrightarrow>
       tn_status t = ACCEPTED \<and> ready r t \<and>
       (\<exists>aid. last_opt (tn_artifact_ids t) = Some aid \<and> canonical r aid)"
    using act c(2,6) by blast
  have backed: "\<forall>x \<in> set (wp_completion_criteria (run_plan r)). \<exists>ids. (x, ids) \<in> set ev \<and> ids \<noteq> [] \<and>
      (\<forall>aid \<in> set ids. aid \<in> set (run_accepted_artifacts r) \<and> canonical r aid)"
  proof
    fix x
    assume "x \<in> set (wp_completion_criteria (run_plan r))"
    then have "x \<in> set (map fst ev)" by (simp only: c(8))
    then obtain ids where "(x, ids) \<in> set ev" by auto
    with bspec[OF c(9) this] show "\<exists>ids. (x, ids) \<in> set ev \<and> ids \<noteq> [] \<and>
      (\<forall>aid \<in> set ids. aid \<in> set (run_accepted_artifacts r) \<and> canonical r aid)" by blast
  qed
  have acy: "acyclic (depends r)" using c(4) graph_iff[OF assms(2)] by blast
  have "run_status r' = ''completed''" "run_final_result r' = Some final" "run_tasks r' = run_tasks r"
    "run_artifacts r' = run_artifacts r" unfolding c(10) by simp_all
  with some all backed acy c(3,7) show ?thesis by (intro conjI)
qed

theorem completion_is_earned_witness:
  "acyclic (depends (after0 full0))"
proof -
  from succeedsE[OF full0_completes] obtain x r' evs where
    c: "complete_run ''report'' [(''met'', [''a2''])] (after0 full0) = Inr (x, r', evs)" by blast
  from completion_is_earned[OF c run_okD(1)[OF reachable_ok[OF after0_reachable]]] show ?thesis by blast
qed

text \<open>
  C9 (safety). A run that is no longer active is closed: whatever steps follow, only usage records
  of model calls that end late are appended to it, and the store stamps its version and cursor.
\<close>

theorem closed_runs_are_frozen:
  assumes "(step core)\<^sup>*\<^sup>* r r'" and "run_status r \<noteq> ''active''"
  shows "r'\<lparr>run_usage_records := [], run_version := 0, run_event_cursor := 0\<rparr> =
         r\<lparr>run_usage_records := [], run_version := 0, run_event_cursor := 0\<rparr> \<and>
    (\<exists>us. run_usage_records r' = run_usage_records r @ us)"
  using closed_steps[OF assms] unfolding closed_view_def .

theorem closed_runs_are_frozen_witness:
  "\<exists>r. step core0 (after0 closing0) r \<and> run_status r = ''completed'' \<and>
     run_usage_records r = run_usage_records (after0 closing0) @ [usage0\<lparr>mu_run_id := ''run''\<rparr>] \<and>
     r\<lparr>run_usage_records := [], run_version := 0, run_event_cursor := 0\<rparr> =
       (after0 closing0)\<lparr>run_usage_records := [], run_version := 0, run_event_cursor := 0\<rparr>"
proof -
  obtain r evs where app: "append_usage usage0 (after0 closing0) = Inr ((), r, evs)"
    by (simp add: append_usage_def Let_def)
  then have st: "step core0 (after0 closing0) r" by (rule step.usage)
  have closed: "run_status (after0 closing0) = ''completed''" "run_id (after0 closing0) = ''run''"
    subgoal using closing0_observed by (simp add: observed_def)
    subgoal by code_simp
    done
  from closed_runs_are_frozen[OF r_into_rtranclp[of "step core0", OF st]] closed(1)
  have frozen: "r\<lparr>run_usage_records := [], run_version := 0, run_event_cursor := 0\<rparr> =
       (after0 closing0)\<lparr>run_usage_records := [], run_version := 0, run_event_cursor := 0\<rparr>" by simp
  have "run_status r = ''completed''" using arg_cong[OF frozen, of run_status] closed(1) by simp
  with app st frozen closed(2) show ?thesis by (auto simp: append_usage_Inr)
qed

section \<open>Failure and recovery\<close>

text \<open>
  A recovery routes the failed task by the failure's class and what is left of its
  budgets: a retry needs a remaining attempt and open gates, a revision a remaining attempt and a
  remaining revision, which it spends; everything else replaces the worker or blocks the task for
  the Manager. The recorded action is the one taken.
\<close>

theorem recovery_routes_the_task:
  assumes "recover core i fid reason actor r = Inr (x, r', evs)"
  shows "\<exists>f t t'. f \<in> set (run_failures r) \<and> wf_id f = fid \<and> map_of (run_tasks r) (wf_task_id f) = Some t \<and>
    tn_status t = FAILED \<and> map_of (run_tasks r') (wf_task_id f) = Some t' \<and> recovered_task r f t t' \<and>
    dc_action x = action_value (recovery_action t (wf_classification f))"
  using assms by (rule recover_task)

theorem recovery_routes_the_task_witness:
  "\<exists>f t t'. f \<in> set (run_failures (after0 failing0)) \<and> recovered_task (after0 failing0) f t t'"
proof -
  from succeedsE[OF failing0_recovers] obtain x r' evs where
    "recover core0 ''rc'' ''f1'' ''again'' ''manager'' (after0 failing0) = Inr (x, r', evs)" by blast
  from recovery_routes_the_task[OF this] show ?thesis by blast
qed

text \<open>
  A failure is recovered at most once: the same recovery right after a successful one is
  refused, whatever identifier, reason or accepted actor it gives.
\<close>

theorem recovery_happens_once:
  assumes "recover core i fid reason actor r = Inr (x, r', evs)" and "actor' \<in> {''manager'', o_manager_id core}"
  shows "recover core j fid reason' actor' r' = Inl (GateError ''Failure already recovered or superseded'')"
  using assms by (rule recover_once)

theorem recovery_happens_once_witness:
  "\<exists>r'. recover core0 ''rc2'' ''f1'' ''more'' ''manager'' r' =
     Inl (GateError ''Failure already recovered or superseded'')"
proof -
  from succeedsE[OF failing0_recovers] obtain x r' evs where
    "recover core0 ''rc'' ''f1'' ''again'' ''manager'' (after0 failing0) = Inr (x, r', evs)" by blast
  from recovery_happens_once[OF this, of "''manager''" "''rc2''" "''more''"] show ?thesis by auto
qed

text \<open>
  Resuming an interrupted run always succeeds, and settles every assignment: each
  task that was delegated or running is FAILED with the interruption as its blocker, every other
  task is as it was.
\<close>

theorem resume_settles_assignments:
  "\<exists>r' evs. resume ids r = Inr ((), r', evs) \<and>
     (\<forall>k. map_of (run_tasks r') k = map_option (\<lambda>t. if tn_status t \<in> {DELEGATED, RUNNING}
        then t\<lparr>tn_status := FAILED, tn_blocker := Some INTERRUPTED\<rparr> else t) (map_of (run_tasks r) k))"
proof -
  have "interrupted = (\<lambda>t. if tn_status t \<in> {DELEGATED, RUNNING}
      then t\<lparr>tn_status := FAILED, tn_blocker := Some INTERRUPTED\<rparr> else t)"
    by (rule ext) (simp only: interrupted_def)
  with resume_total[of ids r] show ?thesis by simp
qed

section \<open>Replanning\<close>

text \<open>
  C10 (functional). The tasks a proposal resets are exactly those it names and, transitively, every
  task that consumes their outputs by task or by artifact.
\<close>

theorem replan_reaches_every_consumer:
  assumes "distinct (map fst (run_tasks r))"
  shows "set (replan_affected r p) = (consumes r)\<^sup>* `` set (seeds r p)"
  using assms by (rule replan_affected_correct)

theorem replan_reaches_every_consumer_witness:
  "set (replan_affected (after0 full0) proposal0) = (consumes (after0 full0))\<^sup>* `` set (seeds (after0 full0) proposal0)"
  by (rule replan_reaches_every_consumer[OF run_okD(1)[OF reachable_ok[OF after0_reachable]]])

text \<open>
  C5 (safety). Applying a proposal withdraws the acceptance of exactly the affected tasks' artifacts
  and sends those tasks back to planning (or cancels them); other work that is under way, accepted or
  closed is untouched; the plan's revision advances by one; and a proposal that declares it needs
  approval is applied only under an approval of exactly this proposal and revision.
\<close>

theorem replan_withdraws_what_it_affects:
  assumes "reachable core r" and "apply_replan core pid r = Inr (x, r', evs)"
  shows "\<exists>p. map_of (run_replans r) pid = Some p \<and>
    set (run_accepted_artifacts r') =
      set (run_accepted_artifacts r) - set (artifacts_of r (replan_affected r p)) \<and>
    wp_revision (run_plan r') = wp_revision (run_plan r) + 1 \<and>
    (rp_requires_approval p \<longrightarrow> approved core r (rp_approval_id p) ''replan'' (replan_scope p) = Inr ()) \<and>
    (\<forall>k t. map_of (run_tasks r) k = Some t \<longrightarrow>
       (if k \<in> set (replan_affected r p)
        then \<exists>t'. map_of (run_tasks r') k = Some t' \<and> tn_status t' \<in> {PLANNED, READY, CANCELLED}
        else tn_status t \<in> {PLANNED, READY, BLOCKED} \<or> map_of (run_tasks r') k = Some t))"
  using reachable_ok[OF assms(1)] assms(2)
proof (rule replan_outcome)
  fix p
  assume p: "map_of (run_replans r) pid = Some p"
    and acc: "run_accepted_artifacts r' =
       filter (\<lambda>a. a \<notin> set (artifacts_of r (replan_affected r p))) (run_accepted_artifacts r)"
    and rest: "wp_revision (run_plan r') = wp_revision (run_plan r) + 1"
    "rp_requires_approval p \<Longrightarrow> approved core r (rp_approval_id p) ''replan'' (replan_scope p) = Inr ()"
    "\<And>k t. map_of (run_tasks r) k = Some t \<Longrightarrow> k \<in> set (replan_affected r p) \<Longrightarrow>
       \<exists>t'. map_of (run_tasks r') k = Some t' \<and> tn_status t' \<in> {PLANNED, READY, CANCELLED}"
    "\<And>k t. map_of (run_tasks r) k = Some t \<Longrightarrow> k \<notin> set (replan_affected r p) \<Longrightarrow>
       tn_status t \<notin> {PLANNED, READY, BLOCKED} \<Longrightarrow> map_of (run_tasks r') k = Some t"
  from acc have "set (run_accepted_artifacts r') =
      set (run_accepted_artifacts r) - set (artifacts_of r (replan_affected r p))" by auto
  with p rest show ?thesis by (intro exI[of _ p]) (simp split del: if_split, simp, blast)
qed

theorem replan_withdraws_what_it_affects_witness:
  "\<exists>r' :: Run. wp_revision (run_plan r') = wp_revision (run_plan (after0 replanning0)) + 1"
proof -
  from succeedsE[OF replanning0_applies] obtain x r' evs where
    "apply_replan core0 ''rp'' (after0 replanning0) = Inr (x, r', evs)" by blast
  from replan_withdraws_what_it_affects[OF after0_reachable this] show ?thesis
    by blast
qed

section \<open>Delegation and evidence\<close>

text \<open>
  Work is delegated exactly when the task exists, the worker has a name that is not
  the Manager's, an attempt is left since the last reset, every input, workspace and approval gate is
  open, and the task is ready or awaits a revision.
\<close>

theorem delegation_is_gated:
  "(\<exists>x r' evs. delegate core i tid w r = Inr (x, r', evs)) \<longleftrightarrow>
     (\<exists>t. map_of (run_tasks r) tid = Some t \<and> substantive w \<and> w \<noteq> o_manager_id core \<and>
        tn_attempts t - tn_attempt_baseline t < tn_max_attempts t \<and> ready r t \<and>
        tn_status t \<in> {READY, REVISION_REQUIRED})"
  by (auto simp: delegate_Inr attempts_used_def)

text \<open>
  A recorded failure is final for its candidate: while the task's latest artifact carries
  a validation that did not pass, accepting the task raises, whoever asks and whatever else was
  recorded.
\<close>

theorem failed_check_blocks_acceptance:
  assumes "map_of (run_tasks r) tid = Some t" and "last_opt (tn_artifact_ids t) = Some aid"
    and "map_of (run_artifacts r) aid = Some a" and "ar_task_id a = tid"
    and "v \<in> set (ar_validations a)" and "\<not> av_passed v"
  shows "\<exists>e. accept core i tid m reason fp r = Inl e"
proof (cases "accept core i tid m reason fp r")
  case (Inr b)
  obtain x r' evs where "b = (x, r', evs)" by (cases b)
  with Inr have "accept core i tid m reason fp r = Inr (x, r', evs)" by simp
  then have "\<exists>t'. evidence_gate core t' a = Inr ()"
    using assms(1-4) by (auto simp: accept_def Inr_simps candidate_Inr)
  with assms(5,6) have False by (auto simp: evidence_gate_Inr)
  then show ?thesis ..
qed simp

theorem failed_check_blocks_acceptance_witness:
  "\<exists>e. accept core0 ''d'' ''t1'' None ''good'' None (after0 failed0) = Inl e"
proof -
  from failed0_facts obtain t a v where "map_of (run_tasks (after0 failed0)) ''t1'' = Some t"
    "last_opt (tn_artifact_ids t) = Some ''a1''" "map_of (run_artifacts (after0 failed0)) ''a1'' = Some a"
    "ar_task_id a = ''t1''" "v \<in> set (ar_validations a)" "\<not> av_passed v" by blast
  from failed_check_blocks_acceptance[OF this] show ?thesis .
qed

theorem decisions_are_permanent_witness:
  "\<exists>r' d. step core0 (after0 approving0) r' \<and> map_of (run_approval_decisions r') ''ap'' = Some d"
proof -
  obtain r' evs where "append_usage usage0 (after0 approving0) = Inr ((), r', evs)"
    by (simp add: append_usage_def Let_def)
  then have step: "step core0 (after0 approving0) r'" by (rule step.usage)
  from approving0_facts obtain d where d: "map_of (run_approval_decisions (after0 approving0)) ''ap'' = Some d"
    by blast
  from decisions_are_permanent[OF after0_reachable step d] step show ?thesis by blast
qed

section \<open>Witnesses of the components' properties\<close>

lemma distinct0: "distinct (map fst (run_tasks (after0 cs)))"
  by (rule run_okD(1)[OF reachable_ok[OF after0_reachable]])

theorem graph_correct_witness:
  "graph (after0 full0) = Inr () \<longleftrightarrow>
     acyclic (depends (after0 full0)) \<and> (\<forall>k. live (after0 full0) k \<longrightarrow> resolvable (after0 full0) k)"
  by (rule graph_correct[OF distinct0])

theorem validate_accepted_decides_witness:
  "(\<exists>checked'. validate_accepted (after0 full0) [] [] ''a2'' = Inr checked') \<longleftrightarrow> canonical (after0 full0) ''a2''"
  by (rule validate_accepted_decides) simp

theorem refresh_settles_witness: "\<exists>r' evs. refresh (after0 planning0) = Inr (r', evs) \<and> settled r'"
  by (rule refresh_settles[OF distinct0])

theorem refresh_idempotent_witness: "\<exists>r'. refresh r' = Inr (r', [])"
proof -
  obtain r' evs where "refresh (after0 planning0) = Inr (r', evs)"
    using refresh_total[OF distinct0] by blast
  from refresh_idempotent[OF this distinct0] show ?thesis by blast
qed

end
